(* ===== verification/Prelude.thy ===== *)
theory Prelude
  imports Main "HOL-Library.Word"
begin

text \<open>
  Shared vocabulary of the development: bytes and byte strings, the result type
  that stands for a Go call that may panic, slice expressions with Go's bounds
  rules, and the generic lemmas on lists that several components use.
\<close>

named_theorems go_defs \<open>definitions of the Go run-time operations\<close>

type_synonym byte = "8 word"
type_synonym bytes = "8 word list"
type_synonym uint64 = "64 word"

section \<open>Results of Go calls\<close>

text \<open>
  A Go call returns, panics, or (in a model with a fuel argument) is cut off.
  \<open>OutOfFuel\<close> is not a behaviour of the program: each fuelled function comes
  with a theorem that says how much fuel makes it impossible.
\<close>

datatype go_err =
    IndexOutOfRange
  | SliceBounds
  | DivisionByZero
  | NilDereference
  | Panic string
  | OutOfFuel

type_synonym 'a res = "go_err + 'a"

definition rbind :: "'e + 'a \<Rightarrow> ('a \<Rightarrow> 'e + 'b) \<Rightarrow> 'e + 'b" where
  "rbind m f = (case m of Inl e \<Rightarrow> Inl e | Inr x \<Rightarrow> f x)"

lemma rbind_simps [simp]:
  "rbind (Inl e) f = Inl e"
  "rbind (Inr x) f = f x"
  by (simp_all add: rbind_def)

lemma rbind_Inr_iff: "rbind m f = Inr y \<longleftrightarrow> (\<exists>x. m = Inr x \<and> f x = Inr y)"
  by (cases m) auto

lemma rbind_Inl_iff: "rbind m f = Inl e \<longleftrightarrow> m = Inl e \<or> (\<exists>x. m = Inr x \<and> f x = Inl e)"
  by (cases m) auto

lemma rbind_cong:
  "m = m' \<Longrightarrow> (\<And>x. m' = Inr x \<Longrightarrow> f x = f' x) \<Longrightarrow> rbind m f = rbind m' f'"
  by (cases m') auto

lemma rbind_assoc: "rbind (rbind m f) g = rbind m (\<lambda>x. rbind (f x) g)"
  by (cases m) auto

section \<open>Slices\<close>

text \<open>
  \<open>s[lo:hi]\<close> on a slice with elements \<open>xs\<close>: Go checks \<open>0 \<le> lo \<le> hi \<le> cap(s)\<close>,
  not \<open>len(s)\<close>. The elements between length and capacity are the argument
  \<open>sp\<close>; a caller whose slice fills its backing array passes \<open>[]\<close>.
\<close>

definition goslice :: "'a list \<Rightarrow> 'a list \<Rightarrow> nat \<Rightarrow> nat \<Rightarrow> 'a list res" where
  "goslice xs sp lo hi =
     (if lo \<le> hi \<and> hi \<le> length xs + length sp
      then Inr (take (hi - lo) (drop lo (xs @ sp))) else Inl SliceBounds)"

definition gosliceI :: "'a list \<Rightarrow> 'a list \<Rightarrow> int \<Rightarrow> int \<Rightarrow> 'a list res" where
  "gosliceI xs sp lo hi =
     (if 0 \<le> lo \<and> lo \<le> hi \<and> hi \<le> int (length xs + length sp)
      then Inr (take (nat (hi - lo)) (drop (nat lo) (xs @ sp))) else Inl SliceBounds)"

definition goindex :: "'a list \<Rightarrow> nat \<Rightarrow> 'a res" where
  "goindex xs i = (if i < length xs then Inr (xs ! i) else Inl IndexOutOfRange)"

lemmas go_slice_defs [go_defs] = goslice_def gosliceI_def goindex_def

lemma goslice_mid [simp]: "goslice (a @ b @ c) sp (length a) (length a + length b) = Inr b"
  by (simp add: goslice_def)

lemma goslice_prefix: "n \<le> length xs \<Longrightarrow> goslice xs sp 0 n = Inr (take n xs)"
  by (simp add: goslice_def)

lemma goslice_suffix: "n \<le> length xs \<Longrightarrow> goslice xs sp n (length xs) = Inr (drop n xs)"
  by (simp add: goslice_def)

lemma length_goslice: "goslice xs sp lo hi = Inr ys \<Longrightarrow> length ys = hi - lo"
  by (auto simp: goslice_def split: if_splits)

lemma goslice_InrD: "goslice xs sp lo hi = Inr ys \<Longrightarrow> lo \<le> hi \<and> hi \<le> length xs + length sp"
  by (simp add: goslice_def split: if_splits)

lemma goslice_no_fuel [simp]: "goslice xs sp lo hi \<noteq> Inl OutOfFuel"
  by (simp add: goslice_def)

lemma goindex_no_fuel [simp]: "goindex xs i \<noteq> Inl OutOfFuel"
  by (simp add: goindex_def)

lemma goindex_in [simp]: "i < length xs \<Longrightarrow> goindex xs i = Inr (xs ! i)"
  by (simp add: goindex_def)

lemma goindex_out [simp]: "length xs \<le> i \<Longrightarrow> goindex xs i = Inl IndexOutOfRange"
  by (simp add: goindex_def)

section \<open>Big-endian naturals\<close>

text \<open>
  \<open>nat_be\<close> is the minimal big-endian representation (\<open>big.Int.Bytes\<close> of the
  absolute value, \<open>[]\<close> for zero); \<open>be_nat\<close> reads any big-endian byte string
  (\<open>big.Int.SetBytes\<close>, leading zeros allowed).
\<close>

definition be_nat :: "bytes \<Rightarrow> nat" where
  "be_nat bs = foldl (\<lambda>a b. 256 * a + unat b) 0 bs"

fun nat_be :: "nat \<Rightarrow> bytes" where
  "nat_be n = (if n = 0 then [] else nat_be (n div 256) @ [of_nat (n mod 256)])"

declare nat_be.simps [simp del]

lemma be_nat_Nil [simp]: "be_nat [] = 0"
  by (simp add: be_nat_def)

lemma be_nat_snoc [simp]: "be_nat (bs @ [b]) = 256 * be_nat bs + unat b"
  by (simp add: be_nat_def)

lemma be_nat_append: "be_nat (as @ bs) = 256 ^ length bs * be_nat as + be_nat bs"
  by (induction bs rule: rev_induct) (simp_all add: append_assoc [symmetric] algebra_simps del: append_assoc)

lemma be_nat_Cons: "be_nat (b # bs) = 256 ^ length bs * unat b + be_nat bs"
  using be_nat_append [of "[b]" bs] be_nat_snoc [of "[]" b] by simp

lemma be_nat_single [simp]: "be_nat [b] = unat b"
  using be_nat_snoc [of "[]" b] by simp

lemma be_nat_zeros [simp]: "be_nat (replicate n 0) = 0"
  by (induction n) (simp_all add: be_nat_Cons)

lemma be_nat_zeros_append [simp]: "be_nat (replicate n 0 @ bs) = be_nat bs"
  by (simp add: be_nat_append)

lemma unat_byte_bound [simp]: "unat (b :: byte) < 256"
  using unsigned_less [of b] by simp

lemma be_nat_bound: "be_nat bs < 256 ^ length bs"
proof (induction bs rule: rev_induct)
  case (snoc b bs)
  have "256 * be_nat bs + unat b < 256 * (be_nat bs + 1)"
    by (simp add: algebra_simps)
  also have "\<dots> \<le> 256 * 256 ^ length bs"
    using snoc.IH by simp
  finally show ?case by simp
qed simp

lemma nat_be_0 [simp]: "nat_be 0 = []"
  by (simp add: nat_be.simps)

lemma nat_be_pos: "0 < n \<Longrightarrow> nat_be n = nat_be (n div 256) @ [of_nat (n mod 256)]"
  by (subst nat_be.simps) simp

lemma unat_of_nat_mod256 [simp]: "unat (of_nat (n mod 256) :: byte) = n mod 256"
  by (simp add: unat_of_nat)

lemma be_nat_nat_be [simp]: "be_nat (nat_be n) = n"
proof (induction n rule: nat_be.induct)
  case (1 n)
  show ?case
  proof (cases "n = 0")
    case False
    with 1 have "be_nat (nat_be (n div 256)) = n div 256" by simp
    with False show ?thesis by (simp add: nat_be_pos)
  qed simp
qed

lemma nat_be_eq_Nil [simp]: "nat_be n = [] \<longleftrightarrow> n = 0"
  by (cases "n = 0") (simp_all add: nat_be_pos)

lemma nat_be_inject [simp]: "nat_be m = nat_be n \<longleftrightarrow> m = n"
  by (metis be_nat_nat_be)

lemma length_nat_be_le: "n < 256 ^ k \<Longrightarrow> length (nat_be n) \<le> k"
proof (induction k arbitrary: n)
  case (Suc k)
  show ?case
  proof (cases "n = 0")
    case False
    have "n div 256 < 256 ^ k"
      using Suc.prems by (simp add: less_mult_imp_div_less mult.commute)
    with Suc.IH False show ?thesis by (simp add: nat_be_pos)
  qed simp
qed simp

lemma nat_be_byte: "0 < n \<Longrightarrow> n < 256 \<Longrightarrow> nat_be n = [of_nat n]"
  by (simp add: nat_be_pos)

lemma nat_be_two: "256 \<le> n \<Longrightarrow> n < 65536 \<Longrightarrow> nat_be n = [of_nat (n div 256), of_nat (n mod 256)]"
  by (simp add: nat_be_pos nat_be_byte less_mult_imp_div_less)

section \<open>Generic lemmas on lists\<close>

lemma take_append_drop_eq: "take n xs = ys \<Longrightarrow> n \<le> length xs \<Longrightarrow> xs = ys @ drop n xs"
  by (metis append_take_drop_id)

lemma list_len2: "length xs = 2 \<longleftrightarrow> (\<exists>a b. xs = [a, b])"
  by (cases xs; cases "tl xs") auto

lemma map_le_lookup: "m \<subseteq>\<^sub>m m' \<Longrightarrow> m k = Some v \<Longrightarrow> m' k = Some v"
  by (auto simp: map_le_def dom_def)

end
