(* ===== verification/Numbers.thy ===== *)
theory Numbers
  imports Prelude
begin

text \<open>
  Numbers: \<open>ethutil/big.go\<close>, \<open>ethutil/bytes.go\<close> and the hashing and hex helpers of
  \<open>ethutil/helpers.go\<close> and \<open>ethutil/common.go\<close>. \<open>big.Int\<close> is HOL's \<open>int\<close>, a Go
  \<open>uint64\<close> is a \<open>64 word\<close>, a Go string is its byte list. The operations of
  \<open>math/big\<close> that the sources call are written out first, with their behaviour
  on negative arguments.
\<close>

section \<open>math/big\<close>

definition big_Bytes :: "int \<Rightarrow> bytes" where
  "big_Bytes x = nat_be (nat \<bar>x\<bar>)"

text \<open>\<open>Div\<close> and \<open>Mod\<close> are Euclidean: the remainder is never negative.\<close>

definition big_Div :: "int \<Rightarrow> int \<Rightarrow> int res" where
  "big_Div x y = (if y = 0 then Inl DivisionByZero else Inr (sgn y * (x div \<bar>y\<bar>)))"

definition big_Mod :: "int \<Rightarrow> int \<Rightarrow> int res" where
  "big_Mod x y = (if y = 0 then Inl DivisionByZero else Inr (x mod \<bar>y\<bar>))"

text \<open>
  \<open>Int64\<close> and \<open>Uint64\<close> outside their range: the low 64 bits of the absolute
  value, negated by \<open>Int64\<close> for a negative number, not by \<open>Uint64\<close>.
\<close>

definition big_Int64 :: "int \<Rightarrow> int" where
  "big_Int64 x = sint (word_of_int x :: 64 word)"

definition big_Uint64 :: "int \<Rightarrow> uint64" where
  "big_Uint64 x = word_of_int \<bar>x\<bar>"

text \<open>
  \<open>z.Exp(x, y, m)\<close> for \<open>m > 0\<close>: \<open>x ^ y mod m\<close>; for a negative exponent the modular
  inverse is used, and \<open>z\<close> keeps its old value when there is none.
\<close>

definition big_ExpMod :: "int \<Rightarrow> int \<Rightarrow> int \<Rightarrow> int \<Rightarrow> int" where
  "big_ExpMod z x y m =
     (if 0 \<le> y then x ^ nat y mod m
      else if gcd x m = 1
        then (fst (bezw (nat (x mod m)) (nat m)) mod m) ^ nat (- y) mod m
        else z)"

lemma big_Bytes_0 [simp]: "big_Bytes 0 = []"
  by (simp add: big_Bytes_def)

lemma be_nat_big_Bytes [simp]: "be_nat (big_Bytes x) = nat \<bar>x\<bar>"
  by (simp add: big_Bytes_def)

lemma big_Bytes_nat [simp]: "big_Bytes (int n) = nat_be n"
  by (simp add: big_Bytes_def)

lemma big_Bytes_eq_Nil [simp]: "big_Bytes x = [] \<longleftrightarrow> x = 0"
  by (simp add: big_Bytes_def)

lemma big_Div_Euclid:
  "big_Div x y = Inr q \<Longrightarrow> big_Mod x y = Inr r \<Longrightarrow> x = y * q + r \<and> 0 \<le> r \<and> r < \<bar>y\<bar>"
proof -
  assume q: "big_Div x y = Inr q" and r: "big_Mod x y = Inr r"
  then have y: "y \<noteq> 0" and q': "q = sgn y * (x div \<bar>y\<bar>)" and r': "r = x mod \<bar>y\<bar>"
    by (auto simp: big_Div_def big_Mod_def split: if_splits)
  have "y * sgn y = \<bar>y\<bar>" by (simp add: mult_sgn_abs abs_sgn)
  then have "y * q = \<bar>y\<bar> * (x div \<bar>y\<bar>)" unfolding q' by (simp flip: mult.assoc)
  with y r' show ?thesis by simp
qed

lemma big_Int64_small: "- (2 ^ 63) \<le> x \<Longrightarrow> x < 2 ^ 63 \<Longrightarrow> big_Int64 x = x"
  by (simp add: big_Int64_def signed_take_bit_int_eq_self signed_of_int)

section \<open>ethutil/big.go\<close>

definition BigTrue :: int where "BigTrue = 1"
definition BigFalse :: int where "BigFalse = 0"
definition BigInt0 :: int where "BigInt0 = 0"

definition BigPow :: "int \<Rightarrow> int \<Rightarrow> int" where
  "BigPow a b = (if b \<le> 0 then 1 else a ^ nat b)"

definition BigD :: "bytes \<Rightarrow> int" where
  "BigD data = int (be_nat data)"

definition BigToBytes :: "int \<Rightarrow> nat \<Rightarrow> bytes" where
  "BigToBytes num base =
     (if base div 8 < length (big_Bytes num) then big_Bytes num
      else replicate (base div 8 - length (big_Bytes num)) 0 @ big_Bytes num)"

definition BigCopy :: "int \<Rightarrow> int" where
  "BigCopy src = src"

definition BigMax :: "int \<Rightarrow> int \<Rightarrow> int" where
  "BigMax x y = (if x \<le> y then x else y)"

lemma BigD_big_Bytes [simp]: "BigD (big_Bytes x) = \<bar>x\<bar>"
  by (simp add: BigD_def)

lemma BigD_nonneg [simp]: "0 \<le> BigD data"
  by (simp add: BigD_def)

lemma BigD_BigToBytes [simp]: "BigD (BigToBytes num base) = \<bar>num\<bar>"
  by (simp add: BigToBytes_def BigD_def)

lemma length_BigToBytes: "length (BigToBytes num base) = max (base div 8) (length (big_Bytes num))"
  by (simp add: BigToBytes_def)

lemma BigToBytes_inject:
  "0 \<le> x \<Longrightarrow> 0 \<le> y \<Longrightarrow> BigToBytes x base = BigToBytes y base \<longleftrightarrow> x = y"
  by (metis BigD_BigToBytes abs_of_nonneg)

text \<open>\<open>BigToBytes\<close> pads to \<open>base / 8\<close> bytes exactly when the number fits, and its value
  read back big-endian is the absolute value of the number: the sign is lost, nothing else.\<close>

theorem BigToBytes_roundtrip:
  "BigD (BigToBytes num base) = \<bar>num\<bar> \<and>
   (length (BigToBytes num base) = base div 8 \<longleftrightarrow> nat \<bar>num\<bar> < 256 ^ (base div 8))"
proof -
  have "length (big_Bytes num) \<le> base div 8 \<longleftrightarrow> nat \<bar>num\<bar> < 256 ^ (base div 8)"
  proof
    assume le: "length (big_Bytes num) \<le> base div 8"
    have "nat \<bar>num\<bar> < 256 ^ length (big_Bytes num)"
      using be_nat_bound [of "big_Bytes num"] by simp
    also have "(256::nat) ^ length (big_Bytes num) \<le> 256 ^ (base div 8)"
      by (rule power_increasing [OF le]) simp
    finally show "nat \<bar>num\<bar> < 256 ^ (base div 8)" .
  qed (simp add: big_Bytes_def length_nat_be_le)
  then show ?thesis by (simp add: length_BigToBytes max_def) linarith
qed

text \<open>\<open>BigMax\<close> is documented to return the maximum of its arguments; the comparison is
  the wrong way round and it returns their minimum.\<close>

theorem BigMax_is_min: "BigMax x y = min x y"
  by (simp add: BigMax_def)

section \<open>ethutil/bytes.go\<close>

text \<open>
  \<open>ReadVarint\<close> reads 8, 4 or 2 bytes when exactly that many are left, and one
  byte otherwise (0 when there is none: \<open>binary.Read\<close> fails and leaves 0).
\<close>

definition ReadVarint :: "bytes \<Rightarrow> uint64" where
  "ReadVarint r =
     (if length r = 8 \<or> length r = 4 \<or> length r = 2 then of_nat (be_nat r)
      else case r of [] \<Rightarrow> 0 | b # _ \<Rightarrow> of_nat (unat b))"

text \<open>Code equations that stay within binary integers, so that large amounts and words can be evaluated.\<close>

function int_be :: "int \<Rightarrow> bytes" where
  "int_be x = (if x \<le> 0 then [] else int_be (x div 256) @ [word_of_int (x mod 256)])"
  by pat_completeness auto
termination by (relation "measure nat") auto

declare int_be.simps [simp del]

definition be_int :: "bytes \<Rightarrow> int" where
  "be_int bs = foldl (\<lambda>a b. 256 * a + uint b) 0 bs"

lemma int_be_nat: "int_be (int n) = nat_be n"
proof (induction n rule: nat_be.induct)
  case (1 n)
  show ?case
  proof (cases "n = 0")
    case False
    have d: "int n div 256 = int (n div 256)" by (simp add: zdiv_int)
    have m: "(word_of_int (int n mod 256) :: byte) = of_nat (n mod 256)"
      by (metis of_int_of_nat_eq of_nat_mod of_nat_numeral)
    from 1 False show ?thesis by (simp add: int_be.simps [of "int n"] nat_be_pos d m)
  qed (simp add: int_be.simps)
qed

lemma int_be_nat_eq: "int (be_nat bs) = be_int bs"
  by (induction bs rule: rev_induct) (simp_all add: be_int_def uint_nat [symmetric] del: uint_nat)

lemma big_Bytes_code [code]: "big_Bytes x = int_be \<bar>x\<bar>"
  using int_be_nat [of "nat \<bar>x\<bar>"] by (simp add: big_Bytes_def)

lemma BigPow_code [code]:
  "BigPow a b = (if b \<le> 0 then 1 else let h = BigPow a (b div 2) in if even b then h * h else a * (h * h))"
proof (cases "b \<le> 0")
  case False
  define n where "n = nat b"
  have b: "b = int n" "0 < n" using False by (simp_all add: n_def)
  have h: "BigPow a (b div 2) = a ^ (n div 2)"
    using b by (auto simp: BigPow_def nat_div_distrib)
  have "a ^ n = (if even n then a ^ (n div 2) * a ^ (n div 2) else a * (a ^ (n div 2) * a ^ (n div 2)))"
    by (simp add: power_add [symmetric] mult_2 [symmetric] odd_two_times_div_two_succ power_Suc [symmetric] del: power_Suc)
  then show ?thesis using False b h by (simp add: BigPow_def Let_def)
qed (simp add: BigPow_def)

lemma BigD_code [code]: "BigD data = be_int data"
  by (simp add: BigD_def int_be_nat_eq)

lemma ReadVarint_code [code]:
  "ReadVarint r =
     (if length r = 8 \<or> length r = 4 \<or> length r = 2 then word_of_int (be_int r)
      else case r of [] \<Rightarrow> 0 | b # _ \<Rightarrow> ucast b)"
  unfolding ReadVarint_def int_be_nat_eq [symmetric] by (simp split: list.split)

text \<open>
  \<open>BytesToNumber\<close>: \<open>data\<close> is eight zero bytes; \<open>append(data[:len(b)], b...)\<close> keeps
  \<open>len(b)\<close> of them in front of \<open>b\<close>, and eight bytes are read back (with fewer
  than eight \<open>binary.Read\<close> fails and the number stays 0).
\<close>

definition BytesToNumber :: "bytes \<Rightarrow> uint64 res" where
  "BytesToNumber b =
     rbind (goslice (replicate 8 (0::byte)) [] 0 (length b)) (\<lambda>pre.
       let data = pre @ b in
       if length data < 8 then Inr 0 else Inr (of_nat (be_nat (take 8 data))))"

partial_function (option) BinaryLength :: "int \<Rightarrow> int option" where
  "BinaryLength num =
     (if num = 0 then Some 0
      else Option.bind (BinaryLength (num div 256)) (\<lambda>r. Some (1 + r)))"

definition CopyBytes :: "bytes \<Rightarrow> bytes" where
  "CopyBytes b = b"

definition str_0x :: bytes where
  "str_0x = [0x30, 0x78]"

definition IsHex :: "bytes \<Rightarrow> bool" where
  "IsHex str \<longleftrightarrow> 4 \<le> length str \<and> length str mod 2 = 0 \<and> take 2 str = str_0x"

lemma unat_of_nat_be [simp]: "length bs \<le> 8 \<Longrightarrow> unat (of_nat (be_nat bs) :: uint64) = be_nat bs"
proof -
  assume "length bs \<le> 8"
  then have "(256::nat) ^ length bs \<le> 256 ^ 8" by (intro power_increasing) simp_all
  with be_nat_bound [of bs] have "be_nat bs < 2 ^ 64" by simp
  then show ?thesis by (simp add: unat_of_nat)
qed

lemma ReadVarint_be:
  "length bs \<in> {0, 1, 2, 4, 8} \<Longrightarrow> ReadVarint bs = of_nat (be_nat bs)"
  by (auto simp: ReadVarint_def split: list.splits)

lemma unat_ReadVarint_be:
  "length bs \<in> {0, 1, 2, 4, 8} \<Longrightarrow> unat (ReadVarint bs) = be_nat bs"
  by (auto simp: ReadVarint_be)

lemma ReadVarint_3: "ReadVarint [a, b, c] = of_nat (unat a)"
  by (simp add: ReadVarint_def)

lemma BytesToNumber_4: "length b = 4 \<Longrightarrow> BytesToNumber b = Inr (of_nat (be_nat b))"
  by (auto simp: BytesToNumber_def goslice_def Let_def)

text \<open>\<open>BytesToNumber\<close> reads a number correctly from four bytes, the only width the
  wire protocol uses; with fewer than four it returns 0, with five to seven it loses the
  last bytes, with eight it returns 0 whatever the bytes are, and with more it panics.\<close>

theorem BytesToNumber_widths:
  "BytesToNumber b =
     (if length b < 4 \<or> length b = 8 then Inr 0
      else if length b = 4 then Inr (of_nat (be_nat b))
      else if length b < 8 then Inr (of_nat (be_nat (take (8 - length b) b)))
      else Inl SliceBounds)"
  by (auto simp: BytesToNumber_def goslice_def Let_def)

lemma BinaryLength_nonneg:
  "0 \<le> num \<Longrightarrow> BinaryLength num = Some (int (length (big_Bytes num)))"
proof (induction "nat num" arbitrary: num rule: less_induct)
  case less
  show ?case
  proof (cases "num = 0")
    case False
    with less.prems have pos: "0 < num" by simp
    then have "nat (num div 256) < nat num" and "0 \<le> num div 256" by simp_all
    with less.hyps have IH: "BinaryLength (num div 256) = Some (int (length (big_Bytes (num div 256))))"
      by blast
    have "nat_be (nat num) = nat_be (nat num div 256) @ [of_nat (nat num mod 256)]"
      using pos by (intro nat_be_pos) simp
    moreover have "nat (num div 256) = nat num div 256" using pos by (simp add: nat_div_distrib)
    ultimately show ?thesis
      using pos IH by (subst BinaryLength.simps) (simp add: big_Bytes_def)
  qed (simp add: BinaryLength.simps)
qed

lemma BinaryLength_returns_nonneg:
  assumes "BinaryLength num = Some r"
  shows "0 \<le> num"
proof (rule BinaryLength.raw_induct [where P = "\<lambda>num r. 0 \<le> num", OF _ assms])
  fix f :: "int \<Rightarrow> int option" and num r
  assume IH: "\<And>num r. f num = Some r \<Longrightarrow> 0 \<le> num"
    and eq: "(if num = 0 then Some 0 else Option.bind (f (num div 256)) (\<lambda>r. Some (1 + r))) = Some r"
  show "0 \<le> num"
  proof (cases "num = 0")
    case False
    with eq obtain r' where "f (num div 256) = Some r'" by (cases "f (num div 256)") auto
    then have "0 \<le> num div 256" by (rule IH)
    then show ?thesis by (simp add: pos_imp_zdiv_nonneg_iff)
  qed simp
qed

text \<open>\<open>BinaryLength\<close> returns the number of bytes of a non-negative number, and never
  returns for a negative one, since the arithmetic shift stays at -1.\<close>

theorem BinaryLength_total:
  "BinaryLength num = (if 0 \<le> num then Some (int (length (big_Bytes num))) else None)"
  using BinaryLength_returns_nonneg [of num]
  by (cases "BinaryLength num") (auto simp: BinaryLength_nonneg)

section \<open>Hex and hashing helpers\<close>

definition hex_digit :: "nat \<Rightarrow> byte" where
  "hex_digit d = (if d < 10 then of_nat (48 + d) else of_nat (87 + d))"

definition unhex_digit :: "byte \<Rightarrow> nat option" where
  "unhex_digit c =
     (let n = unat c in
      if 48 \<le> n \<and> n \<le> 57 then Some (n - 48)
      else if 97 \<le> n \<and> n \<le> 102 then Some (n - 87)
      else if 65 \<le> n \<and> n \<le> 70 then Some (n - 55) else None)"

definition Hex :: "bytes \<Rightarrow> bytes" where
  "Hex d = concat (map (\<lambda>b. [hex_digit (unat b div 16), hex_digit (unat b mod 16)]) d)"

text \<open>\<open>FromHex\<close> drops the error of \<open>hex.DecodeString\<close> and keeps the bytes decoded before it.\<close>

fun FromHex :: "bytes \<Rightarrow> bytes" where
  "FromHex (p # q # r) =
     (case (unhex_digit p, unhex_digit q) of
        (Some a, Some b) \<Rightarrow> of_nat (16 * a + b) # FromHex r
      | _ \<Rightarrow> [])"
| "FromHex _ = []"

definition StringToByteFunc :: "bytes \<Rightarrow> (bytes \<Rightarrow> bytes) \<Rightarrow> bytes" where
  "StringToByteFunc str cb =
     (if 1 < length str \<and> take 2 str = str_0x then FromHex (drop 2 str) else cb str)"

text \<open>\<open>Sha3Bin\<close> is Keccak-256 of the third-party sha3 package: the parameter \<open>sha\<close>.\<close>

definition CreateAddress :: "(bytes \<Rightarrow> bytes) \<Rightarrow> bytes \<Rightarrow> int \<Rightarrow> bytes" where
  "CreateAddress sha b nonce = drop 12 (sha (b @ big_Bytes nonce))"

lemma hex_digit_lt: "d < 16 \<Longrightarrow> unat (hex_digit d) = (if d < 10 then 48 + d else 87 + d)"
  by (simp only: hex_digit_def unat_of_nat if_distrib [of unat]) simp

lemma unhex_hex_digit [simp]: "d < 16 \<Longrightarrow> unhex_digit (hex_digit d) = Some d"
  using hex_digit_lt [of d] by (cases "d < 10") (simp_all add: unhex_digit_def Let_def)

lemma byte_split: "of_nat (16 * (unat b div 16) + unat b mod 16) = (b :: byte)"
  by (simp only: mult_div_mod_eq) simp

lemma Hex_Cons: "Hex (b # d) = hex_digit (unat b div 16) # hex_digit (unat b mod 16) # Hex d"
  by (simp add: Hex_def)

lemma FromHex_Hex [simp]: "FromHex (Hex d) = d"
proof (induction d)
  case (Cons b d)
  have "unat b div 16 < 16" using unat_byte_bound [of b] by (simp add: less_mult_imp_div_less)
  then have "FromHex (Hex (b # d)) = of_nat (16 * (unat b div 16) + unat b mod 16) # FromHex (Hex d)"
    by (simp only: Hex_Cons FromHex.simps unhex_hex_digit option.case prod.case mod_less_divisor zero_less_numeral)
  then show ?case by (simp only: byte_split Cons.IH)
qed (simp add: Hex_def)

section \<open>ethutil/common.go\<close>

definition Big1 :: int where "Big1 = 1"
definition Big2 :: int where "Big2 = 1"
definition Big0 :: int where "Big0 = 0"
definition Big32 :: int where "Big32 = 32"
definition Big256 :: int where "Big256 = 0xff"

definition units :: "(int \<times> string) list" where
  "units = [(BigPow 10 42, ''Douglas''), (BigPow 10 21, ''Einstein''), (BigPow 10 18, ''Ether''),
            (BigPow 10 15, ''Finney''), (BigPow 10 12, ''Szabo''), (BigPow 10 9, ''Shannon''),
            (BigPow 10 6, ''Babbage''), (BigPow 10 3, ''Ada'')]"

text \<open>\<open>%v\<close> of an integer: decimal digits.\<close>

fun dec_nat :: "nat \<Rightarrow> string" where
  "dec_nat n = (if n < 10 then [char_of (48 + n)] else dec_nat (n div 10) @ [char_of (48 + n mod 10)])"

declare dec_nat.simps [simp del]

definition dec_int :: "int \<Rightarrow> string" where
  "dec_int x = (if x < 0 then CHR ''-'' # dec_nat (nat (- x)) else dec_nat (nat x))"

definition CurrencyToString :: "int \<Rightarrow> string" where
  "CurrencyToString num =
     (case find (\<lambda>(u, _). u \<le> num) units of
        Some (u, name) \<Rightarrow> dec_int (num div u) @ '' '' @ name
      | None \<Rightarrow> dec_int num @ '' Wei'')"

lemma dec_nat_Nil [simp]: "dec_nat n \<noteq> []"
  by (subst dec_nat.simps) simp

end
