(* ===== verification/Values.thy ===== *)
theory Values
  imports Numbers
begin

text \<open>
  \<open>ethutil/value.go\<close>: the dynamically typed values that travel through RLP, the
  trie and the wire protocol. A \<open>Value\<close> is a box around an \<open>interface{}\<close>; it is
  modelled by its contents. The constructors are the dynamic types that the
  sources store in such an interface. A nil slice and an empty slice are
  identified (only \<open>reflect.DeepEqual\<close> tells them apart).
\<close>

section \<open>Dynamic values\<close>

datatype gval =
    VNil
  | VInt "64 word"
  | VUint "64 word"
  | VInt8 "8 word"
  | VInt16 "16 word"
  | VInt32 "32 word"
  | VInt64 "64 word"
  | VUint16 "16 word"
  | VUint32 "32 word"
  | VUint64 "64 word"
  | VByte "8 word"
  | VBig "int option"
  | VBytes bytes
  | VStr bytes
  | VList "gval list"
  | VPtr gval

text \<open>\<open>VBig None\<close> is a nil \<open>*big.Int\<close>; \<open>VPtr v\<close> is a \<open>*Value\<close> stored as an element.\<close>

datatype kind = KNumber | KPtr | KSlice | KString

fun NewValue :: "gval \<Rightarrow> gval" where
  "NewValue (VPtr v) = v"
| "NewValue v = v"

text \<open>\<open>Type\<close> is \<open>reflect.TypeOf(val.Val).Kind()\<close>, which fails on a nil interface.\<close>

fun Type :: "gval \<Rightarrow> kind res" where
  "Type VNil = Inl NilDereference"
| "Type (VBig _) = Inr KPtr"
| "Type (VPtr _) = Inr KPtr"
| "Type (VBytes _) = Inr KSlice"
| "Type (VList _) = Inr KSlice"
| "Type (VStr _) = Inr KString"
| "Type _ = Inr KNumber"

definition IsNil :: "gval \<Rightarrow> bool" where
  "IsNil v \<longleftrightarrow> v = VNil"

fun Len :: "gval \<Rightarrow> nat" where
  "Len (VList d) = length d"
| "Len (VBytes d) = length d"
| "Len (VStr d) = length d"
| "Len _ = 0"

definition Raw :: "gval \<Rightarrow> gval" where
  "Raw v = v"

fun Uint :: "gval \<Rightarrow> uint64" where
  "Uint (VByte w) = ucast w"
| "Uint (VUint16 w) = ucast w"
| "Uint (VUint32 w) = ucast w"
| "Uint (VUint64 w) = w"
| "Uint (VInt w) = w"
| "Uint (VUint w) = w"
| "Uint (VBytes b) = ReadVarint b"
| "Uint _ = 0"

fun Byte :: "gval \<Rightarrow> byte" where
  "Byte (VByte b) = b"
| "Byte _ = 0"

fun BigInt :: "gval \<Rightarrow> int option" where
  "BigInt (VBytes a) = Some (BigD a)"
| "BigInt (VBig a) = a"
| "BigInt v = Some (sint (Uint v))"

text \<open>\<open>string(a)\<close> of a byte is the UTF-8 encoding of that code point.\<close>

definition string_of_byte :: "byte \<Rightarrow> bytes" where
  "string_of_byte a =
     (if unat a < 0x80 then [a]
      else [of_nat (0xC0 + unat a div 64), of_nat (0x80 + unat a mod 64)])"

fun Str :: "gval \<Rightarrow> bytes" where
  "Str (VBytes a) = a"
| "Str (VStr a) = a"
| "Str (VByte a) = string_of_byte a"
| "Str _ = []"

fun Bytes :: "gval \<Rightarrow> bytes" where
  "Bytes (VBytes a) = a"
| "Bytes _ = []"

fun Slice :: "gval \<Rightarrow> gval list" where
  "Slice (VList d) = d"
| "Slice _ = []"

definition SliceFrom :: "gval \<Rightarrow> int \<Rightarrow> gval res" where
  "SliceFrom v from =
     rbind (gosliceI (Slice v) [] from (int (length (Slice v)))) (\<lambda>s. Inr (NewValue (VList s)))"

definition SliceTo :: "gval \<Rightarrow> int \<Rightarrow> gval res" where
  "SliceTo v to = rbind (gosliceI (Slice v) [] 0 to) (\<lambda>s. Inr (NewValue (VList s)))"

definition SliceFromTo :: "gval \<Rightarrow> int \<Rightarrow> int \<Rightarrow> gval res" where
  "SliceFromTo v from to = rbind (gosliceI (Slice v) [] from to) (\<lambda>s. Inr (NewValue (VList s)))"

definition IsSlice :: "gval \<Rightarrow> bool res" where
  "IsSlice v = rbind (Type v) (\<lambda>k. Inr (k = KSlice))"

definition IsStr :: "gval \<Rightarrow> bool res" where
  "IsStr v = rbind (Type v) (\<lambda>k. Inr (k = KString))"

fun IsList :: "gval \<Rightarrow> bool" where
  "IsList (VList _) = True"
| "IsList _ = False"

definition IsEmpty :: "gval \<Rightarrow> bool res" where
  "IsEmpty v =
     (if IsNil v then Inr True
      else rbind (IsSlice v) (\<lambda>sl. rbind (IsStr v) (\<lambda>st. Inr ((sl \<or> st) \<and> Len v = 0))))"

fun Get :: "gval \<Rightarrow> int \<Rightarrow> gval" where
  "Get (VList d) idx =
     (if int (length d) \<le> idx then NewValue VNil
      else if idx < 0 then NewValue VNil
      else NewValue (d ! nat idx))"
| "Get _ idx = NewValue VNil"

definition Cmp :: "gval \<Rightarrow> gval \<Rightarrow> bool" where
  "Cmp v o' \<longleftrightarrow> v = o'"

section \<open>Setters and the iterator\<close>

definition EmptyValue :: gval where
  "EmptyValue = NewValue (VList [])"

definition Append :: "gval \<Rightarrow> gval \<Rightarrow> gval" where
  "Append v x = VList (Slice v @ [x])"

fun NewSliceValue :: "gval \<Rightarrow> gval" where
  "NewSliceValue (VList s) = foldl Append EmptyValue s"
| "NewSliceValue _ = EmptyValue"

record ValueIterator =
  it_value :: gval
  it_currentValue :: "gval option"
  it_idx :: nat

definition NewIterator :: "gval \<Rightarrow> ValueIterator" where
  "NewIterator v = \<lparr>it_value = v, it_currentValue = None, it_idx = 0\<rparr>"

definition Next :: "ValueIterator \<Rightarrow> bool \<times> ValueIterator" where
  "Next it =
     (if Len (it_value it) \<le> it_idx it then (False, it)
      else (True, it\<lparr>it_currentValue := Some (Get (it_value it) (int (it_idx it))),
                     it_idx := it_idx it + 1\<rparr>))"

text \<open>The loop \<open>for it.Next() { v := it.Value(); ... }\<close>: the values it visits.\<close>

fun iterate :: "nat \<Rightarrow> ValueIterator \<Rightarrow> gval list" where
  "iterate 0 it = []"
| "iterate (Suc n) it =
     (case Next it of (False, _) \<Rightarrow> []
      | (True, it') \<Rightarrow> (case it_currentValue it' of None \<Rightarrow> [] | Some v \<Rightarrow> v # iterate n it'))"

section \<open>Facts\<close>

lemma NewValue_id [simp]: "(\<forall>w. v \<noteq> VPtr w) \<Longrightarrow> NewValue v = v"
  by (cases v) auto

lemma Get_nth: "i < length d \<Longrightarrow> Get (VList d) (int i) = NewValue (d ! i)"
  by simp

lemma Get_of_nat_out: "length d \<le> i \<Longrightarrow> Get (VList d) (int i) = VNil"
  by simp

lemma Get_0_Cons [simp]: "Get (VList (x # xs)) 0 = NewValue x"
  by simp

lemma foldl_Append: "foldl Append (VList xs) ys = VList (xs @ ys)"
  by (induction ys arbitrary: xs) (simp_all add: Append_def)

lemma NewSliceValue_VList: "NewSliceValue (VList s) = VList s"
  by (simp add: EmptyValue_def foldl_Append)

lemma string_of_byte_ascii [simp]: "unat a < 0x80 \<Longrightarrow> string_of_byte a = [a]"
  by (simp add: string_of_byte_def)

lemma iterate_from:
  "it_value it = VList d \<Longrightarrow> it_idx it \<le> length d \<Longrightarrow> length d - it_idx it \<le> n \<Longrightarrow>
   iterate n it = map NewValue (drop (it_idx it) d)"
proof (induction n arbitrary: it)
  case (Suc n)
  show ?case
  proof (cases "it_idx it < length d")
    case True
    define it' where "it' = it\<lparr>it_currentValue := Some (Get (it_value it) (int (it_idx it))), it_idx := it_idx it + 1\<rparr>"
    have "iterate n it' = map NewValue (drop (it_idx it') d)"
      using Suc.prems True by (intro Suc.IH) (auto simp: it'_def)
    moreover have "Next it = (True, it')" using True Suc.prems(1) by (simp add: Next_def it'_def)
    ultimately show ?thesis
      using True Suc.prems(1) by (simp add: it'_def Cons_nth_drop_Suc flip: list.map)
  qed (use Suc.prems in \<open>simp add: Next_def\<close>)
qed simp

text \<open>The iterator visits every element of a list value once, in order.\<close>

theorem iterator_complete:
  "iterate (Len (VList d)) (NewIterator (VList d)) = map NewValue d"
  by (subst iterate_from [of _ d]) (simp_all add: NewIterator_def)

end
