(* ===== verification/Rlp.thy ===== *)
theory Rlp
  imports Values
begin

text \<open>
  \<open>ethutil/rlp.go\<close>: the RLP encoder, the position-based decoder and the reader-based
  decoder. The specification is the pair \<open>ritem\<close>, \<open>rlp\<close>: byte strings and lists with
  their canonical encoding; every encodable Go value denotes one \<open>ritem\<close> (\<open>raw\<close>).
\<close>

section \<open>Encoder\<close>

definition Encode_bytes :: "bytes \<Rightarrow> bytes" where
  "Encode_bytes t =
     (if length t = 1 \<and> unat (t ! 0) \<le> 0x7f then t
      else if length t < 56 then of_nat (length t + 0x80) # t
      else let b = nat_be (length t) in of_nat (length b + 0xb7) # b @ t)"

definition WriteSliceHeader :: "nat \<Rightarrow> bytes" where
  "WriteSliceHeader n =
     (if n < 56 then [of_nat (n + 0xc0)]
      else let b = nat_be n in of_nat (length b + 0xf7) # b)"

text \<open>Every integer type goes through \<open>big.NewInt(int64(t))\<close>.\<close>

fun Encode :: "gval \<Rightarrow> bytes" where
  "Encode VNil = [0xc0]"
| "Encode (VPtr v) = Encode v"
| "Encode (VInt t) = Encode_bytes (big_Bytes (sint t))"
| "Encode (VUint t) = Encode_bytes (big_Bytes (sint t))"
| "Encode (VInt8 t) = Encode_bytes (big_Bytes (sint t))"
| "Encode (VInt16 t) = Encode_bytes (big_Bytes (sint t))"
| "Encode (VInt32 t) = Encode_bytes (big_Bytes (sint t))"
| "Encode (VInt64 t) = Encode_bytes (big_Bytes (sint t))"
| "Encode (VUint16 t) = Encode_bytes (big_Bytes (uint t))"
| "Encode (VUint32 t) = Encode_bytes (big_Bytes (uint t))"
| "Encode (VUint64 t) = Encode_bytes (big_Bytes (sint t))"
| "Encode (VByte t) = Encode_bytes (big_Bytes (uint t))"
| "Encode (VBig None) = [0xc0]"
| "Encode (VBig (Some t)) = Encode_bytes (big_Bytes t)"
| "Encode (VBytes t) = Encode_bytes t"
| "Encode (VStr t) = Encode_bytes t"
| "Encode (VList t) =
     (let b = concat (map Encode t) in WriteSliceHeader (length b) @ b)"

section \<open>Decoder\<close>

text \<open>
  \<open>Decode data pos\<close>: its string cases are \<open>Decode_string\<close>, the header arithmetic of its
  list cases \<open>Decode_list_header\<close>. The argument \<open>sp\<close> holds the bytes between length and capacity
  of \<open>data\<close>: a slice expression may reach into them, an index may not. The loops of
  the two list cases are \<open>Decode_items\<close>; \<open>i\<close> counts the bytes consumed so far.
\<close>

definition Decode_string :: "bytes \<Rightarrow> bytes \<Rightarrow> nat \<Rightarrow> byte \<Rightarrow> (gval \<times> nat) res" where
  "Decode_string data sp pos c =
     (let char = unat c in
      if char \<le> 0x7f then Inr (VByte c, pos + 1)
      else if char \<le> 0xb7 then
        let b = char - 0x80 in
        rbind (goslice data sp (pos + 1) (pos + 1 + b)) (\<lambda>s. Inr (VBytes s, pos + 1 + b))
      else
        let b = char - 0xb7 in
        rbind (goslice data sp (pos + 1) (pos + 1 + b)) (\<lambda>r.
        let b2 = unat (ReadVarint r) in
        rbind (goslice data sp (pos + 1 + b) (pos + 1 + b + b2)) (\<lambda>s.
        Inr (VBytes s, pos + 1 + b + b2))))"

text \<open>The length in bytes of a list's payload and the position where the payload starts.\<close>

definition Decode_list_header :: "bytes \<Rightarrow> bytes \<Rightarrow> nat \<Rightarrow> byte \<Rightarrow> (nat \<times> nat) res" where
  "Decode_list_header data sp pos c =
     (let char = unat c in
      if char \<le> 0xf7 then Inr (char - 0xc0, pos + 1)
      else
        let l = char - 0xf7 in
        rbind (goslice data sp (pos + 1) (pos + 1 + l)) (\<lambda>r.
        Inr (unat (ReadVarint r), pos + l + 1)))"

fun Decode_fuel :: "nat \<Rightarrow> bytes \<Rightarrow> bytes \<Rightarrow> nat \<Rightarrow> (gval \<times> nat) res"
and Decode_items :: "nat \<Rightarrow> bytes \<Rightarrow> bytes \<Rightarrow> nat \<Rightarrow> nat \<Rightarrow> nat \<Rightarrow> (gval list \<times> nat) res" where
  "Decode_fuel 0 data sp pos = Inl OutOfFuel"
| "Decode_fuel (Suc f) data sp pos =
     rbind (goindex data pos) (\<lambda>c.
     if unat c \<le> 0xbf then Decode_string data sp pos c
     else rbind (Decode_list_header data sp pos c) (\<lambda>(b, start).
          rbind (Decode_items f data sp b 0 start) (\<lambda>(slice, p). Inr (VList slice, p))))"
| "Decode_items 0 data sp b i pos = Inl OutOfFuel"
| "Decode_items (Suc f) data sp b i pos =
     (if i < b then
        rbind (Decode_fuel f data sp pos) (\<lambda>(obj, prevPos).
        rbind (Decode_items f data sp b (i + (prevPos - pos)) prevPos) (\<lambda>(slice, p).
        Inr (obj # slice, p)))
      else Inr ([], pos))"

definition Decode_sp :: "bytes \<Rightarrow> bytes \<Rightarrow> nat \<Rightarrow> (gval \<times> nat) res" where
  "Decode_sp data sp pos = Decode_fuel (2 * length data + 2) data sp pos"

definition Decode :: "bytes \<Rightarrow> nat \<Rightarrow> (gval \<times> nat) res" where
  "Decode data pos = Decode_sp data [] pos"

text \<open>
  \<open>sp\<close> is what lies behind the data in its backing array. A message cut out of a buffer is decoded
  with what follows it (\<open>Wire\<close>). Data that the node has encoded itself, all that its database and its
  tries hold, is decoded with nothing behind it: a decode that succeeds so is the same whatever
  follows (\<open>NewValueFromBytes_spare\<close> in \<open>Rlp_Correct\<close>).
\<close>

definition NewValueFromBytes_sp :: "bytes \<Rightarrow> bytes \<Rightarrow> gval res" where
  "NewValueFromBytes_sp data sp =
     (if data \<noteq> [] then rbind (Decode_sp data sp 0) (\<lambda>(v, _). Inr (NewValue v)) else Inr (NewValue VNil))"

definition NewValueFromBytes :: "bytes \<Rightarrow> gval res" where
  "NewValueFromBytes data = NewValueFromBytes_sp data []"

definition Value_Encode :: "gval \<Rightarrow> bytes" where
  "Value_Encode v = Encode v"

section \<open>The reader-based decoder\<close>

definition Char :: "bytes \<Rightarrow> nat" where
  "Char c = (case c of [] \<Rightarrow> 0 | b # _ \<Rightarrow> unat b)"

text \<open>\<open>reader.Next(n)\<close> of a \<open>bytes.Buffer\<close>: at most \<open>n\<close> bytes and the rest.\<close>

definition buf_Next :: "nat \<Rightarrow> bytes \<Rightarrow> bytes \<times> bytes" where
  "buf_Next n buf = (take n buf, drop n buf)"

fun DecodeWithReader :: "nat \<Rightarrow> bytes \<Rightarrow> (gval \<times> bytes) res"
and DecodeWithReader_loop :: "nat \<Rightarrow> nat \<Rightarrow> bytes \<Rightarrow> (gval list \<times> bytes) res" where
  "DecodeWithReader 0 reader = Inl OutOfFuel"
| "DecodeWithReader (Suc f) reader =
     (let (c, reader) = buf_Next 1 reader; char = Char c in
      if char = 0 then Inr (VNil, reader)
      else if char \<le> 0x7f then Inr (VInt (of_nat char), reader)
      else if char \<le> 0xb7 then let (s, reader) = buf_Next (char - 0x80) reader in Inr (VBytes s, reader)
      else if char \<le> 0xbf then
        let (buff, reader) = buf_Next (char - 0xb8) reader;
            (s, reader) = buf_Next (unat (ReadVarint buff)) reader in Inr (VBytes s, reader)
      else if char \<le> 0xf7 then
        rbind (DecodeWithReader_loop f (char - 0xc0) reader) (\<lambda>(slice, reader). Inr (VList slice, reader))
      else Inr (VList [], reader))"
| "DecodeWithReader_loop 0 n reader = Inl OutOfFuel"
| "DecodeWithReader_loop (Suc f) n reader =
     (if n = 0 then Inr ([], reader)
      else rbind (DecodeWithReader f reader) (\<lambda>(obj, reader).
        if obj = VNil then Inr ([], reader)
        else rbind (DecodeWithReader_loop f (n - 1) reader) (\<lambda>(slice, reader). Inr (obj # slice, reader))))"

section \<open>Specification: items and their canonical encoding\<close>

datatype ritem = RStr bytes | RList "ritem list"

fun rlp :: "ritem \<Rightarrow> bytes" where
  "rlp (RStr b) = Encode_bytes b"
| "rlp (RList xs) = (let b = concat (map rlp xs) in WriteSliceHeader (length b) @ b)"

fun raw :: "gval \<Rightarrow> ritem" where
  "raw VNil = RList []"
| "raw (VPtr v) = raw v"
| "raw (VInt t) = RStr (big_Bytes (sint t))"
| "raw (VUint t) = RStr (big_Bytes (sint t))"
| "raw (VInt8 t) = RStr (big_Bytes (sint t))"
| "raw (VInt16 t) = RStr (big_Bytes (sint t))"
| "raw (VInt32 t) = RStr (big_Bytes (sint t))"
| "raw (VInt64 t) = RStr (big_Bytes (sint t))"
| "raw (VUint16 t) = RStr (big_Bytes (uint t))"
| "raw (VUint32 t) = RStr (big_Bytes (uint t))"
| "raw (VUint64 t) = RStr (big_Bytes (sint t))"
| "raw (VByte t) = RStr (big_Bytes (uint t))"
| "raw (VBig None) = RList []"
| "raw (VBig (Some t)) = RStr (big_Bytes t)"
| "raw (VBytes t) = RStr t"
| "raw (VStr t) = RStr t"
| "raw (VList t) = RList (map raw t)"

lemma Encode_raw: "Encode v = rlp (raw v)"
  by (induction v rule: Encode.induct) (simp_all add: WriteSliceHeader_def Let_def comp_def cong: map_cong)

text \<open>What the decoder makes of an item: single ASCII bytes come back as \<open>byte\<close>.\<close>

fun unraw :: "ritem \<Rightarrow> gval" where
  "unraw (RStr b) = (if length b = 1 \<and> unat (b ! 0) \<le> 0x7f then VByte (b ! 0) else VBytes b)"
| "unraw (RList xs) = VList (map unraw xs)"

text \<open>
  Length headers that \<open>ReadVarint\<close> reads back: none, one, two, four or eight bytes.
\<close>

definition len_ok :: "nat \<Rightarrow> bool" where
  "len_ok n \<longleftrightarrow> n < 56 \<or> length (nat_be n) \<in> {1, 2, 4, 8}"

fun fits :: "ritem \<Rightarrow> bool" where
  "fits (RStr b) = len_ok (length b)"
| "fits (RList xs) = (len_ok (length (concat (map rlp xs))) \<and> (\<forall>x \<in> set xs. fits x))"

end
