(* ===== verification/Rlp_Correct.thy ===== *)
theory Rlp_Correct
  imports Rlp
begin

text \<open>
  Correctness of \<open>ethutil/rlp.go\<close>: the decoder terminates, stays inside its buffer and
  inverts the encoder on every item whose length headers \<open>ReadVarint\<close> can read; the
  lengths and the integers for which it does not.
\<close>

section \<open>Lengths of byte representations\<close>

lemma length_nat_be_le_iff: "length (nat_be n) \<le> k \<longleftrightarrow> n < 256 ^ k"
proof
  assume le: "length (nat_be n) \<le> k"
  have "n < 256 ^ length (nat_be n)" using be_nat_bound [of "nat_be n"] by simp
  also have "(256::nat) ^ length (nat_be n) \<le> 256 ^ k" by (rule power_increasing [OF le]) simp
  finally show "n < 256 ^ k" .
qed (rule length_nat_be_le)

lemma length_nat_be_Suc: "length (nat_be n) = Suc k \<longleftrightarrow> 256 ^ k \<le> n \<and> n < 256 ^ Suc k"
  using length_nat_be_le_iff [of n k] length_nat_be_le_iff [of n "Suc k"] by linarith

lemma len_ok_small: "n < 65536 \<Longrightarrow> len_ok n"
  by (cases "n < 56"; cases "n < 256") (simp_all add: len_ok_def nat_be_byte nat_be_two)

lemma len_ok_iff:
  "len_ok n \<longleftrightarrow> n < 65536 \<or> 16777216 \<le> n \<and> n < 4294967296 \<or>
    72057594037927936 \<le> n \<and> n < 18446744073709551616"
proof -
  have 1: "length (nat_be n) = 1 \<longleftrightarrow> 1 \<le> n \<and> n < 256"
    using length_nat_be_Suc [of n 0] by simp
  have 2: "length (nat_be n) = 2 \<longleftrightarrow> 256 \<le> n \<and> n < 65536"
    using length_nat_be_Suc [of n 1] by (simp add: numeral_2_eq_2)
  have 4: "length (nat_be n) = 4 \<longleftrightarrow> 16777216 \<le> n \<and> n < 4294967296"
    using length_nat_be_Suc [of n 3] by simp
  have 8: "length (nat_be n) = 8 \<longleftrightarrow> 72057594037927936 \<le> n \<and> n < 18446744073709551616"
    using length_nat_be_Suc [of n 7] by simp
  show ?thesis unfolding len_ok_def insert_iff empty_iff 1 2 4 8 by arith
qed

lemma len_ok_header:
  assumes "len_ok n" "\<not> n < 56"
  shows "length (nat_be n) \<le> 8" "nat_be n \<noteq> []" "unat (ReadVarint (nat_be n)) = n"
  using assms unat_ReadVarint_be [of "nat_be n"] by (auto simp: len_ok_def)

lemma unat_header: "n + k < 256 \<Longrightarrow> unat (of_nat (n + k) :: byte) = n + k"
  by (simp add: unat_of_nat del: of_nat_add)

section \<open>The decoder terminates and stays in the buffer\<close>

lemma Decode_string_pos:
  "Decode_string data sp pos c = Inr (v, p) \<Longrightarrow> pos < length data \<Longrightarrow>
   pos < p \<and> p \<le> length data + length sp"
  by (auto simp: Decode_string_def Let_def rbind_Inr_iff dest!: goslice_InrD split: if_splits)

lemma Decode_list_header_pos:
  "Decode_list_header data sp pos c = Inr (b, start) \<Longrightarrow> pos < length data \<Longrightarrow>
   pos < start \<and> start \<le> length data + length sp"
  by (auto simp: Decode_list_header_def Let_def rbind_Inr_iff dest!: goslice_InrD split: if_splits)

lemma Decode_string_no_fuel: "Decode_string data sp pos c \<noteq> Inl OutOfFuel"
  by (auto simp: Decode_string_def Let_def rbind_Inl_iff)

lemma Decode_list_header_no_fuel: "Decode_list_header data sp pos c \<noteq> Inl OutOfFuel"
  by (auto simp: Decode_list_header_def Let_def rbind_Inl_iff)

lemma Decode_pos:
  "Decode_fuel f data sp pos = Inr (v, p) \<Longrightarrow> pos < p \<and> p \<le> length data + length sp"
  "Decode_items f data sp b i pos = Inr (vs, p) \<Longrightarrow> pos \<le> length data + length sp \<Longrightarrow>
   pos \<le> p \<and> p \<le> length data + length sp"
proof (induction f data sp pos and f data sp b i pos arbitrary: v p and vs p
    rule: Decode_fuel_Decode_items.induct)
  case (2 f data sp pos)
  then obtain c where c: "pos < length data" "goindex data pos = Inr c"
    by (auto simp: rbind_Inr_iff goindex_def split: if_splits)
  show ?case
  proof (cases "unat c \<le> 0xbf")
    case True
    with 2 c show ?thesis using Decode_string_pos by simp
  next
    case False
    with 2 c obtain b start slice where h: "Decode_list_header data sp pos c = Inr (b, start)"
      "Decode_items f data sp b 0 start = Inr (slice, p)"
      by (auto simp: rbind_Inr_iff)
    with Decode_list_header_pos [OF h(1) c(1)] "2.IH" [OF False h(2)] show ?thesis
      by simp
  qed
next
  case (4 f data sp b i pos)
  show ?case
  proof (cases "i < b")
    case True
    with "4.prems"(1) obtain obj q ws where h: "Decode_fuel f data sp pos = Inr (obj, q)"
      "Decode_items f data sp b (i + (q - pos)) q = Inr (ws, p)"
      by (auto simp: rbind_Inr_iff)
    from "4.IH"(1) [OF True h(1)] "4.IH"(2) [OF True h(2)] show ?thesis by simp
  qed (use 4 in auto)
qed simp_all

lemma Decode_enough_fuel:
  "2 * (length data - pos) + 1 \<le> f \<Longrightarrow> Decode_fuel f data sp pos \<noteq> Inl OutOfFuel"
  "2 * (length data - pos) + 2 \<le> f \<Longrightarrow> Decode_items f data sp b i pos \<noteq> Inl OutOfFuel"
proof (induction f data sp pos and f data sp b i pos rule: Decode_fuel_Decode_items.induct)
  case (2 f data sp pos)
  show ?case
  proof (cases "pos < length data")
    case True
    have "Decode_items f data sp b 0 start \<noteq> Inl OutOfFuel"
      if "Decode_list_header data sp pos (data ! pos) = Inr (b, start)" "\<not> unat (data ! pos) \<le> 0xbf" for b start
    proof -
      have "2 * (length data - start) + 2 \<le> f"
        using Decode_list_header_pos [OF that(1) True] True "2.prems" by arith
      then show ?thesis by (rule "2.IH" [OF that(2)])
    qed
    with True show ?thesis
      by (auto simp: rbind_Inl_iff Decode_string_no_fuel Decode_list_header_no_fuel)
  qed (simp add: goindex_def)
next
  case (4 f data sp b i pos)
  show ?case
  proof (cases "i < b")
    case True
    have "Decode_fuel f data sp pos \<noteq> Inl OutOfFuel" using 4 True by simp
    moreover have "Decode_items f data sp b (i + (q - pos)) q \<noteq> Inl OutOfFuel"
      if q: "Decode_fuel f data sp pos = Inr (obj, q)" for obj q
    proof -
      have "pos < length data" using q by (cases f) (auto simp: rbind_Inr_iff goindex_def split: if_splits)
      with Decode_pos(1) [OF q] "4.prems" have "2 * (length data - q) + 2 \<le> f" by arith
      with "4.IH"(2) [OF True] show ?thesis by simp
    qed
    ultimately show ?thesis using True by (auto simp: rbind_Inl_iff)
  qed simp
qed simp_all

text \<open>C26. The decoder always returns: whatever the bytes and the position, it yields a value
  or one of Go's index and slice panics, and never runs on.\<close>

theorem Decode_terminates: "Decode_sp data sp pos \<noteq> Inl OutOfFuel"
  unfolding Decode_sp_def by (rule Decode_enough_fuel) simp

text \<open>A successful decode consumes at least one byte and ends inside the capacity of the
  buffer.\<close>

theorem Decode_bounds:
  "Decode_sp data sp pos = Inr (v, p) \<Longrightarrow> pos < p \<and> p \<le> length data + length sp"
  unfolding Decode_sp_def by (rule Decode_pos)

theorem Decode_bounds_witness:
  "Decode_sp [0x83, 0x64, 0x6f, 0x67] [] 0 = Inr (VBytes [0x64, 0x6f, 0x67], 4) \<and> (0::nat) < 4 \<and> (4::nat) \<le> 4 + 0"
proof -
  have r: "Decode_sp [0x83, 0x64, 0x6f, 0x67] [] 0 = Inr (VBytes [0x64, 0x6f, 0x67], 4)"
    by code_simp
  from Decode_bounds [OF r] r show ?thesis by simp
qed

section \<open>The types of decoded values\<close>

text \<open>What the decoder builds: bytes up to 0x7f, byte strings, and lists of such values.\<close>

fun wire_typed :: "gval \<Rightarrow> bool" where
  "wire_typed (VByte b) \<longleftrightarrow> unat b \<le> 0x7f"
| "wire_typed (VBytes s) \<longleftrightarrow> True"
| "wire_typed (VList vs) \<longleftrightarrow> list_all wire_typed vs"
| "wire_typed v \<longleftrightarrow> False"

lemma Decode_typed:
  "Decode_fuel f data sp pos = Inr (v, n) \<Longrightarrow> wire_typed v"
  "Decode_items f data sp b i pos = Inr (vs, n) \<Longrightarrow> list_all wire_typed vs"
proof (induction f data sp pos and f data sp b i pos arbitrary: v n and vs n rule: Decode_fuel_Decode_items.induct)
  case (2 f data sp pos)
  then show ?case
    by (fastforce simp: rbind_Inr_iff Decode_string_def Let_def split: if_split_asm)
next
  case (4 f data sp b i pos)
  then show ?case by (fastforce simp: rbind_Inr_iff split: if_split_asm)
qed auto
lemma NewValue_wire_typed [simp]: "wire_typed v \<Longrightarrow> NewValue v = v"
  by (cases v) simp_all

text \<open>
  C27. A value that was decoded holds nothing but bytes up to 0x7f, byte strings and lists, at every
  depth, and so does every element taken out of it, which is nil when it is not there: the
  conversions of \<open>Value\<close> meet no other dynamic type on what comes from the wire or the database.
\<close>

theorem decoded_values_typed:
  assumes "NewValueFromBytes data = Inr v"
  shows "(v = VNil \<or> wire_typed v) \<and> (\<forall>is. let e = foldl Get v is in e = VNil \<or> wire_typed e)"
proof -
  have get: "Get u i = VNil \<or> wire_typed (Get u i)" if "u = VNil \<or> wire_typed u" for u i
    using that by (cases u) (auto simp: list_all_length)
  have fold: "foldl Get u is = VNil \<or> wire_typed (foldl Get u is)" if "u = VNil \<or> wire_typed u" for u "is"
    using that by (induction "is" arbitrary: u) (simp_all add: get)
  have "v = VNil \<or> wire_typed v"
  proof (cases "data = []")
    case False
    with assms obtain a n where "Decode_fuel (2 * length data + 2) data [] 0 = Inr (a, n)" "v = NewValue a"
      by (auto simp: NewValueFromBytes_def NewValueFromBytes_sp_def Decode_sp_def rbind_Inr_iff simp del: Decode_fuel.simps)
    then show ?thesis using Decode_typed(1) by fastforce
  qed (use assms in \<open>simp add: NewValueFromBytes_def NewValueFromBytes_sp_def\<close>)
  then show ?thesis using fold by (simp add: Let_def)
qed

theorem decoded_values_typed_witness:
  "NewValueFromBytes [0xc3, 0x82, 0x61, 0x62] = Inr (VList [VBytes [0x61, 0x62]]) \<and>
   Get (VList [VBytes [0x61, 0x62]]) 1 = VNil \<and> wire_typed (VList [VBytes [0x61, 0x62]])"
proof -
  have d: "NewValueFromBytes [0xc3, 0x82, 0x61, 0x62] = Inr (VList [VBytes [0x61, 0x62]])" by code_simp
  from decoded_values_typed [OF d] d show ?thesis by simp
qed

section \<open>Round trip\<close>

lemma unat_nth_Suc0 [simp]: "(pre @ x # ys) ! length pre = x"
  by simp

lemma Encode_bytes_nonempty [simp]: "Encode_bytes t \<noteq> []"
  by (auto simp: Encode_bytes_def Let_def)

lemma WriteSliceHeader_nonempty [simp]: "WriteSliceHeader n \<noteq> []"
  by (simp add: WriteSliceHeader_def Let_def)

lemma rlp_nonempty [simp]: "rlp r \<noteq> []"
  by (cases r) (simp_all add: Let_def)

lemma Decode_string_at:
  assumes "len_ok (length b)"
  shows "\<exists>c rest. Encode_bytes b = c # rest \<and> unat c \<le> 0xbf \<and>
    Decode_string (pre @ Encode_bytes b @ post) sp (length pre) c =
      Inr (unraw (RStr b), length pre + length (Encode_bytes b))"
proof -
  consider (one) "length b = 1" "unat (b ! 0) \<le> 0x7f"
    | (short) "\<not> (length b = 1 \<and> unat (b ! 0) \<le> 0x7f)" "length b < 56"
    | (long) "\<not> length b < 56" by linarith
  then show ?thesis
  proof cases
    case one
    then obtain x where "b = [x]" by (cases b) auto
    with one show ?thesis by (simp add: Encode_bytes_def Decode_string_def)
  next
    case short
    then have h: "unat (of_nat (length b + 0x80) :: byte) = length b + 0x80" by (intro unat_header) simp
    have "goslice (pre @ (of_nat (length b + 0x80) # b) @ post) sp (length pre + 1) (length pre + 1 + length b) = Inr b"
      using goslice_mid [of "pre @ [of_nat (length b + 0x80)]" b post sp] by simp
    with short h show ?thesis by (auto simp: Encode_bytes_def Decode_string_def Let_def simp del: of_nat_add)
  next
    case long
    let ?h = "nat_be (length b)"
    note ok = len_ok_header [OF assms long]
    have h: "unat (of_nat (length ?h + 0xb7) :: byte) = length ?h + 0xb7" using ok by (intro unat_header) simp
    have hp: "0 < length ?h" using ok(2) by simp
    have 1: "goslice (pre @ (of_nat (length ?h + 0xb7) # ?h @ b) @ post) sp (length pre + 1) (length pre + 1 + length ?h) = Inr ?h"
      using goslice_mid [of "pre @ [of_nat (length ?h + 0xb7)]" ?h "b @ post" sp] by simp
    have 2: "goslice (pre @ (of_nat (length ?h + 0xb7) # ?h @ b) @ post) sp (length pre + 1 + length ?h)
        (length pre + 1 + length ?h + length b) = Inr b"
      using goslice_mid [of "pre @ [of_nat (length ?h + 0xb7)] @ ?h" b post sp] by (simp add: add.assoc)
    have "\<not> length ?h + 0xb7 \<le> 0xb7" "length ?h + 0xb7 \<le> 0xbf" "\<not> length ?h + 0xb7 \<le> 0x7f" using ok hp by simp_all
    with long h 1 2 ok(3) show ?thesis
      by (auto simp: Encode_bytes_def Decode_string_def Let_def simp del: of_nat_add)
  qed
qed

lemma Decode_list_header_at:
  assumes "len_ok n"
  shows "\<exists>c rest. WriteSliceHeader n = c # rest \<and> \<not> unat c \<le> 0xbf \<and>
    Decode_list_header (pre @ WriteSliceHeader n @ post) sp (length pre) c =
      Inr (n, length pre + length (WriteSliceHeader n))"
proof (cases "n < 56")
  case True
  then have "unat (of_nat (n + 0xc0) :: byte) = n + 0xc0" by (intro unat_header) simp
  with True show ?thesis by (auto simp: WriteSliceHeader_def Decode_list_header_def simp del: of_nat_add)
next
  case False
  let ?h = "nat_be n"
  note ok = len_ok_header [OF assms False]
  have h: "unat (of_nat (length ?h + 0xf7) :: byte) = length ?h + 0xf7" using ok by (intro unat_header) simp
  have "0 < length ?h" using ok(2) by simp
  moreover have "goslice (pre @ (of_nat (length ?h + 0xf7) # ?h) @ post) sp (length pre + 1) (length pre + 1 + length ?h) = Inr ?h"
    using goslice_mid [of "pre @ [of_nat (length ?h + 0xf7)]" ?h post sp] by simp
  ultimately show ?thesis
    using False h ok(3) by (auto simp: WriteSliceHeader_def Decode_list_header_def Let_def simp del: of_nat_add)
qed

lemma Decode_items_at:
  assumes "\<And>x pre post f. x \<in> set xs \<Longrightarrow> 2 * length (rlp x @ post) + 1 \<le> f \<Longrightarrow>
      Decode_fuel f (pre @ rlp x @ post) sp (length pre) = Inr (unraw x, length pre + length (rlp x))"
    and "2 * length (concat (map rlp xs) @ post) + 2 \<le> f"
    and "b = i + length (concat (map rlp xs))"
  shows "Decode_items f (pre @ concat (map rlp xs) @ post) sp b i (length pre) =
    Inr (map unraw xs, length pre + length (concat (map rlp xs)))"
  using assms
proof (induction xs arbitrary: pre f i)
  case Nil
  then obtain g where "f = Suc g" by (cases f) auto
  with Nil show ?case by simp
next
  case (Cons x xs)
  let ?rest = "concat (map rlp xs)"
  from Cons.prems(2) obtain g where g: "f = Suc g" by (cases f) auto
  have x: "Decode_fuel g (pre @ rlp x @ (?rest @ post)) sp (length pre) = Inr (unraw x, length pre + length (rlp x))"
    using Cons.prems(2) g by (intro Cons.prems(1)) simp_all
  have pos: "0 < length (rlp x)" by simp
  have "length (concat (map rlp (x # xs)) @ post) = length (rlp x) + length (?rest @ post)" by simp
  with pos Cons.prems(2) g have "2 * length (?rest @ post) + 2 \<le> g" by linarith
  then have "Decode_items g ((pre @ rlp x) @ ?rest @ post) sp b (i + length (rlp x)) (length (pre @ rlp x)) =
      Inr (map unraw xs, length (pre @ rlp x) + length ?rest)"
    using Cons.prems(1,3) by (intro Cons.IH) (auto simp: add.assoc)
  moreover have "i < b" using Cons.prems(3) pos by simp
  ultimately show ?case using x g by (simp add: add.assoc)
qed

lemma Decode_rlp_at:
  "fits r \<Longrightarrow> 2 * length (rlp r @ post) + 1 \<le> f \<Longrightarrow>
   Decode_fuel f (pre @ rlp r @ post) sp (length pre) = Inr (unraw r, length pre + length (rlp r))"
proof (induction r arbitrary: pre post f)
  case (RStr b)
  then obtain g where g: "f = Suc g" by (cases f) auto
  from RStr.prems(1) have "len_ok (length b)" by simp
  from Decode_string_at [OF this, of pre post sp] obtain c rest where
    c: "Encode_bytes b = c # rest" "unat c \<le> 0xbf"
    "Decode_string (pre @ Encode_bytes b @ post) sp (length pre) c = Inr (unraw (RStr b), length pre + length (Encode_bytes b))"
    by blast
  then have "goindex (pre @ Encode_bytes b @ post) (length pre) = Inr c" by (simp add: goindex_def)
  with c g show ?case by simp
next
  case (RList xs)
  let ?b = "concat (map rlp xs)"
  let ?H = "WriteSliceHeader (length ?b)"
  from RList.prems obtain g where g: "f = Suc g" by (cases f) auto
  from RList.prems(1) have ok: "len_ok (length ?b)" by simp
  from Decode_list_header_at [OF ok, of pre "?b @ post" sp] obtain c rest where
    c: "?H = c # rest" "\<not> unat c \<le> 0xbf"
    "Decode_list_header (pre @ ?H @ ?b @ post) sp (length pre) c = Inr (length ?b, length pre + length ?H)"
    by blast
  have idx: "goindex (pre @ ?H @ ?b @ post) (length pre) = Inr c" using c(1) by (simp add: goindex_def)
  have "2 * length (?b @ post) + 2 \<le> g" using RList.prems(2) g c(1) by (simp add: Let_def)
  then have "Decode_items g ((pre @ ?H) @ ?b @ post) sp (length ?b) 0 (length (pre @ ?H)) =
      Inr (map unraw xs, length (pre @ ?H) + length ?b)"
    using RList.IH RList.prems(1) by (intro Decode_items_at) auto
  with c idx g show ?case by (simp add: Let_def add.assoc)
qed

text \<open>C21. Round trip: decoding what \<open>Encode\<close> wrote, with any bytes after it, gives the
  item back and stops right after it, whenever every length in it fits.\<close>

theorem rlp_roundtrip:
  assumes "fits (raw v)"
  shows "Decode_sp (Encode v @ post) sp 0 = Inr (unraw (raw v), length (Encode v))"
  using Decode_rlp_at [OF assms, of post "2 * length (rlp (raw v) @ post) + 2" "[]" sp]
  by (simp add: Decode_sp_def Encode_raw)

theorem rlp_roundtrip_witness:
  "fits (raw (VList [VStr [0x64, 0x6f, 0x67], VInt 1024])) \<and>
   Decode_sp (Encode (VList [VStr [0x64, 0x6f, 0x67], VInt 1024]) @ [7]) [] 0 =
     Inr (unraw (raw (VList [VStr [0x64, 0x6f, 0x67], VInt 1024])), length (Encode (VList [VStr [0x64, 0x6f, 0x67], VInt 1024])))"
proof -
  have "fits (raw (VList [VStr [0x64, 0x6f, 0x67], VInt 1024]))"
    by (simp add: len_ok_def Encode_bytes_def Let_def big_Bytes_def nat_be_two)
  with rlp_roundtrip [OF this, of "[7]" "[]"] show ?thesis by simp
qed

section \<open>Where the code does not round-trip\<close>

lemma sint_eq_uint: "sint (w :: 64 word) = (if uint w < 2 ^ 63 then uint w else uint w - 2 ^ 64)"
proof -
  have "uint w < 2 ^ 64" using uint_lt2p [of w] by simp
  moreover from this have "uint w div 2 ^ 63 = (if uint w < 2 ^ 63 then 0 else 1)"
    by (auto intro: div_pos_pos_trivial int_div_pos_eq [of _ _ _ "uint w - 2 ^ 63"])
  ultimately show ?thesis
    by (auto simp: sint_uint signed_take_bit_eq_take_bit_minus take_bit_int_eq_self bit_iff_odd)
qed

lemma unraw_not_VPtr [simp]: "NewValue (unraw r) = unraw r"
  by (cases r) simp_all

lemma NewValueFromBytes_Encode:
  "fits (raw v) \<Longrightarrow> NewValueFromBytes (Encode v) = Inr (unraw (raw v))"
  using Decode_rlp_at [of "raw v" "[]" "2 * length (rlp (raw v)) + 2" "[]" "[]"]
  by (simp add: NewValueFromBytes_def NewValueFromBytes_sp_def Decode_sp_def Encode_raw)

text \<open>What lies behind the data does not matter to a decode that succeeds without it.\<close>

lemma goslice_spare: "goslice data [] i j = Inr r \<Longrightarrow> goslice data sp i j = Inr r"
  by (auto simp: goslice_def split: if_splits)

lemma Decode_string_spare: "Decode_string data [] pos c = Inr r \<Longrightarrow> Decode_string data sp pos c = Inr r"
  by (auto simp: Decode_string_def Let_def rbind_Inr_iff dest: goslice_spare split: if_splits)

lemma Decode_list_header_spare: "Decode_list_header data [] pos c = Inr r \<Longrightarrow> Decode_list_header data sp pos c = Inr r"
  by (auto simp: Decode_list_header_def Let_def rbind_Inr_iff dest: goslice_spare split: if_splits)

lemma Decode_spare:
  "Decode_fuel f data s pos = Inr r \<Longrightarrow> s = [] \<Longrightarrow> Decode_fuel f data sp pos = Inr r"
  "Decode_items f data s b i pos = Inr rs \<Longrightarrow> s = [] \<Longrightarrow> Decode_items f data sp b i pos = Inr rs"
proof (induction f data s pos and f data s b i pos arbitrary: r and rs rule: Decode_fuel_Decode_items.induct)
  case (2 f data s pos)
  from 2(2,3) obtain c where c: "goindex data pos = Inr c" by (auto simp: rbind_Inr_iff)
  show ?case
  proof (cases "unat c \<le> 0xbf")
    case True
    with 2(2,3) c have "Decode_string data [] pos c = Inr r" by simp
    then show ?thesis using c True by (simp add: Decode_string_spare [of data pos c r])
  next
    case False
    with 2(2,3) c obtain b start where h: "Decode_list_header data [] pos c = Inr (b, start)"
      and items: "rbind (Decode_items f data [] b 0 start) (\<lambda>(slice, p). Inr (VList slice, p)) = Inr r"
      by (auto simp: rbind_Inr_iff)
    from items obtain sl p where "Decode_items f data [] b 0 start = Inr (sl, p)" "r = (VList sl, p)"
      by (auto simp: rbind_Inr_iff)
    moreover from 2(1) [OF False] this(1) 2(3) have "Decode_items f data sp b 0 start = Inr (sl, p)" by simp
    ultimately show ?thesis using c False by (simp add: Decode_list_header_spare [OF h])
  qed
next
  case (4 f data s b i pos)
  then show ?case by (auto simp: rbind_Inr_iff split: if_splits)
qed simp_all

lemma Decode_sp_spare: "Decode_sp data [] pos = Inr r \<Longrightarrow> Decode_sp data sp pos = Inr r"
  unfolding Decode_sp_def by (rule Decode_spare(1) [OF _ refl])

lemma NewValueFromBytes_spare: "NewValueFromBytes data = Inr v \<Longrightarrow> NewValueFromBytes_sp data sp = Inr v"
  using Decode_sp_spare [of data 0 _ sp]
  by (cases "Decode_sp data [] 0") (auto simp: NewValueFromBytes_def NewValueFromBytes_sp_def)

lemma length_Encode_bytes:
  assumes "length b < 65536"
  shows "length (Encode_bytes b) \<le> length b + 3"
proof -
  have "length (nat_be (length b)) \<le> 2" using assms by (intro length_nat_be_le) simp
  then show ?thesis by (simp add: Encode_bytes_def Let_def)
qed

lemma sint_ucast_byte: "sint (ucast (b :: byte) :: uint64) = uint b"
proof -
  have u: "uint (ucast b :: uint64) = uint b" by (rule uint_up_ucast) (simp add: is_up)
  have "uint b < 2 ^ 8" using uint_lt2p [of b] by simp
  then have "uint b < 2 ^ 63" by simp
  then show ?thesis by (simp only: sint_eq_uint u if_True)
qed

lemma BigInt_unraw: "BigInt (unraw (RStr (big_Bytes x))) = Some \<bar>x\<bar>"
proof (cases "length (big_Bytes x) = 1 \<and> unat (big_Bytes x ! 0) \<le> 0x7f")
  case True
  then obtain b where b: "big_Bytes x = [b]" "unat b \<le> 0x7f" by (cases "big_Bytes x") auto
  have "nat \<bar>x\<bar> = unat b" using be_nat_big_Bytes [of x] b(1) by simp
  then have "\<bar>x\<bar> = int (unat b)" by linarith
  then have "\<bar>x\<bar> = uint b" by (simp only: uint_nat)
  moreover have "unraw (RStr (big_Bytes x)) = VByte b" using b by simp
  ultimately show ?thesis by (simp only: BigInt.simps Uint.simps sint_ucast_byte)
next
  case False
  then have "unraw (RStr (big_Bytes x)) = VBytes (big_Bytes x)" by (simp only: unraw.simps if_False)
  then show ?thesis by (simp add: BigD_def)
qed

lemma Uint_unraw_RStr: "Uint (unraw (RStr b)) = ReadVarint b"
  by (cases b) (auto simp: ReadVarint_def)

lemma ucast_Uint_byte: "(ucast (Uint (unraw (RStr (big_Bytes (uint (b :: byte)))))) :: byte) = b"
proof -
  have n: "big_Bytes (uint b) = nat_be (unat b)"
    using big_Bytes_nat [of "unat b"] by (simp only: uint_nat)
  have "ReadVarint (nat_be (unat b)) = (ucast b :: uint64)"
  proof (cases "unat b = 0")
    case True
    have "ReadVarint [] = 0" by (simp add: ReadVarint_def)
    moreover have "b = 0" using True by (rule unat_eq_zero [THEN iffD1])
    ultimately show ?thesis by simp
  next
    case False
    then have "nat_be (unat b) = [b]" using nat_be_byte [of "unat b"] by simp
    then show ?thesis by (simp add: ReadVarint_def)
  qed
  then show ?thesis by (simp add: Uint_unraw_RStr n ucast_up_ucast_id is_up del: unraw.simps)
qed

lemma Bytes_unraw: "Bytes (unraw (RStr b)) = (if length b = 1 \<and> unat (b ! 0) \<le> 0x7f then [] else b)"
  by simp

text \<open>A \<open>uint64\<close> of 2^63 or more is encoded as the absolute value of its two's
  complement reading: \<open>Encode\<close> maps \<open>w\<close> and \<open>2^64 - w\<close> to the same bytes.\<close>

theorem Encode_uint64_wraps:
  "2 ^ 63 \<le> uint w \<Longrightarrow> Encode (VUint64 w) = Encode (VBig (Some (2 ^ 64 - uint w)))"
proof -
  assume "2 ^ 63 \<le> uint w"
  then have "sint w = - (2 ^ 64 - uint w)" by (simp add: sint_eq_uint)
  then show ?thesis by (simp add: big_Bytes_def abs_minus_commute)
qed

theorem Encode_uint64_wraps_witness:
  "(2::int) ^ 63 \<le> uint (18446744073709551615 :: uint64) \<and>
   Encode (VUint64 18446744073709551615) = Encode (VBig (Some 1))"
  using Encode_uint64_wraps [of 18446744073709551615] by simp

lemma nat_be_hd_ReadVarint:
  "length (nat_be n) \<notin> {0, 1, 2, 4, 8} \<Longrightarrow> \<exists>x < 256. ReadVarint (nat_be n) = of_nat x"
  by (cases "nat_be n") (auto simp: ReadVarint_def intro: exI [of _ "unat (hd (nat_be n))"])

lemma length_nat_be_readable:
  "length (nat_be n) \<in> {0, 1, 2, 4, 8} \<longleftrightarrow> n < 65536 \<or> 16777216 \<le> n \<and> n < 4294967296 \<or>
    72057594037927936 \<le> n \<and> n < 18446744073709551616"
proof (cases "n < 56")
  case True
  then show ?thesis by (cases "n = 0") (simp_all add: nat_be_byte)
next
  case False
  with len_ok_iff [of n] show ?thesis by (auto simp: len_ok_def)
qed

lemma Uint_reads_back:
  assumes "n < 2 ^ 64"
  shows "Uint (unraw (RStr (nat_be n))) = (of_nat n :: uint64) \<longleftrightarrow>
    length (nat_be n) \<in> {0, 1, 2, 4, 8}"
proof (cases "length (nat_be n) \<in> {0, 1, 2, 4, 8}")
  case True
  then have "Uint (unraw (RStr (nat_be n))) = of_nat n"
    by (simp only: Uint_unraw_RStr ReadVarint_be be_nat_nat_be)
  with True show ?thesis by blast
next
  case False
  then obtain x where x: "x < 256" "ReadVarint (nat_be n) = of_nat x"
    using nat_be_hd_ReadVarint by blast
  have "256 \<le> n" using False length_nat_be_readable [of n] by linarith
  then have "unat (of_nat n :: uint64) \<noteq> unat (of_nat x :: uint64)"
    using assms x(1) by (simp add: unat_of_nat)
  then show ?thesis using False x(2) by (metis Uint_unraw_RStr)
qed

lemma raw_uint64: "raw (VUint64 w) = RStr (nat_be (nat \<bar>sint w\<bar>))"
  by (simp add: big_Bytes_def)

lemma Uint_low_iff:
  assumes "uint (w :: uint64) < 2 ^ 63"
  shows "Uint (unraw (raw (VUint64 w))) = w \<longleftrightarrow>
    uint w < 2 ^ 16 \<or> (2 ^ 24 \<le> uint w \<and> uint w < 2 ^ 32) \<or> 2 ^ 56 \<le> uint w"
proof -
  define n where "n = nat (uint w)"
  have u: "0 \<le> uint w" "uint w < 18446744073709551616" using uint_lt2p [of w] by simp_all
  have "Uint (unraw (RStr (nat_be n))) = of_nat n \<longleftrightarrow> length (nat_be n) \<in> {0, 1, 2, 4, 8}"
    using unsigned_less [of w] by (intro Uint_reads_back) (simp add: n_def)
  moreover have "of_nat n = w" "int n = uint w" using u by (simp_all add: n_def)
  moreover have "raw (VUint64 w) = RStr (nat_be n)" using assms u unfolding raw_uint64 by (simp add: n_def sint_eq_uint)
  ultimately show ?thesis unfolding length_nat_be_readable using assms u by simp linarith
qed

lemma Uint_high_wraps:
  assumes "2 ^ 63 < uint (w :: uint64)"
  shows "Uint (unraw (raw (VUint64 w))) \<noteq> w"
proof -
  define n where "n = nat \<bar>sint w\<bar>"
  have n: "int n = 2 ^ 64 - uint w" using assms uint_lt2p [of w] by (simp add: n_def sint_eq_uint)
  have "Uint (unraw (RStr (nat_be n))) \<noteq> w"
  proof (cases "length (nat_be n) \<in> {0, 1, 2, 4, 8}")
    case True
    then have "Uint (unraw (RStr (nat_be n))) = of_nat n" using n assms by (subst Uint_reads_back) simp_all
    moreover have "uint (of_nat n :: uint64) = int n" using n assms by (simp add: unsigned_of_nat take_bit_nat_eq_self)
    ultimately show ?thesis using n assms by auto
  next
    case False
    then obtain x where "x < 256" "Uint (unraw (RStr (nat_be n))) = of_nat x"
      using nat_be_hd_ReadVarint Uint_unraw_RStr by metis
    moreover from this have "uint (of_nat x :: uint64) < 256"
      by (simp add: unsigned_of_nat take_bit_nat_eq_self)
    ultimately show ?thesis using assms by auto
  qed
  then show ?thesis unfolding raw_uint64 n_def .
qed

lemma Uint_middle: "uint (w :: uint64) = 2 ^ 63 \<Longrightarrow> Uint (unraw (raw (VUint64 w))) = w"
proof -
  assume w: "uint w = 2 ^ 63"
  then have n: "nat \<bar>sint w\<bar> = 2 ^ 63" by (simp add: sint_eq_uint)
  have "Uint (unraw (RStr (nat_be (2 ^ 63)))) = (of_nat (2 ^ 63) :: uint64) \<longleftrightarrow>
      length (nat_be (2 ^ 63)) \<in> {0, 1, 2, 4, 8}"
    by (intro Uint_reads_back) simp
  moreover have "w = of_nat (nat (uint w))" by simp
  then have "of_nat (2 ^ 63) = w" using w by simp
  ultimately show ?thesis unfolding raw_uint64 n length_nat_be_readable by simp
qed

lemma fits_uint64: "fits (raw (VUint64 w))"
proof -
  have "length (nat_be n) \<le> 8" if "n < 2 ^ 64" for n
    using that by (intro length_nat_be_le) simp
  moreover have "nat \<bar>sint w\<bar> < 2 ^ 64"
    using sint_greater_eq [of w] sint_less [of w] by simp
  ultimately have "length (big_Bytes (sint w)) \<le> 8" by (simp add: big_Bytes_def)
  then show ?thesis by (simp add: len_ok_def)
qed

lemma Uint_unraw_iff:
  "Uint (unraw (raw (VUint64 w))) = w \<longleftrightarrow>
   uint w < 2 ^ 16 \<or> (2 ^ 24 \<le> uint w \<and> uint w < 2 ^ 32) \<or> (2 ^ 56 \<le> uint w \<and> uint w \<le> 2 ^ 63)"
proof -
  consider "uint w < 2 ^ 63" | "uint w = 2 ^ 63" | "2 ^ 63 < uint w" by linarith
  then show ?thesis
    by cases (use Uint_low_iff [of w] Uint_middle [of w] Uint_high_wraps [of w] in auto)
qed

text \<open>C40. A nonce (or any other \<open>uint64\<close>) that is encoded and decoded again is read as the same number
  exactly when it is below 2^16, in [2^24, 2^32), in [2^56, 2^63) or equal to 2^63: \<open>ReadVarint\<close> has
  no case for three, five, six and seven bytes, and what does not fit an \<open>int64\<close> is written as
  another number.\<close>

theorem Uint_roundtrip_iff:
  "\<exists>v. NewValueFromBytes (Encode (VUint64 w)) = Inr v \<and>
     (Uint v = w \<longleftrightarrow>
      uint w < 2 ^ 16 \<or> (2 ^ 24 \<le> uint w \<and> uint w < 2 ^ 32) \<or> (2 ^ 56 \<le> uint w \<and> uint w \<le> 2 ^ 63))"
  using NewValueFromBytes_Encode [OF fits_uint64] Uint_unraw_iff by blast

text \<open>A byte string of 2^16 to 2^24 - 1 bytes is encoded with a three-byte length, of which
  the decoder reads only the first: it comes back truncated to at most 255 bytes.\<close>

theorem long_string_truncated:
  assumes "65536 \<le> length t" "length t < 16777216"
  shows "Decode (Encode (VBytes t)) 0 =
    Inr (VBytes (take (length t div 65536) t), 4 + length t div 65536)"
proof -
  let ?n = "length t"
  have h: "nat_be ?n = [of_nat (?n div 65536), of_nat (?n div 256 mod 256), of_nat (?n mod 256)]"
  proof -
    have "256 \<le> ?n div 256" "?n div 256 < 65536" using assms by simp_all
    moreover have "?n \<noteq> 0" using assms by auto
    ultimately show ?thesis by (simp add: nat_be_pos [of ?n] nat_be_two div_mult2_eq [symmetric])
  qed
  have d: "unat (of_nat (?n div 65536) :: byte) = ?n div 65536"
    using assms by (simp add: unat_of_nat less_mult_imp_div_less)
  have e: "Encode_bytes t = 0xba # nat_be ?n @ t" using assms h by (simp add: Encode_bytes_def Let_def)
  have "?n div 65536 \<le> ?n" by simp
  then show ?thesis
    using d unfolding Decode_def Decode_sp_def Encode.simps e h
    by (simp add: Decode_string_def Let_def goslice_def ReadVarint_3 unat_of_nat)
qed

theorem long_string_truncated_witness:
  "Decode (Encode (VBytes (replicate 65536 7))) 0 = Inr (VBytes [7], 5)"
proof -
  have "(65536::nat) \<le> length (replicate 65536 (7::byte))" "length (replicate 65536 (7::byte)) < 16777216"
    by simp_all
  from long_string_truncated [OF this] show ?thesis by simp
qed

section \<open>Framing\<close>

text \<open>
  The contract of an encoding whose frames can be sent one after the other: \<open>unframe\<close> takes the
  first frame off a byte string and leaves the rest. \<open>norm\<close> is what a message looks like after
  the trip.
\<close>

locale framing =
  fixes frame :: "'m \<Rightarrow> bytes" and unframe :: "bytes \<Rightarrow> ('n \<times> bytes) option"
    and norm :: "'m \<Rightarrow> 'n" and ok :: "'m \<Rightarrow> bool"
  assumes unframe_frame: "ok m \<Longrightarrow> unframe (frame m @ rest) = Some (norm m, rest)"
    and frame_nonempty: "ok m \<Longrightarrow> frame m \<noteq> []"
begin

fun unframes :: "nat \<Rightarrow> bytes \<Rightarrow> 'n list option" where
  "unframes 0 data = None"
| "unframes (Suc f) data =
     (if data = [] then Some []
      else case unframe data of
        None \<Rightarrow> None
      | Some (x, rest) \<Rightarrow> map_option ((#) x) (unframes f rest))"

lemma unframes_frames:
  "\<forall>m \<in> set ms. ok m \<Longrightarrow> length ms < f \<Longrightarrow> unframes f (concat (map frame ms)) = Some (map norm ms)"
proof (induction ms arbitrary: f)
  case Nil
  then show ?case by (cases f) auto
next
  case (Cons m ms)
  then obtain g where "f = Suc g" by (cases f) auto
  with Cons show ?case by (simp add: unframe_frame frame_nonempty)
qed

lemma frame_unique:
  "ok m \<Longrightarrow> ok m' \<Longrightarrow> frame m @ rest = frame m' @ rest' \<Longrightarrow> norm m = norm m' \<and> rest = rest'"
  using unframe_frame [of m rest] unframe_frame [of m' rest'] by simp

lemma length_frames: "\<forall>m \<in> set ms. ok m \<Longrightarrow> length ms \<le> length (concat (map frame ms))"
proof (induction ms)
  case (Cons m ms)
  then have "1 \<le> length (frame m)" using frame_nonempty [of m] by (simp add: Suc_le_eq)
  with Cons show ?case by (simp del: One_nat_def)
qed simp

end

definition rlp_unframe :: "bytes \<Rightarrow> (gval \<times> bytes) option" where
  "rlp_unframe data = (case Decode data 0 of Inl e \<Rightarrow> None | Inr (v, p) \<Rightarrow> Some (v, drop p data))"

interpretation rlp_frames: framing rlp rlp_unframe unraw fits
proof
  fix m rest
  assume "fits m"
  then have "Decode (rlp m @ rest) 0 = Inr (unraw m, length (rlp m))"
    using Decode_rlp_at [of m rest "2 * length (rlp m @ rest) + 2" "[]" "[]"] by (simp add: Decode_def Decode_sp_def)
  then show "rlp_unframe (rlp m @ rest) = Some (unraw m, rest)" by (simp add: rlp_unframe_def)
qed simp

text \<open>Items written one after the other are read back one after the other: no encoding is the
  beginning of another one.\<close>

theorem rlp_stream:
  assumes "\<forall>v \<in> set vs. fits (raw v)"
  shows "rlp_frames.unframes (length vs + 1) (concat (map Encode vs)) = Some (map (unraw \<circ> raw) vs)"
proof -
  have "Encode = rlp \<circ> raw" by (rule ext) (simp add: Encode_raw)
  then have "concat (map Encode vs) = concat (map rlp (map raw vs))" by simp
  then show ?thesis using rlp_frames.unframes_frames [of "map raw vs" "length vs + 1"] assms by simp
qed

theorem rlp_stream_witness:
  "rlp_frames.unframes 3 (concat (map Encode [VStr [1, 2], VList [VStr [0x64]]])) = Some [VBytes [1, 2], VList [VByte 0x64]]"
  using rlp_stream [of "[VStr [1, 2], VList [VStr [0x64]]]"]
  by (simp add: len_ok_def Encode_bytes_def numeral_3_eq_3 del: rlp_frames.unframes.simps)

end
