(* ===== verification/Compact.thy ===== *)
theory Compact
  imports Numbers
begin

text \<open>
  \<open>ethutil/encoding.go\<close> and the slice helpers of \<open>ethutil/helpers.go\<close>: trie keys as
  nibble lists, with 16 as the terminator of a complete key, and their compact
  (hex-prefix) encoding.
\<close>

section \<open>Slice helpers\<close>

definition CompareIntSlice :: "nat list \<Rightarrow> nat list \<Rightarrow> bool" where
  "CompareIntSlice a b \<longleftrightarrow> length a = length b \<and> list_all (\<lambda>i. a ! i = b ! i) [0..<length a]"

text \<open>
  The loop of \<open>MatchingNibbleLength(a, b)\<close>. \<open>a[:i+1]\<close> may reach past \<open>len(a)\<close> up to the
  capacity: \<open>ha\<close> and \<open>hb\<close> are the elements between length and capacity.
\<close>

function MNL_loop :: "nat list \<Rightarrow> nat list \<Rightarrow> nat list \<Rightarrow> nat list \<Rightarrow> nat \<Rightarrow> nat res" where
  "MNL_loop a ha b hb i =
     rbind (goslice a ha 0 (i + 1)) (\<lambda>x.
     rbind (goslice b hb 0 (i + 1)) (\<lambda>y.
     if CompareIntSlice x y \<and> i < length b then MNL_loop a ha b hb (i + 1) else Inr i))"
  by pat_completeness auto
termination
  by (relation "measure (\<lambda>(a, ha, b, hb, i). length b - i)") auto

declare MNL_loop.simps [simp del]

definition MatchingNibbleLength :: "nat list \<Rightarrow> nat list \<Rightarrow> nat list \<Rightarrow> nat list \<Rightarrow> nat res" where
  "MatchingNibbleLength a ha b hb = MNL_loop a ha b hb 0"

section \<open>Compact encoding\<close>

fun pack_nibbles :: "nat list \<Rightarrow> bytes" where
  "pack_nibbles (a # b # r) = of_nat (16 * a + b) # pack_nibbles r"
| "pack_nibbles _ = []"

definition CompactEncode :: "nat list \<Rightarrow> bytes res" where
  "CompactEncode hexSlice =
     (if hexSlice = [] then Inl IndexOutOfRange
      else
        let terminator = (if last hexSlice = 16 then 1 else 0);
            hs = (if terminator = 1 then butlast hexSlice else hexSlice);
            oddlen = length hs mod 2;
            flags = 2 * terminator + oddlen
        in Inr (pack_nibbles (if oddlen \<noteq> 0 then flags # hs else flags # 0 # hs)))"

definition hex_base :: bytes where
  "hex_base = map hex_digit [0..<16]"

definition IndexByte :: "bytes \<Rightarrow> byte \<Rightarrow> nat" where
  "IndexByte base c = length (takeWhile (\<lambda>x. x \<noteq> c) base)"

definition CompactHexDecode :: "bytes \<Rightarrow> nat list" where
  "CompactHexDecode str = map (IndexByte hex_base) (Hex str) @ [16]"

definition CompactDecode :: "bytes \<Rightarrow> nat list res" where
  "CompactDecode str =
     (let base = CompactHexDecode str;
          base = take (length base - 1) base
      in rbind (goindex base 0) (\<lambda>b0.
         let base = (if b0 \<ge> 2 then base @ [16] else base)
         in if b0 mod 2 = 1 then goslice base [] 1 (length base)
            else goslice base [] 2 (length base)))"

definition DecodeCompact :: "nat list \<Rightarrow> bytes" where
  "DecodeCompact key = FromHex (map (\<lambda>v. hex_base ! v) (filter (\<lambda>v. v < 16) key))"

section \<open>Nibble lists\<close>

text \<open>A key: non-empty, nibbles, and possibly the terminator at the end.\<close>

definition is_key :: "nat list \<Rightarrow> bool" where
  "is_key k \<longleftrightarrow> k \<noteq> [] \<and> (\<forall>n \<in> set (butlast k). n < 16) \<and> last k \<le> 16"

definition terminated :: "nat list \<Rightarrow> bool" where
  "terminated k \<longleftrightarrow> k \<noteq> [] \<and> (\<forall>n \<in> set (butlast k). n < 16) \<and> last k = 16"

fun nibbles_of :: "bytes \<Rightarrow> nat list" where
  "nibbles_of [] = []"
| "nibbles_of (b # bs) = unat b div 16 # unat b mod 16 # nibbles_of bs"

lemma terminated_is_key [intro]: "terminated k \<Longrightarrow> is_key k"
  by (simp add: terminated_def is_key_def)

lemma CompareIntSlice_eq [simp]: "CompareIntSlice a b \<longleftrightarrow> a = b"
  by (auto simp: CompareIntSlice_def list_all_iff intro: nth_equalityI)

lemma nibbles_of_lt: "n \<in> set (nibbles_of bs) \<Longrightarrow> n < 16"
  by (induction bs rule: nibbles_of.induct) (auto simp: less_mult_imp_div_less)

lemma nibbles_of_append: "nibbles_of (as @ bs) = nibbles_of as @ nibbles_of bs"
  by (induction as) simp_all

lemma hex_digit_inj: "d < 16 \<Longrightarrow> e < 16 \<Longrightarrow> hex_digit d = hex_digit e \<longleftrightarrow> d = e"
  by (metis option.inject unhex_hex_digit)

lemma IndexByte_hex: "d < 16 \<Longrightarrow> IndexByte hex_base (hex_digit d) = d"
proof -
  assume d: "d < 16"
  then have split: "hex_base = map hex_digit [0..<d] @ hex_digit d # map hex_digit [Suc d..<16]"
    unfolding hex_base_def using upt_add_eq_append [of 0 d "16 - d"] by (simp add: upt_conv_Cons)
  have "\<forall>x \<in> set (map hex_digit [0..<d]). x \<noteq> hex_digit d" using d by (auto simp: hex_digit_inj)
  then have "takeWhile (\<lambda>x. x \<noteq> hex_digit d) hex_base = map hex_digit [0..<d]"
    unfolding split by (subst takeWhile_append2) auto
  then show ?thesis by (simp add: IndexByte_def)
qed

lemma CompactHexDecode_nibbles: "CompactHexDecode str = nibbles_of str @ [16]"
proof -
  have "map (IndexByte hex_base) (Hex str) = nibbles_of str"
  proof (induction str)
    case (Cons b str)
    have "unat b div 16 < 16" using unat_byte_bound [of b] by (simp add: less_mult_imp_div_less)
    with Cons show ?case by (simp add: Hex_Cons IndexByte_hex)
  qed (simp add: Hex_def)
  then show ?thesis by (simp add: CompactHexDecode_def)
qed

lemma terminated_CompactHexDecode: "terminated (CompactHexDecode str)"
  by (auto simp: terminated_def CompactHexDecode_nibbles dest: nibbles_of_lt)

lemma nibbles_of_inject [simp]: "nibbles_of a = nibbles_of b \<longleftrightarrow> a = b"
proof (induction a arbitrary: b)
  case Nil
  then show ?case by (cases b) auto
next
  case (Cons x a)
  have "x = y" if "unat x div 16 = unat y div 16" "unat x mod 16 = unat y mod 16" for y
  proof -
    have "unat x = unat y" using that by (metis div_mod_decomp)
    then show ?thesis by (rule word_unat_eq_iff [THEN iffD2])
  qed
  with Cons show ?case by (cases b) auto
qed

lemma CompactHexDecode_inject [simp]: "CompactHexDecode a = CompactHexDecode b \<longleftrightarrow> a = b"
  by (simp add: CompactHexDecode_nibbles)

lemma nibbles_of_pack:
  "even (length ns) \<Longrightarrow> \<forall>n \<in> set ns. n < 16 \<Longrightarrow> nibbles_of (pack_nibbles ns) = ns"
proof (induction ns rule: pack_nibbles.induct)
  case (1 a b r)
  then have "unat (of_nat (16 * a + b) :: byte) = 16 * a + b" by (simp add: unat_of_nat del: of_nat_add)
  with 1 show ?case by (simp del: of_nat_add)
qed auto

section \<open>Round trips\<close>

lemma CompactEncode_Inr: "k \<noteq> [] \<Longrightarrow> \<exists>s. CompactEncode k = Inr s"
  by (simp add: CompactEncode_def Let_def)

lemma CompactDecode_Encode:
  assumes "is_key k"
  shows "\<exists>s. CompactEncode k = Inr s \<and> CompactDecode s = Inr k"
proof -
  define t where "t = (if last k = 16 then 1::nat else 0)"
  define hs where "hs = (if last k = 16 then butlast k else k)"
  define ns where "ns = (if odd (length hs) then (2 * t + 1) # hs else (2 * t) # 0 # hs)"
  have k: "k = hs @ (if last k = 16 then [16] else [])" "k \<noteq> []"
    using assms by (auto simp: hs_def is_key_def) (metis append_butlast_last_id)
  have lt: "\<forall>n \<in> set hs. n < 16"
  proof (cases "last k = 16")
    case False
    then have "last k < 16" using assms by (simp add: is_key_def)
    then show ?thesis using assms False
      by (metis Un_iff append_butlast_last_id empty_iff hs_def insert_iff is_key_def list.set set_append)
  qed (use assms in \<open>auto simp: hs_def is_key_def\<close>)
  have enc: "CompactEncode k = Inr (pack_nibbles ns)"
    using k(2) by (auto simp: CompactEncode_def Let_def ns_def hs_def t_def odd_iff_mod_2_eq_one)
  have "even (length ns)" "\<forall>n \<in> set ns. n < 16" using lt by (auto simp: ns_def t_def)
  then have base: "CompactHexDecode (pack_nibbles ns) = ns @ [16]"
    by (simp add: CompactHexDecode_nibbles nibbles_of_pack)
  have "CompactDecode (pack_nibbles ns) = Inr k"
    unfolding CompactDecode_def base
    using k by (auto simp: Let_def ns_def t_def goslice_def)
  with enc show ?thesis by blast
qed

text \<open>C29. Compact encoding loses nothing: decoding the encoding of any key, terminated or not,
  of odd or even length, gives the key back, so different keys have different encodings.\<close>

theorem Compact_roundtrip:
  assumes "is_key k" "is_key k'"
  shows "(\<exists>s. CompactEncode k = Inr s \<and> CompactDecode s = Inr k) \<and>
    (CompactEncode k = CompactEncode k' \<longleftrightarrow> k = k')"
  using CompactDecode_Encode [OF assms(1)] CompactDecode_Encode [OF assms(2)] by auto

theorem Compact_roundtrip_witness:
  "(\<exists>s. CompactEncode [0, 15, 1, 12, 11, 8, 16] = Inr s \<and> CompactDecode s = Inr [0, 15, 1, 12, 11, 8, 16]) \<and>
   CompactEncode [0, 15, 1, 12, 11, 8, 16] \<noteq> CompactEncode [0, 15, 1, 12, 11, 8]"
proof -
  have k: "is_key [0, 15, 1, 12, 11, 8, 16]" "is_key [0, 15, 1, 12, 11, 8]" by (simp_all add: is_key_def)
  from Compact_roundtrip [OF k] show ?thesis by simp
qed

text \<open>The nibbles of a key string give the string back: the iterator, which rebuilds keys
  with \<open>DecodeCompact\<close>, sees the keys that were stored.\<close>

theorem DecodeCompact_CompactHexDecode: "DecodeCompact (CompactHexDecode str) = str"
proof -
  have f: "filter (\<lambda>v. v < 16) (nibbles_of str) = nibbles_of str"
    using nibbles_of_lt by (auto simp: filter_id_conv)
  have "map ((!) hex_base) (nibbles_of str) = Hex str"
  proof (induction str)
    case (Cons b str)
    have "unat b div 16 < 16" using unat_byte_bound [of b] by (simp add: less_mult_imp_div_less)
    with Cons show ?case by (simp add: Hex_Cons hex_base_def)
  qed (simp add: Hex_def)
  with f show ?thesis by (simp add: DecodeCompact_def CompactHexDecode_nibbles)
qed

end
