(* ===== verification/Database.thy ===== *)
theory Database
  imports Numbers "HOL-Library.AList"
begin

text \<open>
  \<open>ethutil/db.go\<close> (the \<open>Database\<close> interface) and \<open>ethdb/memory_database.go\<close>. The
  interface is the locale \<open>database\<close>; the in-memory database interprets it. The
  on-disk database wraps goleveldb, whose Put, Get and Delete keep the same laws.
\<close>

section \<open>The interface\<close>

locale database =
  fixes put :: "'k \<Rightarrow> 'v list \<Rightarrow> 'd \<Rightarrow> 'd"
    and get :: "'k \<Rightarrow> 'd \<Rightarrow> 'v list"
    and delete :: "'k \<Rightarrow> 'd \<Rightarrow> 'd"
  assumes get_put: "get k (put k' v d) = (if k = k' then v else get k d)"
    and get_delete: "get k (delete k' d) = (if k = k' then [] else get k d)"
begin

lemma get_put_same: "get k (put k v d) = v"
  by (simp add: get_put)

lemma get_put_other: "k \<noteq> k' \<Longrightarrow> get k (put k' v d) = get k d"
  by (simp add: get_put)

lemma get_puts:
  "distinct (map fst kvs) \<Longrightarrow>
   get k (fold (\<lambda>(k', v). put k' v) kvs d) = (case map_of kvs k of Some v \<Rightarrow> v | None \<Rightarrow> get k d)"
proof (induction kvs arbitrary: d)
  case (Cons kv kvs)
  obtain k' v where kv: "kv = (k', v)" by (cases kv)
  from Cons.prems kv have "map_of kvs k' = None" by (simp add: map_of_eq_None_iff)
  with Cons kv show ?case by (simp add: get_put split: option.splits)
qed simp

text \<open>A batch of writes with different keys can be done in any order.\<close>

lemma puts_order:
  assumes "distinct (map fst kvs)" "distinct (map fst kvs')" "set kvs = set kvs'"
  shows "get k (fold (\<lambda>(k', v). put k' v) kvs d) = get k (fold (\<lambda>(k', v). put k' v) kvs' d)"
proof -
  have "map_of kvs = map_of kvs'" using assms by (intro map_of_inject_set [THEN iffD2])
  then show ?thesis by (simp add: get_puts assms)
qed

lemma get_deletes: "get k (fold delete ks d) = (if k \<in> set ks then [] else get k d)"
  by (induction ks arbitrary: d) (auto simp: get_delete)

end

section \<open>MemDatabase\<close>

type_synonym memdb = "bytes \<rightharpoonup> bytes"

definition NewMemDatabase :: memdb where
  "NewMemDatabase = Map.empty"

definition db_Put :: "bytes \<Rightarrow> bytes \<Rightarrow> memdb \<Rightarrow> memdb" where
  "db_Put key value db = db(key \<mapsto> value)"

definition db_Get :: "bytes \<Rightarrow> memdb \<Rightarrow> bytes" where
  "db_Get key db = (case db key of None \<Rightarrow> [] | Some v \<Rightarrow> v)"

definition db_Delete :: "bytes \<Rightarrow> memdb \<Rightarrow> memdb" where
  "db_Delete key db = db(key := None)"

text \<open>The bytes of a Go string literal.\<close>

definition lit :: "string \<Rightarrow> bytes" where
  "lit s = map (\<lambda>c. of_nat (of_char c)) s"

definition LastKnownTD :: "memdb \<Rightarrow> bytes" where
  "LastKnownTD db =
     (let data = db_Get (lit ''LastKnownTotalDifficulty'') db in
      if length data = 0 then [0] else data)"

interpretation memdb: database db_Put db_Get db_Delete
  by unfold_locales (auto simp: db_Put_def db_Get_def db_Delete_def)

lemma db_Get_empty [simp]: "db_Get k NewMemDatabase = []"
  by (simp add: db_Get_def NewMemDatabase_def)

end
