(* ===== verification/Trie.thy ===== *)
theory Trie
  imports Rlp Compact Database
begin

text \<open>
  \<open>ethutil/trie.go\<close>: the node cache and the Merkle Patricia trie over it. The cache's
  map is an association list (Go's iteration order is unspecified; nothing below
  depends on it). The database the cache points to is passed to each operation and
  returned when written. \<open>sha\<close> is Keccak-256, a parameter. The operations that
  follow references between nodes take fuel; \<open>Trie_Correct\<close> shows how much is enough.
\<close>

section \<open>Nodes and the cache\<close>

record Node =
  Node_Key :: bytes
  Node_Value :: gval
  Node_Dirty :: bool

definition NewNode :: "bytes \<Rightarrow> gval \<Rightarrow> bool \<Rightarrow> Node" where
  "NewNode key val dirty = \<lparr>Node_Key = key, Node_Value = val, Node_Dirty = dirty\<rparr>"

definition Node_Copy :: "Node \<Rightarrow> Node" where
  "Node_Copy n = NewNode (Node_Key n) (Node_Value n) (Node_Dirty n)"

record Cache =
  nodes :: "(bytes \<times> Node) list"
  IsDirty :: bool

definition NewCache :: Cache where
  "NewCache = \<lparr>nodes = [], IsDirty = False\<rparr>"

definition Cache_Len :: "Cache \<Rightarrow> nat" where
  "Cache_Len c = length (nodes c)"

definition Cache_Put :: "(bytes \<Rightarrow> bytes) \<Rightarrow> gval \<Rightarrow> Cache \<Rightarrow> gval \<times> Cache" where
  "Cache_Put sha v c =
     (let value = NewValue v; enc = Encode value in
      if 32 \<le> length enc then
        let h = sha enc in
        (VBytes h, c\<lparr>nodes := AList.update h (NewNode h value True) (nodes c), IsDirty := True\<rparr>)
      else (v, c))"

definition Cache_Get :: "memdb \<Rightarrow> bytes \<Rightarrow> Cache \<Rightarrow> (gval \<times> Cache) res" where
  "Cache_Get db key c =
     (case map_of (nodes c) key of
        Some n \<Rightarrow> Inr (Node_Value n, c)
      | None \<Rightarrow>
          rbind (NewValueFromBytes (db_Get key db)) (\<lambda>value.
          Inr (value, c\<lparr>nodes := AList.update key (NewNode key value False) (nodes c)\<rparr>)))"

definition Cache_Delete :: "bytes \<Rightarrow> Cache \<times> memdb \<Rightarrow> Cache \<times> memdb" where
  "Cache_Delete key = (\<lambda>(c, db). (c\<lparr>nodes := AList.delete key (nodes c)\<rparr>, db_Delete key db))"

definition Commit :: "Cache \<times> memdb \<Rightarrow> Cache \<times> memdb" where
  "Commit = (\<lambda>(c, db).
     if \<not> IsDirty c then (c, db)
     else
       let db' = fold (\<lambda>(key, n) d. if Node_Dirty n then db_Put key (Encode (Node_Value n)) d else d) (nodes c) db;
           ns = map (\<lambda>(key, n). (key, n\<lparr>Node_Dirty := False\<rparr>)) (nodes c)
       in (\<lparr>nodes = (if 200 < length ns then [] else ns), IsDirty = False\<rparr>, db'))"

definition Cache_Undo :: "Cache \<Rightarrow> Cache" where
  "Cache_Undo c = \<lparr>nodes = filter (\<lambda>(key, n). \<not> Node_Dirty n) (nodes c), IsDirty = False\<rparr>"

section \<open>The trie\<close>

record Trie =
  prevRoot :: gval
  Root :: gval
  cache :: Cache

definition copyRoot :: "gval \<Rightarrow> gval" where
  "copyRoot root = (case root of VBytes b \<Rightarrow> VBytes (CopyBytes b) | _ \<Rightarrow> root)"

definition NewTrie :: "gval \<Rightarrow> Trie" where
  "NewTrie root = \<lparr>prevRoot = copyRoot root, Root = copyRoot root, cache = NewCache\<rparr>"

definition Trie_Sync :: "Trie \<times> memdb \<Rightarrow> Trie \<times> memdb" where
  "Trie_Sync = (\<lambda>(t, db).
     let (c, db') = Commit (cache t, db) in (t\<lparr>cache := c, prevRoot := copyRoot (Root t)\<rparr>, db'))"

definition Trie_Undo :: "Trie \<Rightarrow> Trie" where
  "Trie_Undo t = t\<lparr>cache := Cache_Undo (cache t), Root := prevRoot t\<rparr>"

definition GetNode :: "memdb \<Rightarrow> gval \<Rightarrow> Cache \<Rightarrow> (gval \<times> Cache) res" where
  "GetNode db node c =
     (let n = NewValue node in
      if \<not> IsNil (Get n 0) then Inr (n, c)
      else
        let str = Str n in
        if length str = 0 then Inr (n, c)
        else if length str < 32 then rbind (NewValueFromBytes str) (\<lambda>v. Inr (v, c))
        else Cache_Get db (Bytes n) c)"

fun GetState :: "nat \<Rightarrow> memdb \<Rightarrow> gval \<Rightarrow> nat list \<Rightarrow> Cache \<Rightarrow> (gval \<times> Cache) res" where
  "GetState 0 db node key c = Inl OutOfFuel"
| "GetState (Suc f) db node key c =
     (let n = NewValue node in
      if key = [] \<or> IsNil n \<or> Len n = 0 then Inr (node, c)
      else
        rbind (GetNode db node c) (\<lambda>(currentNode, c).
        if Len currentNode = 0 then Inr (VStr [], c)
        else if Len currentNode = 2 then
          rbind (CompactDecode (Str (Get currentNode 0))) (\<lambda>k.
          let v = Raw (Get currentNode 1) in
          if length k \<le> length key \<and> CompareIntSlice k (take (length k) key)
          then GetState f db v (drop (length k) key) c
          else Inr (VStr [], c))
        else if Len currentNode = 17 then
          GetState f db (Raw (Get currentNode (int (hd key)))) (tl key) c
        else Inr (VStr [], c)))"

definition Trie_Put :: "(bytes \<Rightarrow> bytes) \<Rightarrow> gval \<Rightarrow> Cache \<Rightarrow> gval \<times> Cache" where
  "Trie_Put sha node c = Cache_Put sha node c"

definition EmptyStringSlice :: "nat \<Rightarrow> gval list" where
  "EmptyStringSlice l = replicate l (VStr [])"

definition setIdx :: "'a list \<Rightarrow> nat \<Rightarrow> 'a \<Rightarrow> 'a list res" where
  "setIdx xs i v = (if i < length xs then Inr (xs[i := v]) else Inl IndexOutOfRange)"

text \<open>The 17-element copy of a branch node, nil entries replaced by the empty string.\<close>

definition copyBranch :: "gval \<Rightarrow> gval list" where
  "copyBranch cur =
     map (\<lambda>i. let cpy = Raw (Get cur (int i)) in if cpy \<noteq> VNil then cpy else EmptyStringSlice 17 ! i) [0..<17]"

text \<open>
  The test for a missing node at the head of \<open>InsertState\<close> and \<open>DeleteState\<close>. For a
  string, \<open>Get(0)\<close> is always nil, so every string, empty or not, counts as missing.
\<close>

definition noNode :: "gval \<Rightarrow> bool res" where
  "noNode node =
     (let n = NewValue node in
      if node = VNil then Inr True
      else rbind (Type n) (\<lambda>ty.
        Inr (ty = KString \<and> (Str n = [] \<or> IsNil (Get n 0)) \<or> Len n = 0)))"

definition putPair :: "(bytes \<Rightarrow> bytes) \<Rightarrow> nat list \<Rightarrow> gval \<Rightarrow> Cache \<Rightarrow> (gval \<times> Cache) res" where
  "putPair sha key v c = rbind (CompactEncode key) (\<lambda>s. Inr (Trie_Put sha (VList [VStr s, v]) c))"

text \<open>
  What lies between length and capacity of the slice \<open>CompactDecode\<close> returns: for a key
  without terminator, the terminator it cut off with \<open>base[:len(base)-1]\<close>.
\<close>

definition decoded_hidden :: "nat list \<Rightarrow> nat list" where
  "decoded_hidden k = (if k \<noteq> [] \<and> last k = 16 then [] else [16])"

text \<open>\<open>InsertState("", key, v)\<close>: the two calls that build the children of a new branch.\<close>

definition insertEmpty :: "(bytes \<Rightarrow> bytes) \<Rightarrow> nat list \<Rightarrow> gval \<Rightarrow> Cache \<Rightarrow> (gval \<times> Cache) res" where
  "insertEmpty sha key v c = (if key = [] then Inr (v, c) else putPair sha key v c)"

text \<open>\<open>spare\<close> is the capacity behind the key slice, which every suffix of it keeps.\<close>

fun InsertState ::
    "nat \<Rightarrow> (bytes \<Rightarrow> bytes) \<Rightarrow> memdb \<Rightarrow> nat \<Rightarrow> gval \<Rightarrow> nat list \<Rightarrow> gval \<Rightarrow> Cache \<Rightarrow> (gval \<times> Cache) res" where
  "InsertState 0 sha db spare node key value c = Inl OutOfFuel"
| "InsertState (Suc f) sha db spare node key value c =
     (if key = [] then Inr (value, c)
      else rbind (noNode node) (\<lambda>missing.
      if missing then putPair sha key value c
      else rbind (GetNode db node c) (\<lambda>(currentNode, c).
      if Len currentNode = 2 then
        rbind (CompactDecode (Str (Get currentNode 0))) (\<lambda>k.
        let v = Raw (Get currentNode 1) in
        if CompareIntSlice k key then putPair sha key value c
        else
          rbind (MatchingNibbleLength key (replicate spare 0) k (decoded_hidden k)) (\<lambda>ml.
          rbind
            (if ml = length k then
               rbind (goslice key [] ml (length key)) (\<lambda>rest. InsertState f sha db spare v rest value c)
             else
               rbind (goslice k [] (ml + 1) (length k)) (\<lambda>krest.
               rbind (insertEmpty sha krest v c) (\<lambda>(oldNode, c).
               rbind (goslice key [] (ml + 1) (length key)) (\<lambda>rest.
               rbind (insertEmpty sha rest value c) (\<lambda>(newNode, c).
               rbind (goindex k ml) (\<lambda>ki.
               rbind (setIdx (EmptyStringSlice 17) ki oldNode) (\<lambda>scaledSlice.
               rbind (goindex key ml) (\<lambda>keyi.
               rbind (setIdx scaledSlice keyi newNode) (\<lambda>scaledSlice.
               Inr (Trie_Put sha (VList scaledSlice) c))))))))))
            (\<lambda>(newHash, c).
            if ml = 0 then Inr (newHash, c)
            else rbind (goslice key (replicate spare 0) 0 ml) (\<lambda>pre. putPair sha pre newHash c))))
      else
        rbind (InsertState f sha db spare (Raw (Get currentNode (int (hd key)))) (tl key) value c) (\<lambda>(sub, c).
        rbind (setIdx (copyBranch currentNode) (hd key) sub) (\<lambda>newNode.
        Inr (Trie_Put sha (VList newNode) c))))))"

text \<open>The slot that is left after a deletion: -1 none, -2 several.\<close>

definition amount_left :: "gval list \<Rightarrow> int" where
  "amount_left n =
     foldl (\<lambda>amount i. if n ! i \<noteq> VStr [] then (if amount = -1 then int i else -2) else amount) (-1) [0..<17]"

definition shrinkBranch :: "(bytes \<Rightarrow> bytes) \<Rightarrow> memdb \<Rightarrow> gval list \<Rightarrow> Cache \<Rightarrow> (gval list \<times> Cache) res" where
  "shrinkBranch sha db n c =
     (let amount = amount_left n in
      if amount = 16 then
        rbind (CompactEncode [16]) (\<lambda>s. Inr ([VStr s, n ! 16], c))
      else if amount \<ge> 0 then
        rbind (GetNode db (n ! nat amount) c) (\<lambda>(child, c).
        if Len child = 17 then
          rbind (CompactEncode [nat amount]) (\<lambda>s. Inr ([VStr s, n ! nat amount], c))
        else if Len child = 2 then
          rbind (CompactDecode (Str (Get child 0))) (\<lambda>ck.
          rbind (CompactEncode (nat amount # ck)) (\<lambda>s. Inr ([VStr s, VStr (Str (Get child 1))], c)))
        else Inr ([], c))
      else Inr (n, c))"

fun DeleteState ::
    "nat \<Rightarrow> (bytes \<Rightarrow> bytes) \<Rightarrow> memdb \<Rightarrow> nat \<Rightarrow> gval \<Rightarrow> nat list \<Rightarrow> Cache \<Rightarrow> (gval \<times> Cache) res" where
  "DeleteState 0 sha db spare node key c = Inl OutOfFuel"
| "DeleteState (Suc f) sha db spare node key c =
     (if key = [] then Inr (VStr [], c)
      else rbind (noNode node) (\<lambda>missing.
      if missing then Inr (VStr [], c)
      else rbind (GetNode db node c) (\<lambda>(currentNode, c).
      if Len currentNode = 2 then
        rbind (CompactDecode (Str (Get currentNode 0))) (\<lambda>k.
        let v = Raw (Get currentNode 1) in
        if CompareIntSlice k key then Inr (VStr [], c)
        else rbind (goslice key (replicate spare 0) 0 (length k)) (\<lambda>pre.
          if CompareIntSlice pre k then
            rbind (goslice key [] (length k) (length key)) (\<lambda>rest.
            rbind (DeleteState f sha db spare v rest c) (\<lambda>(hash, c).
            rbind (GetNode db hash c) (\<lambda>(child, c).
            if Len child = 2 then
              rbind (CompactDecode (Str (Get child 0))) (\<lambda>ck.
              putPair sha (k @ ck) (Raw (Get child 1)) c)
            else Inr (Trie_Put sha (VList [VStr (Str (Get currentNode 0)), hash]) c))))
          else Inr (node, c)))
      else
        let n = copyBranch currentNode in
        rbind (goindex n (hd key)) (\<lambda>nk.
        rbind (DeleteState f sha db spare nk (tl key) c) (\<lambda>(sub, c).
        rbind (shrinkBranch sha db (n[hd key := sub]) c) (\<lambda>(newNode, c).
        Inr (Trie_Put sha (VList newNode) c)))))))"

text \<open>Enough for every descent along one key, see \<open>Trie_Correct\<close>.\<close>

definition key_fuel :: "bytes \<Rightarrow> nat" where
  "key_fuel key = 2 * length key + 4"

definition UpdateState ::
    "nat \<Rightarrow> (bytes \<Rightarrow> bytes) \<Rightarrow> memdb \<Rightarrow> nat \<Rightarrow> gval \<Rightarrow> nat list \<Rightarrow> bytes \<Rightarrow> Cache \<Rightarrow> (gval \<times> Cache) res" where
  "UpdateState f sha db spare node key value c =
     (if value \<noteq> [] then InsertState f sha db spare node key (VStr value) c
      else DeleteState f sha db spare node key c)"

definition Update :: "nat \<Rightarrow> (bytes \<Rightarrow> bytes) \<Rightarrow> memdb \<Rightarrow> nat \<Rightarrow> bytes \<Rightarrow> bytes \<Rightarrow> Trie \<Rightarrow> Trie res" where
  "Update f sha db spare key value t =
     (let k = CompactHexDecode key in
      rbind (UpdateState f sha db spare (Root t) k value (cache t)) (\<lambda>(r, c).
      Inr (t\<lparr>Root := r, cache := c\<rparr>)))"

definition Trie_Get :: "nat \<Rightarrow> memdb \<Rightarrow> bytes \<Rightarrow> Trie \<Rightarrow> (bytes \<times> Trie) res" where
  "Trie_Get f db key t =
     (let k = CompactHexDecode key in
      rbind (GetState f db (Root t) k (cache t)) (\<lambda>(v, c).
      Inr (Str (NewValue v), t\<lparr>cache := c\<rparr>)))"

definition Trie_Delete :: "nat \<Rightarrow> (bytes \<Rightarrow> bytes) \<Rightarrow> memdb \<Rightarrow> nat \<Rightarrow> bytes \<Rightarrow> Trie \<Rightarrow> Trie res" where
  "Trie_Delete f sha db spare key t = Update f sha db spare key [] t"

definition Trie_Cmp :: "Trie \<Rightarrow> Trie \<Rightarrow> bool" where
  "Trie_Cmp t t' \<longleftrightarrow> Cmp (NewValue (Root t)) (NewValue (Root t'))"

definition Trie_Copy :: "Trie \<Rightarrow> Trie" where
  "Trie_Copy t =
     (let tr = NewTrie (Root t) in
      tr\<lparr>cache := (cache tr)\<lparr>nodes := map (\<lambda>(key, n). (key, Node_Copy n)) (nodes (cache t))\<rparr>\<rparr>)"

lemma copyRoot_id [simp]: "copyRoot root = root"
  by (cases root) (simp_all add: copyRoot_def CopyBytes_def)

end
