(* ===== verification/TrieIterator.thy ===== *)
theory TrieIterator
  imports Trie
begin

text \<open>
  The iterator of \<open>ethutil/trie.go\<close>. \<open>workNode\<close>/\<open>getNode\<close> gather hashes and values
  for \<open>Collect\<close> and \<open>Purge\<close>; \<open>iterateNode\<close>/\<open>fetchNode\<close> call the callback of \<open>Each\<close>. A
  callback is modelled by the list of the arguments it is called with, in order. The
  loop over the entries of a branch is the second function of each pair.
\<close>

section \<open>Collect and Purge\<close>

record TrieIterator =
  shas :: "bytes list"
  vals :: "bytes list"
  it_cache :: Cache

definition NewTrieIterator :: "Trie \<Rightarrow> TrieIterator" where
  "NewTrieIterator t = \<lparr>shas = [], vals = [], it_cache = cache t\<rparr>"

definition add_val :: "bytes \<Rightarrow> TrieIterator \<Rightarrow> TrieIterator" where
  "add_val v it = it\<lparr>vals := vals it @ [v]\<rparr>"

definition add_sha :: "bytes \<Rightarrow> TrieIterator \<Rightarrow> TrieIterator" where
  "add_sha h it = it\<lparr>shas := shas it @ [h]\<rparr>"

text \<open>\<open>it.trie.cache.Get(node)\<close>.\<close>

definition it_fetch :: "memdb \<Rightarrow> bytes \<Rightarrow> TrieIterator \<Rightarrow> (gval \<times> TrieIterator) res" where
  "it_fetch db node it =
     rbind (Cache_Get db node (it_cache it)) (\<lambda>(v, c). Inr (v, it\<lparr>it_cache := c\<rparr>))"

text \<open>The last nibble of a leaf's key is the terminator: \<open>k[len(k)-1] == 16\<close>.\<close>

definition isLeafKey :: "nat list \<Rightarrow> bool res" where
  "isLeafKey k = (if k = [] then Inl IndexOutOfRange else Inr (k ! (length k - 1) = 16))"

fun workNode :: "nat \<Rightarrow> memdb \<Rightarrow> gval \<Rightarrow> TrieIterator \<Rightarrow> TrieIterator res"
and workItems :: "nat \<Rightarrow> memdb \<Rightarrow> gval \<Rightarrow> nat \<Rightarrow> TrieIterator \<Rightarrow> TrieIterator res" where
  "workNode 0 db cur it = Inl OutOfFuel"
| "workNode (Suc f) db cur it =
     (if Len cur = 2 then
        rbind (CompactDecode (Str (Get cur 0))) (\<lambda>k.
        if Str (Get cur 1) = [] then workNode f db (Get cur 1) it
        else rbind (isLeafKey k) (\<lambda>leaf.
          if leaf then Inr (add_val (Str (Get cur 1)) it)
          else rbind (it_fetch db (Bytes (Get cur 1)) (add_sha (Bytes (Get cur 1)) it)) (\<lambda>(v, it). workNode f db v it)))
      else workItems f db cur 0 it)"
| "workItems 0 db cur i it = Inl OutOfFuel"
| "workItems (Suc f) db cur i it =
     (if Len cur \<le> i then Inr it
      else
        rbind
          (if i = 16 \<and> Len (Get cur (int i)) \<noteq> 0 then Inr (add_val (Str (Get cur (int i))) it)
           else if Str (Get cur (int i)) = [] then workNode f db (Get cur (int i)) it
           else rbind (it_fetch db (Str (Get cur (int i))) (add_sha (Bytes (Get cur 1)) it)) (\<lambda>(v, it). workNode f db v it))
          (\<lambda>it. workItems f db cur (i + 1) it))"

definition getNode :: "nat \<Rightarrow> memdb \<Rightarrow> bytes \<Rightarrow> TrieIterator \<Rightarrow> TrieIterator res" where
  "getNode f db node it = rbind (it_fetch db node it) (\<lambda>(v, it). workNode f db v it)"

definition Collect :: "nat \<Rightarrow> memdb \<Rightarrow> Trie \<Rightarrow> TrieIterator \<Rightarrow> (bytes list \<times> TrieIterator) res" where
  "Collect f db t it =
     (if Root t = VStr [] then Inr ([], it)
      else rbind (getNode f db (Bytes (NewValue (Root t))) it) (\<lambda>it. Inr (shas it, it)))"

definition Purge :: "nat \<Rightarrow> memdb \<Rightarrow> Trie \<Rightarrow> TrieIterator \<Rightarrow> (nat \<times> TrieIterator \<times> memdb) res" where
  "Purge f db t it =
     rbind (Collect f db t it) (\<lambda>(hs, it).
     let (c, db') = fold Cache_Delete hs (it_cache it, db) in
     Inr (length (vals it), it\<lparr>it_cache := c\<rparr>, db'))"

section \<open>Each\<close>

type_synonym each = "(bytes \<times> gval) list"

fun iterateNode :: "nat \<Rightarrow> memdb \<Rightarrow> nat list \<Rightarrow> gval \<Rightarrow> each \<times> Cache \<Rightarrow> (each \<times> Cache) res"
and iterateItems :: "nat \<Rightarrow> memdb \<Rightarrow> nat list \<Rightarrow> gval \<Rightarrow> nat \<Rightarrow> each \<times> Cache \<Rightarrow> (each \<times> Cache) res" where
  "iterateNode 0 db key cur s = Inl OutOfFuel"
| "iterateNode (Suc f) db key cur s =
     (if Len cur = 2 then
        rbind (CompactDecode (Str (Get cur 0))) (\<lambda>k.
        if Str (Get cur 1) = [] then iterateNode f db key (Get cur 1) s
        else rbind (isLeafKey k) (\<lambda>leaf.
          if leaf then Inr (fst s @ [(DecodeCompact (key @ k), Get cur 1)], snd s)
          else rbind (Cache_Get db (Bytes (Get cur 1)) (snd s)) (\<lambda>(v, c).
            iterateNode f db (key @ k) v (fst s, c))))
      else iterateItems f db key cur 0 s)"
| "iterateItems 0 db key cur i s = Inl OutOfFuel"
| "iterateItems (Suc f) db key cur i s =
     (if Len cur \<le> i then Inr s
      else
        rbind
          (if i = 16 \<and> Len (Get cur (int i)) \<noteq> 0 then
             Inr (fst s @ [(DecodeCompact (key @ [i]), Get cur (int i))], snd s)
           else if Str (Get cur (int i)) = [] then iterateNode f db (key @ [i]) (Get cur (int i)) s
           else rbind (Cache_Get db (Str (Get cur (int i))) (snd s)) (\<lambda>(v, c).
             iterateNode f db (key @ [i]) v (fst s, c)))
          (\<lambda>s. iterateItems f db key cur (i + 1) s))"

definition fetchNode :: "nat \<Rightarrow> memdb \<Rightarrow> nat list \<Rightarrow> bytes \<Rightarrow> each \<times> Cache \<Rightarrow> (each \<times> Cache) res" where
  "fetchNode f db key node s =
     rbind (Cache_Get db node (snd s)) (\<lambda>(v, c). iterateNode f db key v (fst s, c))"

definition Trie_Each :: "nat \<Rightarrow> memdb \<Rightarrow> Trie \<Rightarrow> (each \<times> Cache) res" where
  "Trie_Each f db t = fetchNode f db [] (Bytes (NewValue (Root t))) ([], cache t)"

end
