(* ===== verification/Opcodes.thy ===== *)
theory Opcodes
  imports Database
begin

text \<open>
  \<open>ethchain/types.go\<close>, \<open>ethchain/asm.go\<close> and \<open>ethutil/parsing.go\<close>: the opcode
  constants, the three name tables, the disassembler and the instruction parser. The
  untyped constants are abbreviations of numbers, so a comparison of opcodes computes;
  the Go maps are association lists with the entries in source order.
\<close>

section \<open>Opcodes of ethchain\<close>

abbreviation (input) op_STOP :: nat where "op_STOP \<equiv> 0x00"
abbreviation (input) op_ADD :: nat where "op_ADD \<equiv> 0x01"
abbreviation (input) op_MUL :: nat where "op_MUL \<equiv> 0x02"
abbreviation (input) op_SUB :: nat where "op_SUB \<equiv> 0x03"
abbreviation (input) op_DIV :: nat where "op_DIV \<equiv> 0x04"
abbreviation (input) op_SDIV :: nat where "op_SDIV \<equiv> 0x05"
abbreviation (input) op_MOD :: nat where "op_MOD \<equiv> 0x06"
abbreviation (input) op_SMOD :: nat where "op_SMOD \<equiv> 0x07"
abbreviation (input) op_EXP :: nat where "op_EXP \<equiv> 0x08"
abbreviation (input) op_NEG :: nat where "op_NEG \<equiv> 0x09"
abbreviation (input) op_LT :: nat where "op_LT \<equiv> 0x0a"
abbreviation (input) op_GT :: nat where "op_GT \<equiv> 0x0b"
abbreviation (input) op_EQ :: nat where "op_EQ \<equiv> 0x0c"
abbreviation (input) op_NOT :: nat where "op_NOT \<equiv> 0x0d"
abbreviation (input) op_AND :: nat where "op_AND \<equiv> 0x10"
abbreviation (input) op_OR :: nat where "op_OR \<equiv> 0x11"
abbreviation (input) op_XOR :: nat where "op_XOR \<equiv> 0x12"
abbreviation (input) op_BYTE :: nat where "op_BYTE \<equiv> 0x13"
abbreviation (input) op_SHA3 :: nat where "op_SHA3 \<equiv> 0x20"
abbreviation (input) op_ADDRESS :: nat where "op_ADDRESS \<equiv> 0x30"
abbreviation (input) op_BALANCE :: nat where "op_BALANCE \<equiv> 0x31"
abbreviation (input) op_ORIGIN :: nat where "op_ORIGIN \<equiv> 0x32"
abbreviation (input) op_CALLER :: nat where "op_CALLER \<equiv> 0x33"
abbreviation (input) op_CALLVALUE :: nat where "op_CALLVALUE \<equiv> 0x34"
abbreviation (input) op_CALLDATALOAD :: nat where "op_CALLDATALOAD \<equiv> 0x35"
abbreviation (input) op_CALLDATASIZE :: nat where "op_CALLDATASIZE \<equiv> 0x36"
abbreviation (input) op_GASPRICE :: nat where "op_GASPRICE \<equiv> 0x37"
abbreviation (input) op_PREVHASH :: nat where "op_PREVHASH \<equiv> 0x40"
abbreviation (input) op_COINBASE :: nat where "op_COINBASE \<equiv> 0x41"
abbreviation (input) op_TIMESTAMP :: nat where "op_TIMESTAMP \<equiv> 0x42"
abbreviation (input) op_NUMBER :: nat where "op_NUMBER \<equiv> 0x43"
abbreviation (input) op_DIFFICULTY :: nat where "op_DIFFICULTY \<equiv> 0x44"
abbreviation (input) op_GASLIMIT :: nat where "op_GASLIMIT \<equiv> 0x45"
abbreviation (input) op_POP :: nat where "op_POP \<equiv> 0x51"
abbreviation (input) op_DUP :: nat where "op_DUP \<equiv> 0x52"
abbreviation (input) op_SWAP :: nat where "op_SWAP \<equiv> 0x53"
abbreviation (input) op_MLOAD :: nat where "op_MLOAD \<equiv> 0x54"
abbreviation (input) op_MSTORE :: nat where "op_MSTORE \<equiv> 0x55"
abbreviation (input) op_MSTORE8 :: nat where "op_MSTORE8 \<equiv> 0x56"
abbreviation (input) op_SLOAD :: nat where "op_SLOAD \<equiv> 0x57"
abbreviation (input) op_SSTORE :: nat where "op_SSTORE \<equiv> 0x58"
abbreviation (input) op_JUMP :: nat where "op_JUMP \<equiv> 0x59"
abbreviation (input) op_JUMPI :: nat where "op_JUMPI \<equiv> 0x5a"
abbreviation (input) op_PC :: nat where "op_PC \<equiv> 0x5b"
abbreviation (input) op_MSIZE :: nat where "op_MSIZE \<equiv> 0x5c"
abbreviation (input) op_PUSH1 :: nat where "op_PUSH1 \<equiv> 0x60"
abbreviation (input) op_PUSH2 :: nat where "op_PUSH2 \<equiv> 0x61"
abbreviation (input) op_PUSH3 :: nat where "op_PUSH3 \<equiv> 0x62"
abbreviation (input) op_PUSH4 :: nat where "op_PUSH4 \<equiv> 0x63"
abbreviation (input) op_PUSH5 :: nat where "op_PUSH5 \<equiv> 0x64"
abbreviation (input) op_PUSH6 :: nat where "op_PUSH6 \<equiv> 0x65"
abbreviation (input) op_PUSH7 :: nat where "op_PUSH7 \<equiv> 0x66"
abbreviation (input) op_PUSH8 :: nat where "op_PUSH8 \<equiv> 0x67"
abbreviation (input) op_PUSH9 :: nat where "op_PUSH9 \<equiv> 0x68"
abbreviation (input) op_PUSH10 :: nat where "op_PUSH10 \<equiv> 0x69"
abbreviation (input) op_PUSH11 :: nat where "op_PUSH11 \<equiv> 0x6a"
abbreviation (input) op_PUSH12 :: nat where "op_PUSH12 \<equiv> 0x6b"
abbreviation (input) op_PUSH13 :: nat where "op_PUSH13 \<equiv> 0x6c"
abbreviation (input) op_PUSH14 :: nat where "op_PUSH14 \<equiv> 0x6d"
abbreviation (input) op_PUSH15 :: nat where "op_PUSH15 \<equiv> 0x6e"
abbreviation (input) op_PUSH16 :: nat where "op_PUSH16 \<equiv> 0x6f"
abbreviation (input) op_PUSH17 :: nat where "op_PUSH17 \<equiv> 0x70"
abbreviation (input) op_PUSH18 :: nat where "op_PUSH18 \<equiv> 0x71"
abbreviation (input) op_PUSH19 :: nat where "op_PUSH19 \<equiv> 0x72"
abbreviation (input) op_PUSH20 :: nat where "op_PUSH20 \<equiv> 0x73"
abbreviation (input) op_PUSH21 :: nat where "op_PUSH21 \<equiv> 0x74"
abbreviation (input) op_PUSH22 :: nat where "op_PUSH22 \<equiv> 0x75"
abbreviation (input) op_PUSH23 :: nat where "op_PUSH23 \<equiv> 0x76"
abbreviation (input) op_PUSH24 :: nat where "op_PUSH24 \<equiv> 0x77"
abbreviation (input) op_PUSH25 :: nat where "op_PUSH25 \<equiv> 0x78"
abbreviation (input) op_PUSH26 :: nat where "op_PUSH26 \<equiv> 0x79"
abbreviation (input) op_PUSH27 :: nat where "op_PUSH27 \<equiv> 0x7a"
abbreviation (input) op_PUSH28 :: nat where "op_PUSH28 \<equiv> 0x7b"
abbreviation (input) op_PUSH29 :: nat where "op_PUSH29 \<equiv> 0x7c"
abbreviation (input) op_PUSH30 :: nat where "op_PUSH30 \<equiv> 0x7d"
abbreviation (input) op_PUSH31 :: nat where "op_PUSH31 \<equiv> 0x7e"
abbreviation (input) op_PUSH32 :: nat where "op_PUSH32 \<equiv> 0x7f"
abbreviation (input) op_CREATE :: nat where "op_CREATE \<equiv> 0xf0"
abbreviation (input) op_CALL :: nat where "op_CALL \<equiv> 0xf1"
abbreviation (input) op_RETURN :: nat where "op_RETURN \<equiv> 0xf2"
abbreviation (input) op_LOG :: nat where "op_LOG \<equiv> 0xfe"
abbreviation (input) op_SUICIDE :: nat where "op_SUICIDE \<equiv> 0xff"

text \<open>The constants of \<open>types.go\<close> with their names.\<close>

definition op_consts :: "(string \<times> nat) list" where
  "op_consts =
    [
     (''STOP'', op_STOP), (''ADD'', op_ADD), (''MUL'', op_MUL), (''SUB'', op_SUB), (''DIV'', op_DIV),
     (''SDIV'', op_SDIV), (''MOD'', op_MOD), (''SMOD'', op_SMOD), (''EXP'', op_EXP),
     (''NEG'', op_NEG), (''LT'', op_LT), (''GT'', op_GT), (''EQ'', op_EQ), (''NOT'', op_NOT),
     (''AND'', op_AND), (''OR'', op_OR), (''XOR'', op_XOR), (''BYTE'', op_BYTE), (''SHA3'', op_SHA3),
     (''ADDRESS'', op_ADDRESS), (''BALANCE'', op_BALANCE), (''ORIGIN'', op_ORIGIN),
     (''CALLER'', op_CALLER), (''CALLVALUE'', op_CALLVALUE), (''CALLDATALOAD'', op_CALLDATALOAD),
     (''CALLDATASIZE'', op_CALLDATASIZE), (''GASPRICE'', op_GASPRICE), (''PREVHASH'', op_PREVHASH),
     (''COINBASE'', op_COINBASE), (''TIMESTAMP'', op_TIMESTAMP), (''NUMBER'', op_NUMBER),
     (''DIFFICULTY'', op_DIFFICULTY), (''GASLIMIT'', op_GASLIMIT), (''POP'', op_POP),
     (''DUP'', op_DUP), (''SWAP'', op_SWAP), (''MLOAD'', op_MLOAD), (''MSTORE'', op_MSTORE),
     (''MSTORE8'', op_MSTORE8), (''SLOAD'', op_SLOAD), (''SSTORE'', op_SSTORE), (''JUMP'', op_JUMP),
     (''JUMPI'', op_JUMPI), (''PC'', op_PC), (''MSIZE'', op_MSIZE), (''PUSH1'', op_PUSH1),
     (''PUSH2'', op_PUSH2), (''PUSH3'', op_PUSH3), (''PUSH4'', op_PUSH4), (''PUSH5'', op_PUSH5),
     (''PUSH6'', op_PUSH6), (''PUSH7'', op_PUSH7), (''PUSH8'', op_PUSH8), (''PUSH9'', op_PUSH9),
     (''PUSH10'', op_PUSH10), (''PUSH11'', op_PUSH11), (''PUSH12'', op_PUSH12),
     (''PUSH13'', op_PUSH13), (''PUSH14'', op_PUSH14), (''PUSH15'', op_PUSH15),
     (''PUSH16'', op_PUSH16), (''PUSH17'', op_PUSH17), (''PUSH18'', op_PUSH18),
     (''PUSH19'', op_PUSH19), (''PUSH20'', op_PUSH20), (''PUSH21'', op_PUSH21),
     (''PUSH22'', op_PUSH22), (''PUSH23'', op_PUSH23), (''PUSH24'', op_PUSH24),
     (''PUSH25'', op_PUSH25), (''PUSH26'', op_PUSH26), (''PUSH27'', op_PUSH27),
     (''PUSH28'', op_PUSH28), (''PUSH29'', op_PUSH29), (''PUSH30'', op_PUSH30),
     (''PUSH31'', op_PUSH31), (''PUSH32'', op_PUSH32), (''CREATE'', op_CREATE), (''CALL'', op_CALL),
     (''RETURN'', op_RETURN), (''LOG'', op_LOG), (''SUICIDE'', op_SUICIDE)]"

definition opCodeToString :: "(nat \<times> string) list" where
  "opCodeToString =
    [
     (op_STOP, ''STOP''), (op_ADD, ''ADD''), (op_MUL, ''MUL''), (op_SUB, ''SUB''), (op_DIV, ''DIV''),
     (op_SDIV, ''SDIV''), (op_MOD, ''MOD''), (op_SMOD, ''SMOD''), (op_EXP, ''EXP''),
     (op_NEG, ''NEG''), (op_LT, ''LT''), (op_GT, ''GT''), (op_EQ, ''EQ''), (op_NOT, ''NOT''),
     (op_AND, ''AND''), (op_OR, ''OR''), (op_XOR, ''XOR''), (op_BYTE, ''BYTE''), (op_SHA3, ''SHA3''),
     (op_ADDRESS, ''ADDRESS''), (op_BALANCE, ''BALANCE''), (op_ORIGIN, ''ORIGIN''),
     (op_CALLER, ''CALLER''), (op_CALLVALUE, ''CALLVALUE''), (op_CALLDATALOAD, ''CALLDATALOAD''),
     (op_CALLDATASIZE, ''CALLDATASIZE''), (op_GASPRICE, ''TXGASPRICE''), (op_PREVHASH, ''PREVHASH''),
     (op_COINBASE, ''COINBASE''), (op_TIMESTAMP, ''TIMESTAMP''), (op_NUMBER, ''NUMBER''),
     (op_DIFFICULTY, ''DIFFICULTY''), (op_GASLIMIT, ''GASLIMIT''), (op_DUP, ''DUP''),
     (op_SWAP, ''SWAP''), (op_MLOAD, ''MLOAD''), (op_MSTORE, ''MSTORE''), (op_MSTORE8, ''MSTORE8''),
     (op_SLOAD, ''SLOAD''), (op_SSTORE, ''SSTORE''), (op_JUMP, ''JUMP''), (op_JUMPI, ''JUMPI''),
     (op_PC, ''PC''), (op_MSIZE, ''MSIZE''), (op_PUSH1, ''PUSH1''), (op_PUSH2, ''PUSH2''),
     (op_PUSH3, ''PUSH3''), (op_PUSH4, ''PUSH4''), (op_PUSH5, ''PUSH5''), (op_PUSH6, ''PUSH6''),
     (op_PUSH7, ''PUSH7''), (op_PUSH8, ''PUSH8''), (op_PUSH9, ''PUSH9''), (op_PUSH10, ''PUSH10''),
     (op_PUSH11, ''PUSH11''), (op_PUSH12, ''PUSH12''), (op_PUSH13, ''PUSH13''),
     (op_PUSH14, ''PUSH14''), (op_PUSH15, ''PUSH15''), (op_PUSH16, ''PUSH16''),
     (op_PUSH17, ''PUSH17''), (op_PUSH18, ''PUSH18''), (op_PUSH19, ''PUSH19''),
     (op_PUSH20, ''PUSH20''), (op_PUSH21, ''PUSH21''), (op_PUSH22, ''PUSH22''),
     (op_PUSH23, ''PUSH23''), (op_PUSH24, ''PUSH24''), (op_PUSH25, ''PUSH25''),
     (op_PUSH26, ''PUSH26''), (op_PUSH27, ''PUSH27''), (op_PUSH28, ''PUSH28''),
     (op_PUSH29, ''PUSH29''), (op_PUSH30, ''PUSH30''), (op_PUSH31, ''PUSH31''),
     (op_PUSH32, ''PUSH32''), (op_CREATE, ''CREATE''), (op_CALL, ''CALL''), (op_RETURN, ''RETURN''),
     (op_LOG, ''LOG''), (op_SUICIDE, ''SUICIDE'')]"

definition OpCodes :: "(string \<times> nat) list" where
  "OpCodes =
    [
     (''STOP'', 0x00), (''ADD'', 0x01), (''MUL'', 0x02), (''SUB'', 0x03), (''DIV'', 0x04),
     (''SDIV'', 0x05), (''MOD'', 0x06), (''SMOD'', 0x07), (''EXP'', 0x08), (''NEG'', 0x09),
     (''LT'', 0x0a), (''GT'', 0x0b), (''EQ'', 0x0c), (''NOT'', 0x0d), (''AND'', 0x10),
     (''OR'', 0x11), (''XOR'', 0x12), (''BYTE'', 0x13), (''SHA3'', 0x20), (''ADDRESS'', 0x30),
     (''BALANCE'', 0x31), (''ORIGIN'', 0x32), (''CALLER'', 0x33), (''CALLVALUE'', 0x34),
     (''CALLDATALOAD'', 0x35), (''CALLDATASIZE'', 0x36), (''GASPRICE'', 0x38), (''PREVHASH'', 0x40),
     (''COINBASE'', 0x41), (''TIMESTAMP'', 0x42), (''NUMBER'', 0x43), (''DIFFICULTY'', 0x44),
     (''GASLIMIT'', 0x45), (''POP'', 0x51), (''DUP'', 0x52), (''SWAP'', 0x53), (''MLOAD'', 0x54),
     (''MSTORE'', 0x55), (''MSTORE8'', 0x56), (''SLOAD'', 0x57), (''SSTORE'', 0x58),
     (''JUMP'', 0x59), (''JUMPI'', 0x5a), (''PC'', 0x5b), (''MSIZE'', 0x5c), (''PUSH1'', 0x60),
     (''PUSH2'', 0x61), (''PUSH3'', 0x62), (''PUSH4'', 0x63), (''PUSH5'', 0x64), (''PUSH6'', 0x65),
     (''PUSH7'', 0x66), (''PUSH8'', 0x67), (''PUSH9'', 0x68), (''PUSH10'', 0x69), (''PUSH11'', 0x6a),
     (''PUSH12'', 0x6b), (''PUSH13'', 0x6c), (''PUSH14'', 0x6d), (''PUSH15'', 0x6e),
     (''PUSH16'', 0x6f), (''PUSH17'', 0x70), (''PUSH18'', 0x71), (''PUSH19'', 0x72),
     (''PUSH20'', 0x73), (''PUSH21'', 0x74), (''PUSH22'', 0x75), (''PUSH23'', 0x76),
     (''PUSH24'', 0x77), (''PUSH25'', 0x78), (''PUSH26'', 0x70), (''PUSH27'', 0x7a),
     (''PUSH28'', 0x7b), (''PUSH29'', 0x7c), (''PUSH30'', 0x7d), (''PUSH31'', 0x7e),
     (''PUSH32'', 0x7f), (''CREATE'', 0xf0), (''CALL'', 0xf1), (''RETURN'', 0xf2), (''LOG'', 0xfe),
     (''SUICIDE'', 0x7f)]"

text \<open>A missing key of a Go map reads as the zero value: the empty string, the byte 0.\<close>

definition OpCode_String :: "nat \<Rightarrow> string" where
  "OpCode_String o' = (case map_of opCodeToString o' of Some s \<Rightarrow> s | None \<Rightarrow> [])"

definition IsOpCode :: "string \<Rightarrow> bool" where
  "IsOpCode s = list_ex (\<lambda>(key, _). key = s) OpCodes"

section \<open>The disassembler\<close>

text \<open>\<open>fmt.Sprintf("0x%x", b)\<close>.\<close>

definition hex_string :: "bytes \<Rightarrow> string" where
  "hex_string b = ''0x'' @ map (\<lambda>c. char_of (unat c)) (Hex b)"

definition push_text :: "bytes \<Rightarrow> string" where
  "push_text data =
     (let v = BigD data in hex_string (if big_Int64 v = 0 then [0] else big_Bytes v))"

text \<open>\<open>sp\<close> is what lies behind the script in its backing array: a slice may reach into it.\<close>

function Disassemble_loop :: "bytes \<Rightarrow> bytes \<Rightarrow> nat \<Rightarrow> string list \<Rightarrow> string list res" where
  "Disassemble_loop script sp pc asm =
     (if length script \<le> pc then Inr asm
      else
        let op = unat (script ! pc); asm' = asm @ [OpCode_String op] in
        if op_PUSH1 \<le> op \<and> op \<le> op_PUSH32 then
          (let a = op - op_PUSH1 + 1 in
           case goslice script sp (pc + 1) (pc + 1 + a) of
             Inl e \<Rightarrow> Inl e
           | Inr data \<Rightarrow> Disassemble_loop script sp (pc + 1 + (a - 1) + 1) (asm' @ [push_text data]))
        else Disassemble_loop script sp (pc + 1) asm')"
  by pat_completeness auto
termination
  by (relation "measure (\<lambda>(script, sp, pc, asm). length script - pc)") auto

declare Disassemble_loop.simps [simp del]

definition Disassemble :: "bytes \<Rightarrow> bytes \<Rightarrow> string list res" where
  "Disassemble script sp = Disassemble_loop script sp 0 []"

section \<open>Opcodes and instructions of ethutil\<close>

definition eth_OpCodes :: "(string \<times> nat) list" where
  "eth_OpCodes =
    [
     (''STOP'', 0x00), (''ADD'', 0x01), (''MUL'', 0x02), (''SUB'', 0x03), (''DIV'', 0x04),
     (''SDIV'', 0x05), (''MOD'', 0x06), (''SMOD'', 0x07), (''EXP'', 0x08), (''NEG'', 0x09),
     (''LT'', 0x0a), (''LE'', 0x0b), (''GT'', 0x0c), (''GE'', 0x0d), (''EQ'', 0x0e), (''NOT'', 0x0f),
     (''MYADDRESS'', 0x10), (''TXSENDER'', 0x11), (''TXVALUE'', 0x12), (''TXDATAN'', 0x13),
     (''TXDATA'', 0x14), (''BLK_PREVHASH'', 0x15), (''BLK_COINBASE'', 0x16),
     (''BLK_TIMESTAMP'', 0x17), (''BLK_NUMBER'', 0x18), (''BLK_DIFFICULTY'', 0x19),
     (''BLK_NONCE'', 0x1a), (''BASEFEE'', 0x1b), (''SHA256'', 0x20), (''RIPEMD160'', 0x21),
     (''ECMUL'', 0x22), (''ECADD'', 0x23), (''ECSIGN'', 0x24), (''ECRECOVER'', 0x25),
     (''ECVALID'', 0x26), (''SHA3'', 0x27), (''PUSH'', 0x30), (''POP'', 0x31), (''DUP'', 0x32),
     (''SWAP'', 0x33), (''MLOAD'', 0x34), (''MSTORE'', 0x35), (''SLOAD'', 0x36), (''SSTORE'', 0x37),
     (''JMP'', 0x38), (''JMPI'', 0x39), (''IND'', 0x3a), (''EXTRO'', 0x3b), (''BALANCE'', 0x3c),
     (''MKTX'', 0x3d), (''SUICIDE'', 0x3f)]"

definition eth_IsOpCode :: "string \<Rightarrow> bool" where
  "eth_IsOpCode s = list_ex (\<lambda>(key, _). key = s) eth_OpCodes"

text \<open>
  \<open>big.Int.SetString(s, 0)\<close>: an optional sign, a base prefix (\<open>0b\<close>, \<open>0o\<close>, \<open>0\<close>, \<open>0x\<close>),
  digits with single underscores between them. \<open>None\<close> when the text is no number; the
  library leaves the receiver's value undefined then.
\<close>

definition digit_val :: "char \<Rightarrow> nat option" where
  "digit_val c =
     (let n = of_char c :: nat in
      if 48 \<le> n \<and> n \<le> 57 then Some (n - 48)
      else if 97 \<le> n \<and> n \<le> 122 then Some (n - 87)
      else if 65 \<le> n \<and> n \<le> 90 then Some (n - 55) else None)"

fun scan_digits :: "nat \<Rightarrow> bool \<Rightarrow> nat \<Rightarrow> string \<Rightarrow> nat option" where
  "scan_digits b sep acc [] = Some acc"
| "scan_digits b sep acc (c # cs) =
     (if c = CHR ''_'' then (if sep \<and> cs \<noteq> [] then scan_digits b False acc cs else None)
      else case digit_val c of
             Some d \<Rightarrow> if d < b then scan_digits b True (b * acc + d) cs else None
           | None \<Rightarrow> None)"

definition scan_nat :: "string \<Rightarrow> nat option" where
  "scan_nat s =
     (case s of
        [] \<Rightarrow> None
      | [c] \<Rightarrow> scan_digits 10 False 0 s
      | c # d # cs \<Rightarrow>
          if c \<noteq> CHR ''0'' then scan_digits 10 False 0 s
          else if d = CHR ''x'' \<or> d = CHR ''X'' then (if cs = [] then None else scan_digits 16 True 0 cs)
          else if d = CHR ''b'' \<or> d = CHR ''B'' then (if cs = [] then None else scan_digits 2 True 0 cs)
          else if d = CHR ''o'' \<or> d = CHR ''O'' then (if cs = [] then None else scan_digits 8 True 0 cs)
          else scan_digits 8 True 0 (d # cs))"

definition SetString0 :: "string \<Rightarrow> int option" where
  "SetString0 s =
     (case s of
        [] \<Rightarrow> None
      | c # cs \<Rightarrow>
          if c = CHR ''-'' then map_option (\<lambda>n. - int n) (scan_nat cs)
          else if c = CHR ''+'' then map_option int (scan_nat cs)
          else map_option int (scan_nat s))"

definition CompileInstr :: "string \<Rightarrow> bytes option" where
  "CompileInstr s =
     (if eth_IsOpCode s
      then Some [of_nat (case map_of eth_OpCodes s of Some b \<Rightarrow> b | None \<Rightarrow> 0)]
      else map_option big_Bytes (SetString0 s))"

text \<open>
  \<open>Instr\<close> splits a number into its seven low bytes, least significant first, and
  prints them. The opcode is \<open>args[0]\<close> read back as a number.
\<close>

definition Instr :: "string \<Rightarrow> (int \<times> string list) option" where
  "Instr instr =
     map_option (\<lambda>base.
       let ds = map (\<lambda>i. (base div BigPow 256 (int i)) mod 256) [0..<7]
       in (ds ! 0, map dec_int (tl ds)))
     (SetString0 instr)"

section \<open>The tables against each other\<close>

text \<open>The assembler's table agrees with the constants the interpreter switches on, name by
  name, except for three entries: GASPRICE is assembled to 0x38 (the interpreter has 0x37), PUSH26
  to the code of PUSH17 and SUICIDE to the code of PUSH32.\<close>

theorem OpCodes_agree_except:
  "map fst OpCodes = map fst op_consts \<and>
   filter (\<lambda>((n, v), (n', v')). v \<noteq> v') (zip OpCodes op_consts) =
     [((''GASPRICE'', 0x38), (''GASPRICE'', op_GASPRICE)),
      ((''PUSH26'', op_PUSH17), (''PUSH26'', op_PUSH26)),
      ((''SUICIDE'', op_PUSH32), (''SUICIDE'', op_SUICIDE))]"
  by (rule conjI) code_simp+

section \<open>What the disassembler prints\<close>

text \<open>
  The names the disassembler has for the constants of the interpreter: those of the constants, but
  for the price of gas, which is printed under another name, and \<open>POP\<close>, which has none.
\<close>

definition op_name :: "nat \<Rightarrow> string" where
  "op_name op =
     (case find (\<lambda>(n, v). v = op) op_consts of
        None \<Rightarrow> []
      | Some (n, v) \<Rightarrow> if n = ''POP'' then [] else if n = ''GASPRICE'' then ''TXGASPRICE'' else n)"

lemma opCodeToString_consts:
  "opCodeToString = map (\<lambda>(n, v). (v, if n = ''GASPRICE'' then ''TXGASPRICE'' else n)) (filter (\<lambda>(n, v). n \<noteq> ''POP'') op_consts)"
  by code_simp

lemma op_consts_distinct: "distinct (map snd op_consts)"
  by code_simp

lemma find_pair: "distinct (map snd xs) \<Longrightarrow>
    find (\<lambda>(n, v). v = k) xs = map_option (\<lambda>n. (n, k)) (map_of (map (\<lambda>(n, v). (v, n)) xs) k)"
  by (induction xs) auto

lemma map_of_filtered: "distinct (map snd xs) \<Longrightarrow>
    map_of (map (\<lambda>(n, v). (v, f n)) (filter (\<lambda>(n, v). P n) xs)) k =
    (case map_of (map (\<lambda>(n, v). (v, n)) xs) k of None \<Rightarrow> None | Some n \<Rightarrow> if P n then Some (f n) else None)"
proof (induction xs)
  case (Cons x xs)
  obtain n v where x: "x = (n, v)" by (cases x)
  have "map_of (map (\<lambda>(n, v). (v, n)) xs) v = None" if "v \<notin> snd ` set xs"
    using that by (force simp: map_of_eq_None_iff)
  with Cons x show ?case by (auto split: option.split)
qed simp

lemma OpCode_String_name: "OpCode_String op = op_name op"
  unfolding OpCode_String_def op_name_def opCodeToString_consts map_of_filtered [OF op_consts_distinct]
    find_pair [OF op_consts_distinct]
  by (cases "map_of (map (\<lambda>(n, v). (v, n)) op_consts) op") simp_all

text \<open>
  The operand of a push: its bytes without leading zeros, except that an operand whose last eight
  bytes are zero is printed as a zero, whatever stands before them.
\<close>

definition operand_text :: "bytes \<Rightarrow> string" where
  "operand_text data =
     (if be_nat data mod 2 ^ 64 = 0 then ''0x00'' else hex_string (dropWhile (\<lambda>b. b = 0) data))"

lemma nat_be_be_nat: "nat_be (be_nat data) = dropWhile (\<lambda>b. b = 0) data"
proof (induction data rule: rev_induct)
  case (snoc b bs)
  show ?case
  proof (cases "be_nat bs = 0 \<and> b = 0")
    case True
    with snoc have "dropWhile (\<lambda>b. b = 0) bs = []" by simp
    with True show ?thesis by (simp add: dropWhile_append)
  next
    case False
    have "nat_be (be_nat (bs @ [b])) = nat_be (be_nat bs) @ [b]"
      using False unat_byte_bound [of b] by (subst nat_be_pos) (auto simp: unat_eq_0)
    moreover have "dropWhile (\<lambda>b. b = 0) (bs @ [b]) = dropWhile (\<lambda>b. b = 0) bs @ [b]"
      using False snoc by (auto simp: dropWhile_append dropWhile_eq_Nil_conv nat_be_eq_Nil [symmetric])
    ultimately show ?thesis using snoc by simp
  qed
qed simp

lemma push_text_operand: "push_text data = operand_text data"
proof -
  have "sint (w :: 64 word) = 0 \<longleftrightarrow> w = 0" for w
    by (metis signed_0 signed_word_eqI)
  then have "big_Int64 (BigD data) = 0 \<longleftrightarrow> be_nat data mod 2 ^ 64 = 0"
    by (simp add: big_Int64_def BigD_def word_of_nat_eq_0_iff dvd_eq_mod_eq_0)
  moreover have "big_Bytes (BigD data) = dropWhile (\<lambda>b. b = 0) data"
    by (simp add: BigD_def big_Bytes_nat nat_be_be_nat)
  moreover have "hex_string [0] = ''0x00''" by code_simp
  ultimately show ?thesis by (simp add: push_text_def operand_text_def Let_def)
qed

text \<open>
  A script as a list of instructions, each an opcode with the operand of a push. The operand of the last
  push may reach into what lies behind the script; \<open>None\<close> when even that is too short.
\<close>

function parse_script :: "bytes \<Rightarrow> bytes \<Rightarrow> (nat \<times> bytes option) list option" where
  "parse_script [] sp = Some []"
| "parse_script (b # bs) sp =
     (if 0x60 \<le> unat b \<and> unat b \<le> 0x7f then
        let n = unat b - 0x5f in
        if length bs + length sp < n then None
        else map_option ((#) (unat b, Some (take n (bs @ sp)))) (parse_script (drop n bs) sp)
      else map_option ((#) (unat b, None)) (parse_script bs sp))"
  by pat_completeness auto
termination by (relation "measure (\<lambda>(s, sp). length s)") auto

fun instr_text :: "nat \<times> bytes option \<Rightarrow> string list" where
  "instr_text (op, None) = [op_name op]"
| "instr_text (op, Some data) = [op_name op, operand_text data]"

declare parse_script.simps [simp del]

lemma Disassemble_loop_parse:
  "Disassemble_loop script sp pc asm =
     (case parse_script (drop pc script) sp of
        None \<Rightarrow> Inl SliceBounds
      | Some is \<Rightarrow> Inr (asm @ concat (map instr_text is)))"
proof (induction "length script - pc" arbitrary: pc asm rule: less_induct)
  case less
  show ?case
  proof (cases "length script \<le> pc")
    case True
    then show ?thesis by (subst Disassemble_loop.simps) (simp add: parse_script.simps)
  next
    case False
    define op where "op = unat (script ! pc)"
    define rest where "rest = drop (pc + 1) script"
    have d: "drop pc script = script ! pc # rest"
      using False by (simp add: rest_def Cons_nth_drop_Suc)
    have len: "length rest = length script - (pc + 1)" by (simp add: rest_def)
    show ?thesis
    proof (cases "op_PUSH1 \<le> op \<and> op \<le> op_PUSH32")
      case push: True
      define a where "a = op - op_PUSH1 + 1"
      have a: "op - 0x5f = a" "pc + 1 + (a - 1) + 1 = pc + 1 + a" using push unfolding a_def by linarith+
      have step: "Disassemble_loop script sp pc asm =
        (case goslice script sp (pc + 1) (pc + 1 + a) of
           Inl e \<Rightarrow> Inl e
         | Inr data \<Rightarrow> Disassemble_loop script sp (pc + 1 + a) (asm @ [op_name op, operand_text data]))"
        unfolding Disassemble_loop.simps [of script sp pc asm] Let_def op_def [symmetric] a_def [symmetric] a(2)
        using push False by (simp add: OpCode_String_name push_text_operand split: sum.split)
      have parse: "parse_script (drop pc script) sp =
        (if length rest + length sp < a then None
         else map_option ((#) (op, Some (take a (rest @ sp)))) (parse_script (drop a rest) sp))"
        unfolding d parse_script.simps Let_def op_def [symmetric] a(1) using push by simp
      show ?thesis
      proof (cases "length rest + length sp < a")
        case True
        then have "goslice script sp (pc + 1) (pc + 1 + a) = Inl SliceBounds"
          using False len by (auto simp: goslice_def)
        with True show ?thesis by (simp add: step parse)
      next
        case ok: False
        then have sl: "goslice script sp (pc + 1) (pc + 1 + a) = Inr (take a (rest @ sp))"
          using False len by (simp add: goslice_def rest_def)
        have dr: "drop a rest = drop (pc + 1 + a) script" by (simp add: rest_def add.commute)
        have IH: "Disassemble_loop script sp (pc + 1 + a) (asm @ [op_name op, operand_text (take a (rest @ sp))]) =
          (case parse_script (drop a rest) sp of None \<Rightarrow> Inl SliceBounds
           | Some is \<Rightarrow> Inr ((asm @ [op_name op, operand_text (take a (rest @ sp))]) @ concat (map instr_text is)))"
          unfolding dr by (rule less) (use False in simp)
        show ?thesis unfolding step parse sl sum.case IH
          using ok by (simp split: option.split)
      qed
    next
      case np: False
      have step: "Disassemble_loop script sp pc asm = Disassemble_loop script sp (pc + 1) (asm @ [op_name op])"
        unfolding Disassemble_loop.simps [of script sp pc] Let_def op_def [symmetric] if_not_P [OF False] if_not_P [OF np]
          OpCode_String_name ..
      have parse: "parse_script (drop pc script) sp = map_option ((#) (op, None)) (parse_script rest sp)"
        unfolding d parse_script.simps op_def [symmetric] if_not_P [OF np] ..
      have IH: "Disassemble_loop script sp (pc + 1) (asm @ [op_name op]) =
        (case parse_script rest sp of None \<Rightarrow> Inl SliceBounds
         | Some is \<Rightarrow> Inr ((asm @ [op_name op]) @ concat (map instr_text is)))"
        unfolding rest_def by (rule less) (use False in simp)
      show ?thesis unfolding step parse IH by (simp split: option.split)
    qed
  qed
qed

text \<open>C36. The disassembler prints, for each instruction of the script in order, the name of its constant and,
  for a push, its operand in hex; \<open>sp\<close> is the spare capacity behind the script, into which the operand of a
  truncated push reaches. It panics exactly when the operand does not fit into that either.\<close>

theorem Disassemble_parses:
  "Disassemble script sp =
     (case parse_script script sp of
        None \<Rightarrow> Inl SliceBounds
      | Some is \<Rightarrow> Inr (concat (map instr_text is)))"
  unfolding Disassemble_def Disassemble_loop_parse by (simp split: option.split)

text \<open>The operand printed for a push is read through \<open>Int64\<close>: an operand whose low eight
  bytes are zero is printed as 0x00, whatever stands above them.\<close>

theorem push_text_truncated: "push_text (hi @ replicate 8 0) = ''0x00''"
  by (simp add: push_text_operand operand_text_def be_nat_append)

end
