(* ===== verification/State.thy ===== *)
theory State
  imports TrieIterator
begin

text \<open>
  \<open>ethchain/state_object.go\<close>, \<open>state.go\<close>, \<open>address.go\<close>, \<open>fees.go\<close> and \<open>error.go\<close>.
  \<open>*State\<close> values are shared and mutated through several pointers (a state caches the
  states of its objects, an object points to its state), so they live in a heap, the
  list of states of the \<open>World\<close>, and a pointer is an index into it. A \<open>StateObject\<close> is
  a value: every \<open>GetStateObject\<close> makes a fresh one. The manifest keeps the objects as
  they were when they were added.
\<close>

section \<open>Data\<close>

record StateObject =
  address :: bytes
  Amount :: int
  ScriptHash :: bytes
  Nonce :: uint64
  obj_state :: "nat option"
  script :: bytes
  initScript :: bytes

text \<open>\<open>objectAddresses\<close> and \<open>storageAddresses\<close> of the manifest are never read or written.\<close>

record Manifest =
  objectChanges :: "(bytes \<times> StateObject) list"
  storageChanges :: "(bytes \<times> (bytes \<times> int) list) list"

record State =
  trie :: Trie
  states :: "(bytes \<times> nat) list"
  manifest :: Manifest

record World =
  db :: memdb
  heap :: "State list"

text \<open>
  What the operations take from their surroundings: \<open>sha\<close> is Keccak-256, \<open>recover\<close> and
  \<open>sign\<close> are secp256k1 (the empty list where the library reports an error); \<open>spare\<close> the
  capacity Go leaves behind the nibble slice of a key of a given length; \<open>growth\<close> the
  capacity \<open>append\<close> picks for a byte slice; \<open>behind\<close> the bytes that lie behind a decoded byte
  slice in its backing array, where a slice expression can reach; \<open>walk\<close> bounds the walks over all nodes of a
  trie and over nested states.
\<close>

record Env =
  sha :: "bytes \<Rightarrow> bytes"
  recover :: "bytes \<Rightarrow> bytes \<Rightarrow> bytes"
  sign :: "bytes \<Rightarrow> bytes \<Rightarrow> bytes"
  spare :: "nat \<Rightarrow> nat"
  growth :: "nat \<Rightarrow> nat \<Rightarrow> nat"
  behind :: "bytes \<Rightarrow> bytes"
  walk :: nat

section \<open>The heap of states\<close>

definition deref :: "nat \<Rightarrow> World \<Rightarrow> State res" where
  "deref r w = (if r < length (heap w) then Inr (heap w ! r) else Inl NilDereference)"

definition put_state :: "nat \<Rightarrow> State \<Rightarrow> World \<Rightarrow> World" where
  "put_state r s w = w\<lparr>heap := (heap w)[r := s]\<rparr>"

definition Manifest_Reset :: "Manifest \<Rightarrow> Manifest" where
  "Manifest_Reset m = m\<lparr>objectChanges := [], storageChanges := []\<rparr>"

definition NewManifest :: Manifest where
  "NewManifest = Manifest_Reset \<lparr>objectChanges = [], storageChanges = []\<rparr>"

definition AddObjectChange :: "StateObject \<Rightarrow> Manifest \<Rightarrow> Manifest" where
  "AddObjectChange stateObject m =
     m\<lparr>objectChanges := AList.update (address stateObject) stateObject (objectChanges m)\<rparr>"

definition AddStorageChange :: "StateObject \<Rightarrow> bytes \<Rightarrow> int \<Rightarrow> Manifest \<Rightarrow> Manifest" where
  "AddStorageChange stateObject storageAddr storage m =
     (let changes = (case map_of (storageChanges m) (address stateObject) of None \<Rightarrow> [] | Some c \<Rightarrow> c) in
      m\<lparr>storageChanges := AList.update (address stateObject) (AList.update storageAddr storage changes) (storageChanges m)\<rparr>)"

definition NewState :: "Trie \<Rightarrow> World \<Rightarrow> nat \<times> World" where
  "NewState t w =
     (length (heap w), w\<lparr>heap := heap w @ [\<lparr>trie = t, states = [], manifest = NewManifest\<rparr>]\<rparr>)"

text \<open>Loops over a map of states, with an operation that may panic.\<close>

fun each :: "('b \<Rightarrow> 'a \<Rightarrow> 'a res) \<Rightarrow> 'b list \<Rightarrow> 'a \<Rightarrow> 'a res" where
  "each f [] w = Inr w"
| "each f (x # xs) w = rbind (f x w) (each f xs)"

fun State_Reset :: "nat \<Rightarrow> nat \<Rightarrow> World \<Rightarrow> World res" where
  "State_Reset 0 r w = Inl OutOfFuel"
| "State_Reset (Suc f) r w =
     rbind (deref r w) (\<lambda>s.
     each (\<lambda>(k, r') w. State_Reset f r' w) (states s) (put_state r (s\<lparr>trie := Trie_Undo (trie s)\<rparr>) w))"

fun State_Sync :: "nat \<Rightarrow> nat \<Rightarrow> World \<Rightarrow> World res" where
  "State_Sync 0 r w = Inl OutOfFuel"
| "State_Sync (Suc f) r w =
     rbind (deref r w) (\<lambda>s.
     rbind (each (\<lambda>(k, r') w. State_Sync f r' w) (states s) w) (\<lambda>w.
     rbind (deref r w) (\<lambda>s.
     let (t, d) = Trie_Sync (trie s, db w) in
     Inr (put_state r (s\<lparr>trie := t\<rparr>) (w\<lparr>db := d\<rparr>)))))"

definition State_Purge :: "Env \<Rightarrow> nat \<Rightarrow> World \<Rightarrow> (nat \<times> World) res" where
  "State_Purge E r w =
     rbind (deref r w) (\<lambda>s.
     rbind (Purge (walk E) (db w) (trie s) (NewTrieIterator (trie s))) (\<lambda>(n, it, d).
     Inr (n, put_state r (s\<lparr>trie := (trie s)\<lparr>cache := it_cache it\<rparr>\<rparr>) (w\<lparr>db := d\<rparr>))))"

definition EachStorage :: "Env \<Rightarrow> nat \<Rightarrow> World \<Rightarrow> (each \<times> World) res" where
  "EachStorage E r w =
     rbind (deref r w) (\<lambda>s.
     rbind (Trie_Each (walk E) (db w) (trie s)) (\<lambda>(calls, c).
     Inr (calls, put_state r (s\<lparr>trie := (trie s)\<lparr>cache := c\<rparr>\<rparr>) w)))"

text \<open>\<open>s.trie.Get\<close> and \<open>s.trie.Update\<close> on the state at \<open>r\<close>.\<close>

definition state_Get :: "nat \<Rightarrow> bytes \<Rightarrow> World \<Rightarrow> (bytes \<times> World) res" where
  "state_Get r key w =
     rbind (deref r w) (\<lambda>s.
     rbind (Trie_Get (key_fuel key) (db w) key (trie s)) (\<lambda>(v, t).
     Inr (v, put_state r (s\<lparr>trie := t\<rparr>) w)))"

definition state_Update :: "Env \<Rightarrow> nat \<Rightarrow> bytes \<Rightarrow> bytes \<Rightarrow> World \<Rightarrow> World res" where
  "state_Update E r key val w =
     rbind (deref r w) (\<lambda>s.
     rbind (Update (key_fuel key) (sha E) (db w) (spare E (length key)) key val (trie s)) (\<lambda>t.
     Inr (put_state r (s\<lparr>trie := t\<rparr>) w)))"

section \<open>State objects\<close>

definition NewContract :: "bytes \<Rightarrow> int \<Rightarrow> bytes \<Rightarrow> World \<Rightarrow> StateObject \<times> World" where
  "NewContract addr amount root w =
     (let (r, w') = NewState (NewTrie (VStr root)) w in
      (\<lparr>address = addr, Amount = amount, ScriptHash = [], Nonce = 0, obj_state = Some r,
        script = [], initScript = []\<rparr>, w'))"

definition NewAccount :: "bytes \<Rightarrow> int \<Rightarrow> StateObject" where
  "NewAccount addr amount =
     \<lparr>address = addr, Amount = amount, ScriptHash = [], Nonce = 0, obj_state = None,
      script = [], initScript = []\<rparr>"

text \<open>\<open>BigInt\<close> of a decoded value is never nil.\<close>

definition big_of :: "gval \<Rightarrow> int" where
  "big_of v = (case BigInt v of Some x \<Rightarrow> x | None \<Rightarrow> 0)"

definition StateObject_RlpDecode :: "bytes \<Rightarrow> StateObject \<Rightarrow> World \<Rightarrow> (StateObject \<times> World) res" where
  "StateObject_RlpDecode data c w =
     rbind (NewValueFromBytes data) (\<lambda>decoder.
     let (r, w') = NewState (NewTrie (Raw (Get decoder 2))) w;
         hash = Bytes (Get decoder 3)
     in Inr (c\<lparr>Amount := big_of (Get decoder 0), Nonce := Uint (Get decoder 1), obj_state := Some r,
               ScriptHash := hash, script := db_Get hash (db w')\<rparr>, w'))"

definition NewStateObjectFromBytes :: "bytes \<Rightarrow> bytes \<Rightarrow> World \<Rightarrow> (StateObject \<times> World) res" where
  "NewStateObjectFromBytes addr data w = StateObject_RlpDecode data (NewAccount addr 0) w"

definition StateObject_RlpEncode :: "(bytes \<Rightarrow> bytes) \<Rightarrow> StateObject \<Rightarrow> World \<Rightarrow> bytes res" where
  "StateObject_RlpEncode h c w =
     rbind (case obj_state c of
              None \<Rightarrow> Inr (VStr [])
            | Some r \<Rightarrow> rbind (deref r w) (\<lambda>s. Inr (Root (trie s)))) (\<lambda>root.
     Inr (Encode (VList [VBig (Some (Amount c)), VUint64 (Nonce c), root, VBytes (h (script c))])))"

definition N :: "StateObject \<Rightarrow> int" where
  "N c = sint (Nonce c)"

text \<open>The storage of an object; a nil \<open>state\<close> is dereferenced.\<close>

definition state_of :: "StateObject \<Rightarrow> nat res" where
  "state_of c = (case obj_state c of None \<Rightarrow> Inl NilDereference | Some r \<Rightarrow> Inr r)"

definition Addr :: "bytes \<Rightarrow> StateObject \<Rightarrow> World \<Rightarrow> (gval \<times> World) res" where
  "Addr addr c w =
     rbind (state_of c) (\<lambda>r.
     rbind (state_Get r addr w) (\<lambda>(v, w).
     rbind (NewValueFromBytes v) (\<lambda>val. Inr (val, w))))"

definition SetAddr :: "Env \<Rightarrow> bytes \<Rightarrow> gval \<Rightarrow> StateObject \<Rightarrow> World \<Rightarrow> World res" where
  "SetAddr E addr val c w =
     rbind (state_of c) (\<lambda>r. state_Update E r addr (Encode (NewValue val)) w)"

definition SetStorage :: "Env \<Rightarrow> int \<Rightarrow> gval \<Rightarrow> StateObject \<Rightarrow> World \<Rightarrow> World res" where
  "SetStorage E num val c w = SetAddr E (BigToBytes num 256) (VPtr val) c w"

definition GetStorage :: "int \<Rightarrow> StateObject \<Rightarrow> World \<Rightarrow> (gval \<times> World) res" where
  "GetStorage num c w = Addr (BigToBytes num 256) c w"

definition GetMem :: "int \<Rightarrow> StateObject \<Rightarrow> World \<Rightarrow> (gval \<times> World) res" where
  "GetMem num c w = GetStorage num c w"

definition GetInstr :: "int \<Rightarrow> StateObject \<Rightarrow> gval res" where
  "GetInstr pc c =
     (let i = big_Int64 pc in
      if int (length (script c)) - 1 < i then Inr (NewValue (VInt 0))
      else if i < 0 then Inl IndexOutOfRange
      else NewValueFromBytes [script c ! nat i])"

definition SetAmount :: "int \<Rightarrow> StateObject \<Rightarrow> StateObject" where
  "SetAmount amount c = c\<lparr>Amount := amount\<rparr>"

definition AddAmount :: "int \<Rightarrow> StateObject \<Rightarrow> StateObject" where
  "AddAmount amount c = SetAmount (Amount c + amount) c"

definition SubAmount :: "int \<Rightarrow> StateObject \<Rightarrow> StateObject" where
  "SubAmount amount c = SetAmount (Amount c - amount) c"

definition StateObject_ReturnGas :: "int \<Rightarrow> int \<Rightarrow> StateObject \<Rightarrow> StateObject" where
  "StateObject_ReturnGas gas price c = AddAmount (gas * price) c"

text \<open>\<open>None\<close> is the error for an amount that does not cover the gas.\<close>

definition ConvertGas :: "int \<Rightarrow> int \<Rightarrow> StateObject \<Rightarrow> StateObject option" where
  "ConvertGas gas price c =
     (let total = gas * price in if total > Amount c then None else Some (SubAmount total c))"

section \<open>States\<close>

definition GetStateObject :: "nat \<Rightarrow> bytes \<Rightarrow> World \<Rightarrow> (StateObject option \<times> World) res" where
  "GetStateObject r addr w =
     rbind (state_Get r addr w) (\<lambda>(data, w).
     if data = [] then Inr (None, w)
     else
       rbind (NewStateObjectFromBytes addr data w) (\<lambda>(stateObject, w).
       rbind (deref r w) (\<lambda>s.
       Inr (Some (case map_of (states s) addr of
                    None \<Rightarrow> stateObject
                  | Some cached \<Rightarrow> stateObject\<lparr>obj_state := Some cached\<rparr>), w))))"

definition UpdateStateObject :: "Env \<Rightarrow> nat \<Rightarrow> StateObject \<Rightarrow> World \<Rightarrow> World res" where
  "UpdateStateObject E r obj w =
     rbind (deref r w) (\<lambda>s.
     let addr = address obj;
         s = (case (obj_state obj, map_of (states s) addr) of
                (Some r', None) \<Rightarrow> s\<lparr>states := AList.update addr r' (states s)\<rparr>
              | _ \<Rightarrow> s);
         w = (put_state r s w)\<lparr>db := db_Put (sha E (script obj)) (script obj) (db w)\<rparr>
     in rbind (StateObject_RlpEncode (sha E) obj w) (\<lambda>enc.
        rbind (state_Update E r addr enc w) (\<lambda>w.
        rbind (deref r w) (\<lambda>s.
        Inr (put_state r (s\<lparr>manifest := AddObjectChange obj (manifest s)\<rparr>) w)))))"

definition GetAccount :: "nat \<Rightarrow> bytes \<Rightarrow> World \<Rightarrow> (StateObject \<times> World) res" where
  "GetAccount r addr w =
     rbind (state_Get r addr w) (\<lambda>(data, w).
     if data = [] then Inr (NewAccount addr 0, w) else NewStateObjectFromBytes addr data w)"

definition State_Cmp :: "State \<Rightarrow> State \<Rightarrow> bool" where
  "State_Cmp s other \<longleftrightarrow> Trie_Cmp (trie s) (trie other)"

text \<open>A deep copy: the trie, and a copy of every nested state.\<close>

fun State_Copy :: "nat \<Rightarrow> nat \<Rightarrow> World \<Rightarrow> (nat \<times> World) res" where
  "State_Copy 0 r w = Inl OutOfFuel"
| "State_Copy (Suc f) r w =
     rbind (deref r w) (\<lambda>s.
     let (r', w) = NewState (Trie_Copy (trie s)) w in
     rbind
       (each (\<lambda>(k, sub) w.
          rbind (State_Copy f sub w) (\<lambda>(sub', w).
          rbind (deref r' w) (\<lambda>s'.
          Inr (put_state r' (s'\<lparr>states := AList.update k sub' (states s')\<rparr>) w)))) (states s) w) (\<lambda>w.
     Inr (r', w)))"

definition Snapshot :: "Env \<Rightarrow> nat \<Rightarrow> World \<Rightarrow> (nat \<times> World) res" where
  "Snapshot E r w = State_Copy (walk E) r w"

definition Revert :: "nat \<Rightarrow> nat \<Rightarrow> World \<Rightarrow> World res" where
  "Revert r snapshot w =
     rbind (deref r w) (\<lambda>s.
     rbind (deref snapshot w) (\<lambda>s'.
     Inr (put_state r (s\<lparr>trie := trie s', states := states s'\<rparr>) w)))"

definition State_Put :: "Env \<Rightarrow> nat \<Rightarrow> bytes \<Rightarrow> bytes \<Rightarrow> World \<Rightarrow> World res" where
  "State_Put E r key obj w = state_Update E r key obj w"

definition State_Root :: "nat \<Rightarrow> World \<Rightarrow> gval res" where
  "State_Root r w = rbind (deref r w) (\<lambda>s. Inr (Root (trie s)))"

section \<open>address.go, fees.go, error.go\<close>

record Address =
  ad_Amount :: int
  ad_Nonce :: uint64

definition NewAddress :: "int \<Rightarrow> Address" where
  "NewAddress amount = \<lparr>ad_Amount = amount, ad_Nonce = 0\<rparr>"

definition Address_RlpDecode :: "bytes \<Rightarrow> Address \<Rightarrow> Address res" where
  "Address_RlpDecode data a =
     rbind (NewValueFromBytes data) (\<lambda>decoder.
     Inr (a\<lparr>ad_Amount := big_of (Get decoder 0), ad_Nonce := Uint (Get decoder 1)\<rparr>))"

definition NewAddressFromData :: "bytes \<Rightarrow> Address res" where
  "NewAddressFromData data = Address_RlpDecode data \<lparr>ad_Amount = 0, ad_Nonce = 0\<rparr>"

definition AddFee :: "int \<Rightarrow> Address \<Rightarrow> Address" where
  "AddFee fee a = a\<lparr>ad_Amount := ad_Amount a + fee\<rparr>"

definition Address_RlpEncode :: "Address \<Rightarrow> bytes" where
  "Address_RlpEncode a = Encode (VList [VBig (Some (ad_Amount a)), VUint64 (ad_Nonce a)])"

record AddressState =
  as_Nonce :: uint64
  as_Account :: Address

type_synonym AddrStateStore = "bytes \<rightharpoonup> AddressState"

definition NewAddrStateStore :: AddrStateStore where
  "NewAddrStateStore = Map.empty"

definition AddrStateStore_Add :: "bytes \<Rightarrow> Address \<Rightarrow> AddrStateStore \<Rightarrow> AddressState \<times> AddrStateStore" where
  "AddrStateStore_Add addr account s =
     (let st = \<lparr>as_Nonce = ad_Nonce account, as_Account = account\<rparr> in (st, s(addr \<mapsto> st)))"

definition AddrStateStore_Get :: "bytes \<Rightarrow> AddrStateStore \<Rightarrow> AddressState option" where
  "AddrStateStore_Get addr s = s addr"

definition TxFeeRat :: int where "TxFeeRat = 100000000000000"
definition BlockReward :: int where "BlockReward = 1500000000000000000"
definition UncleReward :: int where "UncleReward = 1125000000000000000"
definition UncleInclusionReward :: int where "UncleInclusionReward = 187500000000000000"

record Fees =
  StepFee :: int
  StoreFee :: int
  DataFee :: int
  ExtroFee :: int
  CryptoFee :: int
  ContractFee :: int

definition initial_fees :: Fees where
  "initial_fees = \<lparr>StepFee = 1, StoreFee = 5, DataFee = 20, ExtroFee = 40, CryptoFee = 20, ContractFee = 100\<rparr>"

definition InitFees :: "Fees \<Rightarrow> Fees" where
  "InitFees f =
     \<lparr>StepFee = StepFee f * TxFeeRat, StoreFee = StoreFee f * TxFeeRat, DataFee = DataFee f * TxFeeRat,
      ExtroFee = ExtroFee f * TxFeeRat, CryptoFee = CryptoFee f * TxFeeRat, ContractFee = ContractFee f * TxFeeRat\<rparr>"

text \<open>
  The errors of the block and transaction processors. \<open>PlainErr\<close> is a \<open>fmt.Errorf\<close>; the
  constructors below it name the call that makes it.
\<close>

datatype chain_err =
    ParentErr bytes
  | ValidationErr string
  | NonceErr uint64 uint64
  | PlainErr string

fun IsParentErr :: "chain_err \<Rightarrow> bool" where
  "IsParentErr (ParentErr _) = True" | "IsParentErr _ = False"

fun IsValidationErr :: "chain_err \<Rightarrow> bool" where
  "IsValidationErr (ValidationErr _) = True" | "IsValidationErr _ = False"

fun IsNonceErr :: "chain_err \<Rightarrow> bool" where
  "IsNonceErr (NonceErr _ _) = True" | "IsNonceErr _ = False"

section \<open>A concrete environment and world\<close>

text \<open>For the concrete instances of later theorems: an injective function in the place of the hash, and
  one state with an empty trie.\<close>

definition demo_env :: Env where
  "demo_env = \<lparr>sha = (\<lambda>x. replicate 32 0 @ x), recover = (\<lambda>h s. 4 # s), sign = (\<lambda>h k. h), spare = (\<lambda>_. 0), growth = (\<lambda>_ n. n), behind = (\<lambda>_. []), walk = 50\<rparr>"

definition demo_world :: World where
  "demo_world = snd (NewState (NewTrie (VStr [])) \<lparr>db = NewMemDatabase, heap = []\<rparr>)"

end
