(* ===== verification/Machine.thy ===== *)
theory Machine
  imports Numbers
begin

text \<open>
  \<open>ethchain/stack.go\<close>: the operand stack and the memory of a running closure. Integers
  on the stack are immutable here: \<open>Push\<close> copies, so no two live slots share a
  \<open>big.Int\<close>. Memory keeps its capacity, because \<open>Get\<close> slices up to it.
\<close>

section \<open>The stack\<close>

record Stack =
  st_data :: "int list"

definition NewStack :: Stack where
  "NewStack = \<lparr>st_data = []\<rparr>"

definition Stack_Len :: "Stack \<Rightarrow> nat" where
  "Stack_Len st = length (st_data st)"

definition Stack_Pop :: "Stack \<Rightarrow> (int \<times> Stack) res" where
  "Stack_Pop st =
     (let d = st_data st in
      if d = [] then Inl IndexOutOfRange
      else Inr (d ! (length d - 1), st\<lparr>st_data := take (length d - 1) d\<rparr>))"

definition Stack_Popn :: "Stack \<Rightarrow> (int \<times> int \<times> Stack) res" where
  "Stack_Popn st =
     (let d = st_data st in
      if length d < 2 then Inl SliceBounds
      else Inr (d ! (length d - 2), d ! (length d - 1), st\<lparr>st_data := take (length d - 2) d\<rparr>))"

definition Stack_Peek :: "Stack \<Rightarrow> int res" where
  "Stack_Peek st =
     (let d = st_data st in if d = [] then Inl IndexOutOfRange else Inr (d ! (length d - 1)))"

text \<open>
  \<open>Peekn\<close> reads \<open>data[:2]\<close>, the two oldest entries. With fewer than two entries the
  slice reaches into the spare capacity: \<open>stale\<close> is what earlier pops left there,
  \<open>None\<close> when the capacity is too small or the slot was never used.
\<close>

definition Stack_Peekn :: "(int \<times> int) option \<Rightarrow> Stack \<Rightarrow> (int \<times> int) res" where
  "Stack_Peekn stale st =
     (case st_data st of
        a # b # _ \<Rightarrow> Inr (a, b)
      | _ \<Rightarrow> (case stale of Some p \<Rightarrow> Inr p | None \<Rightarrow> Inl SliceBounds))"

definition Stack_Push :: "int \<Rightarrow> Stack \<Rightarrow> Stack" where
  "Stack_Push d st = st\<lparr>st_data := st_data st @ [d]\<rparr>"

definition Stack_Get :: "int \<Rightarrow> Stack \<Rightarrow> int list res" where
  "Stack_Get amount st =
     (let len = int (length (st_data st)) in
      if amount \<le> len then gosliceI (st_data st) [] (big_Int64 (len - amount)) len
      else Inr [])"

section \<open>The memory\<close>

text \<open>
  The bytes between length and capacity are zero: \<open>append\<close> clears them and the store is
  never shortened. \<open>grow\<close> is the capacity \<open>append\<close> chooses for an old capacity and a needed
  length; whatever it answers, the needed length fits.
\<close>

record Memory =
  store :: bytes
  mem_cap :: nat

definition NewMemory :: Memory where
  "NewMemory = \<lparr>store = [], mem_cap = 0\<rparr>"

definition mem_spare :: "Memory \<Rightarrow> bytes" where
  "mem_spare m = replicate (mem_cap m - length (store m)) 0"

definition mem_append :: "(nat \<Rightarrow> nat \<Rightarrow> nat) \<Rightarrow> nat \<Rightarrow> Memory \<Rightarrow> Memory" where
  "mem_append grow n m =
     (let need = length (store m) + n in
      \<lparr>store = store m @ replicate n 0,
       mem_cap = (if need \<le> mem_cap m then mem_cap m else max need (grow (mem_cap m) need))\<rparr>)"

text \<open>The sum of two \<open>int64\<close> values wraps around.\<close>

definition wrap64 :: "int \<Rightarrow> int" where
  "wrap64 x = sint (word_of_int x :: 64 word)"

definition Memory_Set :: "(nat \<Rightarrow> nat \<Rightarrow> nat) \<Rightarrow> int \<Rightarrow> int \<Rightarrow> bytes \<Rightarrow> Memory \<Rightarrow> Memory res" where
  "Memory_Set grow offset size' value m =
     (let totSize = wrap64 (offset + size');
          lenSize = int (length (store m)) - 1;
          diff = wrap64 (totSize - lenSize);
          m' = (if totSize > lenSize \<and> diff > 0 then mem_append grow (nat (diff - 1)) m else m)
      in rbind (gosliceI (store m') (mem_spare m') offset totSize) (\<lambda>w.
         Inr (m'\<lparr>store := take (nat offset) (store m') @
                    take (length w) value @ drop (nat offset + min (length w) (length value)) (store m')\<rparr>)))"

definition Memory_Get :: "int \<Rightarrow> int \<Rightarrow> Memory \<Rightarrow> bytes res" where
  "Memory_Get offset size' m = gosliceI (store m) (mem_spare m) offset (wrap64 (offset + size'))"

text \<open>What lies behind the slice that \<open>Memory_Get\<close> returns, up to the capacity.\<close>

definition Memory_tail :: "int \<Rightarrow> int \<Rightarrow> Memory \<Rightarrow> bytes" where
  "Memory_tail offset size' m = drop (nat (wrap64 (offset + size'))) (store m @ mem_spare m)"

definition Memory_Len :: "Memory \<Rightarrow> nat" where
  "Memory_Len m = length (store m)"

section \<open>The stack is a last-in-first-out store\<close>

locale lifo =
  fixes push :: "'a \<Rightarrow> 's \<Rightarrow> 's"
    and pop :: "'s \<Rightarrow> go_err + 'a \<times> 's"
    and elems :: "'s \<Rightarrow> 'a list"
  assumes elems_push: "elems (push x s) = elems s @ [x]"
    and pop_push: "pop (push x s) = Inr (x, s)"
    and pop_empty: "elems s = [] \<Longrightarrow> pop s = Inl IndexOutOfRange"
    and elems_inj: "elems s = elems s' \<Longrightarrow> s = s'"
begin

fun pops :: "nat \<Rightarrow> 's \<Rightarrow> go_err + 'a list \<times> 's" where
  "pops 0 s = Inr ([], s)"
| "pops (Suc n) s = rbind (pop s) (\<lambda>(x, s). rbind (pops n s) (\<lambda>(xs, s). Inr (x # xs, s)))"

lemma elems_pushes: "elems (fold push xs s) = elems s @ xs"
  by (induction xs arbitrary: s) (simp_all add: elems_push)

lemma pops_pushes: "pops (length xs) (fold push xs s) = Inr (rev xs, s)"
  by (induction xs rule: rev_induct) (simp_all add: pop_push)

lemma pop_cases: "pop s = Inl IndexOutOfRange \<or> (\<exists>x s'. pop s = Inr (x, s') \<and> elems s = elems s' @ [x])"
  if surj: "\<And>xs. \<exists>t. elems t = xs"
proof (cases "elems s" rule: rev_cases)
  case (snoc ys y)
  obtain t where "elems t = ys" using surj by blast
  then have "s = push y t" using snoc by (intro elems_inj) (simp add: elems_push)
  then show ?thesis by (simp add: pop_push elems_push)
qed (simp add: pop_empty)

end

interpretation stack: lifo Stack_Push Stack_Pop st_data
  by unfold_locales (auto simp: Stack_Push_def Stack_Pop_def)

lemma Popn_two_pops:
  "Stack_Popn st = (if length (st_data st) < 2 then Inl SliceBounds else
     rbind (Stack_Pop st) (\<lambda>(y, st). rbind (Stack_Pop st) (\<lambda>(x, st). Inr (x, y, st))))"
  by (auto simp: Stack_Popn_def Stack_Pop_def Let_def numeral_2_eq_2 nth_append min_def)

lemma Stack_Pop_push [simp]: "Stack_Pop (Stack_Push x st) = Inr (x, st)"
  by (rule stack.pop_push)

lemma Stack_Popn_push2 [simp]: "Stack_Popn (Stack_Push y (Stack_Push x st)) = Inr (x, y, st)"
  by (simp add: Popn_two_pops Stack_Push_def [THEN arg_cong [of _ _ st_data]]) 

section \<open>Memory\<close>

definition mem_ok :: "Memory \<Rightarrow> bool" where
  "mem_ok m \<longleftrightarrow> length (store m) \<le> mem_cap m"

lemma mem_ok_NewMemory [simp]: "mem_ok NewMemory"
  by (simp add: mem_ok_def NewMemory_def)

lemma mem_append_ok [simp]: "mem_ok (mem_append grow n m)"
  by (auto simp: mem_ok_def mem_append_def Let_def)

lemma wrap64_id: "- (2 ^ 63) \<le> x \<Longrightarrow> x < 2 ^ 63 \<Longrightarrow> wrap64 x = x"
  by (simp add: wrap64_def sint_sbintrunc' signed_take_bit_int_eq_self)

definition mem_padded :: "Memory \<Rightarrow> nat \<Rightarrow> bytes" where
  "mem_padded m n = store m @ replicate (n - length (store m)) 0"

lemma Memory_Set_padded:
  assumes "0 \<le> off" "0 \<le> n" "off + n < 2 ^ 63 - 1" "int (length (store m)) < 2 ^ 63"
  obtains m' where "Memory_Set grow off n value m = Inr m'"
    "store m' = take (nat off) (mem_padded m (nat (off + n))) @ take (nat n) value @
       drop (nat off + min (nat n) (length value)) (mem_padded m (nat (off + n)))"
    "mem_ok m \<Longrightarrow> mem_ok m'"
proof -
  define lenSize where "lenSize = int (length (store m)) - 1"
  define diff where "diff = off + n - lenSize"
  define m1 where "m1 = (if off + n > lenSize then mem_append grow (nat (diff - 1)) m else m)"
  have w: "wrap64 (off + n) = off + n" using assms by (intro wrap64_id) auto
  have d: "wrap64 diff = diff" if "off + n > lenSize"
    using assms that by (intro wrap64_id) (auto simp: diff_def lenSize_def)
  have len1: "nat (diff - 1) = nat (off + n) - length (store m)" if "off + n > lenSize"
    using that assms by (auto simp: diff_def lenSize_def nat_eq_iff)
  have st1: "store m1 = mem_padded m (nat (off + n))"
    using assms len1 by (auto simp: m1_def mem_append_def mem_padded_def Let_def lenSize_def not_less)
  then have len: "nat (off + n) \<le> length (store m1)" by (simp add: mem_padded_def)
  have sel: "(if off + n > lenSize \<and> wrap64 diff > 0 then mem_append grow (nat (wrap64 diff - 1)) m else m) = m1"
    using d by (auto simp: m1_def) (auto simp: diff_def)
  define w' where "w' = take (nat n) (drop (nat off) (store m1))"
  have lw: "length w' = nat n" using len assms by (simp add: w'_def nat_add_distrib)
  have sl: "gosliceI (store m1) (mem_spare m1) off (off + n) = Inr w'"
    using assms len by (auto simp: gosliceI_def w'_def nat_add_distrib)
  define m' where "m' = m1\<lparr>store := take (nat off) (store m1) @ take (length w') value @
    drop (nat off + min (length w') (length value)) (store m1)\<rparr>"
  have "Memory_Set grow off n value m = Inr m'"
    unfolding Memory_Set_def w Let_def lenSize_def [symmetric] diff_def [symmetric] sel sl m'_def by simp
  moreover have "store m' = take (nat off) (mem_padded m (nat (off + n))) @ take (nat n) value @
      drop (nat off + min (nat n) (length value)) (mem_padded m (nat (off + n)))"
    by (simp add: m'_def lw st1)
  moreover have "mem_ok m'" if "mem_ok m"
  proof -
    have "mem_ok m1" using that by (simp add: m1_def)
    moreover have "length (store m') = length (store m1)"
      using len assms lw by (auto simp: m'_def nat_add_distrib)
    ultimately show ?thesis by (simp add: mem_ok_def m'_def)
  qed
  ultimately show thesis using that by blast
qed

lemma Memory_Set_nth:
  assumes "0 \<le> off" "0 \<le> n" "off + n < 2 ^ 63 - 1" "int (length (store m)) < 2 ^ 63"
  shows "\<exists>m'. Memory_Set grow off n value m = Inr m' \<and>
    length (store m') = max (length (store m)) (nat (off + n)) \<and>
    (\<forall>i < length (store m'). store m' ! i =
      (if nat off \<le> i \<and> i < nat off + min (nat n) (length value) then value ! (i - nat off)
       else if i < length (store m) then store m ! i else 0)) \<and>
    (mem_ok m \<longrightarrow> mem_ok m')"
proof -
  obtain m' where m': "Memory_Set grow off n value m = Inr m'"
    "store m' = take (nat off) (mem_padded m (nat (off + n))) @ take (nat n) value @
       drop (nat off + min (nat n) (length value)) (mem_padded m (nat (off + n)))"
    "mem_ok m \<Longrightarrow> mem_ok m'"
    by (rule Memory_Set_padded [OF assms, of grow "value"]) blast
  have le: "nat off \<le> length (mem_padded m (nat (off + n)))"
    "nat off + nat n \<le> length (mem_padded m (nat (off + n)))"
    using assms by (auto simp: mem_padded_def nat_add_distrib)
  have len: "length (store m') = length (mem_padded m (nat (off + n)))"
    using le by (simp add: m'(2) min.commute)
  also have "\<dots> = max (length (store m)) (nat (off + n))" by (simp add: mem_padded_def)
  finally have l: "length (store m') = max (length (store m)) (nat (off + n))" .
  have "store m' ! i = (if nat off \<le> i \<and> i < nat off + min (nat n) (length value) then value ! (i - nat off)
       else if i < length (store m) then store m ! i else 0)" if i: "i < length (store m')" for i
  proof -
    have p: "mem_padded m (nat (off + n)) ! i = (if i < length (store m) then store m ! i else 0)"
      using i l by (auto simp: mem_padded_def nth_append)
    define P where "P = mem_padded m (nat (off + n))"
    define k where "k = min (nat n) (length value)"
    have st: "store m' = take (nat off) P @ take k value @ drop (nat off + k) P"
      by (simp add: m'(2) P_def k_def min_def)
    have lt: "length (take (nat off) P) = nat off" "length (take k value) = k"
      using le by (auto simp: P_def k_def)
    consider "i < nat off" | "nat off \<le> i" "i < nat off + k" | "nat off + k \<le> i" by linarith
    then have "store m' ! i = (if nat off \<le> i \<and> i < nat off + k then value ! (i - nat off) else P ! i)"
    proof cases
      case 3
      then have "store m' ! i = drop (nat off + k) P ! (i - (nat off + k))"
        unfolding st append_assoc [symmetric] by (subst nth_append) (use lt in simp)
      also have "\<dots> = P ! i" using 3 i len by (simp add: P_def)
      finally show ?thesis using 3 by simp
    next
      case 1
      then show ?thesis unfolding st by (subst nth_append) (use lt in simp)
    next
      case 2
      then have "store m' ! i = (take k value @ drop (nat off + k) P) ! (i - nat off)"
        unfolding st by (subst nth_append) (use lt in simp)
      also have "\<dots> = value ! (i - nat off)"
        using 2 by (auto simp: nth_append k_def)
      finally show ?thesis using 2 by simp
    qed
    then show ?thesis unfolding p [symmetric] k_def P_def .
  qed
  with m'(1,3) l show ?thesis by blast
qed

text \<open>Writing to memory extends it with zeros up to the end of the range, stores the value at
  the range's start, truncated to the range, and changes no other byte; it does not panic for a range
  inside the address space.\<close>

theorem Memory_Set_writes:
  assumes "0 \<le> off" "0 \<le> n" "off + n < 2 ^ 63 - 1" "int (length (store m)) < 2 ^ 63"
  shows "\<exists>m'. Memory_Set grow off n value m = Inr m' \<and>
    length (store m') = max (length (store m)) (nat (off + n)) \<and>
    (\<forall>i < length (store m'). store m' ! i =
      (if nat off \<le> i \<and> i < nat off + min (nat n) (length value) then value ! (i - nat off)
       else if i < length (store m) then store m ! i else 0))"
  using Memory_Set_nth [OF assms] by blast

theorem Memory_Set_writes_witness:
  "\<exists>m'. Memory_Set (\<lambda>_ n. n) 2 2 [7, 8, 9] \<lparr>store = [1], mem_cap = 1\<rparr> = Inr m' \<and> length (store m') = 4"
proof -
  have "(0::int) \<le> 2" "(2::int) + 2 < 2 ^ 63 - 1" "int (length (store \<lparr>store = [1::byte], mem_cap = 1\<rparr>)) < 2 ^ 63"
    by simp_all
  from Memory_Set_writes [OF _ _ this(2,3), of "\<lambda>_ n. n" "[7, 8, 9]"] show ?thesis by auto
qed

lemma Memory_Get_Set:
  assumes "0 \<le> off" "off + int (length value) < 2 ^ 63 - 1" "int (length (store m)) < 2 ^ 63"
  shows "\<exists>m'. Memory_Set grow off (int (length value)) value m = Inr m' \<and>
    Memory_Get off (int (length value)) m' = Inr value"
proof -
  obtain m' where m': "Memory_Set grow off (int (length value)) value m = Inr m'"
    "length (store m') = max (length (store m)) (nat (off + int (length value)))"
    "\<forall>i < length (store m'). store m' ! i =
      (if nat off \<le> i \<and> i < nat off + length value then value ! (i - nat off)
       else if i < length (store m) then store m ! i else 0)"
    using Memory_Set_nth [of off "int (length value)" m grow "value"] assms by auto
  have w: "wrap64 (off + int (length value)) = off + int (length value)" using assms by (intro wrap64_id) auto
  have "take (length value) (drop (nat off) (store m')) = value"
    by (rule nth_equalityI) (use m'(2,3) assms(1) in \<open>auto simp: nat_add_distrib\<close>)
  then have "Memory_Get off (int (length value)) m' = Inr value"
    using m'(2) assms(1) by (auto simp: Memory_Get_def w gosliceI_def nat_add_distrib)
  with m'(1) show ?thesis by blast
qed

end
