(* ===== verification/Closure.thy ===== *)
theory Closure
  imports State Machine Opcodes
begin

text \<open>
  \<open>ethchain/closure.go\<close>. A closure points to its callee, an object or another closure,
  and mutates it when it returns gas, so the chain of callees is part of the value: whoever
  runs a closure takes the chain back from it. \<open>script_tail\<close> is what lies behind the script
  in its backing array (a script is cut out of encoded data or of another closure's memory).
\<close>

section \<open>Closures\<close>

datatype closure =
    Closure (callee: callee) (object: StateObject) (Script: bytes) (script_tail: bytes) (State: nat)
      (Gas: int) (UsedGas: int) (Price: int) (Args: bytes)
and callee = CalleeNone | CalleeObj StateObject | CalleeClo closure

definition set_gas :: "int \<Rightarrow> int \<Rightarrow> closure \<Rightarrow> closure" where
  "set_gas g u c =
     Closure (callee c) (object c) (Script c) (script_tail c) (State c) g u (Price c) (Args c)"

definition set_callee :: "callee \<Rightarrow> closure \<Rightarrow> closure" where
  "set_callee p c =
     Closure p (object c) (Script c) (script_tail c) (State c) (Gas c) (UsedGas c) (Price c) (Args c)"

definition set_object :: "StateObject \<Rightarrow> closure \<Rightarrow> closure" where
  "set_object obj c =
     Closure (callee c) obj (Script c) (script_tail c) (State c) (Gas c) (UsedGas c) (Price c) (Args c)"

definition set_args :: "bytes \<Rightarrow> closure \<Rightarrow> closure" where
  "set_args as c =
     Closure (callee c) (object c) (Script c) (script_tail c) (State c) (Gas c) (UsedGas c) (Price c) as"

definition NewClosure ::
    "callee \<Rightarrow> StateObject \<Rightarrow> bytes \<Rightarrow> bytes \<Rightarrow> nat \<Rightarrow> int \<Rightarrow> int \<Rightarrow> closure" where
  "NewClosure p obj scr tail st gas price = Closure p obj scr tail st gas 0 price []"

definition Closure_GetMem :: "int \<Rightarrow> closure \<Rightarrow> World \<Rightarrow> (gval \<times> World) res" where
  "Closure_GetMem x c w = GetMem x (object c) w"

definition Gets :: "int \<Rightarrow> int \<Rightarrow> closure \<Rightarrow> gval res" where
  "Gets x y c =
     (if big_Int64 x \<ge> int (length (Script c)) \<or> big_Int64 y \<ge> int (length (Script c))
      then Inr (NewValue (VInt 0))
      else
        rbind (gosliceI (Script c) (script_tail c) (big_Int64 x) (wrap64 (big_Int64 x + big_Int64 y)))
          (\<lambda>partial. Inr (NewValue (VBytes partial))))"

definition Closure_Get :: "int \<Rightarrow> closure \<Rightarrow> gval res" where
  "Closure_Get x c = Gets x 1 c"

definition Closure_SetStorage :: "Env \<Rightarrow> int \<Rightarrow> gval \<Rightarrow> closure \<Rightarrow> World \<Rightarrow> World res" where
  "Closure_SetStorage E x val c w = SetStorage E x val (object c) w"

definition Closure_Address :: "closure \<Rightarrow> bytes" where
  "Closure_Address c = address (object c)"

text \<open>\<open>UseGas\<close>: \<open>None\<close> is the answer false.\<close>

definition UseGas :: "int \<Rightarrow> closure \<Rightarrow> closure option" where
  "UseGas gas c =
     (if Gas c < gas then None else Some (set_gas (Gas c - gas) (UsedGas c + gas) c))"

definition Closure_ReturnGas :: "int \<Rightarrow> int \<Rightarrow> closure \<Rightarrow> closure" where
  "Closure_ReturnGas gas price c = set_gas (Gas c + gas) (UsedGas c - gas) c"

definition Closure_N :: "closure \<Rightarrow> int" where
  "Closure_N c = N (object c)"

section \<open>The interface ClosureRef\<close>

fun callee_ReturnGas :: "int \<Rightarrow> int \<Rightarrow> callee \<Rightarrow> callee" where
  "callee_ReturnGas gas price CalleeNone = CalleeNone"
| "callee_ReturnGas gas price (CalleeObj obj) = CalleeObj (StateObject_ReturnGas gas price obj)"
| "callee_ReturnGas gas price (CalleeClo c) = CalleeClo (Closure_ReturnGas gas price c)"

fun callee_Address :: "callee \<Rightarrow> bytes res" where
  "callee_Address CalleeNone = Inl NilDereference"
| "callee_Address (CalleeObj obj) = Inr (address obj)"
| "callee_Address (CalleeClo c) = Inr (Closure_Address c)"

fun callee_N :: "callee \<Rightarrow> int res" where
  "callee_N CalleeNone = Inl NilDereference"
| "callee_N (CalleeObj obj) = Inr (N obj)"
| "callee_N (CalleeClo c) = Inr (Closure_N c)"

definition Return :: "closure \<Rightarrow> closure" where
  "Return c =
     (case callee c of
        CalleeNone \<Rightarrow> set_object (StateObject_ReturnGas (Gas c) (Price c) (object c)) c
      | p \<Rightarrow> set_callee (callee_ReturnGas (Gas c) (Price c) p) c)"

section \<open>Gas accounting\<close>

lemma set_gas_sel [simp]:
  "Gas (set_gas g u c) = g" "UsedGas (set_gas g u c) = u" "callee (set_gas g u c) = callee c"
  "object (set_gas g u c) = object c" "Script (set_gas g u c) = Script c"
  "script_tail (set_gas g u c) = script_tail c" "Price (set_gas g u c) = Price c"
  "State (set_gas g u c) = State c" "Args (set_gas g u c) = Args c"
  by (simp_all add: set_gas_def)

lemma set_callee_sel [simp]:
  "Gas (set_callee p c) = Gas c" "UsedGas (set_callee p c) = UsedGas c" "callee (set_callee p c) = p"
  "object (set_callee p c) = object c" "Script (set_callee p c) = Script c"
  "script_tail (set_callee p c) = script_tail c" "Price (set_callee p c) = Price c"
  "State (set_callee p c) = State c" "Args (set_callee p c) = Args c"
  by (simp_all add: set_callee_def)

lemma set_object_sel [simp]:
  "Gas (set_object p c) = Gas c" "UsedGas (set_object p c) = UsedGas c" "callee (set_object p c) = callee c"
  "object (set_object p c) = p" "Script (set_object p c) = Script c"
  "script_tail (set_object p c) = script_tail c" "Price (set_object p c) = Price c"
  "State (set_object p c) = State c" "Args (set_object p c) = Args c"
  by (simp_all add: set_object_def)

lemma set_args_sel [simp]:
  "Gas (set_args p c) = Gas c" "UsedGas (set_args p c) = UsedGas c" "callee (set_args p c) = callee c"
  "object (set_args p c) = object c" "Script (set_args p c) = Script c"
  "script_tail (set_args p c) = script_tail c" "Price (set_args p c) = Price c"
  "State (set_args p c) = State c" "Args (set_args p c) = p"
  by (simp_all add: set_args_def)

text \<open>
  The contract between a closure and whatever it charges gas to: a meter whose sum of
  remaining and used gas never changes.
\<close>

locale gas_meter =
  fixes remaining :: "'c \<Rightarrow> int" and used :: "'c \<Rightarrow> int"
    and use :: "int \<Rightarrow> 'c \<Rightarrow> 'c option" and give_back :: "int \<Rightarrow> 'c \<Rightarrow> 'c"
  assumes use_iff: "use g c = None \<longleftrightarrow> remaining c < g"
    and use_remaining: "use g c = Some c' \<Longrightarrow> remaining c' = remaining c - g"
    and use_used: "use g c = Some c' \<Longrightarrow> used c' = used c + g"
    and give_remaining: "remaining (give_back g c) = remaining c + g"
    and give_used: "used (give_back g c) = used c - g"
begin

definition total :: "'c \<Rightarrow> int" where
  "total c = remaining c + used c"

lemma total_use: "use g c = Some c' \<Longrightarrow> total c' = total c"
  by (simp add: total_def use_remaining use_used)

lemma total_give [simp]: "total (give_back g c) = total c"
  by (simp add: total_def give_remaining give_used)

text \<open>Paying \<open>g\<close> in advance and getting back what was left, \<open>l\<close>, charges \<open>g - l\<close>.\<close>

lemma prepay:
  assumes "use g c = Some c'"
  shows "used (give_back l c') = used c + (g - l)" "remaining (give_back l c') = remaining c - (g - l)"
  using assms by (simp_all add: give_used give_remaining use_used use_remaining)

fun charges :: "int list \<Rightarrow> 'c \<Rightarrow> 'c option" where
  "charges [] c = Some c"
| "charges (g # gs) c = (case use g c of None \<Rightarrow> None | Some c' \<Rightarrow> charges gs c')"

lemma charges_used: "charges gs c = Some c' \<Longrightarrow> used c' = used c + sum_list gs \<and> total c' = total c"
proof (induction gs arbitrary: c)
  case (Cons g gs)
  then obtain c1 where c1: "use g c = Some c1" "charges gs c1 = Some c'" by (auto split: option.splits)
  from Cons.IH [OF c1(2)] show ?case by (simp add: use_used [OF c1(1)] total_use [OF c1(1)])
qed simp

lemma charges_limit:
  "\<forall>g \<in> set gs. 0 \<le> g \<Longrightarrow> charges gs c = Some c' \<Longrightarrow> 0 \<le> remaining c \<Longrightarrow>
   0 \<le> remaining c' \<and> sum_list gs \<le> remaining c"
proof (induction gs arbitrary: c)
  case (Cons g gs)
  then obtain c1 where c1: "use g c = Some c1" "charges gs c1 = Some c'" by (auto split: option.splits)
  have "remaining c1 = remaining c - g" "g \<le> remaining c"
    using use_remaining [OF c1(1)] use_iff [of g c] c1(1) by auto
  with Cons c1(2) show ?case by force
qed simp

end

interpretation meter: gas_meter Gas UsedGas UseGas "\<lambda>g. Closure_ReturnGas g price"
  by unfold_locales (auto simp: UseGas_def Closure_ReturnGas_def split: if_splits)

end
