(* ===== verification/Vm.thy ===== *)
theory Vm
  imports Closure
begin

text \<open>
  \<open>ethchain/vm.go\<close>: the interpreter. One pass through the loop of \<open>RunClosure\<close> is \<open>step\<close>:
  fetch, gas, charge, execute. The switch is cut into groups of opcodes, each a definition;
  \<open>CREATE\<close> and \<open>CALL\<close> have a part before and a part after the run of the child closure, which
  \<open>RunLoop\<close> puts together. A panic anywhere inside is what \<open>recover\<close> turns into an error.
\<close>

section \<open>Gas prices\<close>

definition GasStep :: int where "GasStep = 1"
definition GasSha :: int where "GasSha = 20"
definition GasSLoad :: int where "GasSLoad = 20"
definition GasSStore :: int where "GasSStore = 100"
definition GasBalance :: int where "GasBalance = 20"
definition GasCreate :: int where "GasCreate = 100"
definition GasCall :: int where "GasCall = 20"
definition GasMemory :: int where "GasMemory = 1"
definition GasTx :: int where "GasTx = 500"

lemmas gas_prices = GasStep_def GasSha_def GasSLoad_def GasSStore_def GasBalance_def GasCreate_def
  GasCall_def GasMemory_def GasTx_def

definition CalculateTxGas :: "int \<Rightarrow> int res" where
  "CalculateTxGas initSize =
     rbind (big_Div initSize Big32) (\<lambda>txTotalBytes. Inr (0 + txTotalBytes * GasSStore))"

definition Pow256 :: int where "Pow256 = BigPow 2 256"

section \<open>State of a run\<close>

record RuntimeVars =
  Origin :: bytes
  BlockNumber :: uint64
  PrevHash :: bytes
  Coinbase :: bytes
  Time :: int
  Diff :: int
  Value :: int

text \<open>One activation of \<open>RunClosure\<close>, with the world it shares with the others.\<close>

record Run =
  world :: World
  clo :: closure
  stack :: Stack
  mem :: Memory
  pc :: int
  step_no :: int

text \<open>
  What a run is given: the environment, the \<open>Vm\<close> (its state and variables), the debug
  hook, and \<open>stale\<close>, the answer to a \<open>Peekn\<close> that reads behind a short stack.
\<close>

record Ctx =
  env :: Env
  vm_state :: nat
  vars :: RuntimeVars
  hook :: "(int \<Rightarrow> nat \<Rightarrow> Memory \<Rightarrow> Stack \<Rightarrow> StateObject \<Rightarrow> bool) option"
  stale :: "Run \<Rightarrow> (int \<times> int) option"

datatype vm_err = InsufficientGas int int | InvalidOpcode nat | Recovered go_err

text \<open>What is left to do when the child closure of a \<open>CREATE\<close> or a \<open>CALL\<close> has run.\<close>

datatype pending =
    AfterCreate nat bytes StateObject
  | AfterCall nat int int

text \<open>
  The ways to leave the switch: fall out of it, \<open>continue\<close>, return \<open>closure.Return(ret), err\<close>,
  panic, or first run a child closure.
\<close>

datatype step_result =
    Next Run
  | Again Run
  | Halt Run bytes "vm_err option"
  | Crash Run go_err
  | Spawn Run pending closure

definition attempt :: "Run \<Rightarrow> 'a res \<Rightarrow> ('a \<Rightarrow> step_result) \<Rightarrow> step_result" where
  "attempt st m k = (case m of Inl e \<Rightarrow> Crash st e | Inr x \<Rightarrow> k x)"

definition require :: "nat \<Rightarrow> Run \<Rightarrow> step_result \<Rightarrow> step_result" where
  "require m st k = (if Stack_Len (stack st) < m then Crash st (Panic ''stack'') else k)"

definition push :: "int \<Rightarrow> Run \<Rightarrow> Run" where
  "push x st = st\<lparr>stack := Stack_Push x (stack st)\<rparr>"

definition pop :: "Run \<Rightarrow> (int \<Rightarrow> Run \<Rightarrow> step_result) \<Rightarrow> step_result" where
  "pop st k = attempt st (Stack_Pop (stack st)) (\<lambda>(x, s). k x (st\<lparr>stack := s\<rparr>))"

definition popn :: "Run \<Rightarrow> (int \<Rightarrow> int \<Rightarrow> Run \<Rightarrow> step_result) \<Rightarrow> step_result" where
  "popn st k = attempt st (Stack_Popn (stack st)) (\<lambda>(x, y, s). k x y (st\<lparr>stack := s\<rparr>))"

definition bool_word :: "bool \<Rightarrow> int" where
  "bool_word b = (if b then BigTrue else BigFalse)"

section \<open>The gas of a step\<close>

definition sstore_mult :: "gval \<Rightarrow> int \<Rightarrow> int res" where
  "sstore_mult val y =
     rbind (IsEmpty val) (\<lambda>e.
     Inr (if e \<and> length (big_Bytes y) > 0 then Big2
          else if \<not> e \<and> length (big_Bytes y) = 0 then Big0
          else Big1))"

definition step_gas :: "Ctx \<Rightarrow> nat \<Rightarrow> Run \<Rightarrow> (int \<times> Run) res" where
  "step_gas C op st =
     (if op = op_SHA3 then Inr (GasSha, st)
      else if op = op_SLOAD then Inr (GasSLoad, st)
      else if op = op_SSTORE then
        rbind (Stack_Peekn (stale C st) (stack st)) (\<lambda>(y, x).
        rbind (Closure_GetMem x (clo st) (world st)) (\<lambda>(val, w).
        rbind (sstore_mult val y) (\<lambda>mult. Inr (mult * GasSStore, st\<lparr>world := w\<rparr>))))
      else if op = op_BALANCE then Inr (GasBalance, st)
      else if op = op_CREATE then
        (if Stack_Len (stack st) < 3 then Inl (Panic ''stack'')
         else
           rbind (Stack_Get 3 (stack st)) (\<lambda>args.
           rbind (CalculateTxGas (args ! 1 + args ! 0)) (\<lambda>g. Inr (g, st))))
      else if op = op_CALL then Inr (GasCall, st)
      else if op = op_MLOAD \<or> op = op_MSIZE \<or> op = op_MSTORE8 \<or> op = op_MSTORE then Inr (GasMemory, st)
      else Inr (GasStep, st))"

section \<open>Arithmetic and bit operations\<close>

text \<open>\<open>if x.Cmp(Pow256) > 0 { x.Sub(Pow256, x) }\<close>\<close>

definition fold256 :: "int \<Rightarrow> int" where
  "fold256 x = (if x > Pow256 then Pow256 - x else x)"

text \<open>The operations on two popped operands \<open>x\<close> and \<open>y\<close> (\<open>y\<close> was on top).\<close>

definition binary_op :: "nat \<Rightarrow> (int \<Rightarrow> int \<Rightarrow> int res) option" where
  "binary_op op =
     (if op = op_ADD then Some (\<lambda>x y. Inr (x + y))
      else if op = op_SUB then Some (\<lambda>x y. Inr (x - y))
      else if op = op_MUL then Some (\<lambda>x y. Inr (x * y))
      else if op = op_DIV then Some big_Div
      else if op = op_SDIV then Some (\<lambda>x y. rbind (big_Div (fold256 x) (fold256 y)) (\<lambda>z. Inr (fold256 z)))
      else if op = op_MOD then Some big_Mod
      else if op = op_SMOD then Some (\<lambda>x y. rbind (big_Mod (fold256 x) (fold256 y)) (\<lambda>z. Inr (fold256 z)))
      else if op = op_EXP then Some (\<lambda>x y. Inr (big_ExpMod 0 x y Pow256))
      else if op = op_LT then Some (\<lambda>x y. Inr (bool_word (x < y)))
      else if op = op_GT then Some (\<lambda>x y. Inr (bool_word (x > y)))
      else if op = op_EQ then Some (\<lambda>x y. Inr (bool_word (x = y)))
      else if op = op_AND then Some (\<lambda>x y. Inr (bool_word (x \<ge> BigTrue \<and> y \<ge> BigTrue)))
      else if op = op_OR then Some (\<lambda>x y. Inr (bool_word (x \<ge> BigInt0 \<or> y \<ge> BigInt0)))
      else if op = op_XOR then Some (\<lambda>x y. Inr (semiring_bit_operations_class.xor x y))
      else if op = op_BYTE then
        Some (\<lambda>x y. Inr (if y < 32 then wrap64 (int (length (big_Bytes x)) - 1 - big_Int64 y) else BigFalse))
      else None)"

definition exec_binary :: "(int \<Rightarrow> int \<Rightarrow> int res) \<Rightarrow> Run \<Rightarrow> step_result" where
  "exec_binary f st =
     require 2 st (popn st (\<lambda>x y st. attempt st (f x y) (\<lambda>z. Next (push z st))))"

definition exec_unary :: "nat \<Rightarrow> Run \<Rightarrow> step_result" where
  "exec_unary op st =
     require 1 st (pop st (\<lambda>x st.
       Next (push (if op = op_NEG then Pow256 - x else bool_word (x = BigFalse)) st)))"

section \<open>Hashing and the environment\<close>

definition exec_sha3 :: "Ctx \<Rightarrow> Run \<Rightarrow> step_result" where
  "exec_sha3 C st =
     require 2 st (popn st (\<lambda>size' offset st.
       attempt st (Memory_Get (big_Int64 offset) (big_Int64 size') (mem st)) (\<lambda>data.
       Next (push (BigD (sha (env C) data)) st))))"

definition exec_calldataload :: "Run \<Rightarrow> step_result" where
  "exec_calldataload st =
     require 1 st (pop st (\<lambda>x st.
       let offset = big_Int64 x; args = Args (clo st) in
       if int (length args) \<ge> wrap64 (offset + 32) then
         attempt st (gosliceI args [] offset (wrap64 (offset + 32))) (\<lambda>data. Next (push (BigD data) st))
       else Next (push (BigD [0]) st)))"

text \<open>The operations that push a datum of the closure, the transaction or the block.\<close>

definition env_datum :: "Ctx \<Rightarrow> nat \<Rightarrow> Run \<Rightarrow> int res option" where
  "env_datum C op st =
     (let c = clo st; v = vars C in
      if op = op_ADDRESS then Some (Inr (BigD (address (object c))))
      else if op = op_BALANCE then Some (Inr (Amount (object c)))
      else if op = op_ORIGIN then Some (Inr (BigD (Origin v)))
      else if op = op_CALLER then Some (rbind (callee_Address (callee c)) (\<lambda>a. Inr (BigD a)))
      else if op = op_CALLVALUE then Some (Inr (Value v))
      else if op = op_CALLDATASIZE then Some (Inr (int (length (Args c))))
      else if op = op_GASPRICE then Some (Inr (Price c))
      else if op = op_PREVHASH then Some (Inr (BigD (PrevHash v)))
      else if op = op_COINBASE then Some (Inr (BigD (Coinbase v)))
      else if op = op_TIMESTAMP then Some (Inr (Time v))
      else if op = op_NUMBER then Some (Inr (sint (BlockNumber v)))
      else if op = op_DIFFICULTY then Some (Inr (Diff v))
      else if op = op_GASLIMIT then Some (Inr 0)
      else if op = op_PC then Some (Inr (pc st))
      else if op = op_MSIZE then Some (Inr (int (Memory_Len (mem st))))
      else None)"

section \<open>Stack, memory, storage and jumps\<close>

definition exec_push :: "nat \<Rightarrow> Run \<Rightarrow> step_result" where
  "exec_push op st =
     (let a = int op - int op_PUSH1 + 1; st = st\<lparr>pc := pc st + Big1\<rparr> in
      attempt st (Gets (pc st) a (clo st)) (\<lambda>data.
      let st = push (BigD (Bytes data)) st in
      Next (st\<lparr>pc := pc st + (a - 1), step_no := step_no st + (int op - int op_PUSH1 + 1)\<rparr>)))"

definition exec_stack :: "nat \<Rightarrow> Run \<Rightarrow> step_result" where
  "exec_stack op st =
     (if op = op_POP then require 1 st (pop st (\<lambda>x st. Next st))
      else if op = op_DUP then
        require 1 st (attempt st (Stack_Peek (stack st)) (\<lambda>x. Next (push x st)))
      else require 2 st (popn st (\<lambda>x y st. Next (push x (push y st)))))"

definition exec_mem :: "Ctx \<Rightarrow> nat \<Rightarrow> Run \<Rightarrow> step_result" where
  "exec_mem C op st =
     (if op = op_MLOAD then
        require 1 st (pop st (\<lambda>offset st.
          attempt st (Memory_Get (big_Int64 offset) 32 (mem st)) (\<lambda>b. Next (push (BigD b) st))))
      else
        require 2 st (popn st (\<lambda>val mStart st.
          let v = (if op = op_MSTORE then val else semiring_bit_operations_class.and val 0xff) in
          attempt st (Memory_Set (growth (env C)) (big_Int64 mStart) 32 (BigToBytes v 256) (mem st))
            (\<lambda>m. Next (st\<lparr>mem := m\<rparr>)))))"

definition exec_storage :: "Ctx \<Rightarrow> nat \<Rightarrow> Run \<Rightarrow> step_result" where
  "exec_storage C op st =
     (if op = op_SLOAD then
        require 1 st (pop st (\<lambda>loc st.
          attempt st (Closure_GetMem loc (clo st) (world st)) (\<lambda>(val, w).
          let st = st\<lparr>world := w\<rparr> in
          (case BigInt val of None \<Rightarrow> Crash st NilDereference | Some x \<Rightarrow> Next (push x st)))))
      else
        require 2 st (popn st (\<lambda>val loc st.
          attempt st (Closure_SetStorage (env C) loc (NewValue (VBig (Some val))) (clo st) (world st)) (\<lambda>w.
          let st = st\<lparr>world := w\<rparr> in
          attempt st (deref (vm_state C) w) (\<lambda>s.
          Next (st\<lparr>world := put_state (vm_state C)
            (s\<lparr>manifest := AddStorageChange (object (clo st)) (big_Bytes loc) val (manifest s)\<rparr>) w\<rparr>))))))"

definition exec_jump :: "nat \<Rightarrow> Run \<Rightarrow> step_result" where
  "exec_jump op st =
     (if op = op_JUMP then require 1 st (pop st (\<lambda>x st. Again (st\<lparr>pc := x\<rparr>)))
      else require 2 st (popn st (\<lambda>cond pos st.
        if cond = BigTrue then Again (st\<lparr>pc := pos\<rparr>) else Next st)))"

section \<open>Creating and calling\<close>

definition create_start :: "Ctx \<Rightarrow> Run \<Rightarrow> step_result" where
  "create_start C st =
     require 3 st (pop st (\<lambda>value' st. popn st (\<lambda>size' offset st.
       attempt st (Snapshot (env C) (vm_state C) (world st)) (\<lambda>(snapshot, w).
       let st = st\<lparr>world := w\<rparr>; c = clo st in
       attempt st (callee_Address (callee c)) (\<lambda>a.
       attempt st (callee_N (callee c)) (\<lambda>n.
       let addr = CreateAddress (sha (env C)) a n;
           (contract, w) = NewContract addr value' [] (world st);
           st = st\<lparr>world := w\<rparr> in
       attempt st (Memory_Get (big_Int64 offset) (big_Int64 size') (mem st)) (\<lambda>init.
       let contract = contract\<lparr>initScript := init\<rparr>;
           gas = Gas c;
           st = (case UseGas gas c of None \<Rightarrow> st | Some c' \<Rightarrow> st\<lparr>clo := c'\<rparr>);
           child = NewClosure (callee c) (object c) init (Memory_tail (big_Int64 offset) (big_Int64 size') (mem st))
                     (vm_state C) gas (Price c)
       in Spawn st (AfterCreate snapshot addr contract) (set_args [] child))))))))"

definition create_finish ::
    "Ctx \<Rightarrow> nat \<Rightarrow> bytes \<Rightarrow> StateObject \<Rightarrow> vm_err option \<Rightarrow> Run \<Rightarrow> step_result" where
  "create_finish C snapshot addr contract err st =
     (if err \<noteq> None then
        let st = push BigFalse st in
        attempt st (Revert (vm_state C) snapshot (world st)) (\<lambda>w. Next (st\<lparr>world := w\<rparr>))
      else
        let st = push (BigD addr) st in
        attempt st (UpdateStateObject (env C) (vm_state C) contract (world st)) (\<lambda>w. Next (st\<lparr>world := w\<rparr>)))"

definition call_start :: "Ctx \<Rightarrow> Run \<Rightarrow> step_result" where
  "call_start C st =
     require 7 st (pop st (\<lambda>addr st. popn st (\<lambda>gas value' st.
       popn st (\<lambda>inSize inOffset st. popn st (\<lambda>retSize retOffset st.
       if Gas (clo st) < gas then Next (push BigFalse st)
       else
         attempt st (Memory_Get (big_Int64 inOffset) (big_Int64 inSize) (mem st)) (\<lambda>args.
         attempt st (Snapshot (env C) (vm_state C) (world st)) (\<lambda>(snapshot, w).
         let st = st\<lparr>world := w\<rparr> in
         attempt st (GetStateObject (vm_state C) (big_Bytes addr) (world st)) (\<lambda>(contract, w).
         let st = st\<lparr>world := w\<rparr> in
         (case contract of
            None \<Rightarrow> Next (push BigFalse st)
          | Some contract \<Rightarrow>
              let gas = (if gas = 0 then Gas (clo st) else gas);
                  st = (case UseGas gas (clo st) of None \<Rightarrow> st | Some c' \<Rightarrow> st\<lparr>clo := c'\<rparr>);
                  contract = AddAmount value' contract;
                  child = NewClosure (CalleeClo (clo st)) contract (script contract) (behind (env C) (script contract)) (vm_state C)
                            gas (Price (clo st))
              in Spawn st (AfterCall snapshot retOffset retSize) (set_args args child))))))))))"

definition call_finish ::
    "Ctx \<Rightarrow> nat \<Rightarrow> int \<Rightarrow> int \<Rightarrow> StateObject \<Rightarrow> bytes \<Rightarrow> vm_err option \<Rightarrow> Run \<Rightarrow> step_result" where
  "call_finish C snapshot retOffset retSize contract ret err st =
     (if err \<noteq> None then
        let st = push BigFalse st in
        attempt st (Revert (vm_state C) snapshot (world st)) (\<lambda>w. Next (st\<lparr>world := w\<rparr>))
      else
        let st = push BigTrue st in
        attempt st (UpdateStateObject (env C) (vm_state C) contract (world st)) (\<lambda>w.
        let st = st\<lparr>world := w\<rparr> in
        attempt st (Memory_Set (growth (env C)) (big_Int64 retOffset) (big_Int64 retSize) ret (mem st)) (\<lambda>m.
        Next (st\<lparr>mem := m\<rparr>))))"

section \<open>Returning\<close>

definition exec_return :: "Run \<Rightarrow> step_result" where
  "exec_return st =
     require 2 st (popn st (\<lambda>size' offset st.
       attempt st (Memory_Get (big_Int64 offset) (big_Int64 size') (mem st)) (\<lambda>ret. Halt st ret None)))"

definition exec_suicide :: "Ctx \<Rightarrow> Run \<Rightarrow> step_result" where
  "exec_suicide C st =
     require 1 st (pop st (\<lambda>x st.
       attempt st (GetAccount (vm_state C) (big_Bytes x) (world st)) (\<lambda>(receiver, w).
       let st = st\<lparr>world := w\<rparr>; receiver = AddAmount (Amount (object (clo st))) receiver in
       attempt st (UpdateStateObject (env C) (vm_state C) receiver (world st)) (\<lambda>w.
       let st = st\<lparr>world := w\<rparr> in
       attempt st (state_of (object (clo st))) (\<lambda>r.
       attempt st (State_Purge (env C) r (world st)) (\<lambda>(n, w).
       Halt (st\<lparr>world := w\<rparr>) [] None))))))"

section \<open>The loop\<close>

definition exec :: "Ctx \<Rightarrow> nat \<Rightarrow> Run \<Rightarrow> step_result" where
  "exec C op st =
     (case binary_op op of
        Some f \<Rightarrow> exec_binary f st
      | None \<Rightarrow>
     (case env_datum C op st of
        Some m \<Rightarrow> attempt st m (\<lambda>x. Next (push x st))
      | None \<Rightarrow>
        if op = op_LOG then Next st
        else if op = op_NEG \<or> op = op_NOT then exec_unary op st
        else if op = op_SHA3 then exec_sha3 C st
        else if op = op_CALLDATALOAD then exec_calldataload st
        else if op_PUSH1 \<le> op \<and> op \<le> op_PUSH32 then exec_push op st
        else if op = op_POP \<or> op = op_DUP \<or> op = op_SWAP then exec_stack op st
        else if op = op_MLOAD \<or> op = op_MSTORE \<or> op = op_MSTORE8 then exec_mem C op st
        else if op = op_SLOAD \<or> op = op_SSTORE then exec_storage C op st
        else if op = op_JUMP \<or> op = op_JUMPI then exec_jump op st
        else if op = op_CREATE then create_start C st
        else if op = op_CALL then call_start C st
        else if op = op_RETURN then exec_return st
        else if op = op_SUICIDE then exec_suicide C st
        else if op = op_STOP then Halt st [] None
        else Halt st [] (Some (InvalidOpcode op))))"

text \<open>From the fetch to the switch; the second component is the opcode, for the hook.\<close>

definition step :: "Ctx \<Rightarrow> Run \<Rightarrow> step_result \<times> nat" where
  "step C st0 =
     (let st = st0\<lparr>step_no := step_no st0 + 1\<rparr> in
      case Closure_Get (pc st) (clo st) of
        Inl e \<Rightarrow> (Crash st e, 0)
      | Inr val \<Rightarrow>
          let op = unat (Uint val) in
          (case step_gas C op st of
             Inl e \<Rightarrow> (Crash st e, op)
           | Inr (gas, st) \<Rightarrow>
               (case UseGas gas (clo st) of
                  None \<Rightarrow> (Halt st [] (Some (InsufficientGas (Gas (clo st)) gas)), op)
                | Some c \<Rightarrow> (exec C op (st\<lparr>clo := c\<rparr>), op))))"

definition start :: "World \<Rightarrow> closure \<Rightarrow> Run" where
  "start w c = \<lparr>world = w, clo = c, stack = NewStack, mem = NewMemory, pc = 0, step_no = 0\<rparr>"

text \<open>
  The end of a run: the world, the closure after \<open>Return\<close>, the returned bytes and error.
  \<open>NoFuel\<close> is a loop cut off for lack of fuel, \<open>Stuck\<close> an operation on a trie or a state
  that was cut off (one that runs along a cycle of nodes never returns).
\<close>

datatype outcome = Done World closure bytes "vm_err option" | Stuck | NoFuel

definition recovered :: "Run \<Rightarrow> go_err \<Rightarrow> outcome" where
  "recovered st e =
     (if e = OutOfFuel then Stuck else Done (world st) (Return (clo st)) [] (Some (Recovered e)))"

text \<open>What the parent takes back from a child: the world and, through shared pointers, its own
  chain of callees.\<close>

definition resume ::
    "Ctx \<Rightarrow> Run \<Rightarrow> pending \<Rightarrow> World \<Rightarrow> closure \<Rightarrow> bytes \<Rightarrow> vm_err option \<Rightarrow> step_result" where
  "resume C st p w child ret err =
     (case p of
        AfterCreate snapshot addr contract \<Rightarrow>
          create_finish C snapshot addr contract err
            (st\<lparr>world := w, clo := set_callee (callee child) (set_object (object child) (clo st))\<rparr>)
      | AfterCall snapshot retOffset retSize \<Rightarrow>
          call_finish C snapshot retOffset retSize (object child) ret err
            (st\<lparr>world := w, clo := (case callee child of CalleeClo p \<Rightarrow> p | _ \<Rightarrow> clo st)\<rparr>))"

text \<open>The debug hook runs after \<open>pc++\<close> and can stop the run.\<close>

definition hook_allows :: "Ctx \<Rightarrow> int \<Rightarrow> nat \<Rightarrow> Run \<Rightarrow> bool" where
  "hook_allows C prevStep op st =
     (case hook C of None \<Rightarrow> True | Some h \<Rightarrow> h prevStep op (mem st) (stack st) (object (clo st)))"

text \<open>The end of the loop body for a switch that needs no further child; \<open>go\<close> is the loop.\<close>

definition finish_step :: "Ctx \<Rightarrow> int \<Rightarrow> nat \<Rightarrow> (Run \<Rightarrow> outcome) \<Rightarrow> step_result \<Rightarrow> outcome" where
  "finish_step C prevStep op go r =
     (case r of
        Next st \<Rightarrow>
          let st = st\<lparr>pc := pc st + Big1\<rparr> in
          if hook_allows C prevStep op st then go st else Done (world st) (clo st) [] None
      | Again st \<Rightarrow> go st
      | Halt st ret err \<Rightarrow> Done (world st) (Return (clo st)) ret err
      | Crash st e \<Rightarrow> recovered st e
      | Spawn st p child \<Rightarrow> Stuck)"

fun RunLoop :: "nat \<Rightarrow> Ctx \<Rightarrow> Run \<Rightarrow> outcome" where
  "RunLoop 0 C st = NoFuel"
| "RunLoop (Suc f) C st =
     (case step C st of (r, op) \<Rightarrow>
        (case r of
           Spawn st' p child \<Rightarrow>
             (case RunLoop f C (start (world st') child) of
                Done w c ret err \<Rightarrow> finish_step C (step_no st) op (RunLoop f C) (resume C st' p w c ret err)
              | Stuck \<Rightarrow> Stuck
              | NoFuel \<Rightarrow> NoFuel)
         | _ \<Rightarrow> finish_step C (step_no st) op (RunLoop f C) r))"

definition RunClosure :: "nat \<Rightarrow> Ctx \<Rightarrow> closure \<Rightarrow> World \<Rightarrow> outcome" where
  "RunClosure f C c w = RunLoop f C (start w c)"

definition Call :: "nat \<Rightarrow> Ctx \<Rightarrow> bytes \<Rightarrow> closure \<Rightarrow> World \<Rightarrow> outcome" where
  "Call f C args c w = RunClosure f C (set_args args c) w"

end
