(* ===== verification/Vm_Correct.thy ===== *)
theory Vm_Correct
  imports Vm
begin

text \<open>
  What the interpreter guarantees. \<open>results\<close> lifts a property of runs to every way of leaving
  a step; its rules let each group of opcodes be checked once. On it rest: fuel does not change
  a result, gas is conserved along the chain of callees, and a script without \<open>CREATE\<close> and
  \<open>CALL\<close> ends within \<open>2 * gas + 1\<close> steps.
\<close>

section \<open>Properties of step results\<close>

text \<open>\<open>P\<close> holds of runs that go on, \<open>Q\<close> of runs that end; \<open>S\<close> of a run with its child.\<close>

fun results :: "(Run \<Rightarrow> bool) \<Rightarrow> (Run \<Rightarrow> bool) \<Rightarrow> (Run \<Rightarrow> pending \<Rightarrow> closure \<Rightarrow> bool) \<Rightarrow> step_result \<Rightarrow> bool" where
  "results P Q S (Next st) \<longleftrightarrow> P st"
| "results P Q S (Again st) \<longleftrightarrow> P st"
| "results P Q S (Halt st ret err) \<longleftrightarrow> Q st"
| "results P Q S (Crash st e) \<longleftrightarrow> Q st"
| "results P Q S (Spawn st p child) \<longleftrightarrow> S st p child"

named_theorems step_rules \<open>rules that decompose a group of opcodes\<close>

lemma results_attempt [step_rules]:
  "Q st \<Longrightarrow> (\<And>x. m = Inr x \<Longrightarrow> results P Q S (k x)) \<Longrightarrow> results P Q S (attempt st m k)"
  by (cases m) (simp_all add: attempt_def)

lemma results_require [step_rules]:
  "Q st \<Longrightarrow> (n \<le> Stack_Len (stack st) \<Longrightarrow> results P Q S r) \<Longrightarrow> results P Q S (require n st r)"
  by (simp add: require_def)

lemma results_pop [step_rules]:
  "Q st \<Longrightarrow>
   (\<And>x s. Stack_Len (stack st) = Suc (Stack_Len s) \<Longrightarrow> results P Q S (k x (st\<lparr>stack := s\<rparr>))) \<Longrightarrow>
   results P Q S (pop st k)"
  by (auto simp: pop_def attempt_def Stack_Pop_def Stack_Len_def Let_def)

lemma results_popn [step_rules]:
  "Q st \<Longrightarrow>
   (\<And>x y s. Stack_Len (stack st) = Suc (Suc (Stack_Len s)) \<Longrightarrow> results P Q S (k x y (st\<lparr>stack := s\<rparr>))) \<Longrightarrow>
   results P Q S (popn st k)"
  by (auto simp: popn_def attempt_def Stack_Popn_def Stack_Len_def Let_def)

lemma push_sel [simp]:
  "clo (push x st) = clo st" "world (push x st) = world st" "mem (push x st) = mem st"
  "pc (push x st) = pc st" "Stack_Len (stack (push x st)) = Suc (Stack_Len (stack st))"
  by (simp_all add: push_def Stack_Push_def Stack_Len_def)

lemma results_mono:
  "results P Q S r \<Longrightarrow> (\<And>s. P s \<Longrightarrow> P' s) \<Longrightarrow> (\<And>s. Q s \<Longrightarrow> Q' s) \<Longrightarrow> (\<And>s p c. S s p c \<Longrightarrow> S' s p c) \<Longrightarrow>
   results P' Q' S' r"
  by (cases r) simp_all

section \<open>The groups of opcodes\<close>

text \<open>What every group but \<open>CREATE\<close> and \<open>CALL\<close> satisfies: the closure is unchanged and the stack
  grows by at most one entry.\<close>

abbreviation plain :: "closure \<Rightarrow> nat \<Rightarrow> step_result \<Rightarrow> bool" where
  "plain c n \<equiv> results (\<lambda>s. clo s = c \<and> Stack_Len (stack s) \<le> Suc n) (\<lambda>s. clo s = c) (\<lambda>_ _ _. False)"

lemma plain_binary: "plain (clo st) (Stack_Len (stack st)) (exec_binary f st)"
  unfolding exec_binary_def by (intro step_rules) simp_all

lemma plain_unary: "plain (clo st) (Stack_Len (stack st)) (exec_unary op st)"
  unfolding exec_unary_def by (intro step_rules) simp_all

lemma plain_sha3: "plain (clo st) (Stack_Len (stack st)) (exec_sha3 C st)"
  unfolding exec_sha3_def by (intro step_rules) simp_all

lemma plain_calldataload: "plain (clo st) (Stack_Len (stack st)) (exec_calldataload st)"
  unfolding exec_calldataload_def Let_def by (auto intro!: step_rules)

lemma plain_push: "plain (clo st) (Stack_Len (stack st)) (exec_push op st)"
  unfolding exec_push_def Let_def by (intro step_rules) simp_all

lemma plain_stack: "plain (clo st) (Stack_Len (stack st)) (exec_stack op st)"
  unfolding exec_stack_def by (auto intro!: step_rules)

lemma plain_mem: "plain (clo st) (Stack_Len (stack st)) (exec_mem C op st)"
  unfolding exec_mem_def Let_def by (auto intro!: step_rules)

lemma plain_storage: "plain (clo st) (Stack_Len (stack st)) (exec_storage C op st)"
  unfolding exec_storage_def Let_def by (auto intro!: step_rules split: option.split)

lemma plain_jump: "plain (clo st) (Stack_Len (stack st)) (exec_jump op st)"
  unfolding exec_jump_def by (auto intro!: step_rules)

lemma plain_return: "plain (clo st) (Stack_Len (stack st)) (exec_return st)"
  unfolding exec_return_def by (intro step_rules) simp_all

lemma plain_suicide: "plain (clo st) (Stack_Len (stack st)) (exec_suicide C st)"
  unfolding exec_suicide_def Let_def by (auto intro!: step_rules)

lemma plain_datum: "plain (clo st) (Stack_Len (stack st)) (attempt st m (\<lambda>x. Next (push x st)))"
  by (intro step_rules) simp_all

lemmas plain_groups = plain_binary plain_unary plain_sha3 plain_calldataload plain_push plain_stack
  plain_mem plain_storage plain_jump plain_return plain_suicide plain_datum

lemma results_if: "(b \<Longrightarrow> results P Q S x) \<Longrightarrow> (\<not> b \<Longrightarrow> results P Q S y) \<Longrightarrow> results P Q S (if b then x else y)"
  by simp

lemma plain_halt: "plain (clo st) n (Halt st ret err)" "Stack_Len (stack st) \<le> Suc n \<Longrightarrow> plain (clo st) n (Next st)"
  by simp_all

lemma plain_exec:
  assumes "op \<noteq> op_CREATE" "op \<noteq> op_CALL"
  shows "plain (clo st) (Stack_Len (stack st)) (exec C op st)"
proof (cases "binary_op op")
  case bin: None
  show ?thesis
  proof (cases "env_datum C op st")
    case None
    show ?thesis unfolding exec_def bin None option.case
      by (intro results_if plain_groups plain_halt) (use assms in simp_all)
  next
    case (Some m)
    show ?thesis unfolding exec_def bin Some option.case by (rule plain_datum)
  qed
next
  case (Some f)
  show ?thesis unfolding exec_def Some option.case by (rule plain_binary)
qed

text \<open>An \<open>SSTORE\<close> leaves the stack two entries shorter.\<close>

lemma sstore_shrinks:
  "results (\<lambda>s. clo s = clo st \<and> Suc (Suc (Stack_Len (stack s))) = Stack_Len (stack st)) (\<lambda>s. clo s = clo st)
     (\<lambda>_ _ _. False) (exec C op_SSTORE st)"
  unfolding exec_def binary_op_def env_datum_def exec_storage_def
  by (auto simp: Let_def intro!: step_rules)

section \<open>One step\<close>

lemma step_gas_cost:
  "step_gas C op st = Inr (g, st') \<Longrightarrow>
   clo st' = clo st \<and> stack st' = stack st \<and> (op \<noteq> op_CREATE \<longrightarrow> 0 < g \<or> op = op_SSTORE \<and> g = 0)"
  unfolding step_gas_def
  by (auto simp: rbind_Inr_iff sstore_mult_def gas_prices Big0_def Big1_def Big2_def split: if_splits)

lemma UseGas_Some:
  "UseGas g c = Some c' \<Longrightarrow> Gas c' = Gas c - g \<and> g \<le> Gas c \<and> UsedGas c' = UsedGas c + g \<and>
   callee c' = callee c \<and> object c' = object c \<and> Script c' = Script c \<and> script_tail c' = script_tail c \<and> Price c' = Price c"
  by (auto simp: UseGas_def split: if_splits)

text \<open>What the step at \<open>st\<close> is charged, if it is: the fetched opcode and the gas computed for it.\<close>

definition step_charge :: "Ctx \<Rightarrow> Run \<Rightarrow> (nat \<times> int) list" where
  "step_charge C st =
     (case Closure_Get (pc st) (clo st) of
        Inl e \<Rightarrow> []
      | Inr val \<Rightarrow>
          (case step_gas C (unat (Uint val)) (st\<lparr>step_no := step_no st + 1\<rparr>) of
             Inl e \<Rightarrow> []
           | Inr (g, s) \<Rightarrow> if Gas (clo st) < g then [] else [(unat (Uint val), g)]))"

lemma step_cases:
  assumes "step C st0 = (r, op)"
  obtains (halt) s e where "r = Crash s e" "clo s = clo st0" "step_charge C st0 = []"
  | (poor) s ret err where "r = Halt s ret err" "clo s = clo st0" "step_charge C st0 = []"
  | (exec) val g s c where "Closure_Get (pc st0) (clo st0) = Inr val" "op = unat (Uint val)"
      "step_gas C op (st0\<lparr>step_no := step_no st0 + 1\<rparr>) = Inr (g, s)" "clo s = clo st0" "stack s = stack st0"
      "UseGas g (clo st0) = Some c" "r = exec C op (s\<lparr>clo := c\<rparr>)" "step_charge C st0 = [(op, g)]"
proof (cases "Closure_Get (pc st0) (clo st0)")
  case (Inl e)
  with assms halt show thesis by (auto simp: step_def step_charge_def Let_def)
next
  case val: (Inr val)
  define o' where "o' = unat (Uint val)"
  show thesis
  proof (cases "step_gas C o' (st0\<lparr>step_no := step_no st0 + 1\<rparr>)")
    case (Inl e)
    with assms val halt show thesis by (auto simp: step_def step_charge_def Let_def o'_def)
  next
    case g: (Inr p)
    obtain gas s where p: "p = (gas, s)" by (cases p)
    from step_gas_cost [OF g [unfolded p]] have s: "clo s = clo st0" "stack s = stack st0" by simp_all
    show thesis
    proof (cases "UseGas gas (clo s)")
      case None
      with assms val g p s poor show thesis by (auto simp: step_def step_charge_def UseGas_def Let_def o'_def split: if_splits)
    next
      case (Some c)
      then have "\<not> Gas (clo st0) < gas" using s by (auto simp: UseGas_def split: if_splits)
      with Some assms val g p s exec show thesis by (auto simp: step_def step_charge_def Let_def o'_def)
    qed
  qed
qed

lemma fetched:
  assumes "Closure_Get x c = Inr val"
  shows "unat (Uint val) = 0 \<or> (\<exists>b \<in> set (Script c). unat (Uint val) = unat b)"
proof (cases "big_Int64 x \<ge> int (length (Script c)) \<or> big_Int64 1 \<ge> int (length (Script c))")
  case True
  with assms show ?thesis by (auto simp: Closure_Get_def Gets_def)
next
  case False
  define i where "i = big_Int64 x"
  have one: "big_Int64 1 = 1" by (simp add: big_Int64_def)
  have lt: "i < int (length (Script c))" using False by (simp add: i_def)
  obtain partial where p: "gosliceI (Script c) (script_tail c) i (wrap64 (i + 1)) = Inr partial" "val = VBytes partial"
    using assms False by (auto simp: Closure_Get_def Gets_def one i_def rbind_Inr_iff)
  have "- (2 ^ 63) \<le> i" "i < 2 ^ 63" unfolding i_def big_Int64_def
    using sint_greater_eq [of "word_of_int x :: 64 word"] sint_less [of "word_of_int x :: 64 word"] by simp_all
  show ?thesis
  proof (cases "i + 1 < 2 ^ 63")
    case True
    then have w: "wrap64 (i + 1) = i + 1" using \<open>- (2 ^ 63) \<le> i\<close> by (intro wrap64_id) auto
    with p(1) have i0: "0 \<le> i" by (simp add: gosliceI_def split: if_splits)
    have "nat (i + 1 - i) = Suc 0" by simp
    then have "partial = [Script c ! nat i]"
      using p(1) lt w i0 by (simp add: gosliceI_def take_Suc hd_drop_conv_nth nth_append split: if_splits)
    note partial = this
    have "Script c ! nat i \<in> set (Script c)" using lt i0 by (simp add: nat_less_iff)
    then show ?thesis using partial p(2) unat_ReadVarint_be [of partial] by auto
  next
    case False
    then have "i + 1 = 2 ^ 63" using \<open>i < 2 ^ 63\<close> by simp
    then have "wrap64 (i + 1) = - (2 ^ 63)" by (simp add: wrap64_def)
    then show ?thesis using p(1) \<open>i + 1 = 2 ^ 63\<close> by (simp add: gosliceI_def split: if_splits)
  qed
qed

section \<open>Concrete runs\<close>

definition demo_ctx :: Ctx where
  "demo_ctx = \<lparr>env = demo_env, vm_state = 0,
     vars = \<lparr>Origin = [], BlockNumber = 0, PrevHash = [], Coinbase = [], Time = 0, Diff = 0, Value = 0\<rparr>,
     hook = None, stale = (\<lambda>_. None)\<rparr>"

definition demo_closure :: "bytes \<Rightarrow> int \<Rightarrow> closure" where
  "demo_closure scr gas =
     NewClosure (CalleeObj (NewAccount [1] 0)) (NewAccount [2] 7) scr [] 0 gas 3"

fun ended :: "outcome \<Rightarrow> (closure \<times> bytes \<times> vm_err option) option" where
  "ended (Done w c ret err) = Some (c, ret, err)"
| "ended _ = None"

text \<open>PUSH1 5, PUSH1 7, ADD, PUSH1 0, MSTORE, PUSH1 32, PUSH1 0, RETURN.\<close>

definition demo_script :: bytes where
  "demo_script = [0x60, 5, 0x60, 7, 0x01, 0x60, 0, 0x55, 0x60, 32, 0x60, 0, 0xf2]"

lemma demo_run:
  "map_option (\<lambda>(c, ret, err). (Gas c, UsedGas c, ret, err))
     (ended (RunClosure 20 demo_ctx (demo_closure demo_script 50) demo_world))
   = Some (42, 8, replicate 31 0 @ [12], None)"
  by code_simp

section \<open>Termination without calls\<close>

definition no_calls :: "bytes \<Rightarrow> bool" where
  "no_calls scr \<longleftrightarrow> (\<forall>b \<in> set scr. unat b \<noteq> op_CREATE \<and> unat b \<noteq> op_CALL)"

lemma finish_step_NoFuel:
  "finish_step C n op go r = NoFuel \<Longrightarrow> (\<exists>st. r = Next st \<and> go (st\<lparr>pc := pc st + Big1\<rparr>) = NoFuel) \<or> (\<exists>st. r = Again st \<and> go st = NoFuel)"
  by (cases r) (auto simp: finish_step_def recovered_def Let_def split: if_splits)

definition run_measure :: "Run \<Rightarrow> nat" where
  "run_measure st = 2 * nat (Gas (clo st)) + Stack_Len (stack st)"

text \<open>Every step that goes on pays at least one unit of gas and grows the stack by at most one
  entry, or is an \<open>SSTORE\<close> and takes two entries from it.\<close>

lemma step_measure:
  assumes "step C st = (r, op)" "no_calls (Script (clo st))"
  shows "results (\<lambda>s. run_measure s < run_measure st \<and> no_calls (Script (clo s))) (\<lambda>_. True) (\<lambda>_ _ _. False) r"
  using assms(1)
proof (cases rule: step_cases)
  case (exec val g s c)
  have op: "op \<noteq> op_CREATE" "op \<noteq> op_CALL"
    using fetched [OF exec(1)] assms(2) exec(2) by (auto simp: no_calls_def)
  note c = UseGas_Some [OF exec(6)]
  define n where "n = Stack_Len (stack st)"
  have st': "clo (s\<lparr>clo := c\<rparr>) = c" "Stack_Len (stack (s\<lparr>clo := c\<rparr>)) = n" using exec(5) by (simp_all add: n_def)
  show ?thesis
  proof (cases "0 < g")
    case True
    then have "nat (Gas c) < nat (Gas (clo st))" using c by simp
    then have "2 * nat (Gas c) + Suc n < run_measure st" unfolding run_measure_def n_def by linarith
    then show ?thesis
      unfolding exec(7)
      by (intro results_mono [OF plain_exec [OF op, of "s\<lparr>clo := c\<rparr>" C, unfolded st']])
        (use c assms(2) in \<open>auto simp: run_measure_def\<close>)
  next
    case False
    then have g: "op = op_SSTORE" "g = 0" using step_gas_cost [OF exec(3)] op by auto
    have "2 * nat (Gas c) + n \<le> run_measure st" using c g by (simp add: run_measure_def n_def)
    then show ?thesis
      unfolding exec(7) g(1)
      by (intro results_mono [OF sstore_shrinks [of "s\<lparr>clo := c\<rparr>" C, unfolded st']])
        (use c assms(2) in \<open>auto simp: run_measure_def\<close>)
  qed
qed simp_all

lemma RunLoop_enough_fuel:
  "run_measure st < f \<Longrightarrow> no_calls (Script (clo st)) \<Longrightarrow> RunLoop f C st \<noteq> NoFuel"
proof (induction f arbitrary: st)
  case (Suc f)
  obtain r op where step: "step C st = (r, op)" by (cases "step C st")
  from step_measure [OF step Suc.prems(2)]
  have res: "results (\<lambda>s. run_measure s < run_measure st \<and> no_calls (Script (clo s))) (\<lambda>_. True) (\<lambda>_ _ _. False) r" .
  then have eq: "RunLoop (Suc f) C st = finish_step C (step_no st) op (RunLoop f C) r"
    by (cases r) (simp_all add: step)
  have next_ok: "RunLoop f C s \<noteq> NoFuel" if "run_measure s < run_measure st" "no_calls (Script (clo s))" for s
    using that Suc.prems(1) by (intro Suc.IH) auto
  show ?case unfolding eq
    by (rule notI, drule finish_step_NoFuel) (use res next_ok in \<open>auto simp: run_measure_def\<close>)
qed simp

text \<open>
  \<open>calm w\<close> holds of a step that leaves the world as it is and is not cut off. It holds of every group
  of opcodes but those that use the state.
\<close>

fun calm :: "World \<Rightarrow> step_result \<Rightarrow> bool" where
  "calm w (Next st) \<longleftrightarrow> world st = w"
| "calm w (Again st) \<longleftrightarrow> world st = w"
| "calm w (Halt st ret err) \<longleftrightarrow> world st = w"
| "calm w (Crash st e) \<longleftrightarrow> world st = w \<and> e \<noteq> OutOfFuel"
| "calm w (Spawn st p child) \<longleftrightarrow> False"

named_theorems calm_rules \<open>rules that decompose a group of opcodes without state operations\<close>

lemma calm_attempt [calm_rules]:
  "world st = w \<Longrightarrow> m \<noteq> Inl OutOfFuel \<Longrightarrow> (\<And>x. m = Inr x \<Longrightarrow> calm w (k x)) \<Longrightarrow> calm w (attempt st m k)"
  by (cases m) (auto simp: attempt_def)

lemma calm_require [calm_rules]: "world st = w \<Longrightarrow> calm w r \<Longrightarrow> calm w (require n st r)"
  by (simp add: require_def)

lemma calm_pop [calm_rules]:
  "world st = w \<Longrightarrow> (\<And>x s. calm w (k x (st\<lparr>stack := s\<rparr>))) \<Longrightarrow> calm w (pop st k)"
  by (auto simp: pop_def attempt_def Stack_Pop_def Let_def)

lemma calm_popn [calm_rules]:
  "world st = w \<Longrightarrow> (\<And>x y s. calm w (k x y (st\<lparr>stack := s\<rparr>))) \<Longrightarrow> calm w (popn st k)"
  by (auto simp: popn_def attempt_def Stack_Popn_def Let_def)

lemma calm_if [calm_rules]: "(b \<Longrightarrow> calm w x) \<Longrightarrow> (\<not> b \<Longrightarrow> calm w y) \<Longrightarrow> calm w (if b then x else y)"
  by simp

lemma never_cut_off [simp]:
  "gosliceI xs sp i j \<noteq> Inl OutOfFuel" "Memory_Get i j m \<noteq> Inl OutOfFuel"
  "Memory_Set grow i j v m \<noteq> Inl OutOfFuel" "Gets x y c \<noteq> Inl OutOfFuel" "Closure_Get x c \<noteq> Inl OutOfFuel"
  "Stack_Peek s \<noteq> Inl OutOfFuel" "callee_Address q \<noteq> Inl OutOfFuel" "Stack_Get n s \<noteq> Inl OutOfFuel"
proof -
  show sl: "gosliceI xs sp i j \<noteq> Inl OutOfFuel" for xs :: "'z list" and sp i j by (simp add: gosliceI_def)
  show "Memory_Get i j m \<noteq> Inl OutOfFuel" by (simp add: Memory_Get_def sl)
  show "Memory_Set grow i j v m \<noteq> Inl OutOfFuel" by (simp add: Memory_Set_def Let_def rbind_Inl_iff sl)
  show gets: "Gets x y c \<noteq> Inl OutOfFuel" for x y c by (simp add: Gets_def rbind_Inl_iff sl)
  show "Closure_Get x c \<noteq> Inl OutOfFuel" by (simp add: Closure_Get_def gets)
  show "Stack_Peek s \<noteq> Inl OutOfFuel" by (simp add: Stack_Peek_def Let_def)
  show "callee_Address q \<noteq> Inl OutOfFuel" by (cases q) simp_all
  show "Stack_Get n s \<noteq> Inl OutOfFuel" by (simp add: Stack_Get_def Let_def sl)
qed

lemma binary_op_panic: "binary_op op = Some f \<Longrightarrow> f x y = Inl err \<Longrightarrow> err = DivisionByZero"
  by (auto simp: binary_op_def big_Div_def big_Mod_def rbind_Inl_iff split: if_splits)

lemma calm_binary: "binary_op op = Some f \<Longrightarrow> calm (world st) (exec_binary f st)"
  unfolding exec_binary_def by (intro calm_rules) (auto dest: binary_op_panic)

lemma calm_unary: "calm (world st) (exec_unary op st)"
  unfolding exec_unary_def by (intro calm_rules) simp_all

lemma calm_sha3: "calm (world st) (exec_sha3 C st)"
  unfolding exec_sha3_def by (intro calm_rules) simp_all

lemma calm_calldataload: "calm (world st) (exec_calldataload st)"
  unfolding exec_calldataload_def Let_def by (intro calm_rules) simp_all

lemma calm_push: "calm (world st) (exec_push op st)"
  unfolding exec_push_def Let_def by (intro calm_rules) simp_all

lemma calm_stack: "calm (world st) (exec_stack op st)"
  unfolding exec_stack_def by (intro calm_rules) simp_all

lemma calm_mem: "calm (world st) (exec_mem C op st)"
  unfolding exec_mem_def Let_def by (intro calm_rules) simp_all

lemma calm_jump: "calm (world st) (exec_jump op st)"
  unfolding exec_jump_def by (intro calm_rules) simp_all

lemma calm_return: "calm (world st) (exec_return st)"
  unfolding exec_return_def by (intro calm_rules) simp_all

lemma calm_datum: "env_datum C op st = Some m \<Longrightarrow> calm (world st) (attempt st m (\<lambda>x. Next (push x st)))"
  by (intro calm_rules) (auto simp: env_datum_def rbind_Inl_iff Let_def split: if_splits)

definition no_state_ops :: "bytes \<Rightarrow> bool" where
  "no_state_ops scr \<longleftrightarrow> (\<forall>b \<in> set scr. unat b \<noteq> op_SLOAD \<and> unat b \<noteq> op_SSTORE \<and> unat b \<noteq> op_SUICIDE)"

lemma calm_exec:
  assumes "op \<noteq> op_CREATE" "op \<noteq> op_CALL" "op \<noteq> op_SLOAD" "op \<noteq> op_SSTORE" "op \<noteq> op_SUICIDE"
  shows "calm (world st) (exec C op st)"
proof (cases "binary_op op")
  case bin: None
  show ?thesis
  proof (cases "env_datum C op st")
    case None
    show ?thesis unfolding exec_def bin None option.case
      by (intro calm_if calm_unary calm_sha3 calm_calldataload calm_push calm_stack calm_mem calm_jump calm_return)
        (use assms in simp_all)
  next
    case (Some m)
    show ?thesis unfolding exec_def bin Some option.case by (rule calm_datum [OF Some])
  qed
next
  case (Some f)
  show ?thesis unfolding exec_def Some option.case by (rule calm_binary [OF Some])
qed

lemma calm_step:
  assumes "no_calls (Script (clo st))" "no_state_ops (Script (clo st))"
  shows "calm (world st) (fst (step C st))"
proof (cases "Closure_Get (pc st) (clo st)")
  case (Inl e)
  then show ?thesis using never_cut_off(5) [of "pc st" "clo st"] by (simp add: step_def Let_def)
next
  case val: (Inr val)
  define op where "op = unat (Uint val)"
  have ops: "op \<noteq> op_CREATE" "op \<noteq> op_CALL" "op \<noteq> op_SLOAD" "op \<noteq> op_SSTORE" "op \<noteq> op_SUICIDE"
    using fetched [OF val] assms by (auto simp: op_def no_calls_def no_state_ops_def)
  let ?s = "st\<lparr>step_no := step_no st + 1\<rparr>"
  have "\<exists>g. step_gas C op ?s = Inr (g, ?s)" using ops by (simp add: step_gas_def)
  then obtain g where g: "step_gas C op ?s = Inr (g, ?s)" by blast
  show ?thesis
  proof (cases "UseGas g (clo ?s)")
    case (Some c)
    then show ?thesis using val g calm_exec [OF ops, of "?s\<lparr>clo := c\<rparr>" C] by (simp add: step_def Let_def op_def)
  qed (use val g in \<open>simp add: step_def Let_def op_def\<close>)
qed

lemma RunLoop_calm:
  "no_calls (Script (clo st)) \<Longrightarrow> no_state_ops (Script (clo st)) \<Longrightarrow> RunLoop f C st \<noteq> NoFuel \<Longrightarrow>
   \<exists>c ret err. RunLoop f C st = Done (world st) c ret err"
proof (induction f arbitrary: st)
  case (Suc f)
  obtain r op where step: "step C st = (r, op)" by (cases "step C st")
  have calm: "calm (world st) r" using calm_step [OF Suc.prems(1,2), of C] step by simp
  have scr: "results (\<lambda>s. Script (clo s) = Script (clo st)) (\<lambda>_. True) (\<lambda>_ _ _. False) r"
    using step
  proof (cases rule: step_cases)
    case (exec val g s c)
    have op: "op \<noteq> op_CREATE" "op \<noteq> op_CALL"
      using fetched [OF exec(1)] Suc.prems(1) exec(2) by (auto simp: no_calls_def)
    show ?thesis unfolding exec(7)
      by (rule results_mono [OF plain_exec [OF op]]) (use UseGas_Some [OF exec(6)] in auto)
  qed simp_all
  show ?case
  proof (cases r)
    case (Next s)
    have rec: "RunLoop f C (s\<lparr>pc := pc s + Big1\<rparr>) \<noteq> NoFuel \<Longrightarrow>
        \<exists>c ret err. RunLoop f C (s\<lparr>pc := pc s + Big1\<rparr>) = Done (world st) c ret err"
      using Suc.IH [of "s\<lparr>pc := pc s + Big1\<rparr>"] Suc.prems(1,2) Next scr calm by simp
    then show ?thesis using Suc.prems(3) step Next calm
      by (cases "hook_allows C (step_no st) op (s\<lparr>pc := pc s + Big1\<rparr>)") (simp_all add: finish_step_def)
  next
    case (Again s)
    then show ?thesis using Suc.IH [of s] Suc.prems step scr calm by (simp add: finish_step_def)
  qed (use step calm in \<open>simp_all add: finish_step_def recovered_def\<close>)
qed simp

text \<open>C2. A closure whose script holds no \<open>CREATE\<close> and no \<open>CALL\<close> byte leaves its loop within
  \<open>2 * gas + 1\<close> rounds, whatever it jumps to. (Gas alone is not enough, because an \<open>SSTORE\<close> that clears
  a slot is free; it takes two entries from the stack instead.) What can be left is a single operation
  on the state that does not return, the outcome \<open>Stuck\<close> of a walk over a trie that was cut off: when
  the script has no byte \<open>SLOAD\<close>, \<open>SSTORE\<close> or \<open>SUICIDE\<close> either, the run returns, with a result or with
  an error, and the world is the one it was started in.\<close>

theorem call_free_terminates:
  assumes "no_calls (Script c)" "2 * nat (Gas c) < f"
  shows "RunClosure f C c w \<noteq> NoFuel \<and>
    (no_state_ops (Script c) \<longrightarrow> (\<exists>c' ret err. RunClosure f C c w = Done w c' ret err))"
proof -
  have ends: "RunClosure f C c w \<noteq> NoFuel"
    unfolding RunClosure_def
    by (rule RunLoop_enough_fuel) (use assms in \<open>simp_all add: run_measure_def start_def NewStack_def Stack_Len_def\<close>)
  with RunLoop_calm [of "start w c" f C] assms(1) show ?thesis by (simp add: RunClosure_def start_def)
qed

theorem call_free_terminates_witness:
  "RunClosure 101 demo_ctx (demo_closure demo_script 50) demo_world \<noteq> NoFuel \<and>
   (\<exists>c ret err. RunClosure 101 demo_ctx (demo_closure demo_script 50) demo_world = Done demo_world c ret err)"
proof -
  have "no_calls (Script (demo_closure demo_script 50))" "2 * nat (Gas (demo_closure demo_script 50)) < (101 :: nat)"
    "no_state_ops (Script (demo_closure demo_script 50))"
    by (simp_all add: no_calls_def no_state_ops_def demo_script_def demo_closure_def NewClosure_def)
  note call_free_terminates [OF this(1,2), of demo_ctx demo_world] this(3)
  then show ?thesis by blast
qed

section \<open>Gas is conserved\<close>

text \<open>Remaining plus used gas of a closure and of each closure up its chain of callees.\<close>

primrec totals :: "closure \<Rightarrow> int list" and callee_totals :: "callee \<Rightarrow> int list" where
  "totals (Closure p obj scr tail s g u pr as) = (g + u) # callee_totals p"
| "callee_totals CalleeNone = []"
| "callee_totals (CalleeObj obj) = []"
| "callee_totals (CalleeClo c) = totals c"

lemma totals_eq: "totals c = (Gas c + UsedGas c) # callee_totals (callee c)"
  by (cases c) simp

lemma callee_totals_ReturnGas [simp]: "callee_totals (callee_ReturnGas g p x) = callee_totals x"
  by (cases x) (simp_all add: totals_eq Closure_ReturnGas_def)

lemma totals_Return [simp]: "totals (Return c) = totals c"
  by (cases "callee c") (simp_all add: Return_def totals_eq Closure_ReturnGas_def)

lemma totals_UseGas: "UseGas g c = Some c' \<Longrightarrow> totals c' = totals c"
  using UseGas_Some [of g c c'] by (simp add: totals_eq)

abbreviation child_ok :: "Run \<Rightarrow> pending \<Rightarrow> closure \<Rightarrow> bool" where
  "child_ok s p child \<equiv>
     (case p of AfterCreate _ _ _ \<Rightarrow> callee child = callee (clo s) | AfterCall _ _ _ \<Rightarrow> callee child = CalleeClo (clo s))"

abbreviation same_totals :: "closure \<Rightarrow> step_result \<Rightarrow> bool" where
  "same_totals c \<equiv> results (\<lambda>s. totals (clo s) = totals c) (\<lambda>s. totals (clo s) = totals c)
     (\<lambda>s p child. totals (clo s) = totals c \<and> child_ok s p child)"

lemma same_totals_create: "same_totals (clo st) (create_start C st)"
  unfolding create_start_def Let_def case_prod_unfold
  by (intro step_rules)
    (auto simp: NewClosure_def set_args_def split: option.split dest: totals_UseGas UseGas_Some)

lemma same_totals_call: "same_totals (clo st) (call_start C st)"
  unfolding call_start_def Let_def case_prod_unfold
  by (intro step_rules results_if)
    (auto simp: NewClosure_def set_args_def intro!: step_rules split: option.split dest: totals_UseGas UseGas_Some)

lemma same_totals_exec: "same_totals (clo st) (exec C op st)"
proof -
  consider "op = op_CREATE" | "op = op_CALL" | "op \<noteq> op_CREATE" "op \<noteq> op_CALL" by blast
  then show ?thesis
  proof cases
    case 1
    then show ?thesis using same_totals_create [of st C] by (simp add: exec_def binary_op_def env_datum_def Let_def)
  next
    case 2
    then show ?thesis using same_totals_call [of st C] by (simp add: exec_def binary_op_def env_datum_def Let_def)
  next
    case 3
    show ?thesis by (rule results_mono [OF plain_exec [OF 3]]) auto
  qed
qed

lemma same_totals_step: "step C st = (r, op) \<Longrightarrow> same_totals (clo st) r"
proof (elim step_cases)
  fix val g s c
  assume r: "UseGas g (clo st) = Some c" "r = exec C op (s\<lparr>clo := c\<rparr>)"
  show "same_totals (clo st) r"
    unfolding r(2) by (rule results_mono [OF same_totals_exec]) (simp_all add: totals_UseGas [OF r(1)])
qed simp_all

text \<open>The closure that goes on after a child: nothing but the chain of callees is taken over.\<close>

lemma resume_clo:
  "resume C st p w child ret err = r \<Longrightarrow>
   results (\<lambda>s. clo s = c) (\<lambda>s. clo s = c) (\<lambda>_ _ _. False) r"
  if "c = (case p of
      AfterCreate _ _ _ \<Rightarrow> set_callee (callee child) (set_object (object child) (clo st))
    | AfterCall _ _ _ \<Rightarrow> (case callee child of CalleeClo p \<Rightarrow> p | _ \<Rightarrow> clo st))"
  unfolding that resume_def
  by (cases p)
    (auto simp: create_finish_def call_finish_def Let_def intro!: step_rules)

lemma RunLoop_totals: "RunLoop f C st = Done w c ret err \<Longrightarrow> totals c = totals (clo st)"
proof (induction f arbitrary: st w c ret err)
  case (Suc f)
  have fin: "totals c = totals c0"
    if "finish_step C n op (RunLoop f C) r = Done w c ret err" "same_totals c0 r" for n op r c0
    using that Suc.IH
    by (cases r) (fastforce simp: finish_step_def recovered_def Let_def split: if_splits)+
  obtain r op where step: "step C st = (r, op)" by (cases "step C st")
  note res = same_totals_step [OF step]
  show ?case
  proof (cases r)
    case (Spawn s p child)
    obtain w' ch ret' err' where ch: "RunLoop f C (start (world s) child) = Done w' ch ret' err'"
      and last: "finish_step C (step_no st) op (RunLoop f C) (resume C s p w' ch ret' err') = Done w c ret err"
      using Suc.prems step Spawn by (auto split: outcome.splits)
    have tot: "totals ch = totals child" using Suc.IH [OF ch] by (simp add: start_def)
    have s: "totals (clo s) = totals (clo st)" "child_ok s p child" using res Spawn by simp_all
    define c' where "c' = (case p of
        AfterCreate _ _ _ \<Rightarrow> set_callee (callee ch) (set_object (object ch) (clo s))
      | AfterCall _ _ _ \<Rightarrow> (case callee ch of CalleeClo p \<Rightarrow> p | _ \<Rightarrow> clo s))"
    have ct: "callee_totals (callee ch) = callee_totals (callee child)" using tot by (simp add: totals_eq)
    have "totals c' = totals (clo s)"
    proof (cases p)
      case (AfterCall x y z)
      then show ?thesis using ct s(2)
        by (cases "callee ch") (simp_all add: c'_def)
    qed (use ct s(2) in \<open>simp add: c'_def totals_eq\<close>)
    then have "same_totals (clo st) (resume C s p w' ch ret' err')"
      by (intro results_mono [OF resume_clo [OF c'_def refl]]) (simp_all add: s)
    from fin [OF last this] show ?thesis .
  qed (use Suc.prems step res fin in \<open>simp_all del: results.simps\<close>)
qed simp

section \<open>Gas is paid for\<close>

text \<open>
  What a run is worth at the gas price \<open>p\<close>: its remaining gas, that of every closure up the chain
  of its callees, and the balance of the account at the end of the chain. \<open>purse\<close> is the part of it
  outside the closure itself, which is what is left of it after \<open>Return\<close>.
\<close>

primrec wealth :: "int \<Rightarrow> closure \<Rightarrow> int" and callee_wealth :: "int \<Rightarrow> int \<Rightarrow> callee \<Rightarrow> int" where
  "wealth p (Closure q obj scr tail s g u pr as) = p * g + callee_wealth p (Amount obj) q"
| "callee_wealth p a CalleeNone = a"
| "callee_wealth p a (CalleeObj obj) = Amount obj"
| "callee_wealth p a (CalleeClo c) = wealth p c"

primrec priced :: "int \<Rightarrow> closure \<Rightarrow> bool" and callee_priced :: "int \<Rightarrow> callee \<Rightarrow> bool" where
  "priced p (Closure q obj scr tail s g u pr as) \<longleftrightarrow> pr = p \<and> callee_priced p q"
| "callee_priced p CalleeNone \<longleftrightarrow> True"
| "callee_priced p (CalleeObj obj) \<longleftrightarrow> True"
| "callee_priced p (CalleeClo c) \<longleftrightarrow> priced p c"

definition purse :: "int \<Rightarrow> closure \<Rightarrow> int" where
  "purse p c = callee_wealth p (Amount (object c)) (callee c)"

lemma wealth_eq: "wealth p c = p * Gas c + purse p c"
  by (cases c) (simp add: purse_def)

lemma priced_eq: "priced p c \<longleftrightarrow> Price c = p \<and> callee_priced p (callee c)"
  by (cases c) simp

lemma purse_Return: "priced p c \<Longrightarrow> purse p (Return c) = wealth p c \<and> priced p (Return c)"
  by (cases "callee c")
    (auto simp: Return_def purse_def wealth_eq priced_eq Closure_ReturnGas_def StateObject_ReturnGas_def
      AddAmount_def SetAmount_def algebra_simps)

lemma wealth_UseGas:
  "UseGas g c = Some c' \<Longrightarrow> wealth p c' = wealth p c - p * g \<and> (priced p c' \<longleftrightarrow> priced p c)"
  by (auto simp: UseGas_def wealth_eq priced_eq purse_def algebra_simps split: if_splits)

text \<open>Everything a run charges, in order, its children included.\<close>

definition goes_on :: "(Run \<Rightarrow> 'a list) \<Rightarrow> step_result \<Rightarrow> 'a list" where
  "goes_on f r = (case r of Next s \<Rightarrow> f (s\<lparr>pc := pc s + Big1\<rparr>) | Again s \<Rightarrow> f s | _ \<Rightarrow> [])"

fun charged :: "nat \<Rightarrow> Ctx \<Rightarrow> Run \<Rightarrow> (nat \<times> int) list" where
  "charged 0 C st = []"
| "charged (Suc f) C st = step_charge C st @
     (case fst (step C st) of
        Spawn s p child \<Rightarrow> charged f C (start (world s) child) @
          (case RunLoop f C (start (world s) child) of
             Done w c ret err \<Rightarrow> goes_on (charged f C) (resume C s p w c ret err)
           | _ \<Rightarrow> [])
      | r \<Rightarrow> goes_on (charged f C) r)"

abbreviation gas_sum :: "(nat \<times> int) list \<Rightarrow> int" where
  "gas_sum cs \<equiv> sum_list (map snd cs)"

text \<open>
  The prices: one unit a step, 20 for \<open>SHA3\<close>, \<open>SLOAD\<close>, \<open>BALANCE\<close> and \<open>CALL\<close>; 100 for an \<open>SSTORE\<close>,
  twice that for a fresh slot and nothing for a cleared one; 100 per 32 bytes for a \<open>CREATE\<close>.
\<close>

definition listed_price :: "nat \<Rightarrow> int \<Rightarrow> bool" where
  "listed_price op g \<longleftrightarrow>
     (if op = 0x58 then g \<in> {0, 100, 200}
      else if op = 0xf0 then 100 dvd g
      else g = (if op \<in> {0x20, 0x31, 0x57, 0xf1} then 20 else 1))"

lemma step_charge_listed: "(op, g) \<in> set (step_charge C st) \<Longrightarrow> listed_price op g"
proof -
  assume "(op, g) \<in> set (step_charge C st)"
  then obtain s where "step_gas C op (st\<lparr>step_no := step_no st + 1\<rparr>) = Inr (g, s)"
    by (auto simp: step_charge_def dest: sym split: sum.splits if_splits)
  then show ?thesis
    by (auto simp: step_gas_def listed_price_def rbind_Inr_iff sstore_mult_def CalculateTxGas_def gas_prices
        Big0_def Big1_def Big2_def split: if_splits)
qed

lemma charged_listed: "(op, g) \<in> set (charged f C st) \<Longrightarrow> listed_price op g"
proof (induction f arbitrary: st)
  case (Suc f)
  have rest: "(op, g) \<in> set (goes_on (charged f C) r) \<Longrightarrow> listed_price op g" for r
    using Suc.IH by (cases r) (auto simp: goes_on_def)
  from Suc.prems show ?case using rest Suc.IH step_charge_listed
    by (cases "fst (step C st)") (auto split: outcome.splits)
qed simp

text \<open>How the worth of a run moves in one step: down by what the step costs, whichever way it is
  left; a child and its parent together hold what the parent held.\<close>

abbreviation child_worth :: "int \<Rightarrow> int \<Rightarrow> Run \<Rightarrow> pending \<Rightarrow> closure \<Rightarrow> bool" where
  "child_worth p v s pend child \<equiv> wealth p child = v \<and> priced p child \<and> priced p (clo s) \<and>
     (case pend of
        AfterCreate _ _ _ \<Rightarrow> callee child = callee (clo s) \<and> Gas (clo s) = 0
      | AfterCall _ _ _ \<Rightarrow> callee child = CalleeClo (clo s))"

abbreviation worth :: "int \<Rightarrow> int \<Rightarrow> step_result \<Rightarrow> bool" where
  "worth p v \<equiv> results (\<lambda>s. wealth p (clo s) = v \<and> priced p (clo s)) (\<lambda>s. wealth p (clo s) = v \<and> priced p (clo s))
     (child_worth p v)"

lemma worth_create: "priced p (clo st) \<Longrightarrow> worth p (wealth p (clo st)) (create_start C st)"
  unfolding create_start_def Let_def case_prod_unfold
  by (intro step_rules)
    (auto simp: NewClosure_def set_args_def UseGas_def wealth_eq priced_eq purse_def)

lemma worth_call: "priced p (clo st) \<Longrightarrow> worth p (wealth p (clo st)) (call_start C st)"
  unfolding call_start_def Let_def case_prod_unfold
  by (intro step_rules results_if)
    (auto simp: NewClosure_def set_args_def UseGas_def wealth_eq priced_eq purse_def algebra_simps
      intro!: step_rules split: option.split)

lemma worth_exec: "priced p (clo st) \<Longrightarrow> worth p (wealth p (clo st)) (exec C op st)"
proof -
  assume pr: "priced p (clo st)"
  consider "op = op_CREATE" | "op = op_CALL" | "op \<noteq> op_CREATE" "op \<noteq> op_CALL" by blast
  then show ?thesis
  proof cases
    case 1
    then show ?thesis using worth_create [OF pr, of C] by (simp add: exec_def binary_op_def env_datum_def Let_def)
  next
    case 2
    then show ?thesis using worth_call [OF pr, of C] by (simp add: exec_def binary_op_def env_datum_def Let_def)
  next
    case 3
    show ?thesis by (rule results_mono [OF plain_exec [OF 3]]) (use pr in auto)
  qed
qed

lemma worth_step:
  assumes "step C st = (r, op)" "priced p (clo st)"
  shows "worth p (wealth p (clo st) - p * gas_sum (step_charge C st)) r"
  using assms(1)
proof (cases rule: step_cases)
  case (exec val g s c)
  note c = wealth_UseGas [OF exec(6), of p]
  then show ?thesis
    using worth_exec [of p "s\<lparr>clo := c\<rparr>" C op] assms(2) exec(7,8) by simp
qed (use assms(2) in simp_all)

lemma worth_resume:
  assumes "child_worth p v s pend child" "totals ch = totals child" "priced p ch"
  shows "worth p (purse p ch) (resume C s pend w ch ret err)"
proof -
  define c where "c = (case pend of
      AfterCreate _ _ _ \<Rightarrow> set_callee (callee ch) (set_object (object ch) (clo s))
    | AfterCall _ _ _ \<Rightarrow> (case callee ch of CalleeClo p \<Rightarrow> p | _ \<Rightarrow> clo s))"
  have "wealth p c = purse p ch \<and> priced p c"
  proof (cases pend)
    case (AfterCreate sn addr contract)
    then show ?thesis using assms by (simp add: c_def wealth_eq priced_eq purse_def)
  next
    case (AfterCall sn off len)
    with assms(1,2) have "callee_totals (callee ch) = totals (clo s)" by (simp add: totals_eq)
    then obtain q where "callee ch = CalleeClo q" by (cases "callee ch") (simp_all add: totals_eq)
    then show ?thesis using AfterCall assms(3) by (simp add: c_def purse_def priced_eq)
  qed
  then show ?thesis by (intro results_mono [OF resume_clo [OF c_def refl]]) simp_all
qed

lemma RunLoop_worth:
  assumes "hook C = None"
  shows "RunLoop f C st = Done w c ret err \<Longrightarrow> priced p (clo st) \<Longrightarrow>
    purse p c = wealth p (clo st) - p * gas_sum (charged f C st) \<and> priced p c"
proof (induction f arbitrary: st w c ret err)
  case (Suc f)
  let ?rest = "goes_on (charged f C)"
  have fin: "purse p c = v - p * gas_sum (?rest r) \<and> priced p c"
    if "finish_step C n op (RunLoop f C) r = Done w c ret err" "worth p v r" for v n op r
    using that Suc.IH
    by (cases r)
      (auto simp: finish_step_def hook_allows_def assms recovered_def goes_on_def Let_def purse_Return split: if_splits)
  obtain r op where step: "step C st = (r, op)" by (cases "step C st")
  note wr = worth_step [OF step Suc.prems(2)]
  show ?case
  proof (cases r)
    case (Spawn s pend child)
    obtain w' ch ret' err' where ch: "RunLoop f C (start (world s) child) = Done w' ch ret' err'"
      and last: "finish_step C (step_no st) op (RunLoop f C) (resume C s pend w' ch ret' err') = Done w c ret err"
      using Suc.prems step Spawn by (auto split: outcome.splits)
    have cw: "child_worth p (wealth p (clo st) - p * gas_sum (step_charge C st)) s pend child"
      using wr Spawn by simp
    then have pc: "purse p ch = wealth p child - p * gas_sum (charged f C (start (world s) child)) \<and> priced p ch"
      using Suc.IH [OF ch] by (simp add: start_def)
    have "totals ch = totals child" using RunLoop_totals [OF ch] by (simp add: start_def)
    from fin [OF last worth_resume [OF cw this]] pc
    have "purse p c = purse p ch - p * gas_sum (?rest (resume C s pend w' ch ret' err')) \<and> priced p c" by simp
    moreover have "charged (Suc f) C st = step_charge C st @ charged f C (start (world s) child) @
        ?rest (resume C s pend w' ch ret' err')"
      using step Spawn ch by simp
    ultimately show ?thesis using pc cw by (simp add: algebra_simps)
  qed (use fin [OF _ wr] Suc.prems(1) step in \<open>simp_all add: algebra_simps\<close>)
qed simp

text \<open>C1. A run makes no gas: when the closures of a chain have the same gas price, what a run is
  worth afterwards, the unspent gas of every closure up the chain of its callees at that price and
  the balance of the account at its end, is what it was worth before less the price of the gas that
  its steps were charged, those of nested calls and creations included, however the run ends
  (returned, stopped for lack of gas, failed, recovered from a panic; no debug hook). Every charge is
  the listed price of its opcode, so it is not negative, \<open>CREATE\<close> apart, whose price is not checked
  for a negative size. And no closure of the chain has other than its remaining gas added to its
  used gas, or taken from it.\<close>

theorem gas_conserved:
  assumes "RunClosure f C c w = Done w' c' ret err" "hook C = None" "priced p c"
  shows "purse p c' = wealth p c - p * gas_sum (charged f C (start w c)) \<and>
    (\<forall>(op, g) \<in> set (charged f C (start w c)). listed_price op g) \<and> totals c' = totals c"
  using RunLoop_worth [OF assms(2) assms(1) [unfolded RunClosure_def], of p] assms(3)
    charged_listed RunLoop_totals [OF assms(1) [unfolded RunClosure_def]]
  by (auto simp: start_def)

theorem gas_conserved_witness:
  "\<exists>w c. RunClosure 20 demo_ctx (demo_closure demo_script 50) demo_world = Done w c (replicate 31 0 @ [12]) None \<and>
     purse 3 c = 50 * 3 - 8 * 3 \<and> totals c = [50]"
proof (cases "RunClosure 20 demo_ctx (demo_closure demo_script 50) demo_world")
  case (Done w c ret err)
  have "gas_sum (charged 20 demo_ctx (start demo_world (demo_closure demo_script 50))) = 8" by code_simp
  with gas_conserved [OF Done, of 3] have "purse 3 c = 50 * 3 - 8 * 3" "totals c = [50]"
    by (simp_all add: demo_closure_def NewClosure_def demo_ctx_def NewAccount_def)
  then show ?thesis using demo_run Done by simp
qed (use demo_run in simp_all)

text \<open>
  The price of a \<open>CREATE\<close> with a negative size is negative, and \<open>UseGas\<close> adds it to the gas: PUSH1 0,
  PUSH2 3200, SUB, PUSH1 0, PUSH1 0, CREATE on 50 units of gas leaves the account that started it with
  10045 of them (the run then ends with a panic, which returns the gas all the same).
\<close>

definition minting_script :: bytes where
  "minting_script = [0x60, 0, 0x61, 0x0c, 0x80, 0x03, 0x60, 0, 0x60, 0, 0xf0]"

theorem create_mints_gas:
  "map_option (\<lambda>(c, ret, err). (Gas c, purse 3 c))
     (ended (RunClosure 20 demo_ctx (demo_closure minting_script 50) demo_world))
   = Some (10045, 3 * 10045)"
  by code_simp

section \<open>Fuel\<close>

lemma finish_step_mono:
  assumes "\<And>s. go s \<noteq> NoFuel \<Longrightarrow> go' s = go s"
    and "finish_step C n op go r \<noteq> NoFuel"
  shows "finish_step C n op go' r = finish_step C n op go r"
  using assms by (cases r) (auto simp: finish_step_def Let_def)

lemma RunLoop_mono: "RunLoop f C st \<noteq> NoFuel \<Longrightarrow> f \<le> f' \<Longrightarrow> RunLoop f' C st = RunLoop f C st"
proof (induction f arbitrary: st f')
  case (Suc f)
  then obtain g where g: "f' = Suc g" "f \<le> g" by (cases f') auto
  have go: "RunLoop f C s \<noteq> NoFuel \<Longrightarrow> RunLoop g C s = RunLoop f C s" for s using Suc.IH g(2) by blast
  obtain r op where step: "step C st = (r, op)" by (cases "step C st")
  show ?case
  proof (cases r)
    case (Spawn s p child)
    then have ne: "RunLoop f C (start (world s) child) \<noteq> NoFuel" using Suc.prems(1) step by auto
    show ?thesis
    proof (cases "RunLoop f C (start (world s) child)")
      case (Done w c ret err)
      then show ?thesis using go [OF ne] Suc.prems(1) step Spawn g(1)
        by (simp add: finish_step_mono [OF go])
    qed (use go [OF ne] ne step Spawn g(1) in simp_all)
  qed (use Suc.prems(1) step g(1) in \<open>simp_all add: finish_step_mono [OF go]\<close>)
qed simp

text \<open>More fuel never changes the result of a run that ended.\<close>

theorem fuel_irrelevant:
  assumes "RunClosure f C c w \<noteq> NoFuel" "f \<le> f'"
  shows "RunClosure f' C c w = RunClosure f C c w"
  using assms unfolding RunClosure_def by (rule RunLoop_mono)

theorem fuel_irrelevant_witness:
  "RunClosure 200 demo_ctx (demo_closure demo_script 50) demo_world =
   RunClosure 20 demo_ctx (demo_closure demo_script 50) demo_world"
  by (rule fuel_irrelevant) (use demo_run in auto)

section \<open>What CREATE and CALL do with gas and value\<close>

lemma create_spawn:
  assumes "create_start C st = Spawn st' p child"
  shows "(\<exists>sn addr contract. p = AfterCreate sn addr contract) \<and> clo st' = set_gas 0 (UsedGas (clo st) + Gas (clo st)) (clo st) \<and>
    Gas child = Gas (clo st) \<and> callee child = callee (clo st)"
proof -
  have "results (\<lambda>_. True) (\<lambda>_. True)
    (\<lambda>st' p child. (\<exists>sn addr contract. p = AfterCreate sn addr contract) \<and> clo st' = set_gas 0 (UsedGas (clo st) + Gas (clo st)) (clo st) \<and>
      Gas child = Gas (clo st) \<and> callee child = callee (clo st)) (create_start C st)"
    unfolding create_start_def Let_def case_prod_unfold
    by (intro step_rules) (simp_all add: UseGas_def NewClosure_def set_args_def)
  with assms show ?thesis by simp
qed

text \<open>C34. CREATE hands all remaining gas to the new closure, and that closure returns what is left to
  the creator's own callee, not to the creator: whatever the child did, the creator goes on with no
  gas, and its next step that costs anything ends the run with the insufficient-gas error.\<close>

theorem create_starves_creator:
  assumes "create_start C st = Spawn st' p child" "resume C st' p w child' ret err = Next s"
    and "Closure_Get (pc s) (clo s) = Inr val"
    and "step_gas C (unat (Uint val)) (s\<lparr>step_no := step_no s + 1\<rparr>) = Inr (g, s')" "0 < g"
  shows "step C s = (Halt s' [] (Some (InsufficientGas 0 g)), unat (Uint val))"
proof -
  note sp = create_spawn [OF assms(1)]
  then obtain sn addr contract where p: "p = AfterCreate sn addr contract" by blast
  from resume_clo [OF refl assms(2)] sp p have "Gas (clo s) = 0" by auto
  moreover have "clo s' = clo s" using step_gas_cost [OF assms(4)] by simp
  ultimately show ?thesis using assms(3-5) by (simp add: step_def Let_def UseGas_def)
qed

definition demo_run_at :: "World \<Rightarrow> bytes \<Rightarrow> int list \<Rightarrow> Run" where
  "demo_run_at w scr d = (start w (demo_closure scr 9))\<lparr>stack := \<lparr>st_data = d\<rparr>\<rparr>"

theorem create_starves_creator_witness:
  "\<exists>st' p child s s'. create_start demo_ctx (demo_run_at demo_world [0, 0, 0] [0, 0, 0]) = Spawn st' p child \<and>
     resume demo_ctx st' p (world st') child [] (Some (InvalidOpcode 2)) = Next s \<and>
     step demo_ctx s = (Halt s' [] (Some (InsufficientGas 0 1)), 0)"
proof -
  have "case create_start demo_ctx (demo_run_at demo_world [0, 0, 0] [0, 0, 0]) of
      Spawn st' p child \<Rightarrow>
        (case resume demo_ctx st' p (world st') child [] (Some (InvalidOpcode 2)) of
           Next s \<Rightarrow>
             (case Closure_Get (pc s) (clo s) of
                Inr val \<Rightarrow> unat (Uint val) = 0 | Inl e \<Rightarrow> False) \<and>
             (case step_gas demo_ctx 0 (s\<lparr>step_no := step_no s + 1\<rparr>) of
                Inr (g, s') \<Rightarrow> g = 1 | Inl e \<Rightarrow> False)
         | _ \<Rightarrow> False)
    | _ \<Rightarrow> False"
    by code_simp
  then obtain st' p child s val s' where *:
    "create_start demo_ctx (demo_run_at demo_world [0, 0, 0] [0, 0, 0]) = Spawn st' p child"
    "resume demo_ctx st' p (world st') child [] (Some (InvalidOpcode 2)) = Next s"
    "Closure_Get (pc s) (clo s) = Inr val" "unat (Uint val) = 0"
    "step_gas demo_ctx 0 (s\<lparr>step_no := step_no s + 1\<rparr>) = Inr (1, s')"
    by (auto split: step_result.splits sum.splits prod.splits)
  from create_starves_creator [OF *(1-3), unfolded *(4), OF *(5)] *(1,2) show ?thesis by auto
qed

lemma popn_snoc: "st_data (stack st) = d @ [x, y] \<Longrightarrow> popn st k = k x y (st\<lparr>stack := \<lparr>st_data = d\<rparr>\<rparr>)"
  by (cases "stack st") (simp add: popn_def attempt_def Stack_Popn_def Let_def nth_append)

lemma pop_snoc: "st_data (stack st) = d @ [x] \<Longrightarrow> pop st k = k x (st\<lparr>stack := \<lparr>st_data = d\<rparr>\<rparr>)"
  by (cases "stack st") (simp add: pop_def attempt_def Stack_Pop_def Let_def)

text \<open>C35. CALL adds the value to the called contract and takes it from nobody: the caller's object
  is the same after the transfer, even when its balance does not cover the value.\<close>

theorem call_mints_value:
  assumes "st_data (stack st) = rest @ [retSize, retOffset, inSize, inOffset, gas, val, addr]"
    and "call_start C st = Spawn st' p child"
  shows "\<exists>snapshot w contract w'. Snapshot (env C) (vm_state C) (world st) = Inr (snapshot, w) \<and>
    p = AfterCall snapshot retOffset retSize \<and>
    GetStateObject (vm_state C) (big_Bytes addr) w = Inr (Some contract, w') \<and>
    object child = contract\<lparr>Amount := Amount contract + val\<rparr> \<and> object (clo st') = object (clo st) \<and> world st' = w'"
proof -
  note pops = require_def Stack_Len_def assms(1) pop_snoc [of _ "rest @ [retSize, retOffset, inSize, inOffset, gas, val]" addr]
    popn_snoc [of _ "rest @ [retSize, retOffset, inSize, inOffset]" gas val]
    popn_snoc [of _ "rest @ [retSize, retOffset]" inSize inOffset] popn_snoc [of _ rest retSize retOffset]
  note call = assms(2) [unfolded call_start_def Let_def, simplified pops]
  obtain args where m: "Memory_Get (big_Int64 inOffset) (big_Int64 inSize) (mem st) = Inr args"
    using call by (cases "Memory_Get (big_Int64 inOffset) (big_Int64 inSize) (mem st)")
      (auto simp: pops attempt_def split: if_splits)
  obtain sn w where s: "Snapshot (env C) (vm_state C) (world st) = Inr (sn, w)"
    using call m by (cases "Snapshot (env C) (vm_state C) (world st)") (auto simp: pops attempt_def split: if_splits)
  obtain c w' where g: "GetStateObject (vm_state C) (big_Bytes addr) w = Inr (Some c, w')"
    using call m s by (cases "GetStateObject (vm_state C) (big_Bytes addr) w")
      (auto simp: pops attempt_def split: if_splits option.splits)
  from call m s g show ?thesis
    by (auto simp: pops attempt_def UseGas_def AddAmount_def SetAmount_def NewClosure_def set_args_def split: if_splits)
qed

text \<open>A state with one account, at address 9, with the amount 5.\<close>

definition demo_world9 :: World where
  "demo_world9 =
     snd (NewState (NewTrie (VList [VStr [0x20, 9], VStr [0xc1, 5]])) \<lparr>db = NewMemDatabase, heap = []\<rparr>)"

theorem call_mints_value_witness:
  "\<exists>st' p child. call_start demo_ctx (demo_run_at demo_world9 [0xf1, 0] [0, 0, 0, 0, 0, 3, 9]) = Spawn st' p child \<and>
     object (clo st') = NewAccount [2] 7 \<and> (\<exists>c. object child = c\<lparr>Amount := Amount c + 3\<rparr>)"
proof -
  have "case call_start demo_ctx (demo_run_at demo_world9 [0xf1, 0] [0, 0, 0, 0, 0, 3, 9]) of
      Spawn st' p child \<Rightarrow> True | _ \<Rightarrow> False"
    by code_simp
  then obtain st' p child where *:
    "call_start demo_ctx (demo_run_at demo_world9 [0xf1, 0] [0, 0, 0, 0, 0, 3, 9]) = Spawn st' p child"
    by (auto split: step_result.splits)
  from call_mints_value [OF _ *, of "[]"]
  have "\<exists>c. object child = c\<lparr>Amount := Amount c + 3\<rparr> \<and> object (clo st') = NewAccount [2] 7"
    by (auto simp: demo_run_at_def start_def demo_closure_def NewClosure_def)
  with * show ?thesis by blast
qed

text \<open>A script of one byte never runs: the bounds test of \<open>Gets\<close> compares the number of bytes
  read with the length, so the fetch answers 0 and the run is that of an empty script.\<close>

theorem one_byte_script_is_stop:
  assumes "Script c = [b]" "1 \<le> Gas c" "0 < f"
  shows "RunClosure f C c w = Done w (Return (set_gas (Gas c - 1) (UsedGas c + 1) c)) [] None"
proof -
  obtain g where f: "f = Suc g" using assms(3) by (cases f) auto
  have "Closure_Get 0 c = Inr (VInt 0)"
    using assms(1) by (simp add: Closure_Get_def Gets_def big_Int64_def)
  then have "step C (start w c) =
      (Halt ((start w c)\<lparr>step_no := 1, clo := set_gas (Gas c - 1) (UsedGas c + 1) c\<rparr>) [] None, 0)"
    using assms(2)
    by (simp add: step_def start_def step_gas_def UseGas_def exec_def binary_op_def env_datum_def Let_def GasStep_def)
  then show ?thesis by (simp add: f RunClosure_def finish_step_def start_def)
qed

theorem one_byte_script_is_stop_witness:
  "RunClosure 1 demo_ctx (demo_closure [0xfe] 9) demo_world =
   Done demo_world (Return (set_gas 8 1 (demo_closure [0xfe] 9))) [] None"
  using one_byte_script_is_stop [of "demo_closure [0xfe] 9" "0xfe" 1 demo_ctx demo_world]
  by (simp add: demo_closure_def NewClosure_def)

text \<open>\<open>OR\<close> tests its operands against 0 where \<open>AND\<close> tests against 1: on non-negative operands it
  answers 1 always, also for 0 and 0.\<close>

theorem or_is_constant:
  assumes "0 \<le> x \<or> 0 \<le> y"
  shows "\<exists>f. binary_op op_OR = Some f \<and> f x y = Inr 1"
  using assms by (simp add: binary_op_def bool_word_def BigInt0_def BigTrue_def)

theorem or_is_constant_witness: "\<exists>f. binary_op op_OR = Some f \<and> f 0 0 = Inr 1"
  by (rule or_is_constant) simp

end
