(* ===== verification/Vm_Expr.thy ===== *)
theory Vm_Expr
  imports Vm_Correct
begin

text \<open>
  The interpreter against a reference: scripts that compute an expression. An expression is pushed
  constants under the fifteen binary operators; its script is the expression in postfix order. What
  an operator means is written down here in terms of integers, not of the interpreter. Running the
  script gives the value of the expression, or the panic that evaluating it meets.
\<close>

section \<open>Expressions and their meaning\<close>

datatype binop = Add | Mul | Sub | Div | Sdiv | Mod | Smod | Exp | Less | Greater | Equal | And | Or | Xor | Byte

datatype expr = Lit bytes | App binop expr expr

text \<open>
  The operators on unbounded integers. The quotient is the one whose remainder is not negative. The
  signed operators map what is above 2^256 to the negative numbers first. \<open>And\<close> and \<open>Or\<close> are tests, and
  \<open>Byte\<close> is the index of a byte counted from the other end, as a 64-bit number; none of the three is
  what its name says. \<open>None\<close> is a division by zero.
\<close>

definition signed256 :: "int \<Rightarrow> int" where
  "signed256 x = (if x \<le> 2 ^ 256 then x else 2 ^ 256 - x)"

definition signed64 :: "int \<Rightarrow> int" where
  "signed64 x = (x + 2 ^ 63) mod 2 ^ 64 - 2 ^ 63"

fun byte_count :: "nat \<Rightarrow> nat" where
  "byte_count n = (if n = 0 then 0 else Suc (byte_count (n div 256)))"

declare byte_count.simps [simp del]

definition quotient :: "int \<Rightarrow> int \<Rightarrow> int option" where
  "quotient x y = (if y = 0 then None else Some ((x - x mod \<bar>y\<bar>) div y))"

definition remainder :: "int \<Rightarrow> int \<Rightarrow> int option" where
  "remainder x y = (if y = 0 then None else Some (x mod \<bar>y\<bar>))"

fun denote :: "binop \<Rightarrow> int \<Rightarrow> int \<Rightarrow> int option" where
  "denote Add x y = Some (x + y)"
| "denote Mul x y = Some (x * y)"
| "denote Sub x y = Some (x - y)"
| "denote Div x y = quotient x y"
| "denote Sdiv x y = map_option signed256 (quotient (signed256 x) (signed256 y))"
| "denote Mod x y = remainder x y"
| "denote Smod x y = map_option signed256 (remainder (signed256 x) (signed256 y))"
| "denote Exp x y = Some (x ^ nat y mod 2 ^ 256)"
| "denote Less x y = Some (of_bool (x < y))"
| "denote Greater x y = Some (of_bool (y < x))"
| "denote Equal x y = Some (of_bool (x = y))"
| "denote And x y = Some (of_bool (0 < x \<and> 0 < y))"
| "denote Or x y = Some (of_bool (0 \<le> x \<or> 0 \<le> y))"
| "denote Xor x y = Some (semiring_bit_operations_class.xor x y)"
| "denote Byte x y = Some (if y < 32 then signed64 (int (byte_count (nat \<bar>x\<bar>)) - 1 - signed64 y) else 0)"

fun eval :: "expr \<Rightarrow> int option" where
  "eval (Lit bs) = Some (int (be_nat bs))"
| "eval (App b_op a b) =
     (case eval a of None \<Rightarrow> None | Some x \<Rightarrow> (case eval b of None \<Rightarrow> None | Some y \<Rightarrow> denote b_op x y))"

text \<open>Constants have 1 to 32 bytes, and no power has a negative exponent: what the library answers
  then depends on its version.\<close>

fun wf_expr :: "expr \<Rightarrow> bool" where
  "wf_expr (Lit bs) \<longleftrightarrow> 1 \<le> length bs \<and> length bs \<le> 32"
| "wf_expr (App b_op a b) \<longleftrightarrow> wf_expr a \<and> wf_expr b \<and>
     (b_op = Exp \<longrightarrow> (case eval b of None \<Rightarrow> True | Some y \<Rightarrow> 0 \<le> y))"

section \<open>Their scripts\<close>

fun opcode :: "binop \<Rightarrow> nat" where
  "opcode Add = 0x01"
| "opcode Mul = 0x02"
| "opcode Sub = 0x03"
| "opcode Div = 0x04"
| "opcode Sdiv = 0x05"
| "opcode Mod = 0x06"
| "opcode Smod = 0x07"
| "opcode Exp = 0x08"
| "opcode Less = 0x0a"
| "opcode Greater = 0x0b"
| "opcode Equal = 0x0c"
| "opcode And = 0x10"
| "opcode Or = 0x11"
| "opcode Xor = 0x12"
| "opcode Byte = 0x13"

fun code :: "expr \<Rightarrow> bytes" where
  "code (Lit bs) = of_nat (0x5f + length bs) # bs"
| "code (App b_op a b) = code a @ code b @ [of_nat (opcode b_op)]"

text \<open>The number of instructions; each costs one unit of gas.\<close>

fun instructions :: "expr \<Rightarrow> nat" where
  "instructions (Lit bs) = 1"
| "instructions (App b_op a b) = instructions a + instructions b + 1"

lemma code_nonempty: "wf_expr e \<Longrightarrow> 2 \<le> length (code e)"
  by (induction e) auto

section \<open>Fetching\<close>

definition small_script :: "Run \<Rightarrow> bool" where
  "small_script st \<longleftrightarrow> 2 \<le> length (Script (clo st)) \<and> length (Script (clo st)) < 2 ^ 62"

lemma Gets_middle:
  assumes "Script c = pre @ xs @ post" "length (Script c) < 2 ^ 62" "xs \<noteq> []" "length xs < length (Script c)"
  shows "Gets (int (length pre)) (int (length xs)) c = Inr (VBytes xs)"
proof -
  have l: "int (length (Script c)) < 2 ^ 62" using assms(2) by (metis of_nat_less_iff of_nat_numeral of_nat_power)
  then have b: "big_Int64 (int (length pre)) = int (length pre)" "big_Int64 (int (length xs)) = int (length xs)"
    "wrap64 (int (length pre) + int (length xs)) = int (length pre) + int (length xs)"
    using assms(1) by (auto intro!: big_Int64_small wrap64_id)
  have "0 < length xs" using assms(3) by simp
  moreover have "length (Script c) = length pre + length xs + length post" by (simp add: assms(1))
  ultimately have c: "int (length pre) < int (length (Script c))" "int (length xs) < int (length (Script c))"
    using assms(4) by linarith+
  have "gosliceI (Script c) (script_tail c) (int (length pre)) (int (length pre) + int (length xs)) = Inr xs"
    by (simp add: gosliceI_def assms(1))
  with c show ?thesis by (simp add: Gets_def b)
qed

section \<open>The operators of the interpreter\<close>

lemma quotient_big_Div: "big_Div x y = (case quotient x y of None \<Rightarrow> Inl DivisionByZero | Some z \<Rightarrow> Inr z)"
proof -
  consider "y = 0" | "0 < y" | "y < 0" by linarith
  then show ?thesis
  proof cases
    case 2
    then show ?thesis by (simp add: quotient_def big_Div_def minus_mod_eq_mult_div)
  next
    case 3
    have "x - x mod - y = y * (- (x div - y))" using minus_mod_eq_mult_div [of x "- y"] by simp
    then have "(x - x mod - y) div y = - (x div - y)" using 3 by (simp only: nonzero_mult_div_cancel_left)
    then show ?thesis using 3 by (simp add: quotient_def big_Div_def)
  qed (simp add: quotient_def big_Div_def)
qed

lemma remainder_big_Mod: "big_Mod x y = (case remainder x y of None \<Rightarrow> Inl DivisionByZero | Some z \<Rightarrow> Inr z)"
  by (simp add: remainder_def big_Mod_def)

lemma signed256_fold256: "fold256 = signed256"
  by (auto simp: fold256_def signed256_def Pow256_def BigPow_def)

lemma signed64_sint: "sint (word_of_int x :: 64 word) = signed64 x"
  by (simp add: signed64_def signed_of_int signed_take_bit_eq_take_bit_shift take_bit_eq_mod)

lemma byte_count_nat_be: "length (nat_be n) = byte_count n"
  by (induction n rule: nat_be.induct) (subst nat_be.simps, subst byte_count.simps, simp)

lemma binary_op_denote:
  assumes "op = opcode b_op" "b_op = Exp \<longrightarrow> 0 \<le> y"
  shows "\<exists>f. binary_op op = Some f \<and> f x y = (case denote b_op x y of None \<Rightarrow> Inl DivisionByZero | Some z \<Rightarrow> Inr z)"
  using assms
  using signed64_sint [of "int (byte_count (nat \<bar>x\<bar>)) - 1 - signed64 y"]
  by (cases b_op)
    (auto simp: binary_op_def quotient_big_Div remainder_big_Mod signed256_fold256 bool_word_def BigTrue_def BigFalse_def
      BigInt0_def big_ExpMod_def Pow256_def BigPow_def wrap64_def big_Int64_def signed64_sint big_Bytes_def
      byte_count_nat_be split: option.splits)

section \<open>One instruction\<close>

text \<open>The run after an instruction that costs one unit and pushes \<open>x\<close> on the stack \<open>d\<close>.\<close>

definition after :: "nat \<Rightarrow> nat \<Rightarrow> int list \<Rightarrow> Run \<Rightarrow> Run" where
  "after n g d st =
     st\<lparr>clo := set_gas (Gas (clo st) - int g) (UsedGas (clo st) + int g) (clo st), stack := \<lparr>st_data = d\<rparr>,
        pc := pc st + int n, step_no := step_no st + int n\<rparr>"

lemma RunLoop_next:
  "step C st = (Next s, op) \<Longrightarrow> hook C = None \<Longrightarrow> RunLoop (Suc f) C st = RunLoop f C (s\<lparr>pc := pc s + 1\<rparr>)"
  by (simp add: finish_step_def hook_allows_def Big1_def)

lemma RunLoop_crash: "step C st = (Crash s e, op) \<Longrightarrow> RunLoop (Suc f) C st = recovered s e"
  by (simp add: finish_step_def)

lemma step_op:
  assumes "Script (clo st) = pre @ b # post" "pc st = int (length pre)" "small_script st"
    and "step_gas C (unat b) (st\<lparr>step_no := step_no st + 1\<rparr>) = Inr (1, st\<lparr>step_no := step_no st + 1\<rparr>)" "1 \<le> Gas (clo st)"
  shows "step C st = (exec C (unat b) (st\<lparr>step_no := step_no st + 1,
    clo := set_gas (Gas (clo st) - 1) (UsedGas (clo st) + 1) (clo st)\<rparr>), unat b)"
proof -
  have "Closure_Get (pc st) (clo st) = Inr (VBytes [b])"
    using Gets_middle [of "clo st" pre "[b]" post] assms(1-3)
    by (cases pre; cases post) (simp_all add: Closure_Get_def small_script_def)
  moreover have "unat (Uint (VBytes [b])) = unat b" by (simp add: unat_ReadVarint_be be_nat_Cons)
  ultimately show ?thesis using assms(4,5) by (simp add: step_def UseGas_def Let_def)
qed

lemma step_binary:
  assumes "Script (clo st) = pre @ of_nat (opcode b_op) # post" "pc st = int (length pre)" "small_script st" "1 \<le> Gas (clo st)"
    and "b_op = Exp \<longrightarrow> 0 \<le> y" "st_data (stack st) = d @ [x, y]" "hook C = None"
  shows "RunLoop (Suc n) C st =
    (case denote b_op x y of Some z \<Rightarrow> RunLoop n C (after 1 1 (d @ [z]) st)
     | None \<Rightarrow> Done (world st) (Return (set_gas (Gas (clo st) - 1) (UsedGas (clo st) + 1) (clo st))) [] (Some (Recovered DivisionByZero)))"
proof -
  define op where "op = opcode b_op"
  obtain f where f: "binary_op op = Some f" "f x y = (case denote b_op x y of None \<Rightarrow> Inl DivisionByZero | Some z \<Rightarrow> Inr z)"
    using binary_op_denote [OF op_def assms(5), of x] by blast
  have ops: "op \<in> {0x01, 0x02, 0x03, 0x04, 0x05, 0x06, 0x07, 0x08, 0x0a, 0x0b, 0x0c, 0x10, 0x11, 0x12, 0x13}"
    by (cases b_op) (simp_all add: op_def)
  have u: "unat (of_nat op :: byte) = op" using ops by (auto simp: unat_of_nat)
  have g: "step_gas C op s = Inr (1, s)" for s
    using ops by (auto simp: step_gas_def GasStep_def)
  let ?s = "st\<lparr>step_no := step_no st + 1, clo := set_gas (Gas (clo st) - 1) (UsedGas (clo st) + 1) (clo st)\<rparr>"
  have step: "step C st = (exec C op ?s, op)"
    using step_op [of st pre "of_nat op" post C] assms(1-4) by (simp add: u g op_def [symmetric])
  have e: "exec C op ?s = attempt (?s\<lparr>stack := \<lparr>st_data = d\<rparr>\<rparr>) (f x y) (\<lambda>z. Next (push z (?s\<lparr>stack := \<lparr>st_data = d\<rparr>\<rparr>)))"
    using f(1) assms(6) popn_snoc [of ?s d x y]
    by (simp add: exec_def exec_binary_def require_def Stack_Len_def)
  show ?thesis
  proof (cases "denote b_op x y")
    case None
    with step e f(2) have "step C st = (Crash (?s\<lparr>stack := \<lparr>st_data = d\<rparr>\<rparr>) DivisionByZero, op)" by (simp add: attempt_def)
    then show ?thesis using RunLoop_crash None by (simp add: recovered_def)
  next
    case (Some z)
    with step e f(2) have "step C st = (Next (push z (?s\<lparr>stack := \<lparr>st_data = d\<rparr>\<rparr>)), op)" by (simp add: attempt_def)
    moreover have "(push z (?s\<lparr>stack := \<lparr>st_data = d\<rparr>\<rparr>))\<lparr>pc := pc (push z (?s\<lparr>stack := \<lparr>st_data = d\<rparr>\<rparr>)) + 1\<rparr> =
        after 1 1 (d @ [z]) st"
      by (cases st) (simp add: after_def push_def Stack_Push_def)
    ultimately show ?thesis using RunLoop_next [OF _ assms(7)] Some by (simp only: option.case)
  qed
qed

lemma unat_small: "m < 256 \<Longrightarrow> unat (of_nat m :: byte) = m"
  by (simp add: unat_of_nat)

lemma step_push:
  assumes "Script (clo st) = pre @ of_nat (0x5f + length bs) # bs @ post" "pc st = int (length pre)" "small_script st"
    and "1 \<le> Gas (clo st)" "1 \<le> length bs" "length bs \<le> 32" "hook C = None"
  shows "RunLoop (Suc n) C st = RunLoop n C (after (Suc (length bs)) 1 (st_data (stack st) @ [BigD bs]) st)"
proof -
  let ?op = "0x5f + length bs"
  have u: "unat (of_nat ?op :: byte) = ?op" using assms(5,6) by (intro unat_small) simp
  have g: "step_gas C ?op s = Inr (1, s)" for s
    using assms(5,6) by (auto simp: step_gas_def GasStep_def)
  let ?s = "st\<lparr>step_no := step_no st + 1, clo := set_gas (Gas (clo st) - 1) (UsedGas (clo st) + 1) (clo st)\<rparr>"
  have step: "step C st = (exec C ?op ?s, ?op)"
    using step_op [of st pre "of_nat ?op" "bs @ post" C] assms(1-4) unfolding u g by simp
  have "exec C ?op ?s = exec_push ?op ?s"
    using assms(5,6) by (auto simp: exec_def binary_op_def env_datum_def Let_def)
  also have "Gets (pc st + 1) (int (length bs)) (clo ?s) = Inr (VBytes bs)"
    using Gets_middle [of "clo ?s" "pre @ [of_nat ?op]" bs post] assms(1-3,5)
    by (cases bs) (simp_all add: small_script_def add.commute)
  then have "exec_push ?op ?s = Next (push (BigD bs) (?s\<lparr>pc := pc st + int (length bs), step_no := step_no st + 1 + int (length bs)\<rparr>))"
    using assms(5) by (simp add: exec_push_def Big1_def attempt_def Let_def push_def of_nat_diff)
  finally have "step C st = (Next (push (BigD bs) (?s\<lparr>pc := pc st + int (length bs), step_no := step_no st + 1 + int (length bs)\<rparr>)), ?op)"
    using step by simp
  moreover have "(push (BigD bs) (?s\<lparr>pc := pc st + int (length bs), step_no := step_no st + 1 + int (length bs)\<rparr>))
      \<lparr>pc := pc st + int (length bs) + 1\<rparr> = after (Suc (length bs)) 1 (st_data (stack st) @ [BigD bs]) st"
    by (cases st; cases "stack st") (simp add: after_def push_def Stack_Push_def)
  ultimately show ?thesis using RunLoop_next [OF _ assms(7)] by simp
qed

section \<open>Running the code of an expression\<close>

lemma after_after:
  "after n' g' d' (after n g d st) = after (n + n') (g + g') d' st"
  by (cases st) (simp add: after_def set_gas_def add.assoc)

lemma after_sel [simp]:
  "pc (after n g d st) = pc st + int n" "Script (clo (after n g d st)) = Script (clo st)"
  "Gas (clo (after n g d st)) = Gas (clo st) - int g" "st_data (stack (after n g d st)) = d"
  "small_script (after n g d st) = small_script st" "world (after n g d st) = world st" "mem (after n g d st) = mem st"
  by (simp_all add: after_def small_script_def)

lemma RunLoop_code:
  assumes "wf_expr e" "Script (clo st) = pre @ code e @ post" "pc st = int (length pre)" "small_script st"
    and "int (instructions e) \<le> Gas (clo st)" "hook C = None"
  shows "case eval e of
      Some v \<Rightarrow> RunLoop (instructions e + n) C st =
        RunLoop n C (after (length (code e)) (instructions e) (st_data (stack st) @ [v]) st)
    | None \<Rightarrow> \<exists>c. RunLoop (instructions e + n) C st = Done (world st) c [] (Some (Recovered DivisionByZero))"
  using assms
proof (induction e arbitrary: st pre post n)
  case (Lit bs)
  then show ?case using step_push [of st pre bs post C n] by (simp add: BigD_def del: RunLoop.simps)
next
  case (App b_op a b)
  from App.prems(1) have wf: "wf_expr a" "wf_expr b" by auto
  have i: "instructions (App b_op a b) + n = instructions a + (instructions b + Suc n)" by simp
  have A: "case eval a of
      Some v \<Rightarrow> RunLoop (instructions (App b_op a b) + n) C st =
        RunLoop (instructions b + Suc n) C (after (length (code a)) (instructions a) (st_data (stack st) @ [v]) st)
    | None \<Rightarrow> \<exists>c. RunLoop (instructions (App b_op a b) + n) C st = Done (world st) c [] (Some (Recovered DivisionByZero))"
    unfolding i by (rule App.IH(1) [of st pre "code b @ [of_nat (opcode b_op)] @ post"]) (use App.prems wf in simp_all)
  show ?case
  proof (cases "eval a")
    case None
    then show ?thesis using A by (simp del: RunLoop.simps)
  next
    case x: (Some x)
    let ?s = "after (length (code a)) (instructions a) (st_data (stack st) @ [x]) st"
    have B: "case eval b of
        Some v \<Rightarrow> RunLoop (instructions b + Suc n) C ?s =
          RunLoop (Suc n) C (after (length (code b)) (instructions b) (st_data (stack ?s) @ [v]) ?s)
      | None \<Rightarrow> \<exists>c. RunLoop (instructions b + Suc n) C ?s = Done (world ?s) c [] (Some (Recovered DivisionByZero))"
      by (rule App.IH(2) [of ?s "pre @ code a" "[of_nat (opcode b_op)] @ post"]) (use App.prems wf in simp_all)
    show ?thesis
    proof (cases "eval b")
      case None
      then show ?thesis using A B x by (simp del: RunLoop.simps)
    next
      case y: (Some y)
      let ?t = "after (length (code b)) (instructions b) (st_data (stack st) @ [x, y]) ?s"
      have e: "b_op = Exp \<longrightarrow> 0 \<le> y" using App.prems(1) y by simp
      have C: "RunLoop (Suc n) C ?t =
        (case denote b_op x y of Some z \<Rightarrow> RunLoop n C (after 1 1 (st_data (stack st) @ [z]) ?t)
         | None \<Rightarrow> Done (world ?t) (Return (set_gas (Gas (clo ?t) - 1) (UsedGas (clo ?t) + 1) (clo ?t))) [] (Some (Recovered DivisionByZero)))"
        by (rule step_binary [where pre = "pre @ code a @ code b" and b_op = b_op and post = post]) (use App.prems e in simp_all)
      show ?thesis using A B C x y
        by (cases "denote b_op x y") (simp_all add: after_after add.assoc del: RunLoop.simps)
    qed
  qed
qed

section \<open>Scripts that return the value\<close>

text \<open>PUSH1 0, MSTORE, PUSH1 32, PUSH1 0, RETURN.\<close>

definition return_code :: bytes where
  "return_code = [0x60, 0, 0x55, 0x60, 32, 0x60, 0, 0xf2]"

lemma Memory_first_word:
  assumes "length b \<ge> 32"
  shows "\<exists>m. Memory_Set grow 0 32 b NewMemory = Inr m \<and> Memory_Get 0 32 m = Inr (take 32 b)"
proof -
  have w: "wrap64 32 = 32" "wrap64 33 = 33" by (simp_all add: wrap64_id)
  have "take 32 (take 32 b @ drop 32 (replicate 32 0)) = take 32 b" using assms by simp
  then show ?thesis using assms w
    by (auto simp: Memory_Set_def Memory_Get_def NewMemory_def mem_append_def mem_spare_def gosliceI_def Let_def)
qed

lemma BigD_byte: "BigD [b] = uint b"
  by (simp add: BigD_def be_nat_Cons be_nat_def)

lemma RunLoop_return_code:
  assumes "Script (clo st) = pre @ return_code" "pc st = int (length pre)" "small_script st" "5 \<le> Gas (clo st)"
    and "st_data (stack st) = [v]" "mem st = NewMemory" "hook C = None"
  shows "RunLoop (5 + n) C st =
    Done (world st) (Return (set_gas (Gas (clo st) - 5) (UsedGas (clo st) + 5) (clo st))) (take 32 (BigToBytes v 256)) None"
proof -
  obtain m where m: "Memory_Set (growth (env C)) 0 32 (BigToBytes v 256) NewMemory = Inr m"
    "Memory_Get 0 32 m = Inr (take 32 (BigToBytes v 256))"
    using Memory_first_word [of "BigToBytes v 256" "growth (env C)"] length_BigToBytes [of v 256] by auto
  have z: "big_Int64 0 = 0" "big_Int64 32 = 32" by (simp_all add: big_Int64_small)
  define s1 where "s1 = after 2 1 [v, 0] st"
  have 1: "RunLoop (5 + n) C st = RunLoop (4 + n) C s1"
    using step_push [of st pre "[0]" "drop 2 return_code" C "4 + n"] assms
    by (simp add: return_code_def s1_def BigD_byte del: RunLoop.simps flip: numeral_2_eq_2)
  define s2 where "s2 = (after 1 1 [] s1)\<lparr>mem := m\<rparr>"
  have "step C s1 = (exec C 0x55 (s1\<lparr>step_no := step_no s1 + 1,
      clo := set_gas (Gas (clo s1) - 1) (UsedGas (clo s1) + 1) (clo s1)\<rparr>), 0x55)"
    using step_op [of s1 "pre @ [0x60, 0]" "0x55" "drop 3 return_code" C] assms
    by (simp add: return_code_def s1_def step_gas_def GasMemory_def)
  also have "exec C 0x55 s = exec_mem C 0x55 s" for s
    by (simp add: exec_def binary_op_def env_datum_def Let_def)
  finally have "step C s1 = (Next (s2\<lparr>pc := pc s1\<rparr>), 0x55)"
    using m(1) assms(6) z
    by (cases st) (simp add: exec_mem_def require_def Stack_Len_def popn_snoc [where d = "[]"] attempt_def s1_def s2_def after_def)
  moreover have "s2\<lparr>pc := pc s1\<rparr>\<lparr>pc := pc (s2\<lparr>pc := pc s1\<rparr>) + 1\<rparr> = s2"
    by (cases s1) (simp add: s2_def after_def)
  ultimately have 2: "RunLoop (4 + n) C s1 = RunLoop (Suc (2 + n)) C s2"
    using RunLoop_next [OF _ assms(7), of s1 "s2\<lparr>pc := pc s1\<rparr>" "0x55" "3 + n"]
    by (simp add: numeral_eq_Suc del: RunLoop.simps)
  define s3 where "s3 = after 2 1 [32] s2"
  have ss: "small_script s2" using assms(3) by (simp add: s2_def s1_def small_script_def)
  then have 3: "RunLoop (Suc (2 + n)) C s2 = RunLoop (2 + n) C s3"
    using step_push [of s2 "pre @ [0x60, 0, 0x55]" "[32]" "drop 5 return_code" C "2 + n"] assms
    by (simp add: return_code_def s3_def s2_def s1_def BigD_byte del: RunLoop.simps flip: numeral_2_eq_2)
  define s4 where "s4 = after 2 1 [32, 0] s3"
  from ss have ss3: "small_script s3" by (simp add: s3_def)
  then have 4: "RunLoop (2 + n) C s3 = RunLoop (1 + n) C s4"
    using step_push [of s3 "pre @ [0x60, 0, 0x55, 0x60, 32]" "[0]" "drop 7 return_code" C "1 + n"] assms
    by (simp add: return_code_def s4_def s3_def s2_def s1_def BigD_byte del: RunLoop.simps flip: numeral_2_eq_2)
  define s5 where "s5 = s4\<lparr>step_no := step_no s4 + 1,
      clo := set_gas (Gas (clo s4) - 1) (UsedGas (clo s4) + 1) (clo s4)\<rparr>"
  from ss3 have "small_script s4" by (simp add: s4_def)
  then have "step C s4 = (exec C 0xf2 s5, 0xf2)"
    using step_op [of s4 "pre @ [0x60, 0, 0x55, 0x60, 32, 0x60, 0]" "0xf2" "[]" C] assms
    by (simp add: return_code_def s5_def s4_def s3_def s2_def s1_def step_gas_def GasStep_def)
  moreover have "exec C 0xf2 s5 = exec_return s5"
    by (simp add: exec_def binary_op_def env_datum_def Let_def)
  moreover have "exec_return s5 = Halt (s5\<lparr>stack := \<lparr>st_data = []\<rparr>\<rparr>) (take 32 (BigToBytes v 256)) None"
    using m(2) z by (simp add: exec_return_def require_def Stack_Len_def popn_snoc [where d = "[]"] attempt_def
        s5_def s4_def s3_def s2_def s1_def after_def)
  ultimately have "step C s4 = (Halt (s5\<lparr>stack := \<lparr>st_data = []\<rparr>\<rparr>) (take 32 (BigToBytes v 256)) None, 0xf2)" by simp
  then have 5: "RunLoop (1 + n) C s4 = Done (world s5) (Return (clo s5)) (take 32 (BigToBytes v 256)) None"
    by (simp add: finish_step_def)
  have "world s5 = world st" "clo s5 = set_gas (Gas (clo st) - 5) (UsedGas (clo st) + 5) (clo st)"
    by (simp_all add: s5_def s4_def s3_def s2_def s1_def after_def set_gas_def)
  then show ?thesis using 1 2 3 4 5 by (simp del: RunLoop.simps)
qed

text \<open>A word of 32 bytes holds the absolute value of a number below 2^256; of a larger one it holds the
  leading 32 bytes.\<close>

lemma returned_word:
  "length (take 32 (BigToBytes v 256)) = 32 \<and> (\<bar>v\<bar> < 2 ^ 256 \<longrightarrow> int (be_nat (take 32 (BigToBytes v 256))) = \<bar>v\<bar>)"
proof
  show "length (take 32 (BigToBytes v 256)) = 32" by (simp add: length_BigToBytes)
  show "\<bar>v\<bar> < 2 ^ 256 \<longrightarrow> int (be_nat (take 32 (BigToBytes v 256))) = \<bar>v\<bar>"
  proof
    assume "\<bar>v\<bar> < 2 ^ 256"
    then have "nat \<bar>v\<bar> < 256 ^ 32" by (simp add: nat_less_iff)
    then have "length (BigToBytes v 256) = 32" using BigToBytes_roundtrip [of v 256] by simp
    then show "int (be_nat (take 32 (BigToBytes v 256))) = \<bar>v\<bar>" using BigD_BigToBytes [of v 256] by (simp add: BigD_def)
  qed
qed

text \<open>C3. A script that computes an expression and returns it. For every expression over the fifteen
  binary operators, with the integer meaning given above (no negative exponents), when the gas covers
  one unit per instruction, the run ends within that many steps, it returns 32 bytes, charges exactly
  one unit per instruction and leaves the world as it was; the bytes are the absolute value of the
  expression whenever that is below 2^256. When evaluating divides by zero, the run ends with that
  panic as its error.\<close>

theorem expression_script:
  assumes "wf_expr e" "Script c = code e @ return_code" "length (code e) < 2 ^ 61"
    and "int (instructions e) + 5 \<le> Gas c" "hook C = None"
  shows "case eval e of
      Some v \<Rightarrow> \<exists>ret. RunClosure (instructions e + 5 + n) C c w =
        Done w (Return (set_gas (Gas c - int (instructions e) - 5) (UsedGas c + int (instructions e) + 5) c)) ret None \<and>
        length ret = 32 \<and> (\<bar>v\<bar> < 2 ^ 256 \<longrightarrow> int (be_nat ret) = \<bar>v\<bar>)
    | None \<Rightarrow> \<exists>c'. RunClosure (instructions e + 5 + n) C c w = Done w c' [] (Some (Recovered DivisionByZero))"
proof -
  have s: "Script (clo (start w c)) = [] @ code e @ return_code" "pc (start w c) = int (length [])" "small_script (start w c)"
    "int (instructions e) \<le> Gas (clo (start w c))" "st_data (stack (start w c)) = []" "world (start w c) = w" "mem (start w c) = NewMemory" "clo (start w c) = c"
    using assms(2,3,4) code_nonempty [of e] assms(1) by (simp_all add: start_def small_script_def return_code_def NewStack_def)
  note run = RunLoop_code [OF assms(1) s(1-4) assms(5), of "5 + n"]
  show ?thesis
  proof (cases "eval e")
    case None
    with run s(6) show ?thesis by (simp add: RunClosure_def add.assoc del: RunLoop.simps)
  next
    case (Some v)
    let ?s = "after (length (code e)) (instructions e) [v] (start w c)"
    have "RunLoop (5 + n) C ?s = Done (world ?s) (Return (set_gas (Gas (clo ?s) - 5) (UsedGas (clo ?s) + 5) (clo ?s)))
        (take 32 (BigToBytes v 256)) None"
      by (rule RunLoop_return_code [where pre = "code e"]) (use s assms(2,4,5) in simp_all)
    with run Some s(5,6) have "RunClosure (instructions e + 5 + n) C c w =
        Done w (Return (set_gas (Gas c - int (instructions e) - 5) (UsedGas c + int (instructions e) + 5) c))
          (take 32 (BigToBytes v 256)) None"
      by (simp add: RunClosure_def add.assoc start_def after_def set_gas_def del: RunLoop.simps)
    then show ?thesis unfolding Some option.case using returned_word [of v] by blast
  qed
qed

text \<open>\<open>(5 + 7) * 3\<close>, and a division by zero.\<close>

theorem expression_script_witness:
  "(\<exists>c ret. RunClosure 10 demo_ctx (demo_closure (code (App Mul (App Add (Lit [5]) (Lit [7])) (Lit [3])) @ return_code) 50) demo_world =
     Done demo_world c ret None \<and> length ret = 32 \<and> be_nat ret = 36) \<and>
   (\<exists>c. RunClosure 10 demo_ctx (demo_closure (code (App Div (Lit [5]) (App Add (Lit [0]) (Lit [0]))) @ return_code) 50) demo_world =
     Done demo_world c [] (Some (Recovered DivisionByZero)))"
proof
  let ?e = "App Mul (App Add (Lit [5]) (Lit [7])) (Lit [3])"
  have v: "eval ?e = Some 36" by code_simp
  have l: "length (code ?e) < 2 ^ 61" "hook demo_ctx = None"
    "Script (demo_closure (code ?e @ return_code) 50) = code ?e @ return_code"
    "Gas (demo_closure (code ?e @ return_code) 50) = 50"
    by (simp_all add: demo_closure_def NewClosure_def demo_ctx_def)
  from expression_script [of ?e "demo_closure (code ?e @ return_code) 50" demo_ctx 0 demo_world, OF _ l(3,1) _ l(2),
      unfolded v option.case l(4)]
  obtain c ret where "RunClosure 10 demo_ctx (demo_closure (code ?e @ return_code) 50) demo_world = Done demo_world c ret None"
    "length ret = 32" "int (be_nat ret) = 36"
    by (auto simp del: RunLoop.simps code.simps)
  then show "\<exists>c ret. RunClosure 10 demo_ctx (demo_closure (code ?e @ return_code) 50) demo_world = Done demo_world c ret None \<and>
      length ret = 32 \<and> be_nat ret = 36"
    by (intro exI conjI) (assumption | linarith)+
next
  let ?e = "App Div (Lit [5]) (App Add (Lit [0]) (Lit [0]))"
  have v: "eval ?e = None" by code_simp
  from expression_script [of ?e "demo_closure (code ?e @ return_code) 50" demo_ctx 0 demo_world, unfolded v option.case]
  show "\<exists>c. RunClosure 10 demo_ctx (demo_closure (code ?e @ return_code) 50) demo_world = Done demo_world c [] (Some (Recovered DivisionByZero))"
    by (simp add: demo_closure_def NewClosure_def demo_ctx_def del: RunLoop.simps)
qed

end
