(* ===== verification/Reactor.thy ===== *)
theory Reactor
  imports Prelude
begin

text \<open>
  \<open>ethutil/reactor.go\<close>. A channel is a number, the message of a \<open>Post\<close> to each subscriber is a
  pair in the list of deliveries (the sends are goroutines; their order is left open by the
  list's reader). \<open>Remove\<close> mutates the slice it ranges over: the loop sees the old length and
  the shifted backing array.
\<close>

section \<open>Events\<close>

record 'r React =
  Resource :: 'r
  Event :: string

record ReactorEvent =
  event :: string
  chans :: "nat list"

definition ReactorEvent_Post :: "'r React \<Rightarrow> ReactorEvent \<Rightarrow> (nat \<times> 'r React) list" where
  "ReactorEvent_Post react e = map (\<lambda>ch. (ch, react)) (chans e)"

definition ReactorEvent_Add :: "nat \<Rightarrow> ReactorEvent \<Rightarrow> ReactorEvent" where
  "ReactorEvent_Add ch e = e\<lparr>chans := chans e @ [ch]\<rparr>"

text \<open>\<open>arr\<close> is the backing array of the original length, of which \<open>e.chans\<close> is the first \<open>m\<close>.\<close>

function Remove_loop :: "nat \<Rightarrow> nat list \<Rightarrow> nat \<Rightarrow> nat \<Rightarrow> nat list res" where
  "Remove_loop ch arr m i =
     (if length arr \<le> i then Inr (take m arr)
      else if arr ! i = ch then
        (if m < i + 1 then Inl SliceBounds
         else Remove_loop ch (take i arr @ drop (i + 1) (take m arr) @ drop (m - 1) arr) (m - 1) (i + 1))
      else Remove_loop ch arr m (i + 1))"
  by pat_completeness auto
termination
  by (relation "measure (\<lambda>(ch, arr, m, i). length arr - i)") auto

declare Remove_loop.simps [simp del]

definition ReactorEvent_Remove :: "nat \<Rightarrow> ReactorEvent \<Rightarrow> ReactorEvent res" where
  "ReactorEvent_Remove ch e =
     rbind (Remove_loop ch (chans e) (length (chans e)) 0) (\<lambda>cs. Inr (e\<lparr>chans := cs\<rparr>))"

section \<open>The engine\<close>

type_synonym ReactorEngine = "string \<rightharpoonup> ReactorEvent"

definition NewReactorEngine :: ReactorEngine where
  "NewReactorEngine = Map.empty"

definition Subscribe :: "string \<Rightarrow> nat \<Rightarrow> ReactorEngine \<Rightarrow> ReactorEngine" where
  "Subscribe ev ch reactor =
     (let e = (case reactor ev of None \<Rightarrow> \<lparr>event = ev, chans = []\<rparr> | Some e \<Rightarrow> e)
      in reactor(ev \<mapsto> ReactorEvent_Add ch e))"

definition Unsubscribe :: "string \<Rightarrow> nat \<Rightarrow> ReactorEngine \<Rightarrow> ReactorEngine res" where
  "Unsubscribe ev ch reactor =
     (case reactor ev of
        None \<Rightarrow> Inr reactor
      | Some e \<Rightarrow> rbind (ReactorEvent_Remove ch e) (\<lambda>e. Inr (reactor(ev \<mapsto> e))))"

definition Post :: "string \<Rightarrow> 'r \<Rightarrow> ReactorEngine \<Rightarrow> (nat \<times> 'r React) list" where
  "Post ev resource reactor =
     (case reactor ev of
        None \<Rightarrow> []
      | Some e \<Rightarrow> ReactorEvent_Post \<lparr>Resource = resource, Event = ev\<rparr> e)"

section \<open>Who hears of an event\<close>

definition subscribers :: "string \<Rightarrow> ReactorEngine \<Rightarrow> nat list" where
  "subscribers ev reactor = (case reactor ev of None \<Rightarrow> [] | Some e \<Rightarrow> chans e)"

lemma Remove_loop_absent:
  "ch \<notin> set (drop i arr) \<Longrightarrow> Remove_loop ch arr m i = Inr (take m arr)"
proof (induction "length arr - i" arbitrary: i)
  case 0
  then show ?case by (subst Remove_loop.simps) simp
next
  case (Suc n)
  then have i: "i < length arr" by simp
  then have "ch \<noteq> arr ! i" "ch \<notin> set (drop (i + 1) arr)"
    using Suc.prems by (auto simp: Cons_nth_drop_Suc [symmetric])
  then have "Remove_loop ch arr m (i + 1) = Inr (take m arr)"
    using Suc.hyps(2) by (intro Suc.hyps(1)) auto
  then show ?case using i \<open>ch \<noteq> arr ! i\<close> by (subst Remove_loop.simps) simp
qed

lemma Remove_loop_distinct:
  assumes "distinct arr" "i \<le> length arr" "ch \<notin> set (take i arr)"
  shows "Remove_loop ch arr (length arr) i = Inr (filter (\<lambda>c. c \<noteq> ch) arr)"
  using assms
proof (induction "length arr - i" arbitrary: i)
  case 0
  then have "filter (\<lambda>c. c \<noteq> ch) arr = arr" by (auto simp: filter_id_conv)
  with 0 show ?case by (subst Remove_loop.simps) simp
next
  case (Suc n)
  then have i: "i < length arr" by simp
  show ?case
  proof (cases "arr ! i = ch")
    case True
    define as where "as = take i arr"
    define bs where "bs = drop (Suc i) arr"
    have arr: "arr = as @ ch # bs" using id_take_nth_drop [OF i] True by (simp add: as_def bs_def)
    have len: "length as = i" using i by (simp add: as_def)
    have out: "ch \<notin> set as" "ch \<notin> set bs" using Suc.prems(1) arr by auto
    define arr' where "arr' = take i arr @ drop (i + 1) (take (length arr) arr) @ drop (length arr - 1) arr"
    have step: "Remove_loop ch arr (length arr) i = Remove_loop ch arr' (length arr - 1) (i + 1)"
      using i True by (subst Remove_loop.simps) (simp add: arr'_def)
    have arr': "arr' = as @ bs @ drop (length bs) (ch # bs)"
      unfolding arr'_def using len by (simp add: arr)
    have "ch \<notin> set (drop (i + 1) arr')"
    proof (cases bs rule: rev_cases)
      case Nil
      then show ?thesis using arr' len by simp
    next
      case (snoc ys y)
      then have "drop (length bs) (ch # bs) = [y]" by simp
      then have "set (drop (i + 1) arr') \<subseteq> set bs"
        using arr' len snoc by (auto dest: in_set_dropD)
      then show ?thesis using out by auto
    qed
    then have "Remove_loop ch arr (length arr) i = Inr (take (length arr - 1) arr')"
      unfolding step by (rule Remove_loop_absent)
    also have "take (length arr - 1) arr' = as @ bs" using arr' arr len by simp
    also have "filter (\<lambda>c. c \<noteq> ch) as = as" "filter (\<lambda>c. c \<noteq> ch) bs = bs"
      using out by (auto simp: filter_id_conv)
    then have "as @ bs = filter (\<lambda>c. c \<noteq> ch) arr" by (simp add: arr)
    finally show ?thesis .
  next
    case False
    have "ch \<notin> set (take (i + 1) arr)" using Suc.prems(3) False i by (simp add: take_Suc_conv_app_nth)
    then have "Remove_loop ch arr (length arr) (i + 1) = Inr (filter (\<lambda>c. c \<noteq> ch) arr)"
      using Suc.hyps(2) Suc.prems i by (intro Suc.hyps(1)) auto
    then show ?thesis using i False by (subst Remove_loop.simps) simp
  qed
qed

text \<open>As long as no channel is subscribed twice to an event, unsubscribing removes exactly that
  channel from exactly that event: the others keep hearing of it, in the same order, and the
  subscriptions of every other event are untouched.\<close>

theorem Unsubscribe_removes:
  assumes "distinct (subscribers ev reactor)"
  shows "\<exists>reactor'. Unsubscribe ev ch reactor = Inr reactor' \<and>
    (\<forall>ev'. subscribers ev' reactor' =
      (if ev' = ev then filter (\<lambda>c. c \<noteq> ch) (subscribers ev reactor) else subscribers ev' reactor))"
proof (cases "reactor ev")
  case None
  then show ?thesis by (auto simp: Unsubscribe_def subscribers_def)
next
  case (Some e)
  then have "Remove_loop ch (chans e) (length (chans e)) 0 = Inr (filter (\<lambda>c. c \<noteq> ch) (chans e))"
    using assms by (intro Remove_loop_distinct) (simp_all add: subscribers_def)
  then show ?thesis using Some by (simp add: Unsubscribe_def ReactorEvent_Remove_def subscribers_def)
qed

theorem Unsubscribe_removes_witness:
  "\<exists>reactor'. Unsubscribe ''newBlock'' 4 [''newBlock'' \<mapsto> \<lparr>event = ''newBlock'', chans = [3, 4, 5]\<rparr>] = Inr reactor' \<and>
     subscribers ''newBlock'' reactor' = [3, 5]"
  using Unsubscribe_removes [of "''newBlock''" "[''newBlock'' \<mapsto> \<lparr>event = ''newBlock'', chans = [3, 4, 5]\<rparr>]" 4]
  by (auto simp: subscribers_def)

text \<open>A channel that subscribed twice in a row cannot unsubscribe: \<open>Remove\<close> shortens the slice it
  ranges over, meets the second entry through the old length and slices out of bounds.\<close>

theorem Unsubscribe_twice_panics:
  assumes "reactor ev = Some e" "chans e = cs @ [ch, ch]" "ch \<notin> set cs"
  shows "Unsubscribe ev ch reactor = Inl SliceBounds"
proof -
  have skip: "Remove_loop ch (cs @ [ch, ch]) m i = Remove_loop ch (cs @ [ch, ch]) m (length cs)"
    if "i \<le> length cs" for i m
    using that
  proof (induction "length cs - i" arbitrary: i)
    case (Suc n)
    then have i: "i < length cs" by simp
    have "(cs @ [ch, ch]) ! i \<noteq> ch" using i assms(3) by (auto simp: nth_append in_set_conv_nth)
    then have "Remove_loop ch (cs @ [ch, ch]) m i = Remove_loop ch (cs @ [ch, ch]) m (i + 1)"
      using i by (subst Remove_loop.simps) simp
    also have "\<dots> = Remove_loop ch (cs @ [ch, ch]) m (length cs)" using Suc i by (intro Suc.hyps(1)) auto
    finally show ?case .
  qed simp
  have first: "Remove_loop ch (cs @ [ch, ch]) (length cs + 2) (length cs) =
      Remove_loop ch (cs @ [ch, ch]) (length cs + 1) (length cs + 1)"
    by (subst Remove_loop.simps) simp
  have second: "Remove_loop ch (cs @ [ch, ch]) (length cs + 1) (length cs + 1) = Inl SliceBounds"
    by (subst Remove_loop.simps) (simp add: nth_append)
  have "Remove_loop ch (chans e) (length (chans e)) 0 = Inl SliceBounds"
    using skip [of 0 "length cs + 2"] first second by (simp add: assms(2))
  then show ?thesis by (simp add: Unsubscribe_def assms(1) ReactorEvent_Remove_def)
qed

theorem Unsubscribe_twice_panics_witness:
  "Unsubscribe ''ev'' 7 (Subscribe ''ev'' 7 (Subscribe ''ev'' 7 NewReactorEngine)) = Inl SliceBounds"
  by (rule Unsubscribe_twice_panics [where cs = "[]" and e = "\<lparr>event = ''ev'', chans = [7, 7]\<rparr>"])
    (simp_all add: Subscribe_def NewReactorEngine_def ReactorEvent_Add_def)

end
