(* ===== verification/Wire.thy ===== *)
theory Wire
  imports Rlp_Correct
begin

text \<open>
  \<open>ethwire/messaging.go\<close>: the framing of messages, and the reading and writing of a
  connection. A connection is the list of the chunks its \<open>Read\<close> will deliver; what is written
  to it is a byte string. \<open>sp\<close> is what lies behind the received bytes up to the capacity of the
  buffer.
\<close>

section \<open>Messages\<close>

definition MagicToken :: bytes where
  "MagicToken = [34, 64, 8, 145]"

abbreviation (input) MsgHandshakeTy :: byte where "MsgHandshakeTy \<equiv> 0x00"
abbreviation (input) MsgDiscTy :: byte where "MsgDiscTy \<equiv> 0x01"
abbreviation (input) MsgPingTy :: byte where "MsgPingTy \<equiv> 0x02"
abbreviation (input) MsgPongTy :: byte where "MsgPongTy \<equiv> 0x03"
abbreviation (input) MsgGetPeersTy :: byte where "MsgGetPeersTy \<equiv> 0x10"
abbreviation (input) MsgPeersTy :: byte where "MsgPeersTy \<equiv> 0x11"
abbreviation (input) MsgTxTy :: byte where "MsgTxTy \<equiv> 0x12"
abbreviation (input) MsgBlockTy :: byte where "MsgBlockTy \<equiv> 0x13"
abbreviation (input) MsgGetChainTy :: byte where "MsgGetChainTy \<equiv> 0x14"
abbreviation (input) MsgNotInChainTy :: byte where "MsgNotInChainTy \<equiv> 0x15"
abbreviation (input) MsgGetTxsTy :: byte where "MsgGetTxsTy \<equiv> 0x16"
abbreviation (input) MsgTalkTy :: byte where "MsgTalkTy \<equiv> 0xff"

definition msgTypeToString :: "(byte \<times> string) list" where
  "msgTypeToString =
     [(MsgHandshakeTy, ''Handshake''), (MsgDiscTy, ''Disconnect''), (MsgPingTy, ''Ping''), (MsgPongTy, ''Pong''),
      (MsgGetPeersTy, ''Get peers''), (MsgPeersTy, ''Peers''), (MsgTxTy, ''Transactions''), (MsgBlockTy, ''Blocks''),
      (MsgGetChainTy, ''Get chain''), (MsgGetTxsTy, ''Get Txs''), (MsgNotInChainTy, ''Not in chain'')]"

definition MsgType_String :: "byte \<Rightarrow> string" where
  "MsgType_String mt = (case map_of msgTypeToString mt of Some s \<Rightarrow> s | None \<Rightarrow> [])"

record Msg =
  MsgTy :: byte
  MsgData :: gval

definition NewMessage :: "byte \<Rightarrow> gval \<Rightarrow> Msg" where
  "NewMessage msgType data = \<lparr>MsgTy = msgType, MsgData = NewValue data\<rparr>"

section \<open>Reading\<close>

datatype read_err = InvalidMessage | MagicMismatch bytes | LengthMismatch nat nat

text \<open>The four results of \<open>ReadMessage\<close>: message, remaining bytes, done, error.\<close>

type_synonym read_result = "Msg option \<times> bytes \<times> bool \<times> read_err option"

definition ReadMessage :: "bytes \<Rightarrow> bytes \<Rightarrow> read_result res" where
  "ReadMessage data sp =
     (if length data = 0 then Inr (None, [], True, None)
      else if length data \<le> 8 then Inr (None, [], False, Some InvalidMessage)
      else if MagicToken \<noteq> take 4 data then Inr (None, [], False, Some (MagicMismatch (take 4 data)))
      else
        rbind (goslice data sp 4 8) (\<lambda>lb.
        rbind (BytesToNumber lb) (\<lambda>ml.
        let messageLength = unat ml in
        rbind (goslice data [] (8 + messageLength) (length data)) (\<lambda>remaining.
        if messageLength > length (drop 8 data)
        then Inr (None, [], False, Some (LengthMismatch (length (drop 8 data)) messageLength))
        else
          rbind (goslice data sp 8 (8 + messageLength)) (\<lambda>message.
          rbind (NewValueFromBytes_sp message (remaining @ sp)) (\<lambda>decoder.
          rbind (SliceFrom decoder 1) (\<lambda>d.
          Inr (Some \<lparr>MsgTy = ucast (Uint (Get decoder 0)), MsgData = d\<rparr>, remaining, False, None))))))))"

text \<open>
  The loop of \<open>ReadMessages\<close>. A panic of \<open>ReadMessage\<close> is recovered: the messages read so far are
  returned with an error. An error that \<open>ReadMessage\<close> returns comes with nothing remaining, so the
  next round ends the loop and overwrites it.
\<close>

fun ReadMessages_loop :: "nat \<Rightarrow> bytes \<Rightarrow> bytes \<Rightarrow> Msg list \<Rightarrow> (Msg list \<times> go_err option) option" where
  "ReadMessages_loop 0 data sp msgs = None"
| "ReadMessages_loop (Suc f) data sp msgs =
     (case ReadMessage data sp of
        Inl e \<Rightarrow> Some (msgs, Some e)
      | Inr (msg, remaining, done', err) \<Rightarrow>
          if done' then Some (msgs, None)
          else ReadMessages_loop f remaining sp (case msg of None \<Rightarrow> msgs | Some m \<Rightarrow> msgs @ [m]))"

text \<open>The reads of the connection up to the first empty one.\<close>

definition received :: "bytes list \<Rightarrow> bytes" where
  "received chunks = concat (takeWhile (\<lambda>c. c \<noteq> []) chunks)"

definition ReadMessages :: "bytes list \<Rightarrow> bytes \<Rightarrow> (Msg list \<times> go_err option) option" where
  "ReadMessages chunks sp = ReadMessages_loop (length (received chunks) + 2) (received chunks) sp []"

section \<open>Writing\<close>

text \<open>\<open>NumberToBytes\<close> of a \<open>uint32\<close>: four bytes, big endian, cut to the last \<open>bits / 8\<close>.\<close>

definition NumberToBytes32 :: "32 word \<Rightarrow> int \<Rightarrow> bytes res" where
  "NumberToBytes32 num bits =
     (let b = nat_be (unat num); buf = replicate (4 - length b) 0 @ b in
      gosliceI buf [] (int (length buf) - bits div 8) (int (length buf)))"

definition WriteMessage :: "Msg \<Rightarrow> bytes res" where
  "WriteMessage msg =
     (let encoded = Value_Encode (NewValue (VList (VByte (MsgTy msg) # Slice (MsgData msg)))) in
      rbind (NumberToBytes32 (of_nat (length encoded)) 32) (\<lambda>payloadLength.
      Inr (MagicToken @ payloadLength @ encoded)))"

section \<open>What is written is read\<close>

definition msg_items :: "Msg \<Rightarrow> gval" where
  "msg_items m = VList (VByte (MsgTy m) # Slice (MsgData m))"

definition msg_ok :: "Msg \<Rightarrow> bool" where
  "msg_ok m \<longleftrightarrow> fits (raw (msg_items m)) \<and> length (Encode (msg_items m)) < 2 ^ 32"

text \<open>What the receiver gets: the type, and the data as the decoder delivers them.\<close>

definition msg_norm :: "Msg \<Rightarrow> Msg" where
  "msg_norm m = \<lparr>MsgTy = MsgTy m, MsgData = VList (map (unraw \<circ> raw) (Slice (MsgData m)))\<rparr>"

definition msg_frame :: "Msg \<Rightarrow> bytes" where
  "msg_frame m = (case WriteMessage m of Inr b \<Rightarrow> b | Inl e \<Rightarrow> [])"

definition msg_unframe :: "bytes \<Rightarrow> bytes \<Rightarrow> (Msg \<times> bytes) option" where
  "msg_unframe sp data =
     (case ReadMessage data sp of
        Inr (Some m, rest, False, None) \<Rightarrow> Some (m, rest)
      | _ \<Rightarrow> None)"

lemma NumberToBytes32_length:
  "n < 2 ^ 32 \<Longrightarrow> \<exists>b. NumberToBytes32 (of_nat n) 32 = Inr b \<and> length b = 4 \<and> be_nat b = n"
proof -
  assume n: "n < 2 ^ 32"
  then have u: "unat (of_nat n :: 32 word) = n" by (simp add: unat_of_nat)
  have "length (nat_be n) \<le> 4" using n by (intro length_nat_be_le) simp
  then show ?thesis by (simp add: NumberToBytes32_def u gosliceI_def Let_def)
qed

lemma Write_then_Read:
  assumes "msg_ok m"
  shows "\<exists>b. WriteMessage m = Inr b \<and> 8 < length b \<and>
    ReadMessage (b @ rest) sp = Inr (Some (msg_norm m), rest, False, None)"
proof -
  define enc where "enc = Encode (msg_items m)"
  have len: "length enc < 2 ^ 32" using assms by (simp add: msg_ok_def enc_def)
  from NumberToBytes32_length [OF len] obtain lb where
    lb: "NumberToBytes32 (of_nat (length enc)) 32 = Inr lb" "length lb = 4" "be_nat lb = length enc" by blast
  have w: "WriteMessage m = Inr (MagicToken @ lb @ enc)"
    using lb(1) by (simp add: WriteMessage_def Value_Encode_def Let_def enc_def msg_items_def)
  have ne: "enc \<noteq> []" by (simp add: enc_def Encode_raw)
  have M: "length MagicToken = 4" by (simp add: MagicToken_def)
  have ml: "BytesToNumber lb = Inr (of_nat (length enc))" using BytesToNumber_4 [OF lb(2)] lb(3) by simp
  have "length enc < 2 ^ 64" using len by simp
  then have u: "unat (of_nat (length enc) :: uint64) = length enc" by (simp add: unat_of_nat)
  define data where "data = MagicToken @ lb @ enc @ rest"
  have s1: "goslice data sp 4 8 = Inr lb"
    using lb(2) M by (simp add: goslice_def data_def)
  have s2: "goslice data [] (8 + length enc) (length data) = Inr rest"
    using lb(2) M by (simp add: goslice_def data_def)
  have s3: "goslice data sp 8 (8 + length enc) = Inr enc"
    using lb(2) M by (simp add: goslice_def data_def)
  have "Decode_sp enc (rest @ sp) 0 = Inr (unraw (raw (msg_items m)), length enc)"
    using Decode_rlp_at [of "raw (msg_items m)" "[]" "2 * length enc + 2" "[]" "rest @ sp"] assms
    by (simp add: Decode_sp_def enc_def Encode_raw msg_ok_def)
  then have dec: "NewValueFromBytes_sp enc (rest @ sp) = Inr (unraw (raw (msg_items m)))"
    using ne by (simp add: NewValueFromBytes_sp_def)
  have get0: "Get (unraw (raw (msg_items m))) 0 = unraw (RStr (big_Bytes (uint (MsgTy m))))"
    by (simp add: msg_items_def del: unraw.simps(1))
  have slice: "SliceFrom (unraw (raw (msg_items m))) 1 = Inr (MsgData (msg_norm m))"
    by (simp add: msg_items_def msg_norm_def SliceFrom_def gosliceI_def del: unraw.simps(1))
  have "ReadMessage data sp = Inr (Some (msg_norm m), rest, False, None)"
    unfolding ReadMessage_def s1 rbind_simps ml Let_def u s2
    using ne M lb(2)
    by (simp add: s3 dec slice get0 ucast_Uint_byte del: unraw.simps)
      (auto simp: data_def MagicToken_def msg_norm_def)
  then show ?thesis using w M lb(2) ne by (auto simp: data_def)
qed

interpretation wire_frames: framing msg_frame "msg_unframe sp" msg_norm msg_ok for sp
proof
  fix m rest
  assume "msg_ok m"
  from Write_then_Read [OF this, of rest sp] show "msg_unframe sp (msg_frame m @ rest) = Some (msg_norm m, rest)"
    by (auto simp: msg_frame_def msg_unframe_def)
next
  fix m
  assume "msg_ok m"
  from Write_then_Read [OF this, of "[]" "[]"] show "msg_frame m \<noteq> []" by (auto simp: msg_frame_def)
qed

lemma ReadMessages_loop_unframes:
  "wire_frames.unframes sp f data = Some ms \<Longrightarrow> ReadMessages_loop f data sp acc = Some (acc @ ms, None)"
proof (induction f arbitrary: data ms acc)
  case (Suc f)
  show ?case
  proof (cases "data = []")
    case True
    then show ?thesis using Suc.prems by (simp add: ReadMessage_def)
  next
    case False
    with Suc.prems obtain x rest ms' where u: "msg_unframe sp data = Some (x, rest)"
      "wire_frames.unframes sp f rest = Some ms'" "ms = x # ms'"
      by (auto split: option.splits)
    from u(1) have "ReadMessage data sp = Inr (Some x, rest, False, None)"
      by (auto simp: msg_unframe_def split: sum.splits prod.splits option.splits bool.splits)
    then show ?thesis using Suc.IH [OF u(2)] u(3) by simp
  qed
qed simp

lemma ReadMessages_frames:
  assumes "\<forall>m \<in> set ms. msg_ok m" "received chunks = concat (map msg_frame ms)"
  shows "ReadMessages chunks sp = Some (map msg_norm ms, None)"
proof -
  have "length ms < length (received chunks) + 2"
    using wire_frames.length_frames [OF assms(1)] assms(2) by simp
  from wire_frames.unframes_frames [OF assms(1) this, of sp] show ?thesis
    unfolding ReadMessages_def assms(2) [symmetric] by (subst ReadMessages_loop_unframes) simp_all
qed



text \<open>A message whose length field exceeds the bytes received panics: the remaining bytes are cut off
  before the length is checked, so the error made for this case is never returned.\<close>

theorem short_message_panics:
  assumes "take 4 data = MagicToken" "8 < length data" "length data < 8 + be_nat (take 4 (drop 4 data))"
  shows "ReadMessage data sp = Inl SliceBounds"
proof -
  define lb where "lb = take 4 (drop 4 data)"
  have lb: "length lb = 4" using assms(2) by (simp add: lb_def)
  have s1: "goslice data sp 4 8 = Inr lb" using assms(2) by (simp add: goslice_def lb_def take_drop)
  have ml: "BytesToNumber lb = Inr (of_nat (be_nat lb))" by (rule BytesToNumber_4 [OF lb])
  have u: "unat (of_nat (be_nat lb) :: uint64) = be_nat lb" by (rule unat_of_nat_be) (simp add: lb)
  have "goslice data [] (8 + be_nat lb) (length data) = Inl SliceBounds"
    using assms(3) by (simp add: goslice_def flip: lb_def)
  moreover have "data \<noteq> []" using assms(2) by auto
  ultimately show ?thesis using assms(1,2) by (simp add: ReadMessage_def s1 ml u Let_def)
qed

theorem short_message_panics_witness:
  "ReadMessage [34, 64, 8, 145, 0, 0, 0, 2, 0xc1] [] = Inl SliceBounds"
  by (rule short_message_panics) (simp_all add: MagicToken_def be_nat_def)

text \<open>A message that is too short or has a wrong token is dropped without a trace: \<open>ReadMessages\<close>
  returns no message and no error, because the next round of its loop overwrites the error.\<close>

theorem malformed_message_ignored:
  assumes "length (received chunks) \<le> 8 \<or> take 4 (received chunks) \<noteq> MagicToken"
  shows "ReadMessages chunks sp = Some ([], None)"
proof -
  define data where "data = received chunks"
  have "ReadMessage [] sp = Inr (None, [], True, None)" by (simp add: ReadMessage_def)
  moreover have "(\<exists>e. ReadMessage data sp = Inr (None, [], False, Some e)) \<or> ReadMessage data sp = Inr (None, [], True, None)"
    using assms unfolding ReadMessage_def by (auto simp flip: data_def)
  ultimately show ?thesis unfolding ReadMessages_def data_def [symmetric] by auto
qed

theorem malformed_message_ignored_witness: "ReadMessages [[1, 2, 3]] [] = Some ([], None)"
  by (rule malformed_message_ignored) (simp add: received_def)

end
