(* ===== verification/Transactions.thy ===== *)
theory Transactions
  imports Vm Rlp_Correct
begin

text \<open>
  \<open>ethchain/transaction.go\<close> and \<open>transaction_pool.go\<close>. The signature scheme is the parameter
  \<open>recover\<close>/\<open>sign\<close> of the environment. The pool is its list of transactions and its queue,
  the buffered channel; what it sends to the peers and to the reactor is a list of events.
\<close>

section \<open>Transactions\<close>

record Transaction =
  tx_Nonce :: uint64
  Recipient :: bytes
  tx_Value :: int
  tx_Gas :: int
  GasPrice :: int
  Data :: bytes
  tx_v :: byte
  tx_r :: bytes
  tx_s :: bytes
  contractCreation :: bool

definition ZeroTransaction :: Transaction where
  "ZeroTransaction = \<lparr>tx_Nonce = 0, Recipient = [], tx_Value = 0, tx_Gas = 0, GasPrice = 0, Data = [],
     tx_v = 0, tx_r = [], tx_s = [], contractCreation = False\<rparr>"

definition NewContractCreationTx :: "int \<Rightarrow> int \<Rightarrow> int \<Rightarrow> bytes \<Rightarrow> Transaction" where
  "NewContractCreationTx value' gas gasPrice scr =
     ZeroTransaction\<lparr>tx_Value := value', tx_Gas := gas, GasPrice := gasPrice, Data := scr, contractCreation := True\<rparr>"

definition NewTransactionMessage :: "bytes \<Rightarrow> int \<Rightarrow> int \<Rightarrow> int \<Rightarrow> bytes \<Rightarrow> Transaction" where
  "NewTransactionMessage to value' gas gasPrice data =
     ZeroTransaction\<lparr>Recipient := to, tx_Value := value', GasPrice := gasPrice, tx_Gas := gas, Data := data\<rparr>"

definition tx_fields :: "Transaction \<Rightarrow> gval list" where
  "tx_fields tx =
     [VUint64 (tx_Nonce tx), VBig (Some (GasPrice tx)), VBig (Some (tx_Gas tx)), VBytes (Recipient tx),
      VBig (Some (tx_Value tx)), VBytes (Data tx)]"

definition tx_Hash :: "Env \<Rightarrow> Transaction \<Rightarrow> bytes" where
  "tx_Hash E tx = sha E (Value_Encode (NewValue (VList (tx_fields tx))))"

definition CreatesContract :: "Transaction \<Rightarrow> bool" where
  "CreatesContract tx = contractCreation tx"

definition IsContract :: "Transaction \<Rightarrow> bool" where
  "IsContract tx = CreatesContract tx"

definition Signature :: "Env \<Rightarrow> bytes \<Rightarrow> Transaction \<Rightarrow> bytes" where
  "Signature E key tx = sign E (tx_Hash E tx) key"

definition PublicKey :: "Env \<Rightarrow> Transaction \<Rightarrow> bytes" where
  "PublicKey E tx = recover E (tx_Hash E tx) (tx_r tx @ tx_s tx @ [tx_v tx - 27])"

text \<open>A key that is not in full format gives the nil address; \<open>pubkey[0]\<close> of no key panics.\<close>

definition Sender :: "Env \<Rightarrow> Transaction \<Rightarrow> bytes res" where
  "Sender E tx =
     (let pubkey = PublicKey E tx in
      rbind (goindex pubkey 0) (\<lambda>p0.
      if p0 \<noteq> 4 then Inr []
      else
        let h = sha E (drop 1 pubkey) in goslice h [] 12 (length h)))"

definition CreationAddress :: "Env \<Rightarrow> Transaction \<Rightarrow> bytes res" where
  "CreationAddress E tx =
     rbind (Sender E tx) (\<lambda>from.
     let h = sha E (Value_Encode (NewValue (VList [VBytes from, VUint64 (tx_Nonce tx)])))
     in goslice h [] 12 (length h))"

definition Sign :: "Env \<Rightarrow> bytes \<Rightarrow> Transaction \<Rightarrow> Transaction res" where
  "Sign E privk tx =
     (let sig = Signature E privk tx in
      rbind (goslice sig [] 0 32) (\<lambda>r.
      rbind (goslice sig [] 32 64) (\<lambda>s.
      rbind (goindex sig 64) (\<lambda>v.
      Inr (tx\<lparr>tx_r := r, tx_s := s, tx_v := v + 27\<rparr>)))))"

definition tx_RlpData :: "Transaction \<Rightarrow> gval" where
  "tx_RlpData tx = VList (tx_fields tx @ [VByte (tx_v tx), VBytes (tx_r tx), VBytes (tx_s tx)])"

definition tx_RlpValue :: "Transaction \<Rightarrow> gval" where
  "tx_RlpValue tx = NewValue (tx_RlpData tx)"

definition tx_RlpEncode :: "Transaction \<Rightarrow> bytes" where
  "tx_RlpEncode tx = Value_Encode (tx_RlpValue tx)"

definition tx_RlpValueDecode :: "gval \<Rightarrow> Transaction \<Rightarrow> Transaction" where
  "tx_RlpValueDecode decoder tx =
     (let tx = tx\<lparr>tx_Nonce := Uint (Get decoder 0), GasPrice := big_of (Get decoder 1),
            tx_Gas := big_of (Get decoder 2), Recipient := Bytes (Get decoder 3),
            tx_Value := big_of (Get decoder 4), Data := Bytes (Get decoder 5),
            tx_v := ucast (Uint (Get decoder 6)), tx_r := Bytes (Get decoder 7),
            tx_s := Bytes (Get decoder 8)\<rparr>
      in if length (Recipient tx) = 0 then tx\<lparr>contractCreation := True\<rparr> else tx)"

definition tx_RlpDecode :: "bytes \<Rightarrow> Transaction \<Rightarrow> Transaction res" where
  "tx_RlpDecode data tx = rbind (NewValueFromBytes data) (\<lambda>v. Inr (tx_RlpValueDecode v tx))"

definition NewTransactionFromBytes :: "bytes \<Rightarrow> Transaction res" where
  "NewTransactionFromBytes data = tx_RlpDecode data ZeroTransaction"

definition NewTransactionFromValue :: "gval \<Rightarrow> Transaction" where
  "NewTransactionFromValue val = tx_RlpValueDecode val ZeroTransaction"

record Receipt =
  rc_Tx :: Transaction
  PostState :: bytes
  CumulativeGasUsed :: int

definition NewRecieptFromValue :: "gval \<Rightarrow> Receipt" where
  "NewRecieptFromValue decoder =
     \<lparr>rc_Tx = NewTransactionFromValue (Get decoder 0), PostState = Bytes (Get decoder 1),
      CumulativeGasUsed = big_of (Get decoder 2)\<rparr>"

definition rc_RlpData :: "Receipt \<Rightarrow> gval" where
  "rc_RlpData r = VList [tx_RlpData (rc_Tx r), VBytes (PostState r), VBig (Some (CumulativeGasUsed r))]"

definition TxByNonce_Less :: "Transaction list \<Rightarrow> nat \<Rightarrow> nat \<Rightarrow> bool" where
  "TxByNonce_Less s i j \<longleftrightarrow> tx_Nonce (s ! i) < tx_Nonce (s ! j)"

definition Transactions_Swap :: "Transaction list \<Rightarrow> nat \<Rightarrow> nat \<Rightarrow> Transaction list" where
  "Transactions_Swap s i j = s[i := s ! j, j := s ! i]"

text \<open>\<open>MakeContract\<close>; \<open>ZeroHash256\<close> is the root of the new contract.\<close>

definition ZeroHash256 :: bytes where "ZeroHash256 = replicate 32 0"
definition ZeroHash160 :: bytes where "ZeroHash160 = replicate 20 0"

definition MakeContract :: "Env \<Rightarrow> Transaction \<Rightarrow> nat \<Rightarrow> World \<Rightarrow> (StateObject option \<times> World) res" where
  "MakeContract E tx r w =
     (if IsContract tx then
        rbind (CreationAddress E tx) (\<lambda>addr.
        let (contract, w) = NewContract addr (tx_Value tx) ZeroHash256 w;
            contract = contract\<lparr>initScript := Data tx\<rparr>
        in rbind (UpdateStateObject E r contract w) (\<lambda>w. Inr (Some contract, w)))
      else Inr (None, w))"

section \<open>Applying a transaction to a state\<close>

datatype event =
    BroadcastTx Transaction
  | PostNewTxPre Transaction
  | PostNewTxPost Transaction

text \<open>
  The result of \<open>ProcessTransaction\<close>: the gas, the error, the world and the posted events. A
  panic is recovered into an error; only an operation that never returns is left as \<open>Inl\<close>.
\<close>

type_synonym processed = "(int \<times> chain_err option \<times> World \<times> event list) res"

definition panicked :: "int \<Rightarrow> World \<Rightarrow> go_err \<Rightarrow> processed" where
  "panicked gas w e =
     (if e = OutOfFuel then Inl OutOfFuel else Inr (gas, Some (PlainErr ''panic''), w, []))"

definition guarded :: "int \<Rightarrow> World \<Rightarrow> 'a res \<Rightarrow> ('a \<Rightarrow> processed) \<Rightarrow> processed" where
  "guarded gas w m k = (case m of Inl e \<Rightarrow> panicked gas w e | Inr x \<Rightarrow> k x)"

definition tx_data_gas :: "Transaction \<Rightarrow> int" where
  "tx_data_gas tx = int (length (Data tx)) div Big32 * GasSStore"

definition ProcessTransaction :: "Env \<Rightarrow> Transaction \<Rightarrow> nat \<Rightarrow> World \<Rightarrow> processed" where
  "ProcessTransaction E tx r w =
     guarded 0 w (Sender E tx) (\<lambda>from.
     guarded 0 w (GetAccount r from w) (\<lambda>(sender, w).
     if Nonce sender \<noteq> tx_Nonce tx then
       Inr (0, Some (NonceErr (tx_Nonce tx) (Nonce sender)), w, [])
     else
       let gas = tx_data_gas tx; totAmount = tx_Value tx + tx_Gas tx * GasPrice tx in
       if Amount sender < totAmount then
         Inr (gas, Some (PlainErr ''[TXPL] Insufficient amount''), w, [])
       else
         guarded gas w (GetAccount r (Recipient tx) w) (\<lambda>(receiver, w).
         let sender = sender\<lparr>Nonce := Nonce sender + 1\<rparr>;
             self = Recipient tx = from;
             gas = (if self then gas + GasTx else gas);
             sender = SubAmount (if self then GasTx * GasPrice tx else totAmount) sender
         in
         guarded gas w
           (if self then Inr w else UpdateStateObject E r (AddAmount (tx_Value tx) receiver) w) (\<lambda>w.
         guarded gas w (UpdateStateObject E r sender w) (\<lambda>w.
         Inr (gas, None, w, [PostNewTxPost tx]))))))"

section \<open>The pool\<close>

definition TxFee :: int where "TxFee = 100"

definition txPoolQueueSize :: nat where "txPoolQueueSize = 50"

record TxPool =
  pool :: "Transaction list"
  queueChan :: "Transaction list"

definition NewTxPool :: TxPool where
  "NewTxPool = \<lparr>pool = [], queueChan = []\<rparr>"

definition FindTx :: "Transaction list \<Rightarrow> (Transaction \<Rightarrow> bool) \<Rightarrow> Transaction option" where
  "FindTx p finder = find finder p"

definition addTransaction :: "Transaction \<Rightarrow> TxPool \<Rightarrow> TxPool \<times> event list" where
  "addTransaction tx p = (p\<lparr>pool := pool p @ [tx]\<rparr>, [BroadcastTx tx])"

text \<open>\<open>cur\<close> is the state of the current block, if there is one. The answer is the error.\<close>

definition ValidateTransaction ::
    "Env \<Rightarrow> nat option \<Rightarrow> Transaction \<Rightarrow> World \<Rightarrow> (chain_err option \<times> World) res" where
  "ValidateTransaction E cur tx w =
     (case cur of
        None \<Rightarrow> Inr (Some (PlainErr ''[TXPL] No last block on the block chain''), w)
      | Some r \<Rightarrow>
          rbind (Sender E tx) (\<lambda>from.
          rbind (GetAccount r from w) (\<lambda>(sender, w).
          if Amount sender < tx_Value tx + TxFee * TxFeeRat
          then Inr (Some (PlainErr ''[TXPL] Insufficient amount''), w)
          else Inr (None, w))))"

text \<open>One transaction taken from the queue by \<open>queueHandler\<close>.\<close>

definition handleQueued ::
    "Env \<Rightarrow> nat option \<Rightarrow> Transaction \<Rightarrow> TxPool \<times> World \<Rightarrow> (TxPool \<times> World \<times> event list) res" where
  "handleQueued E cur tx = (\<lambda>(p, w).
     let hash = tx_Hash E tx in
     if FindTx (pool p) (\<lambda>t. tx_Hash E t = hash) \<noteq> None then Inr (p, w, [])
     else
       rbind (ValidateTransaction E cur tx w) (\<lambda>(err, w).
       if err \<noteq> None then Inr (p, w, [])
       else let (p, ev) = addTransaction tx p in Inr (p, w, ev @ [PostNewTxPre tx])))"

text \<open>The channel: a send blocks while the buffer is full, a receive while it is empty.\<close>

definition QueueTransaction :: "Transaction \<Rightarrow> TxPool \<Rightarrow> TxPool option" where
  "QueueTransaction tx p =
     (if length (queueChan p) < txPoolQueueSize then Some (p\<lparr>queueChan := queueChan p @ [tx]\<rparr>) else None)"

definition queueHandler ::
    "Env \<Rightarrow> nat option \<Rightarrow> TxPool \<times> World \<Rightarrow> (TxPool \<times> World \<times> event list) res option" where
  "queueHandler E cur = (\<lambda>(p, w).
     (case queueChan p of
        [] \<Rightarrow> None
      | tx # rest \<Rightarrow> Some (handleQueued E cur tx (p\<lparr>queueChan := rest\<rparr>, w))))"

definition CurrentTransactions :: "TxPool \<Rightarrow> Transaction list" where
  "CurrentTransactions p = pool p"

text \<open>
  \<open>RemoveInvalid\<close> walks the list and removes the element it stands on. \<open>list.Remove\<close> clears the
  element's links, so \<open>e.Next()\<close> is nil after a removal and the walk ends there.
\<close>

fun RemoveInvalid_walk ::
    "Env \<Rightarrow> nat option \<Rightarrow> nat \<Rightarrow> Transaction list \<Rightarrow> World \<Rightarrow> (Transaction list \<times> World) res" where
  "RemoveInvalid_walk E cur r [] w = Inr ([], w)"
| "RemoveInvalid_walk E cur r (tx # txs) w =
     rbind (Sender E tx) (\<lambda>from.
     rbind (GetAccount r from w) (\<lambda>(sender, w).
     rbind (ValidateTransaction E cur tx w) (\<lambda>(err, w).
     if err \<noteq> None \<or> Nonce sender \<ge> tx_Nonce tx then Inr (txs, w)
     else rbind (RemoveInvalid_walk E cur r txs w) (\<lambda>(txs, w). Inr (tx # txs, w)))))"

definition RemoveInvalid ::
    "Env \<Rightarrow> nat option \<Rightarrow> nat \<Rightarrow> TxPool \<times> World \<Rightarrow> (TxPool \<times> World) res" where
  "RemoveInvalid E cur r = (\<lambda>(p, w).
     rbind (RemoveInvalid_walk E cur r (pool p) w) (\<lambda>(txs, w). Inr (p\<lparr>pool := txs\<rparr>, w)))"

definition Flush :: "TxPool \<Rightarrow> Transaction list \<times> TxPool" where
  "Flush p = (CurrentTransactions p, p\<lparr>pool := []\<rparr>)"

definition TxPool_Stop :: "TxPool \<Rightarrow> TxPool" where
  "TxPool_Stop p = snd (Flush p)"

end
