(* ===== verification/Block.thy ===== *)
theory Block
  imports Transactions
begin

text \<open>
  \<open>ethchain/block.go\<close>, \<open>genesis.go\<close> and the proof of work of \<open>dagger.go\<close>. A block's state is a
  pointer into the heap of states. Uncles are blocks of which only the header is ever used, so
  they are headers here. A nil \<open>Number\<close> (a block created before there is a chain) is \<open>None\<close>.
\<close>

section \<open>Blocks\<close>

record BlockInfo =
  bi_Number :: uint64
  bi_Hash :: bytes
  bi_Parent :: bytes

definition BlockInfo_RlpDecode :: "bytes \<Rightarrow> BlockInfo res" where
  "BlockInfo_RlpDecode data =
     rbind (NewValueFromBytes data) (\<lambda>decoder.
     Inr \<lparr>bi_Number = Uint (Get decoder 0), bi_Hash = Bytes (Get decoder 1), bi_Parent = Bytes (Get decoder 2)\<rparr>)"

definition BlockInfo_RlpEncode :: "BlockInfo \<Rightarrow> bytes" where
  "BlockInfo_RlpEncode bi = Encode (VList [VUint64 (bi_Number bi), VBytes (bi_Hash bi), VBytes (bi_Parent bi)])"

record Header =
  hd_PrevHash :: bytes
  UncleSha :: bytes
  hd_Coinbase :: bytes
  hd_state :: nat
  TxSha :: bytes
  Difficulty :: int
  Number :: "int option"
  MinGasPrice :: int
  GasLimit :: int
  GasUsed :: int
  hd_Time :: "64 word"
  Extra :: bytes
  hd_Nonce :: bytes

record Block = Header +
  Uncles :: "Header list"
  transactions :: "Transaction list"
  receipts :: "Receipt list"

definition header :: "'a Header_scheme \<Rightarrow> World \<Rightarrow> gval list res" where
  "header b w =
     rbind (State_Root (hd_state b) w) (\<lambda>root.
     Inr [VBytes (hd_PrevHash b), VBytes (UncleSha b), VBytes (hd_Coinbase b), root, VBytes (TxSha b),
          VBig (Some (Difficulty b)), VBig (Number b), VBig (Some (MinGasPrice b)), VBig (Some (GasLimit b)),
          VBig (Some (GasUsed b)), VInt64 (hd_Time b), VStr (Extra b), VBytes (hd_Nonce b)])"

fun map_res :: "('a \<Rightarrow> 'b res) \<Rightarrow> 'a list \<Rightarrow> 'b list res" where
  "map_res f [] = Inr []"
| "map_res f (x # xs) = rbind (f x) (\<lambda>y. rbind (map_res f xs) (\<lambda>ys. Inr (y # ys)))"

definition rlpReceipts :: "Block \<Rightarrow> gval" where
  "rlpReceipts b = VList (map rc_RlpData (receipts b))"

definition rlpUncles :: "'a Header_scheme list \<Rightarrow> World \<Rightarrow> gval res" where
  "rlpUncles us w = rbind (map_res (\<lambda>u. rbind (header u w) (\<lambda>h. Inr (VList h))) us) (\<lambda>hs. Inr (VList hs))"

definition Block_Value :: "Block \<Rightarrow> World \<Rightarrow> gval res" where
  "Block_Value b w =
     rbind (header b w) (\<lambda>h.
     rbind (rlpUncles (Uncles b) w) (\<lambda>us.
     Inr (NewValue (VList [VList h, rlpReceipts b, us]))))"

definition Block_RlpEncode :: "Block \<Rightarrow> World \<Rightarrow> bytes res" where
  "Block_RlpEncode b w = rbind (Block_Value b w) (\<lambda>v. Inr (Value_Encode v))"

definition Block_Hash :: "Env \<Rightarrow> Block \<Rightarrow> World \<Rightarrow> bytes res" where
  "Block_Hash E b w = rbind (Block_Value b w) (\<lambda>v. Inr (sha E (Value_Encode v)))"

definition HashNoNonce :: "Env \<Rightarrow> Block \<Rightarrow> World \<Rightarrow> bytes res" where
  "HashNoNonce E b w =
     rbind (State_Root (hd_state b) w) (\<lambda>root.
     Inr (sha E (Encode (VList
       [VBytes (hd_PrevHash b), VBytes (UncleSha b), VBytes (hd_Coinbase b), root, VBytes (TxSha b),
        VBig (Some (Difficulty b)), VBig (Number b), VBig (Some (MinGasPrice b)), VBig (Some (GasLimit b)),
        VBig (Some (GasUsed b)), VInt64 (hd_Time b), VStr (Extra b)]))))"

definition EmptyShaList :: "Env \<Rightarrow> bytes" where
  "EmptyShaList E = sha E (Encode (VList []))"

definition SetUncles :: "Env \<Rightarrow> Header list \<Rightarrow> Block \<Rightarrow> World \<Rightarrow> Block res" where
  "SetUncles E us b w =
     rbind (rlpUncles us w) (\<lambda>v. Inr (b\<lparr>Uncles := us, UncleSha := sha E (Encode v)\<rparr>))"

text \<open>\<open>strconv.Itoa\<close> of an index, as bytes.\<close>

definition itoa :: "nat \<Rightarrow> bytes" where
  "itoa i = lit (dec_nat i)"

text \<open>The trie of a block's transactions lives in its own cache; only the root is kept.\<close>

fun tx_trie :: "Env \<Rightarrow> memdb \<Rightarrow> nat \<Rightarrow> Transaction list \<Rightarrow> Trie \<Rightarrow> Trie res" where
  "tx_trie E d i [] t = Inr t"
| "tx_trie E d i (tx # txs) t =
     rbind (Update (key_fuel (itoa i)) (sha E) d (spare E (length (itoa i))) (itoa i) (tx_RlpEncode tx) t)
       (tx_trie E d (i + 1) txs)"

definition setTransactions :: "Env \<Rightarrow> Transaction list \<Rightarrow> Block \<Rightarrow> World \<Rightarrow> Block res" where
  "setTransactions E txs b w =
     rbind (tx_trie E (db w) 0 txs (NewTrie (VStr []))) (\<lambda>t.
     (case Root t of
        VStr s \<Rightarrow> Inr (b\<lparr>transactions := txs, TxSha := s\<rparr>)
      | VBytes s \<Rightarrow> Inr (b\<lparr>transactions := txs, TxSha := s\<rparr>)
      | _ \<Rightarrow> Inl (Panic ''invalid root type'')))"

definition SetReceipts :: "Env \<Rightarrow> Receipt list \<Rightarrow> Transaction list \<Rightarrow> Block \<Rightarrow> World \<Rightarrow> Block res" where
  "SetReceipts E rs txs b w = setTransactions E txs (b\<lparr>receipts := rs\<rparr>) w"

definition CreateBlock ::
    "Env \<Rightarrow> 64 word \<Rightarrow> gval \<Rightarrow> bytes \<Rightarrow> bytes \<Rightarrow> int \<Rightarrow> bytes \<Rightarrow> bytes \<Rightarrow> World \<Rightarrow> (Block \<times> World) res" where
  "CreateBlock E now root prevHash base difficulty nonce extra w =
     (let (r, w') = NewState (NewTrie root) w;
          block = \<lparr>hd_PrevHash = prevHash, UncleSha = EmptyShaList E, hd_Coinbase = base, hd_state = r, TxSha = [],
            Difficulty = difficulty, Number = None, MinGasPrice = 0, GasLimit = 0, GasUsed = 0, hd_Time = now,
            Extra = extra, hd_Nonce = nonce, Uncles = [], transactions = [], receipts = []\<rparr>
      in rbind (SetUncles E [] block w') (\<lambda>block. Inr (block, w')))"

section \<open>Decoding\<close>

definition decode_header :: "gval \<Rightarrow> World \<Rightarrow> Header \<times> World" where
  "decode_header h w =
     (let (r, w') = NewState (NewTrie (Get h 3)) w in
      (\<lparr>hd_PrevHash = Bytes (Get h 0), UncleSha = Bytes (Get h 1), hd_Coinbase = Bytes (Get h 2), hd_state = r,
        TxSha = Bytes (Get h 4), Difficulty = big_of (Get h 5), Number = BigInt (Get h 6),
        MinGasPrice = big_of (Get h 7), GasLimit = big_of (Get h 8), GasUsed = big_of (Get h 9),
        hd_Time = big_Uint64 (big_of (Get h 10)), Extra = Str (Get h 11), hd_Nonce = Bytes (Get h 12)\<rparr>, w'))"

definition NewUncleBlockFromValue :: "gval \<Rightarrow> World \<Rightarrow> Header \<times> World" where
  "NewUncleBlockFromValue h w = decode_header h w"

fun decode_uncles :: "gval list \<Rightarrow> World \<Rightarrow> Header list \<times> World" where
  "decode_uncles [] w = ([], w)"
| "decode_uncles (v # vs) w =
     (let (u, w) = NewUncleBlockFromValue v w; (us, w) = decode_uncles vs w in (u # us, w))"

text \<open>The elements \<open>v.Get(0), ..., v.Get(v.Len()-1)\<close>.\<close>

definition elements :: "gval \<Rightarrow> gval list" where
  "elements v = map (\<lambda>i. Get v (int i)) [0..<Len v]"

definition Block_RlpValueDecode :: "gval \<Rightarrow> World \<Rightarrow> Block \<times> World" where
  "Block_RlpValueDecode decoder w =
     (let (h, w) = decode_header (Get decoder 0) w;
          rs = (if IsNil (Get decoder 1) then [] else map NewRecieptFromValue (elements (Get decoder 1)));
          (us, w) = (if IsNil (Get decoder 2) then ([], w) else decode_uncles (elements (Get decoder 2)) w)
      in (Header.extend h \<lparr>Uncles = us, transactions = map rc_Tx rs, receipts = rs\<rparr>, w))"

definition NewBlockFromRlpValue :: "gval \<Rightarrow> World \<Rightarrow> Block \<times> World" where
  "NewBlockFromRlpValue v w = Block_RlpValueDecode v w"

definition NewBlockFromBytes :: "bytes \<Rightarrow> World \<Rightarrow> (Block \<times> World) res" where
  "NewBlockFromBytes raw_data w =
     rbind (NewValueFromBytes raw_data) (\<lambda>v. Inr (Block_RlpValueDecode v w))"

definition NewBlockFromData :: "bytes \<Rightarrow> World \<Rightarrow> (Block \<times> World) res" where
  "NewBlockFromData raw_data w = NewBlockFromBytes raw_data w"

section \<open>Other operations\<close>

definition info_key :: "bytes \<Rightarrow> bytes" where
  "info_key hash = hash @ lit ''Info''"

definition Block_BlockInfo :: "Env \<Rightarrow> Block \<Rightarrow> World \<Rightarrow> BlockInfo res" where
  "Block_BlockInfo E b w =
     rbind (Block_Hash E b w) (\<lambda>h. BlockInfo_RlpDecode (db_Get (info_key h) (db w)))"

definition GetTransaction :: "Env \<Rightarrow> bytes \<Rightarrow> Block \<Rightarrow> Transaction option" where
  "GetTransaction E hash b =
     map_option rc_Tx (find (\<lambda>r. tx_Hash E (rc_Tx r) = hash) (receipts b))"

definition Block_Sync :: "Env \<Rightarrow> Block \<Rightarrow> World \<Rightarrow> World res" where
  "Block_Sync E b w = State_Sync (walk E) (hd_state b) w"

definition Block_Undo :: "Env \<Rightarrow> Block \<Rightarrow> World \<Rightarrow> World res" where
  "Block_Undo E b w = State_Reset (walk E) (hd_state b) w"

definition PayFee :: "Env \<Rightarrow> bytes \<Rightarrow> int \<Rightarrow> Block \<Rightarrow> World \<Rightarrow> (bool \<times> World) res" where
  "PayFee E addr fee b w =
     (let r = hd_state b in
      rbind (GetStateObject r addr w) (\<lambda>(contract, w).
      case contract of
        None \<Rightarrow> Inl NilDereference
      | Some contract \<Rightarrow>
          if Amount contract < fee then Inr (False, w)
          else
            rbind (StateObject_RlpEncode (sha E) (SetAmount (Amount contract - fee) contract) w) (\<lambda>enc.
            rbind (state_Update E r addr enc w) (\<lambda>w.
            rbind (state_Get r (hd_Coinbase b) w) (\<lambda>(data, w).
            rbind (NewStateObjectFromBytes (hd_Coinbase b) data w) (\<lambda>(account, w).
            rbind (UpdateStateObject E r (SetAmount (Amount account + fee) account) w) (\<lambda>w.
            Inr (True, w))))))))"

section \<open>Genesis\<close>

definition GenesisHeader :: "Env \<Rightarrow> gval list" where
  "GenesisHeader E =
     [VBytes ZeroHash256, VBytes (sha E (Encode (VList []))), VBytes ZeroHash160, VStr [], VStr [],
      VBig (Some (BigPow 2 22)), VBig (Some Big0), VBig (Some Big0), VBig (Some 1000000), VBig (Some Big0),
      VBig (Some Big0), VNil, VBytes (sha E (big_Bytes 42))]"

definition Genesis :: "Env \<Rightarrow> gval" where
  "Genesis E = VList [VList (GenesisHeader E), VList [], VList []]"

section \<open>Proof of work\<close>

text \<open>\<open>Verify\<close> of \<open>EasyPow\<close>; Keccak of the concatenation is the parameter \<open>sha\<close>.\<close>

definition EasyPow_Verify :: "Env \<Rightarrow> bytes \<Rightarrow> int \<Rightarrow> bytes \<Rightarrow> bool res" where
  "EasyPow_Verify E hash diff nonce =
     rbind (big_Div (BigPow 2 256) diff) (\<lambda>ret.
     Inr (BigD (sha E (hash @ nonce)) < ret))"

text \<open>
  \<open>Search\<close>: \<open>rnds\<close> are the numbers the random source will deliver before the reactor
  interrupts; the answer is the nonce, or nil.
\<close>

fun EasyPow_Search_loop :: "Env \<Rightarrow> bytes \<Rightarrow> int \<Rightarrow> int list \<Rightarrow> bytes option res" where
  "EasyPow_Search_loop E hash diff [] = Inr None"
| "EasyPow_Search_loop E hash diff (r # rnds) =
     (let nonce = sha E (big_Bytes r) in
      rbind (EasyPow_Verify E hash diff nonce) (\<lambda>ok.
      if ok then Inr (Some nonce) else EasyPow_Search_loop E hash diff rnds))"

definition EasyPow_Search :: "Env \<Rightarrow> Block \<Rightarrow> int list \<Rightarrow> World \<Rightarrow> bytes option res" where
  "EasyPow_Search E b rnds w =
     rbind (HashNoNonce E b w) (\<lambda>hash. EasyPow_Search_loop E hash (Difficulty b) rnds)"

record Dagger =
  dag_hash :: int
  dag_xn :: int

text \<open>\<open>Node\<close>: the recursion goes down from level \<open>L\<close> and stops where the level equals the index.
  The mask \<open>(1 << ((L-1)*3)) - 1\<close> is taken on 64 bits, the level wraps below 0.\<close>

function (sequential) Dagger_Node :: "nat \<Rightarrow> Env \<Rightarrow> Dagger \<Rightarrow> uint64 \<Rightarrow> uint64 \<Rightarrow> int option" where
  "Dagger_Node 0 E dag L i = None"
| "Dagger_Node (Suc f) E dag L i =
     (if L = i then Some (dag_hash dag)
      else
        let m = (if L = 9 then 16 else 3 :: nat);
            child = (\<lambda>k. let b = BigD (sha E (big_Bytes (dag_hash dag) @ big_Bytes (dag_xn dag) @
                            big_Bytes (sint L) @ big_Bytes (sint i) @ big_Bytes (int k)));
                         shift = unat ((L - 1) * 3);
                         pk = semiring_bit_operations_class.and (big_Uint64 b)
                                (semiring_bit_operations_class.push_bit shift 1 - 1)
                     in Dagger_Node f E dag (L - 1) pk);
            cs = map child [0..<m]
        in if list_all (\<lambda>c. c \<noteq> None) cs
           then Some (BigD (sha E (concat (map (\<lambda>c. case c of Some x \<Rightarrow> big_Bytes x | None \<Rightarrow> []) cs))))
           else None)"
  by pat_completeness auto
termination
  by (relation "measure (\<lambda>(f, E, dag, L, i). f)") auto

definition Dagger_Eval :: "nat \<Rightarrow> Env \<Rightarrow> int \<Rightarrow> Dagger \<Rightarrow> int option" where
  "Dagger_Eval f E n dag =
     (let pow = BigPow 2 26;
          dag = dag\<lparr>dag_xn := n div pow\<rparr>;
          part = (\<lambda>k. let b = BigD (sha E (big_Bytes (dag_hash dag) @ big_Bytes (dag_xn dag) @
                         big_Bytes n @ big_Bytes (int k)));
                      pk = semiring_bit_operations_class.and (big_Uint64 b) 0x1ffffff
                  in Dagger_Node f E dag 9 pk);
          cs = map part [0..<4]
      in if list_all (\<lambda>c. c \<noteq> None) cs
         then Some (BigD (sha E (concat (map (\<lambda>c. case c of Some x \<Rightarrow> big_Bytes x | None \<Rightarrow> []) cs))))
         else None)"

definition Dagger_Verify :: "nat \<Rightarrow> Env \<Rightarrow> int \<Rightarrow> int \<Rightarrow> int \<Rightarrow> Dagger \<Rightarrow> bool option res" where
  "Dagger_Verify f E hash diff nonce dag =
     rbind (big_Div (BigPow 2 256) diff) (\<lambda>obj.
     Inr (map_option (\<lambda>v. v < obj) (Dagger_Eval f E nonce (dag\<lparr>dag_hash := hash\<rparr>))))"

end
