(* ===== verification/Chain.thy ===== *)
theory Chain
  imports Block
begin

text \<open>
  \<open>ethchain/block_chain.go\<close>. The chain object is a record passed to and from its operations,
  beside the world. Walks along \<open>PrevHash\<close> links take fuel: they follow what the database holds.
  \<open>now\<close> is \<open>time.Now().Unix()\<close>.
\<close>

record BlockChain =
  genesisBlock :: Block
  TD :: int
  LastBlockNumber :: uint64
  CurrentBlock :: "Block option"
  LastBlockHash :: bytes

section \<open>Looking up and adding blocks\<close>

definition HasBlock :: "bytes \<Rightarrow> World \<Rightarrow> bool" where
  "HasBlock hash w \<longleftrightarrow> length (db_Get hash (db w)) \<noteq> 0"

definition GetBlock :: "bytes \<Rightarrow> World \<Rightarrow> (Block option \<times> World) res" where
  "GetBlock hash w =
     (let data = db_Get hash (db w) in
      if length data = 0 then Inr (None, w)
      else rbind (NewBlockFromBytes data w) (\<lambda>(b, w). Inr (Some b, w)))"

definition current :: "BlockChain \<Rightarrow> Block res" where
  "current bc = (case CurrentBlock bc of None \<Rightarrow> Inl NilDereference | Some b \<Rightarrow> Inr b)"

definition NewBlock :: "Env \<Rightarrow> 64 word \<Rightarrow> bytes \<Rightarrow> BlockChain \<Rightarrow> World \<Rightarrow> (Block \<times> World) res" where
  "NewBlock E now coinbase bc w =
     (case CurrentBlock bc of
        None \<Rightarrow> CreateBlock E now VNil ZeroHash256 coinbase (BigPow 2 32) [] [] w
      | Some cur \<Rightarrow>
          rbind (State_Root (hd_state cur) w) (\<lambda>root.
          rbind (CreateBlock E now root (LastBlockHash bc) coinbase (BigPow 2 32) [] [] w) (\<lambda>(block, w).
          case Number cur of
            None \<Rightarrow> Inl NilDereference
          | Some n \<Rightarrow>
              let mul = (if sint (hd_Time block) < sint (hd_Time cur + 42) then 1 else - 1 :: int);
                  diff = Difficulty cur div 1024 * mul + Difficulty cur;
                  base = (GasLimit cur * (1024 - 1) + GasUsed cur * 6 div 5) div 1024
              in Inr (block\<lparr>Difficulty := diff, Number := Some (n + Big1), GasLimit := BigMax 10000 base\<rparr>, w))))"

definition writeBlockInfo :: "Env \<Rightarrow> Block \<Rightarrow> BlockChain \<Rightarrow> World \<Rightarrow> (BlockChain \<times> World) res" where
  "writeBlockInfo E block bc w =
     (let bc = bc\<lparr>LastBlockNumber := LastBlockNumber bc + 1\<rparr> in
      rbind (Block_Hash E block w) (\<lambda>h.
      let bi = \<lparr>bi_Number = LastBlockNumber bc, bi_Hash = h, bi_Parent = hd_PrevHash block\<rparr>
      in Inr (bc, w\<lparr>db := db_Put (info_key h) (BlockInfo_RlpEncode bi) (db w)\<rparr>)))"

definition Chain_Add :: "Env \<Rightarrow> Block \<Rightarrow> BlockChain \<Rightarrow> World \<Rightarrow> (BlockChain \<times> World) res" where
  "Chain_Add E block bc w =
     rbind (writeBlockInfo E block bc w) (\<lambda>(bc, w).
     rbind (Block_Hash E block w) (\<lambda>h.
     rbind (Block_RlpEncode block w) (\<lambda>encodedBlock.
     Inr (bc\<lparr>CurrentBlock := Some block, LastBlockHash := h\<rparr>,
          w\<lparr>db := db_Put (lit ''LastBlock'') encodedBlock (db_Put h encodedBlock (db w))\<rparr>))))"

definition SetTotalDifficulty :: "int \<Rightarrow> BlockChain \<Rightarrow> World \<Rightarrow> BlockChain \<times> World" where
  "SetTotalDifficulty td bc w =
     (bc\<lparr>TD := td\<rparr>, w\<lparr>db := db_Put (lit ''LastKnownTotalDifficulty'') (big_Bytes td) (db w)\<rparr>)"

definition BlockInfoByHash :: "bytes \<Rightarrow> World \<Rightarrow> BlockInfo res" where
  "BlockInfoByHash hash w = BlockInfo_RlpDecode (db_Get (info_key hash) (db w))"

definition Chain_BlockInfo :: "Env \<Rightarrow> Block \<Rightarrow> World \<Rightarrow> BlockInfo res" where
  "Chain_BlockInfo E block w = rbind (Block_Hash E block w) (\<lambda>h. BlockInfoByHash h w)"

section \<open>Starting the chain\<close>

definition test_net_addrs :: "string list" where
  "test_net_addrs =
     [''8a40bfaa73256b60764c1bf40675a99083efb075'', ''e4157b34ea9615cfbde6b4fda419828124b70c78'',
      ''1e12515ce3e0f817a4ddef9ca55788a1d66bd2df'', ''6c386a4b26f73c802f34673f7248bb118f97424a'',
      ''cd2a3d9f938e13cd947ec05abc7fe734df8dd826'', ''2ef47100e0787b915105fd5e3f4ff6752079d5cb'',
      ''e6716f9544a56c530d868e4bfbacb172315bdead'', ''1a26338f0d905e295fccb71fa9ea849ffa12aaf4'']"

definition AddTestNetFunds :: "Env \<Rightarrow> Block \<Rightarrow> World \<Rightarrow> World res" where
  "AddTestNetFunds E block w =
     each (\<lambda>addr w.
       rbind (GetAccount (hd_state block) (FromHex (lit addr)) w) (\<lambda>(account, w).
       UpdateStateObject E (hd_state block)
         (SetAmount 1606938044258990275541962092341162602522202993782792835301376 account) w))
       test_net_addrs w"

definition Trie_sync_at :: "nat \<Rightarrow> World \<Rightarrow> World res" where
  "Trie_sync_at r w =
     rbind (deref r w) (\<lambda>s.
     let (t, d) = Trie_Sync (trie s, db w) in Inr (put_state r (s\<lparr>trie := t\<rparr>) (w\<lparr>db := d\<rparr>)))"

definition setLastBlock :: "Env \<Rightarrow> BlockChain \<Rightarrow> World \<Rightarrow> (BlockChain \<times> World) res" where
  "setLastBlock E bc w =
     (let data = db_Get (lit ''LastBlock'') (db w) in
      rbind
        (if length data \<noteq> 0 then
           rbind (NewBlockFromBytes data w) (\<lambda>(block, w).
           rbind (Block_Hash E block w) (\<lambda>h.
           case Number block of
             None \<Rightarrow> Inl NilDereference
           | Some n \<Rightarrow>
               Inr (bc\<lparr>CurrentBlock := Some block, LastBlockHash := h, LastBlockNumber := big_Uint64 n\<rparr>, w)))
         else
           rbind (AddTestNetFunds E (genesisBlock bc) w) (\<lambda>w.
           rbind (Trie_sync_at (hd_state (genesisBlock bc)) w) (\<lambda>w.
           Chain_Add E (genesisBlock bc) bc w)))
        (\<lambda>(bc, w). Inr (bc\<lparr>TD := BigD (LastKnownTD (db w))\<rparr>, w)))"

definition NewBlockChain :: "Env \<Rightarrow> World \<Rightarrow> (BlockChain \<times> World) res" where
  "NewBlockChain E w =
     rbind (NewBlockFromBytes (Encode (Genesis E)) w) (\<lambda>(g, w).
     setLastBlock E \<lparr>genesisBlock = g, TD = 0, LastBlockNumber = 0, CurrentBlock = None, LastBlockHash = []\<rparr> w)"

section \<open>Walking the chain\<close>

fun HasBlockWithPrevHash_loop :: "nat \<Rightarrow> bytes \<Rightarrow> Block option \<Rightarrow> World \<Rightarrow> (bool \<times> World) res" where
  "HasBlockWithPrevHash_loop 0 hash b w = Inl OutOfFuel"
| "HasBlockWithPrevHash_loop (Suc f) hash b w =
     (case b of
        None \<Rightarrow> Inr (False, w)
      | Some block \<Rightarrow>
          if hash = hd_PrevHash block then Inr (True, w)
          else rbind (GetBlock (hd_PrevHash block) w) (\<lambda>(b, w). HasBlockWithPrevHash_loop f hash b w))"

definition HasBlockWithPrevHash :: "nat \<Rightarrow> bytes \<Rightarrow> BlockChain \<Rightarrow> World \<Rightarrow> (bool \<times> World) res" where
  "HasBlockWithPrevHash f hash bc w = HasBlockWithPrevHash_loop f hash (CurrentBlock bc) w"

definition CalculateBlockTD :: "Block \<Rightarrow> int" where
  "CalculateBlockTD block = foldl (\<lambda>d u. d + Difficulty u) 0 (Uncles block) + Difficulty block"

text \<open>The difficulty of the blocks up to the common one, from the newest back.\<close>

fun incoming_difficulty :: "Env \<Rightarrow> bytes \<Rightarrow> Block list \<Rightarrow> int \<Rightarrow> World \<Rightarrow> int res" where
  "incoming_difficulty E common [] d w = Inr d"
| "incoming_difficulty E common (b # bs) d w =
     rbind (Block_Hash E b w) (\<lambda>h.
     if h = common then Inr d else incoming_difficulty E common bs (d + CalculateBlockTD b) w)"

fun current_difficulty :: "nat \<Rightarrow> Env \<Rightarrow> bytes \<Rightarrow> Block option \<Rightarrow> int \<Rightarrow> World \<Rightarrow> (int \<times> World) res" where
  "current_difficulty 0 E common b d w = Inl OutOfFuel"
| "current_difficulty (Suc f) E common b d w =
     (case b of
        None \<Rightarrow> Inr (d, w)
      | Some block \<Rightarrow>
          rbind (Block_Hash E block w) (\<lambda>h.
          if h = common then Inr (d, w)
          else
            rbind (GetBlock (hd_PrevHash block) w) (\<lambda>(other, w).
            if other = None then Inr (d, w)
            else
              rbind (GetBlock (hd_PrevHash block) w) (\<lambda>(b, w).
              current_difficulty f E common b (d + CalculateBlockTD block) w))))"

text \<open>
  \<open>ResetTillBlockHash\<close>. The loop at its end starts at \<open>var block *Block\<close>, a nil pointer, so its body
  never runs: of the blocks that are cut off only the last one is deleted.
\<close>

definition ResetTillBlockHash :: "Env \<Rightarrow> bytes \<Rightarrow> BlockChain \<Rightarrow> World \<Rightarrow> (BlockChain \<times> World) res" where
  "ResetTillBlockHash E hash bc w =
     rbind (current bc) (\<lambda>lastBlock.
     rbind (Block_Hash E (genesisBlock bc) w) (\<lambda>gh.
     rbind
       (if hash = gh then
          Inr (bc\<lparr>CurrentBlock := Some (genesisBlock bc), LastBlockHash := gh, LastBlockNumber := 1\<rparr>, w)
        else
          rbind (GetBlock hash w) (\<lambda>(b, w).
          case b of
            None \<Rightarrow> Inl NilDereference
          | Some returnTo \<Rightarrow>
              rbind (Block_Hash E returnTo w) (\<lambda>h.
              case Number returnTo of
                None \<Rightarrow> Inl NilDereference
              | Some n \<Rightarrow>
                  Inr (bc\<lparr>CurrentBlock := Some returnTo, LastBlockHash := h, LastBlockNumber := big_Uint64 n\<rparr>, w))))
       (\<lambda>(bc, w).
     rbind (Block_Hash E lastBlock w) (\<lambda>lh.
     Inr (bc, w\<lparr>db := db_Delete lh (db w)\<rparr>)))))"

text \<open>The answer is whether our chain is kept.\<close>

definition FindCanonicalChain ::
    "nat \<Rightarrow> Env \<Rightarrow> Block list \<Rightarrow> bytes \<Rightarrow> BlockChain \<Rightarrow> World \<Rightarrow> (bool \<times> BlockChain \<times> World) res" where
  "FindCanonicalChain f E blocks common bc w =
     rbind (incoming_difficulty E common blocks 0 w) (\<lambda>chainDifficulty.
     rbind (current_difficulty f E common (CurrentBlock bc) 0 w) (\<lambda>(curChainDifficulty, w).
     if chainDifficulty > curChainDifficulty then
       rbind (ResetTillBlockHash E common bc w) (\<lambda>(bc, w). Inr (False, bc, w))
     else Inr (True, bc, w)))"

fun decode_blocks :: "gval list \<Rightarrow> World \<Rightarrow> Block list \<times> World" where
  "decode_blocks [] w = ([], w)"
| "decode_blocks (v # vs) w =
     (let (b, w) = NewBlockFromRlpValue v w; (bs, w) = decode_blocks vs w in (b # bs, w))"

text \<open>Every element of the message but the last, which is the common block's hash.\<close>

definition FindCanonicalChainFromMsg ::
    "nat \<Rightarrow> Env \<Rightarrow> gval \<Rightarrow> bytes \<Rightarrow> BlockChain \<Rightarrow> World \<Rightarrow> (bool \<times> BlockChain \<times> World) res" where
  "FindCanonicalChainFromMsg f E data common bc w =
     (let (blocks, w) = decode_blocks (map (\<lambda>i. Get data (int i)) [0..<Len data - 1]) w
      in FindCanonicalChain f E blocks common bc w)"

text \<open>\<open>bc.GetBlock(h).PrevHash\<close>: a missing block is a nil pointer.\<close>

definition prev_hash_of :: "bytes \<Rightarrow> World \<Rightarrow> (bytes \<times> World) res" where
  "prev_hash_of h w =
     rbind (GetBlock h w) (\<lambda>(b, w).
     case b of None \<Rightarrow> Inl NilDereference | Some block \<Rightarrow> Inr (hd_PrevHash block, w))"

fun skip_back :: "nat \<Rightarrow> uint64 \<Rightarrow> uint64 \<Rightarrow> bytes \<Rightarrow> World \<Rightarrow> (uint64 \<times> bytes \<times> World) res" where
  "skip_back 0 num startNumber h w = Inl OutOfFuel"
| "skip_back (Suc f) num startNumber h w =
     (if num > startNumber then
        rbind (prev_hash_of h w) (\<lambda>(h, w). skip_back f (num - 1) startNumber h w)
      else Inr (num, h, w))"

fun collect_chain ::
    "nat \<Rightarrow> uint64 \<Rightarrow> uint64 \<Rightarrow> uint64 \<Rightarrow> uint64 \<Rightarrow> bytes \<Rightarrow> bytes \<Rightarrow> gval list \<Rightarrow> World \<Rightarrow> (gval list \<times> World) res" where
  "collect_chain 0 i count num parentNumber h hash chain w = Inl OutOfFuel"
| "collect_chain (Suc f) i count num parentNumber h hash chain w =
     (if h \<noteq> hash \<and> num \<ge> parentNumber \<and> i < count then
        rbind (GetBlock h w) (\<lambda>(b, w).
        case b of
          None \<Rightarrow> Inl NilDereference
        | Some block \<Rightarrow>
            rbind (Block_Value block w) (\<lambda>v.
            collect_chain f (i + 1) count (num - 1) parentNumber (hd_PrevHash block) hash (chain @ [v]) w))
      else Inr (chain, w))"

text \<open>The minimum goes through \<open>float64\<close> in the source, which is exact below 2^53.\<close>

definition GetChainFromHash :: "nat \<Rightarrow> Env \<Rightarrow> bytes \<Rightarrow> uint64 \<Rightarrow> BlockChain \<Rightarrow> World \<Rightarrow> (gval list \<times> World) res" where
  "GetChainFromHash f E hash max' bc w =
     rbind (current bc) (\<lambda>cur.
     rbind (Block_Hash E cur w) (\<lambda>currentHash.
     rbind (GetBlock hash w) (\<lambda>(parent, w).
     case (Number cur, parent) of
       (Some n, Some p) \<Rightarrow>
         (case Number p of
            None \<Rightarrow> Inl NilDereference
          | Some pn \<Rightarrow>
              let lastNumber = big_Uint64 n; parentNumber = big_Uint64 pn;
                  count = min (lastNumber - parentNumber) max';
                  startNumber = parentNumber + count
              in rbind (skip_back f lastNumber startNumber currentHash w) (\<lambda>(num, h, w).
                 collect_chain f 0 count num parentNumber h hash [] w))
     | _ \<Rightarrow> Inl NilDereference)))"

fun GetChain_loop :: "nat \<Rightarrow> Env \<Rightarrow> bytes \<Rightarrow> Block option \<Rightarrow> Block list \<Rightarrow> World \<Rightarrow> (Block list \<times> World) res" where
  "GetChain_loop 0 E genHash b blocks w = Inr (blocks, w)"
| "GetChain_loop (Suc n) E genHash b blocks w =
     (case b of
        None \<Rightarrow> Inr (blocks, w)
      | Some block \<Rightarrow>
          let blocks = block # blocks in
          rbind (Block_Hash E block w) (\<lambda>h.
          if genHash = h then Inr (blocks, w)
          else rbind (GetBlock (hd_PrevHash block) w) (\<lambda>(b, w). GetChain_loop n E genHash b blocks w)))"

definition GetChain :: "Env \<Rightarrow> bytes \<Rightarrow> int \<Rightarrow> BlockChain \<Rightarrow> World \<Rightarrow> (Block list \<times> World) res" where
  "GetChain E hash amount bc w =
     rbind (Block_Hash E (genesisBlock bc) w) (\<lambda>genHash.
     rbind (GetBlock hash w) (\<lambda>(b, w).
     GetChain_loop (nat amount) E genHash b [] w))"

end
