(* ===== verification/StateManager.thy ===== *)
theory StateManager
  imports Chain
begin

text \<open>
  \<open>ethchain/state_manager.go\<close>: applying transactions, running scripts, validating and
  processing blocks. The manager holds the chain, the transient and the mining state and, for
  what it calls on them through \<open>EthManager\<close>, the transaction pool; messages to the reactor and
  to the peers are events.
\<close>

record StateManager =
  bc :: BlockChain
  transState :: nat
  miningState :: nat
  txpool :: TxPool

datatype sm_event =
    PostObject bytes StateObject
  | PostStorage bytes bytes int
  | PostNewBlock Block
  | BroadcastBlock gval
  | TxEvent event

text \<open>The environment of a script run: the operations' environment, the answer to a \<open>Peekn\<close> behind a
  short stack, and the fuel of the interpreter's loop.\<close>

record ProcEnv =
  penv :: Env
  pstale :: "Run \<Rightarrow> (int \<times> int) option"
  pfuel :: nat

definition CurrentState :: "StateManager \<Rightarrow> nat res" where
  "CurrentState sm = rbind (current (bc sm)) (\<lambda>b. Inr (hd_state b))"

definition NewStateManager :: "Env \<Rightarrow> BlockChain \<Rightarrow> TxPool \<Rightarrow> World \<Rightarrow> (StateManager \<times> World) res" where
  "NewStateManager E chain p w =
     rbind (current chain) (\<lambda>b.
     rbind (State_Copy (walk E) (hd_state b) w) (\<lambda>(tr, w).
     rbind (State_Copy (walk E) (hd_state b) w) (\<lambda>(mi, w).
     Inr (\<lparr>bc = chain, transState = tr, miningState = mi, txpool = p\<rparr>, w))))"

definition NewMiningState :: "Env \<Rightarrow> StateManager \<Rightarrow> World \<Rightarrow> (StateManager \<times> World) res" where
  "NewMiningState E sm w =
     rbind (CurrentState sm) (\<lambda>r.
     rbind (State_Copy (walk E) r w) (\<lambda>(mi, w). Inr (sm\<lparr>miningState := mi\<rparr>, w)))"

section \<open>Transactions\<close>

definition MakeStateObject :: "Env \<Rightarrow> nat \<Rightarrow> Transaction \<Rightarrow> World \<Rightarrow> (StateObject option \<times> World) res" where
  "MakeStateObject E r tx w =
     rbind (MakeContract E tx r w) (\<lambda>(contract, w).
     case contract of
       None \<Rightarrow> Inr (None, w)
     | Some c \<Rightarrow>
         rbind (CreationAddress E tx) (\<lambda>addr.
         rbind (deref r w) (\<lambda>s.
         Inr (Some c, put_state r (s\<lparr>states :=
           (case obj_state c of None \<Rightarrow> AList.delete addr (states s) | Some r' \<Rightarrow> AList.update addr r' (states s))\<rparr>) w))))"

text \<open>
  What \<open>EvalScript\<close> returns: the bytes, the gas, the error, and the object, which it mutates. The
  gas is nil when the sender cannot pay for it.
\<close>

record EvalResult =
  ev_ret :: bytes
  ev_gas :: "int option"
  ev_err :: "chain_err option"
  ev_object :: StateObject

definition EvalScript ::
    "ProcEnv \<Rightarrow> nat \<Rightarrow> bytes \<Rightarrow> StateObject \<Rightarrow> Transaction \<Rightarrow> Block \<Rightarrow> World \<Rightarrow> (EvalResult \<times> World) res" where
  "EvalScript P r scr obj tx block w =
     (let E = penv P in
      rbind (Sender E tx) (\<lambda>from.
      rbind (GetAccount r from w) (\<lambda>(account, w).
      case ConvertGas (tx_Gas tx) (GasPrice tx) account of
        None \<Rightarrow> Inr (\<lparr>ev_ret = [], ev_gas = None, ev_err = Some (PlainErr ''insufficient amount''), ev_object = obj\<rparr>, w)
      | Some account \<Rightarrow>
          let c = NewClosure (CalleeObj account) obj scr (behind E scr) r (tx_Gas tx) (GasPrice tx) in
          rbind (Block_BlockInfo E block w) (\<lambda>bi.
          let C = \<lparr>env = E, vm_state = r,
                vars = \<lparr>Origin = address account, BlockNumber = bi_Number bi, PrevHash = hd_PrevHash block,
                        Coinbase = hd_Coinbase block, Time = sint (hd_Time block), Diff = Difficulty block,
                        Value = tx_Value tx\<rparr>,
                hook = None, stale = pstale P\<rparr>
          in (case Call (pfuel P) C (Data tx) c w of
                Done w c ret err \<Rightarrow>
                  let account = (case callee c of CalleeObj a \<Rightarrow> a | _ \<Rightarrow> account) in
                  rbind (UpdateStateObject E r account w) (\<lambda>w.
                  rbind (UpdateStateObject E r (object c) w) (\<lambda>w.
                  Inr (\<lparr>ev_ret = ret, ev_gas = Some (UsedGas c),
                        ev_err = (if err = None then None else Some (PlainErr ''script'')),
                        ev_object = object c\<rparr>, w)))
              | _ \<Rightarrow> Inl OutOfFuel)))))"

text \<open>\<open>totalGasUsed.Add(totalGasUsed, gas)\<close> with a nil \<open>gas\<close> panics.\<close>

definition add_gas :: "int \<Rightarrow> int option \<Rightarrow> int res" where
  "add_gas tot gas = (case gas of None \<Rightarrow> Inl NilDereference | Some g \<Rightarrow> Inr (tot + g))"

definition ApplyTransaction ::
    "ProcEnv \<Rightarrow> nat \<Rightarrow> Block \<Rightarrow> Transaction \<Rightarrow> World \<Rightarrow> (int \<times> chain_err option \<times> World \<times> sm_event list) res" where
  "ApplyTransaction P r block tx w =
     (let E = penv P in
      rbind (ProcessTransaction E tx r w) (\<lambda>(gas, err, w, evs).
      let evs = map TxEvent evs in
      if CreatesContract tx then
        (if err = None then
           rbind (MakeStateObject E r tx w) (\<lambda>(contract, w).
           case contract of
             None \<Rightarrow> Inr (gas, Some (PlainErr ''[STATE] Unable to create contract''), w, evs)
           | Some contract \<Rightarrow>
               rbind (EvalScript P r (initScript contract) contract tx block w) (\<lambda>(res, w).
               rbind (add_gas gas (ev_gas res)) (\<lambda>tot.
               if ev_err res \<noteq> None then
                 Inr (tot, Some (PlainErr ''[STATE] Error during init script run''), w, evs)
               else
                 rbind (UpdateStateObject E r ((ev_object res)\<lparr>script := ev_ret res\<rparr>) w) (\<lambda>w.
                 Inr (tot, None, w, evs)))))
         else
           rbind (Sender E tx) (\<lambda>from. Inr (gas, Some (PlainErr ''[STATE] contract creation tx''), w, evs)))
      else
        rbind (GetStateObject r (Recipient tx) w) (\<lambda>(obj, w).
        case obj of
          Some stateObject \<Rightarrow>
            if err = None \<and> length (script stateObject) > 0 then
              rbind (EvalScript P r (script stateObject) stateObject tx block w) (\<lambda>(res, w).
              rbind (add_gas gas (ev_gas res)) (\<lambda>tot. Inr (tot, ev_err res, w, evs)))
            else Inr (gas, err, w, evs)
        | None \<Rightarrow> Inr (gas, err, w, evs))))"

text \<open>A receipt asserts that the root is a byte slice: \<open>state.Root().([]byte)\<close>.\<close>

definition root_bytes :: "gval \<Rightarrow> bytes res" where
  "root_bytes v = (case v of VBytes b \<Rightarrow> Inr (CopyBytes b) | _ \<Rightarrow> Inl (Panic ''interface conversion''))"

fun ApplyTransactions_loop ::
    "ProcEnv \<Rightarrow> nat \<Rightarrow> Block \<Rightarrow> Transaction list \<Rightarrow> int \<Rightarrow> Receipt list \<Rightarrow> Transaction list \<Rightarrow> World \<Rightarrow> sm_event list \<Rightarrow>
     (Receipt list \<times> Transaction list \<times> World \<times> sm_event list) res" where
  "ApplyTransactions_loop P r block [] tot rs valid w evs = Inr (rs, valid, w, evs)"
| "ApplyTransactions_loop P r block (tx # txs) tot rs valid w evs =
     rbind (ApplyTransaction P r block tx w) (\<lambda>(usedGas, err, w, ev).
     if (case err of Some e \<Rightarrow> IsNonceErr e | None \<Rightarrow> False)
     then ApplyTransactions_loop P r block txs tot rs valid w (evs @ ev)
     else
       let tot = tot + usedGas in
       rbind (State_Root r w) (\<lambda>root.
       rbind (root_bytes root) (\<lambda>b.
       ApplyTransactions_loop P r block txs tot
         (rs @ [\<lparr>rc_Tx = tx, PostState = b, CumulativeGasUsed = tot\<rparr>]) (valid @ [tx]) w (evs @ ev))))"

definition ApplyTransactions ::
    "ProcEnv \<Rightarrow> nat \<Rightarrow> Block \<Rightarrow> Transaction list \<Rightarrow> World \<Rightarrow>
     (Receipt list \<times> Transaction list \<times> World \<times> sm_event list) res" where
  "ApplyTransactions P r block txs w = ApplyTransactions_loop P r block txs 0 [] [] w []"

section \<open>Blocks\<close>

definition CalculateTD :: "Block \<Rightarrow> BlockChain \<Rightarrow> World \<Rightarrow> bool \<times> BlockChain \<times> World" where
  "CalculateTD block chain w =
     (let uncleDiff = foldl (\<lambda>d u. d + Difficulty u) 0 (Uncles block);
          td = TD chain + uncleDiff + Difficulty block
      in if td > TD chain then let (chain, w) = SetTotalDifficulty td chain w in (True, chain, w)
         else (False, chain, w))"

text \<open>\<open>int64(15*time.Minute)\<close>: a \<open>time.Duration\<close> counts nanoseconds.\<close>

definition fifteen_minutes :: int where
  "fifteen_minutes = 15 * 60 * 1000000000"

text \<open>The loop over the uncles; without a previous block the first uncle dereferences nil.\<close>

definition uncle_mismatch :: "Header list \<Rightarrow> Block option \<Rightarrow> bool res" where
  "uncle_mismatch us prev =
     (if us = [] then Inr False
      else case prev of
        None \<Rightarrow> Inl NilDereference
      | Some p \<Rightarrow> Inr (list_ex (\<lambda>u. hd_PrevHash u \<noteq> hd_PrevHash p) us))"

definition ValidateBlock :: "Env \<Rightarrow> Block \<Rightarrow> BlockChain \<Rightarrow> World \<Rightarrow> (chain_err option \<times> World) res" where
  "ValidateBlock E block chain w =
     rbind (GetBlock (hd_PrevHash block) w) (\<lambda>(previousBlock, w).
     rbind
       (uncle_mismatch (Uncles block) previousBlock) (\<lambda>mismatch.
     if mismatch then Inr (Some (ValidationErr ''Mismatch uncle's previous hash''), w)
     else
       rbind (current chain) (\<lambda>cur.
       let diff = sint (hd_Time block - hd_Time cur) in
       if diff < 0 then Inr (Some (ValidationErr ''Block timestamp less then prev block''), w)
       else if diff > fifteen_minutes then
         Inr (Some (ValidationErr ''Block is too far in the future of last block''), w)
       else
         rbind (HashNoNonce E block w) (\<lambda>h.
         rbind (EasyPow_Verify E h (Difficulty block) (hd_Nonce block)) (\<lambda>ok.
         Inr (if ok then None else Some (ValidationErr ''Block's nonce is invalid''), w))))))"

definition CalculateBlockReward :: "Block \<Rightarrow> nat \<Rightarrow> int" where
  "CalculateBlockReward block uncleLength =
     (let base = foldl (\<lambda>b _. b + UncleInclusionReward) 0 [0..<uncleLength];
          lastCumulGasUsed = 0;
          base = foldl (\<lambda>b r. b + (CumulativeGasUsed r - lastCumulGasUsed + GasPrice (rc_Tx r))) base (receipts block)
      in base + BlockReward)"

definition CalculateUncleReward :: "'a Header_scheme \<Rightarrow> int" where
  "CalculateUncleReward block = UncleReward"

definition reward :: "Env \<Rightarrow> nat \<Rightarrow> bytes \<Rightarrow> int \<Rightarrow> World \<Rightarrow> World res" where
  "reward E r addr amount w =
     rbind (GetAccount r addr w) (\<lambda>(account, w). UpdateStateObject E r (AddAmount amount account) w)"

definition AccumelateRewards :: "Env \<Rightarrow> nat \<Rightarrow> Block \<Rightarrow> World \<Rightarrow> World res" where
  "AccumelateRewards E r block w =
     rbind (reward E r (hd_Coinbase block) (CalculateBlockReward block (length (Uncles block))) w) (\<lambda>w.
     each (\<lambda>uncle. reward E r (hd_Coinbase uncle) (CalculateUncleReward uncle)) (Uncles block) w)"

definition notifyChanges :: "nat \<Rightarrow> World \<Rightarrow> sm_event list res" where
  "notifyChanges r w =
     rbind (deref r w) (\<lambda>s.
     Inr (map (\<lambda>(addr, obj). PostObject addr obj) (objectChanges (manifest s)) @
          concat (map (\<lambda>(st, objs). map (\<lambda>(addr, v). PostStorage st addr v) objs) (storageChanges (manifest s)))))"

text \<open>
  The body of \<open>ProcessBlock\<close> up to its deferred \<open>state.Reset()\<close>. \<open>r\<close> is the state of the parent,
  on which the block is run.
\<close>

definition ProcessBlock_body ::
    "ProcEnv \<Rightarrow> nat \<Rightarrow> Block \<Rightarrow> Block \<Rightarrow> bool \<Rightarrow> StateManager \<Rightarrow> World \<Rightarrow>
     (chain_err option \<times> StateManager \<times> World \<times> sm_event list) res" where
  "ProcessBlock_body P r parent block dontReact sm w =
     (let E = penv P in
      if \<not> HasBlock (hd_PrevHash block) w \<and> CurrentBlock (bc sm) \<noteq> None
      then Inr (Some (ParentErr (hd_PrevHash block)), sm, w, [])
      else
        rbind (ApplyTransactions P r parent (transactions block) w) (\<lambda>(rs, valid, w, evs).
        rbind (ValidateBlock E block (bc sm) w) (\<lambda>(err, w).
        if err \<noteq> None then Inr (err, sm, w, evs)
        else
          rbind (AccumelateRewards E r block w) (\<lambda>w.
          rbind (deref (hd_state block) w) (\<lambda>bs.
          rbind (deref r w) (\<lambda>s.
          if \<not> State_Cmp bs s then Inr (Some (PlainErr ''Invalid merkle root''), sm, w, evs)
          else
            let (ok, chain, w) = CalculateTD block (bc sm) w; sm = sm\<lparr>bc := chain\<rparr> in
            if \<not> ok then Inr (None, sm, w, evs)
            else
              rbind (State_Sync (walk E) r w) (\<lambda>w.
              rbind (Chain_Add E block (bc sm) w) (\<lambda>(chain, w).
              rbind (notifyChanges r w) (\<lambda>changes.
              rbind (deref r w) (\<lambda>s.
              let w = (if dontReact then w else put_state r (s\<lparr>manifest := Manifest_Reset (manifest s)\<rparr>) w);
                  posts = (if dontReact then [] else [PostNewBlock block]) in
              rbind (Block_Value block w) (\<lambda>v.
              rbind (RemoveInvalid E (Some (hd_state block)) r (txpool sm, w)) (\<lambda>(p, w).
              Inr (None, sm\<lparr>bc := chain, txpool := p\<rparr>, w, evs @ changes @ posts @ [BroadcastBlock v])))))))))))))"

definition ProcessBlock ::
    "ProcEnv \<Rightarrow> nat \<Rightarrow> Block \<Rightarrow> Block \<Rightarrow> bool \<Rightarrow> StateManager \<Rightarrow> World \<Rightarrow>
     (chain_err option \<times> StateManager \<times> World \<times> sm_event list) res" where
  "ProcessBlock P r parent block dontReact sm w =
     rbind (Block_Hash (penv P) block w) (\<lambda>hash.
     if HasBlock hash w then Inr (None, sm, w, [])
     else
       rbind (ProcessBlock_body P r parent block dontReact sm w) (\<lambda>(err, sm, w, evs).
       rbind (State_Reset (walk (penv P)) r w) (\<lambda>w. Inr (err, sm, w, evs))))"

definition Process ::
    "ProcEnv \<Rightarrow> Block \<Rightarrow> bool \<Rightarrow> StateManager \<Rightarrow> World \<Rightarrow>
     (chain_err option \<times> StateManager \<times> World \<times> sm_event list) res" where
  "Process P block dontReact sm w =
     (if \<not> HasBlock (hd_PrevHash block) w then Inr (Some (ParentErr (hd_PrevHash block)), sm, w, [])
      else
        rbind (GetBlock (hd_PrevHash block) w) (\<lambda>(parent, w).
        case parent of
          None \<Rightarrow> Inl NilDereference
        | Some parent \<Rightarrow> ProcessBlock P (hd_state parent) parent block dontReact sm w))"

end
