(* ===== verification/Tx_Correct.thy ===== *)
theory Tx_Correct
  imports Transactions
begin

text \<open>
  Transactions on the wire (round trip, and the one-byte payload it loses) and the pool as a
  state machine: no transaction is ever in it twice, and a walk of \<open>RemoveInvalid\<close> removes at
  most one element.
\<close>

section \<open>Transactions on the wire\<close>

text \<open>A byte string that \<open>Bytes\<close> reads back: anything but a single byte up to 0x7f.\<close>

definition readable :: "bytes \<Rightarrow> bool" where
  "readable b \<longleftrightarrow> \<not> (length b = 1 \<and> unat (b ! 0) \<le> 0x7f)"

definition tx_ok :: "Transaction \<Rightarrow> bool" where
  "tx_ok tx \<longleftrightarrow>
     fits (raw (tx_RlpData tx)) \<and> uint (tx_Nonce tx) < 2 ^ 16 \<and>
     0 \<le> tx_Value tx \<and> 0 \<le> tx_Gas tx \<and> 0 \<le> GasPrice tx \<and>
     readable (Recipient tx) \<and> readable (Data tx) \<and> readable (tx_r tx) \<and> readable (tx_s tx)"

lemma big_of_unraw: "0 \<le> x \<Longrightarrow> big_of (unraw (RStr (big_Bytes x))) = x"
  by (simp add: big_of_def BigInt_unraw del: unraw.simps)

lemma Bytes_unraw_readable: "readable b \<Longrightarrow> Bytes (unraw (RStr b)) = b"
  unfolding readable_def by auto

lemma Bytes_unraw_Nil: "Bytes (unraw (RStr [])) = []"
  by simp

lemma Uint_unraw_nonce:
  assumes "uint (n :: uint64) < 2 ^ 16"
  shows "Uint (unraw (RStr (big_Bytes (sint n)))) = n"
proof -
  have "Uint (unraw (raw (VUint64 n))) = n" using assms by (subst Uint_low_iff) simp_all
  then show ?thesis by simp
qed

lemma decode_fields:
  "tx_RlpValueDecode (unraw (raw (tx_RlpData tx))) t =
     (let d = \<lambda>b. unraw (RStr b);
          tx' = t\<lparr>tx_Nonce := Uint (d (big_Bytes (sint (tx_Nonce tx)))), GasPrice := big_of (d (big_Bytes (GasPrice tx))),
            tx_Gas := big_of (d (big_Bytes (tx_Gas tx))), Recipient := Bytes (d (Recipient tx)),
            tx_Value := big_of (d (big_Bytes (tx_Value tx))), Data := Bytes (d (Data tx)),
            tx_v := ucast (Uint (d (big_Bytes (uint (tx_v tx))))), tx_r := Bytes (d (tx_r tx)), tx_s := Bytes (d (tx_s tx))\<rparr>
      in if length (Recipient tx') = 0 then tx'\<lparr>contractCreation := True\<rparr> else tx')"
  unfolding tx_RlpValueDecode_def tx_RlpData_def tx_fields_def Let_def
  by (simp del: unraw.simps(1) add: nth_Cons')

lemma tx_decode_value:
  assumes "tx_ok tx"
  shows "tx_RlpValueDecode (unraw (raw (tx_RlpData tx))) ZeroTransaction = tx\<lparr>contractCreation := (Recipient tx = [])\<rparr>"
  unfolding decode_fields Let_def using assms
  by (cases tx)
    (simp add: tx_ok_def big_of_unraw Bytes_unraw_readable Uint_unraw_nonce ucast_Uint_byte ZeroTransaction_def
        Bytes_unraw_Nil
      del: unraw.simps)

lemma tx_decode_encode:
  assumes "tx_ok tx"
  shows "NewTransactionFromBytes (tx_RlpEncode tx) = Inr (tx\<lparr>contractCreation := (Recipient tx = [])\<rparr>)"
proof -
  have v: "tx_RlpEncode tx = Encode (tx_RlpData tx)"
    by (simp add: tx_RlpEncode_def tx_RlpValue_def Value_Encode_def tx_RlpData_def)
  have "NewValueFromBytes (Encode (tx_RlpData tx)) = Inr (unraw (raw (tx_RlpData tx)))"
    using assms by (intro NewValueFromBytes_Encode) (simp add: tx_ok_def)
  then show ?thesis
    unfolding NewTransactionFromBytes_def tx_RlpDecode_def v by (simp add: tx_decode_value [OF assms])
qed


definition demo_tx :: Transaction where
  "demo_tx = ZeroTransaction\<lparr>tx_Nonce := 3, Recipient := [1, 2, 3], tx_Value := 1000, tx_Gas := 500, GasPrice := 10,
     Data := [1, 2], tx_v := 27, tx_r := [9, 9], tx_s := [8, 8]\<rparr>"


text \<open>A payload of one byte up to 0x7f is lost on the way: the decoder delivers such a byte as a
  number, and \<open>Bytes\<close> of a number is nil. The hash that was signed is over the payload, so the
  receiver checks the signature against another transaction.\<close>

theorem tx_one_byte_data_lost:
  assumes "fits (raw (tx_RlpData tx))" "Data tx = [b]" "unat b \<le> 0x7f"
  shows "\<exists>tx'. NewTransactionFromBytes (tx_RlpEncode tx) = Inr tx' \<and> Data tx' = []"
proof -
  have v: "tx_RlpEncode tx = Encode (tx_RlpData tx)"
    by (simp add: tx_RlpEncode_def tx_RlpValue_def Value_Encode_def tx_RlpData_def)
  have "NewTransactionFromBytes (tx_RlpEncode tx) =
      Inr (tx_RlpValueDecode (unraw (raw (tx_RlpData tx))) ZeroTransaction)"
    unfolding NewTransactionFromBytes_def tx_RlpDecode_def v by (simp only: NewValueFromBytes_Encode [OF assms(1)] rbind_simps)
  then show ?thesis using assms(2,3)
    by (simp add: decode_fields Let_def del: raw.simps)
qed

theorem tx_one_byte_data_lost_witness:
  "\<exists>tx'. NewTransactionFromBytes (tx_RlpEncode (demo_tx\<lparr>Data := [7]\<rparr>)) = Inr tx' \<and> Data tx' = []"
proof (rule tx_one_byte_data_lost [where b = 7])
  show "fits (raw (tx_RlpData (demo_tx\<lparr>Data := [7]\<rparr>)))"
    by (simp add: demo_tx_def ZeroTransaction_def tx_RlpData_def tx_fields_def len_ok_def
        Encode_bytes_def big_Bytes_def nat_be_two nat_be_byte Let_def)
qed (simp_all add: demo_tx_def)

section \<open>The pool as a state machine\<close>

text \<open>A transaction is queued; the handler takes one from the queue; the block processor prunes the
  pool; the miner empties it.\<close>

inductive pool_step :: "Env \<Rightarrow> TxPool \<times> World \<Rightarrow> TxPool \<times> World \<Rightarrow> bool" for E where
  queue: "QueueTransaction tx p = Some p' \<Longrightarrow> pool_step E (p, w) (p', w)"
| handle: "queueHandler E cur (p, w) = Some (Inr (p', w', ev)) \<Longrightarrow> pool_step E (p, w) (p', w')"
| remove: "RemoveInvalid E cur r (p, w) = Inr (p', w') \<Longrightarrow> pool_step E (p, w) (p', w')"
| flush: "Flush p = (txs, p') \<Longrightarrow> pool_step E (p, w) (p', w)"
| others: "pool_step E (p, w) (p, w')"

inductive_cases pool_stepE: "pool_step E s s'"

lemma RemoveInvalid_walk_removes:
  "RemoveInvalid_walk E cur r txs w = Inr (txs', w') \<Longrightarrow>
   txs' = txs \<or> (\<exists>i < length txs. txs' = take i txs @ drop (Suc i) txs)"
proof (induction txs arbitrary: w txs')
  case (Cons tx txs)
  from Cons.prems obtain bad :: bool and w2 :: World where
    "(if bad then Inr (txs, w2)
      else rbind (RemoveInvalid_walk E cur r txs w2) (\<lambda>x. Inr (tx # fst x, snd x))) = Inr (txs', w')"
    unfolding RemoveInvalid_walk.simps rbind_Inr_iff case_prod_unfold by (elim exE conjE) (rule that, assumption)
  then consider "txs' = txs" | rest where "RemoveInvalid_walk E cur r txs w2 = Inr (rest, w')" "txs' = tx # rest"
    by (auto simp: rbind_Inr_iff split: if_splits)
  then show ?case
  proof cases
    case 1
    then show ?thesis by (intro disjI2 exI [of _ 0]) simp
  next
    case 2
    from Cons.IH [OF 2(1)] show ?thesis
    proof (elim disjE exE conjE)
      fix i assume "i < length txs" "rest = take i txs @ drop (Suc i) txs"
      then show ?thesis by (intro disjI2 exI [of _ "Suc i"]) (simp add: 2(2))
    qed (simp add: 2(2))
  qed
qed simp

text \<open>One call of \<open>RemoveInvalid\<close> removes at most one transaction, however many have become
  invalid: the walk loses its place in the list when it removes the element it stands on.\<close>

theorem RemoveInvalid_at_most_one:
  "RemoveInvalid E cur r (p, w) = Inr (p', w') \<Longrightarrow>
   pool p' = pool p \<or> (\<exists>i < length (pool p). pool p' = take i (pool p) @ drop (Suc i) (pool p))"
  by (auto simp: RemoveInvalid_def rbind_Inr_iff dest!: RemoveInvalid_walk_removes)

theorem RemoveInvalid_at_most_one_witness:
  "\<exists>p' w'. RemoveInvalid demo_env None 0 (\<lparr>pool = [demo_tx, demo_tx], queueChan = []\<rparr>, demo_world) = Inr (p', w') \<and>
     length (pool p') \<ge> 1"
proof -
  have "case RemoveInvalid demo_env None 0 (\<lparr>pool = [demo_tx, demo_tx], queueChan = []\<rparr>, demo_world) of
      Inr s \<Rightarrow> True | Inl e \<Rightarrow> False"
    by code_simp
  then obtain p' w' where r:
    "RemoveInvalid demo_env None 0 (\<lparr>pool = [demo_tx, demo_tx], queueChan = []\<rparr>, demo_world) = Inr (p', w')"
    by (auto split: sum.splits)
  from RemoveInvalid_at_most_one [OF r] have "length (pool p') \<ge> 1" by auto
  with r show ?thesis by blast
qed

definition pool_inv :: "Env \<Rightarrow> TxPool \<times> World \<Rightarrow> bool" where
  "pool_inv E s \<longleftrightarrow> distinct (map (tx_Hash E) (pool (fst s))) \<and> length (queueChan (fst s)) \<le> txPoolQueueSize"

lemma pool_inv_step: "pool_step E s s' \<Longrightarrow> pool_inv E s \<Longrightarrow> pool_inv E s'"
proof (induction rule: pool_step.induct)
  case (queue tx p p' w)
  then show ?case by (auto simp: pool_inv_def QueueTransaction_def split: if_splits)
next
  case (handle cur p w p' w' ev)
  then obtain tx rest where q: "queueChan p = tx # rest"
    "handleQueued E cur tx (p\<lparr>queueChan := rest\<rparr>, w) = Inr (p', w', ev)"
    by (auto simp: queueHandler_def split: list.splits)
  have inv: "distinct (map (tx_Hash E) (pool p))" "length rest \<le> txPoolQueueSize"
    using handle(2) q(1) by (simp_all add: pool_inv_def)
  show ?case
  proof (cases "FindTx (pool p) (\<lambda>t. tx_Hash E t = tx_Hash E tx)")
    case None
    then have "tx_Hash E tx \<notin> tx_Hash E ` set (pool p)" by (auto simp: FindTx_def find_None_iff)
    moreover have "p' = p\<lparr>queueChan := rest\<rparr> \<or> p' = p\<lparr>queueChan := rest, pool := pool p @ [tx]\<rparr>"
      using q(2) None
      by (auto simp: handleQueued_def Let_def addTransaction_def rbind_Inr_iff split: if_splits)
    ultimately show ?thesis using inv by (auto simp: pool_inv_def)
  next
    case (Some t)
    with q(2) have "p' = p\<lparr>queueChan := rest\<rparr>" by (simp add: handleQueued_def Let_def)
    then show ?thesis using inv by (simp add: pool_inv_def)
  qed
next
  case (remove cur r p w p' w')
  then obtain txs where t: "RemoveInvalid_walk E cur r (pool p) w = Inr (txs, w')" "p' = p\<lparr>pool := txs\<rparr>"
    by (auto simp: RemoveInvalid_def rbind_Inr_iff)
  from RemoveInvalid_walk_removes [OF t(1)] remove(2) t(2) show ?case
  proof (elim disjE exE conjE)
    fix i assume i: "txs = take i (pool p) @ drop (Suc i) (pool p)"
    have "distinct (take i (map (tx_Hash E) (pool p)) @ drop (Suc i) (map (tx_Hash E) (pool p)))"
      using remove(2) set_take_disj_set_drop_if_distinct [of "map (tx_Hash E) (pool p)" i "Suc i"]
      by (simp add: pool_inv_def)
    then have "distinct (map (tx_Hash E) txs)" unfolding i take_map drop_map map_append .
    then show ?thesis using t(2) remove(2) by (simp add: pool_inv_def)
  qed (simp add: pool_inv_def)
next
  case (flush p txs p' w)
  then show ?case by (auto simp: pool_inv_def Flush_def)
next
  case (others p w w')
  then show ?case by (simp add: pool_inv_def)
qed

text \<open>C16. Whatever the order in which transactions are queued, handled, pruned and flushed, the pool
  never holds two transactions with the same hash and the queue never more than its capacity.\<close>

theorem pool_no_duplicates:
  assumes "(pool_step E)\<^sup>*\<^sup>* (NewTxPool, w0) (p, w)"
  shows "distinct (map (tx_Hash E) (pool p)) \<and> length (queueChan p) \<le> 50"
proof -
  have "pool_inv E (p, w)"
    using assms by (induction rule: rtranclp_induct) (simp add: pool_inv_def NewTxPool_def, rule pool_inv_step)
  then show ?thesis by (simp add: pool_inv_def txPoolQueueSize_def)
qed

theorem pool_no_duplicates_witness:
  "distinct (map (tx_Hash demo_env) (pool (NewTxPool\<lparr>queueChan := [demo_tx]\<rparr>))) \<and>
   length (queueChan (NewTxPool\<lparr>queueChan := [demo_tx]\<rparr>)) \<le> 50"
proof (rule pool_no_duplicates)
  have "pool_step demo_env (NewTxPool, demo_world) (NewTxPool\<lparr>queueChan := [demo_tx]\<rparr>, demo_world)"
    by (rule pool_step.queue) (simp add: QueueTransaction_def NewTxPool_def txPoolQueueSize_def)
  then show "(pool_step demo_env)\<^sup>*\<^sup>* (NewTxPool, demo_world) (NewTxPool\<lparr>queueChan := [demo_tx]\<rparr>, demo_world)" ..
qed

end
