(* ===== verification/Chain_Correct.thy ===== *)
theory Chain_Correct
  imports Chain Tx_Correct
begin

text \<open>
  Blocks come back from their encoding, and a block that was added to the chain is found again,
  with its position and its parent.
\<close>

section \<open>Round trip of blocks\<close>

definition header_ok :: "'a Header_scheme \<Rightarrow> bool" where
  "header_ok h \<longleftrightarrow>
     readable (hd_PrevHash h) \<and> readable (UncleSha h) \<and> readable (hd_Coinbase h) \<and> readable (TxSha h) \<and>
     readable (hd_Nonce h) \<and> 0 \<le> Difficulty h \<and> (case Number h of Some n \<Rightarrow> 0 \<le> n | None \<Rightarrow> False) \<and> 0 \<le> MinGasPrice h \<and>
     0 \<le> GasLimit h \<and> 0 \<le> GasUsed h \<and> 0 \<le> sint (hd_Time h)"

lemma Str_unraw_RStr [simp]: "Str (unraw (RStr b)) = b"
  by (cases b) (auto simp: string_of_byte_def)

lemma big_Uint64_sint: "0 \<le> sint (t :: uint64) \<Longrightarrow> big_Uint64 (sint t) = t"
  by (simp add: big_Uint64_def)

lemma decode_time: "0 \<le> sint (t :: uint64) \<Longrightarrow> big_Uint64 (big_of (unraw (RStr (big_Bytes (sint t))))) = t"
  by (simp add: big_of_unraw big_Uint64_def del: unraw.simps)

definition fresh_state :: "gval \<Rightarrow> State" where
  "fresh_state root = \<lparr>trie = NewTrie root, states = [], manifest = NewManifest\<rparr>"

lemma decode_header_encoded:
  assumes "header_ok h" "header h w = Inr fs"
  shows "\<exists>root. State_Root (hd_state h) w = Inr root \<and>
    decode_header (unraw (RList (map raw fs))) w0 =
      ((Header.truncate h)\<lparr>hd_state := length (heap w0)\<rparr>,
       w0\<lparr>heap := heap w0 @ [fresh_state (unraw (raw root))]\<rparr>)"
proof -
  from assms(1) obtain n where n: "0 \<le> n" "Number h = Some n" by (auto simp: header_ok_def split: option.splits)
  from assms(2) obtain root where r: "State_Root (hd_state h) w = Inr root"
    and fs: "fs = [VBytes (hd_PrevHash h), VBytes (UncleSha h), VBytes (hd_Coinbase h), root, VBytes (TxSha h),
          VBig (Some (Difficulty h)), VBig (Number h), VBig (Some (MinGasPrice h)), VBig (Some (GasLimit h)),
          VBig (Some (GasUsed h)), VInt64 (hd_Time h), VStr (Extra h), VBytes (hd_Nonce h)]"
    by (auto simp: header_def rbind_Inr_iff)
  have b: "BigInt (unraw (RStr (big_Bytes n))) = Some n" using n by (simp add: BigInt_unraw del: unraw.simps)
  have t: "big_Uint64 (sint (hd_Time h)) = hd_Time h" using assms(1) by (simp add: big_Uint64_sint header_ok_def)
  have "decode_header (unraw (RList (map raw fs))) w0 =
      ((Header.truncate h)\<lparr>hd_state := length (heap w0)\<rparr>,
       w0\<lparr>heap := heap w0 @ [fresh_state (unraw (raw root))]\<rparr>)"
    using assms(1) b t unfolding fs decode_header_def NewState_def
    by (simp add: nth_Cons' header_ok_def Bytes_unraw_readable big_of_unraw decode_time n Header.truncate_def
        fresh_state_def del: unraw.simps(1))
  with r show ?thesis by blast
qed

definition same_header :: "Header \<Rightarrow> Header \<Rightarrow> bool" where
  "same_header h h' \<longleftrightarrow> h' = h\<lparr>hd_state := hd_state h'\<rparr>"

lemma decode_uncles_encoded:
  assumes "\<forall>u \<in> set us. header_ok u"
    and "map_res (\<lambda>u. rbind (header u w) (\<lambda>h. Inr (VList h))) us = Inr hs"
  shows "\<exists>us' more. decode_uncles (map (\<lambda>v. unraw (raw v)) hs) w0 = (us', w0\<lparr>heap := heap w0 @ more\<rparr>) \<and>
    list_all2 same_header us us'"
  using assms
proof (induction us arbitrary: hs w0)
  case (Cons u us)
  then obtain fs hs' where hs: "hs = VList fs # hs'" "header u w = Inr fs"
    "map_res (\<lambda>u. rbind (header u w) (\<lambda>h. Inr (VList h))) us = Inr hs'"
    by (auto simp: rbind_Inr_iff)
  let ?u = "u\<lparr>hd_state := length (heap w0)\<rparr>"
  from decode_header_encoded [OF _ hs(2), of w0] Cons.prems(1) obtain st where
    d: "decode_header (unraw (RList (map raw fs))) w0 = (?u, w0\<lparr>heap := heap w0 @ [st]\<rparr>)"
    by (auto simp: Header.truncate_def)
  from Cons.IH [OF _ hs(3), of "w0\<lparr>heap := heap w0 @ [st]\<rparr>"] Cons.prems(1) obtain us' more where
    "decode_uncles (map (\<lambda>v. unraw (raw v)) hs') (w0\<lparr>heap := heap w0 @ [st]\<rparr>) =
      (us', w0\<lparr>heap := (heap w0 @ [st]) @ more\<rparr>)" "list_all2 same_header us us'"
    by auto
  moreover have "same_header u ?u" by (simp add: same_header_def)
  ultimately show ?case using d hs(1) by (auto simp: NewUncleBlockFromValue_def)
qed (auto intro: exI [of _ "[]"])

definition norm_tx :: "Transaction \<Rightarrow> Transaction" where
  "norm_tx tx = tx\<lparr>contractCreation := (Recipient tx = [])\<rparr>"

definition receipt_ok :: "Receipt \<Rightarrow> bool" where
  "receipt_ok r \<longleftrightarrow> tx_ok (rc_Tx r) \<and> readable (PostState r) \<and> 0 \<le> CumulativeGasUsed r"

lemma receipt_decode_encode:
  "receipt_ok r \<Longrightarrow> NewRecieptFromValue (unraw (raw (rc_RlpData r))) = r\<lparr>rc_Tx := norm_tx (rc_Tx r)\<rparr>"
  by (cases r)
    (simp add: NewRecieptFromValue_def rc_RlpData_def receipt_ok_def NewTransactionFromValue_def tx_decode_value
      Bytes_unraw_readable big_of_unraw norm_tx_def nth_Cons' del: unraw.simps(1))

text \<open>Everything \<open>Value\<close> writes can be read back.\<close>

definition block_ok :: "Block \<Rightarrow> World \<Rightarrow> bool" where
  "block_ok b w \<longleftrightarrow> header_ok b \<and> list_all header_ok (Uncles b) \<and> list_all receipt_ok (receipts b) \<and>
     (case Block_Value b w of Inr v \<Rightarrow> fits (raw v) | Inl e \<Rightarrow> False)"

lemma elements_unraw: "elements (unraw (RList rs)) = map unraw rs"
  by (rule nth_equalityI) (simp_all add: elements_def Get_nth)

text \<open>C14. Round trip: from the encoding of a block \<open>NewBlockFromBytes\<close> makes a block with the same
  header, receipts and uncles. Its state is a new trie on the same root. Its transactions are those of
  the receipts, which are the block's own when the block was given its receipts for them. The
  block is one whose fields can be read back: a set number that is not negative, like all other amounts, no header
  field, post state, recipient, payload or signature part that is a single byte up to 0x7f, nonces of transactions
  below 2^16, and lengths that fit the encoding.\<close>

theorem block_roundtrip:
  assumes "block_ok b w" "Block_RlpEncode b w = Inr enc"
  shows "\<exists>b' root more. NewBlockFromBytes enc w0 = Inr (b', w0\<lparr>heap := heap w0 @ fresh_state root # more\<rparr>) \<and>
    Header.truncate b' = (Header.truncate b)\<lparr>hd_state := length (heap w0)\<rparr> \<and>
    (\<exists>r. State_Root (hd_state b) w = Inr r \<and> root = unraw (raw r)) \<and>
    receipts b' = map (\<lambda>r. r\<lparr>rc_Tx := norm_tx (rc_Tx r)\<rparr>) (receipts b) \<and>
    transactions b' = map rc_Tx (receipts b') \<and>
    (map rc_Tx (receipts b) = transactions b \<longrightarrow> transactions b' = map norm_tx (transactions b)) \<and>
    list_all2 same_header (Uncles b) (Uncles b')"
proof -
  from assms(2) obtain fs hs where h: "header b w = Inr fs"
    and us: "map_res (\<lambda>u. rbind (header u w) (\<lambda>h. Inr (VList h))) (Uncles b) = Inr hs"
    and v: "Block_Value b w = Inr (VList [VList fs, rlpReceipts b, VList hs])"
    and enc: "enc = Encode (VList [VList fs, rlpReceipts b, VList hs])"
    by (auto simp: Block_RlpEncode_def Block_Value_def rlpUncles_def rbind_Inr_iff Value_Encode_def)
  have ok: "header_ok b" "\<forall>u \<in> set (Uncles b). header_ok u" "\<forall>r \<in> set (receipts b). receipt_ok r"
    and fits: "fits (raw (VList [VList fs, rlpReceipts b, VList hs]))"
    using assms(1) v by (auto simp: block_ok_def list_all_iff)
  from decode_header_encoded [OF ok(1) h, of w0] obtain r where r: "State_Root (hd_state b) w = Inr r"
    and dh: "decode_header (unraw (RList (map raw fs))) w0 =
      ((Header.truncate b)\<lparr>hd_state := length (heap w0)\<rparr>, w0\<lparr>heap := heap w0 @ [fresh_state (unraw (raw r))]\<rparr>)"
    by blast
  from decode_uncles_encoded [OF ok(2) us, of "w0\<lparr>heap := heap w0 @ [fresh_state (unraw (raw r))]\<rparr>"]
  obtain us' more where du: "decode_uncles (map (\<lambda>v. unraw (raw v)) hs) (w0\<lparr>heap := heap w0 @ [fresh_state (unraw (raw r))]\<rparr>) =
      (us', w0\<lparr>heap := (heap w0 @ [fresh_state (unraw (raw r))]) @ more\<rparr>)" "list_all2 same_header (Uncles b) us'"
    by auto
  have rs: "map NewRecieptFromValue (elements (unraw (RList (map (raw \<circ> rc_RlpData) (receipts b))))) =
      map (\<lambda>r. r\<lparr>rc_Tx := norm_tx (rc_Tx r)\<rparr>) (receipts b)"
    unfolding elements_unraw using ok(3) by (auto simp: receipt_decode_encode)
  have es: "elements (unraw (RList (map raw hs))) = map (\<lambda>v. unraw (raw v)) hs"
    unfolding elements_unraw by simp
  let ?b = "Header.extend ((Header.truncate b)\<lparr>hd_state := length (heap w0)\<rparr>)
    \<lparr>Uncles = us', transactions = map (norm_tx \<circ> rc_Tx) (receipts b), receipts = map (\<lambda>r. r\<lparr>rc_Tx := norm_tx (rc_Tx r)\<rparr>) (receipts b)\<rparr>"
  have "NewBlockFromBytes enc w0 = Inr (?b, w0\<lparr>heap := heap w0 @ fresh_state (unraw (raw r)) # more\<rparr>)"
    unfolding NewBlockFromBytes_def enc NewValueFromBytes_Encode [OF fits]
    using dh du(1) rs es by (simp add: comp_def Block_RlpValueDecode_def rlpReceipts_def IsNil_def nth_Cons')
  moreover have "map rc_Tx (receipts b) = transactions b \<longrightarrow>
      map (norm_tx \<circ> rc_Tx) (receipts b) = map norm_tx (transactions b)"
    by (metis map_map)
  ultimately show ?thesis using du(2) r
    by (intro exI [of _ ?b] exI [of _ "unraw (raw r)"] exI [of _ more])
      (simp add: Header.defs)
qed

definition demo_block :: Block where
  "demo_block = \<lparr>hd_PrevHash = replicate 32 1, UncleSha = replicate 32 2, hd_Coinbase = replicate 20 3, hd_state = 0,
     TxSha = replicate 32 4, Difficulty = 2048, Number = Some 7, MinGasPrice = 10, GasLimit = 200, GasUsed = 50,
     hd_Time = 140, Extra = [9], hd_Nonce = replicate 32 5, Uncles = [], transactions = [demo_tx],
     receipts = [\<lparr>rc_Tx = demo_tx, PostState = replicate 32 6, CumulativeGasUsed = 50\<rparr>]\<rparr>"

definition decoded_demo :: "(Block \<times> World) res" where
  "decoded_demo = rbind (Block_RlpEncode demo_block demo_world) (\<lambda>enc. NewBlockFromBytes enc demo_world)"

theorem block_roundtrip_witness:
  "\<exists>b' w'. decoded_demo = Inr (b', w') \<and> hd_Time b' = 140 \<and> Number b' = Some 7 \<and> map rc_Tx (receipts b') = [demo_tx]"
proof -
  have ok: "block_ok demo_block demo_world" by code_simp
  then obtain enc where enc: "Block_RlpEncode demo_block demo_world = Inr enc"
    by (auto simp: block_ok_def Block_RlpEncode_def split: sum.splits)
  from block_roundtrip [OF ok enc, of demo_world] obtain b' w' where
    d: "NewBlockFromBytes enc demo_world = Inr (b', w')"
    and h: "Header.truncate b' = (Header.truncate demo_block)\<lparr>hd_state := length (heap demo_world)\<rparr>"
    and r: "receipts b' = map (\<lambda>r. r\<lparr>rc_Tx := norm_tx (rc_Tx r)\<rparr>) (receipts demo_block)"
    by blast
  have "hd_Time b' = 140 \<and> Number b' = Some 7"
    using arg_cong [OF h, of hd_Time] arg_cong [OF h, of Number] by (simp add: Header.defs demo_block_def)
  moreover have "map rc_Tx (receipts b') = [demo_tx]"
    using r by (simp add: demo_block_def norm_tx_def demo_tx_def ZeroTransaction_def)
  ultimately show ?thesis using d by (simp add: decoded_demo_def enc)
qed

section \<open>Adding a block\<close>

lemma header_db [simp]: "header h (w\<lparr>db := d\<rparr>) = header h w"
  by (simp add: header_def State_Root_def deref_def)

lemma Block_Value_db [simp]: "Block_Value b (w\<lparr>db := d\<rparr>) = Block_Value b w"
  by (simp add: Block_Value_def rlpUncles_def)

lemma Block_Hash_db [simp]: "Block_Hash E b (w\<lparr>db := d\<rparr>) = Block_Hash E b w"
  by (simp add: Block_Hash_def)

lemma BlockInfo_decode_encode:
  assumes "uint (bi_Number bi) < 2 ^ 16" "length (bi_Hash bi) = 32" "length (bi_Parent bi) = 32"
  shows "BlockInfo_RlpDecode (BlockInfo_RlpEncode bi) = Inr bi"
proof -
  let ?v = "VList [VUint64 (bi_Number bi), VBytes (bi_Hash bi), VBytes (bi_Parent bi)]"
  have "uint (bi_Number bi) < 2 ^ 63" using assms(1) by simp
  then have "big_Bytes (sint (bi_Number bi)) = nat_be (nat (uint (bi_Number bi)))"
    by (simp only: sint_eq_uint if_True big_Bytes_def abs_of_nonneg uint_ge_0)
  moreover have "nat (uint (bi_Number bi)) < 256 ^ 2" using assms(1) by (simp only: nat_less_iff uint_ge_0) simp
  ultimately have "length (big_Bytes (sint (bi_Number bi))) \<le> 2" by (simp only: length_nat_be_le)
  then have l: "length (Encode_bytes (big_Bytes (sint (bi_Number bi)))) \<le> 3"
    "len_ok (length (big_Bytes (sint (bi_Number bi))))"
    by (auto simp: Encode_bytes_def Let_def len_ok_def)
  then have "fits (raw ?v)"
    using assms by (auto simp: len_ok_small Encode_bytes_def [of "bi_Hash bi"] Encode_bytes_def [of "bi_Parent bi"])
  then show ?thesis
    using assms by (cases bi) (simp add: BlockInfo_RlpDecode_def BlockInfo_RlpEncode_def NewValueFromBytes_Encode
        Uint_unraw_nonce Bytes_unraw_readable readable_def del: unraw.simps(1) Encode.simps)
qed

lemma length_lit [simp]: "length (lit s) = length s"
  by (simp add: lit_def)

lemma info_key_neq:
  "length h = 32 \<Longrightarrow> h \<noteq> lit ''LastBlock''" "length h = 32 \<Longrightarrow> info_key h \<noteq> h"
  "length h = 32 \<Longrightarrow> info_key h \<noteq> lit ''LastBlock''"
  by (auto dest: arg_cong [of _ _ length] simp: info_key_def)

lemma Chain_Add_parts:
  assumes "Chain_Add E block bc w = Inr (bc', w')"
  obtains h enc where "Block_Hash E block w = Inr h" "Block_RlpEncode block w = Inr enc"
    "bc' = bc\<lparr>LastBlockNumber := LastBlockNumber bc + 1, CurrentBlock := Some block, LastBlockHash := h\<rparr>"
    "w' = w\<lparr>db := db_Put (lit ''LastBlock'') enc (db_Put h enc (db_Put (info_key h)
       (BlockInfo_RlpEncode \<lparr>bi_Number = LastBlockNumber bc + 1, bi_Hash = h, bi_Parent = hd_PrevHash block\<rparr>) (db w)))\<rparr>"
  using assms
  by (auto simp: Chain_Add_def writeBlockInfo_def Let_def rbind_Inr_iff Block_RlpEncode_def)

text \<open>C13. An added block is the current one and the last one, it is found under its hash (its bytes
  are stored there and under \<open>LastBlock\<close>), and its info record gives the next number, its hash
  and its parent. The number is below 2^16 (the record of a later block does not read back) and the two hashes
  have 32 bytes.\<close>

theorem Chain_Add_found:
  assumes add: "Chain_Add E block bc w = Inr (bc', w')"
    and h: "Block_Hash E block w = Inr h" "length h = 32"
    and "length (hd_PrevHash block) = 32" "uint (LastBlockNumber bc + 1) < 2 ^ 16"
  shows "HasBlock h w' \<and> Block_RlpEncode block w = Inr (db_Get h (db w')) \<and>
    db_Get (lit ''LastBlock'') (db w') = db_Get h (db w') \<and>
    CurrentBlock bc' = Some block \<and> LastBlockHash bc' = h \<and> LastBlockNumber bc' = LastBlockNumber bc + 1 \<and>
    BlockInfoByHash h w' = Inr \<lparr>bi_Number = LastBlockNumber bc + 1, bi_Hash = h, bi_Parent = hd_PrevHash block\<rparr>"
proof -
  from Chain_Add_parts [OF add] h(1) obtain enc where e: "Block_RlpEncode block w = Inr enc"
    and bc: "bc' = bc\<lparr>LastBlockNumber := LastBlockNumber bc + 1, CurrentBlock := Some block, LastBlockHash := h\<rparr>"
    and w: "w' = w\<lparr>db := db_Put (lit ''LastBlock'') enc (db_Put h enc (db_Put (info_key h)
       (BlockInfo_RlpEncode \<lparr>bi_Number = LastBlockNumber bc + 1, bi_Hash = h, bi_Parent = hd_PrevHash block\<rparr>) (db w)))\<rparr>"
    by auto
  have "enc \<noteq> []" using e by (auto simp: Block_RlpEncode_def Value_Encode_def Encode_raw rbind_Inr_iff)
  then show ?thesis using e bc w assms(3-) info_key_neq [OF h(2)]
    by (simp add: HasBlock_def memdb.get_put BlockInfoByHash_def BlockInfo_decode_encode)
qed

definition demo_chain :: BlockChain where
  "demo_chain = \<lparr>genesisBlock = demo_block, TD = 0, LastBlockNumber = 6, CurrentBlock = Some demo_block, LastBlockHash = replicate 32 1\<rparr>"

text \<open>An environment with a constant hash, for concrete runs in which only the lengths matter.\<close>

definition const_env :: Env where
  "const_env = demo_env\<lparr>sha := \<lambda>_. replicate 32 0\<rparr>"

theorem Chain_Add_found_witness:
  "\<exists>bc' w'. Chain_Add const_env demo_block demo_chain demo_world = Inr (bc', w') \<and> HasBlock (replicate 32 0) w' \<and>
     LastBlockNumber bc' = 7"
proof -
  have h: "Block_Hash const_env demo_block demo_world = Inr (replicate 32 0)"
    by (simp add: Block_Hash_def Block_Value_def header_def State_Root_def deref_def demo_world_def NewState_def demo_block_def
        rlpUncles_def const_env_def)
  obtain bc' w' where a: "Chain_Add const_env demo_block demo_chain demo_world = Inr (bc', w')"
    using h by (auto simp: Chain_Add_def writeBlockInfo_def Let_def Block_RlpEncode_def Block_Hash_def rbind_Inr_iff)
  from Chain_Add_found [OF a h] show ?thesis
    using a by (simp add: demo_chain_def demo_block_def)
qed

section \<open>Difficulty and gas limit of a new block\<close>

lemma CreateBlock_fields:
  "CreateBlock E now root prevHash base difficulty nonce extra w = Inr (block, w') \<Longrightarrow>
   hd_PrevHash block = prevHash \<and> hd_Coinbase block = base \<and> hd_Time block = now"
  by (auto simp: CreateBlock_def SetUncles_def rbind_Inr_iff Let_def split: prod.splits)

text \<open>The comment in \<open>NewBlock\<close> says that the gas limit is at least 10000. It is at most 10000:
  \<open>BigMax\<close> takes the smaller value. The difficulty moves by a 1024th of the parent's, down exactly
  when the parent is at least 42 seconds old, and the number is the parent's plus one.\<close>

theorem NewBlock_fields:
  assumes "CurrentBlock bc = Some cur" "NewBlock E now coinbase bc w = Inr (block, w')"
  shows "GasLimit block \<le> 10000 \<and>
    Difficulty block = Difficulty cur + (if sint now < sint (hd_Time cur + 42) then 1 else -1) * (Difficulty cur div 1024) \<and>
    (\<exists>n. Number cur = Some n \<and> Number block = Some (n + 1)) \<and>
    hd_PrevHash block = LastBlockHash bc \<and> hd_Coinbase block = coinbase"
proof -
  from assms obtain root b0 w0 n where c: "CreateBlock E now root (LastBlockHash bc) coinbase (BigPow 2 32) [] [] w = Inr (b0, w0)"
    and n: "Number cur = Some n"
    and b: "block = b0\<lparr>Difficulty := Difficulty cur div 1024 *
        (if sint (hd_Time b0) < sint (hd_Time cur + 42) then 1 else - 1) + Difficulty cur, Number := Some (n + Big1),
      GasLimit := BigMax 10000 ((GasLimit cur * (1024 - 1) + GasUsed cur * 6 div 5) div 1024)\<rparr>"
    unfolding NewBlock_def option.case Let_def rbind_Inr_iff case_prod_unfold
    by (cases "Number cur") (auto simp: rbind_Inr_iff)
  from CreateBlock_fields [OF c] n show ?thesis unfolding b by (simp add: BigMax_def Big1_def)
qed

theorem NewBlock_fields_witness:
  "\<exists>block w'. NewBlock const_env 200 (replicate 20 9) demo_chain demo_world = Inr (block, w') \<and> GasLimit block \<le> 10000 \<and>
    Number block = Some 8 \<and> Difficulty block = 2046"
proof -
  have cur: "CurrentBlock demo_chain = Some demo_block" by (simp add: demo_chain_def)
  obtain block w' where n: "NewBlock const_env 200 (replicate 20 9) demo_chain demo_world = Inr (block, w')"
    by (simp add: NewBlock_def cur State_Root_def deref_def demo_world_def NewState_def demo_block_def
        CreateBlock_def SetUncles_def rlpUncles_def Let_def)
  from NewBlock_fields [OF cur n] n show ?thesis by (simp add: demo_block_def)
qed

end
