(* ===== verification/State_Correct.thy ===== *)
theory State_Correct
  imports StateManager Chain_Correct
begin

text \<open>Copies of states, and what a snapshot keeps.\<close>

section \<open>Copies and snapshots\<close>

text \<open>A copy lives in new cells of the heap: every state that existed before keeps its contents.\<close>

definition extends :: "World \<Rightarrow> World \<Rightarrow> bool" where
  "extends w w' \<longleftrightarrow> (\<exists>more. w' = w\<lparr>heap := heap w @ more\<rparr>)"

lemma extends_refl [simp]: "extends w w"
  by (auto simp: extends_def intro: exI [of _ "[]"])

lemma extends_trans: "extends w w' \<Longrightarrow> extends w' w'' \<Longrightarrow> extends w w''"
  by (auto simp: extends_def)

lemma extends_put: "extends w w' \<Longrightarrow> length (heap w) \<le> r \<Longrightarrow> extends w (put_state r s w')"
  by (auto simp: extends_def put_state_def list_update_append)

lemma extends_new: "NewState t w = (r, w') \<Longrightarrow> extends w w' \<and> r = length (heap w)"
  by (auto simp: extends_def NewState_def)

lemma each_extends:
  assumes "\<And>x w1 w2. x \<in> set xs \<Longrightarrow> P w1 \<Longrightarrow> extends w0 w1 \<Longrightarrow> f x w1 = Inr w2 \<Longrightarrow> extends w0 w2 \<and> P w2"
    and "each f xs w = Inr w'" "extends w0 w" "P w"
  shows "extends w0 w' \<and> P w'"
  using assms
proof (induction xs arbitrary: w)
  case (Cons x xs)
  from Cons.prems(2) obtain w1 where w1: "f x w = Inr w1" "each f xs w1 = Inr w'" by (auto simp: rbind_Inr_iff)
  from Cons.prems(1) [of x w w1] Cons.prems(3,4) w1(1) have "extends w0 w1 \<and> P w1" by simp
  with Cons.IH [of w1] Cons.prems(1) w1(2) show ?case by auto
qed simp

text \<open>What is equal in a trie and its copy: the root and every cached node. The copy forgets which
  nodes are dirty as far as \<open>IsDirty\<close> goes, and takes the root as the one to undo to.\<close>

definition copy_of :: "Trie \<Rightarrow> Trie \<Rightarrow> bool" where
  "copy_of t t' \<longleftrightarrow> Root t' = Root t \<and> prevRoot t' = Root t \<and> nodes (cache t') = nodes (cache t) \<and> \<not> IsDirty (cache t')"

lemma Node_Copy_id [simp]: "Node_Copy n = n"
  by (simp add: Node_Copy_def NewNode_def)

lemma copy_of_Copy: "copy_of t (Trie_Copy t)"
  by (simp add: copy_of_def Trie_Copy_def NewTrie_def NewCache_def Let_def)

lemma State_Copy_fresh:
  "State_Copy f r w = Inr (r', w') \<Longrightarrow>
   extends w w' \<and> r' = length (heap w) \<and> r < length (heap w) \<and> r' < length (heap w') \<and>
   copy_of (trie (heap w ! r)) (trie (heap w' ! r'))"
proof (induction f arbitrary: r w r' w')
  case (Suc f)
  let ?s = "heap w ! r" and ?n = "length (heap w)"
  let ?w1 = "snd (NewState (Trie_Copy (trie ?s)) w)"
  define P where "P w1 \<longleftrightarrow> ?n < length (heap w1) \<and> copy_of (trie ?s) (trie (heap w1 ! ?n))" for w1 :: World
  let ?f = "\<lambda>(k, sub) w.
          rbind (State_Copy f sub w) (\<lambda>(sub', w).
          rbind (deref ?n w) (\<lambda>s'.
          Inr (put_state ?n (s'\<lparr>states := AList.update k sub' (states s')\<rparr>) w)))"
  from Suc.prems have r: "r < length (heap w)" "r' = ?n" and e: "each ?f (states ?s) ?w1 = Inr w'"
    by (auto simp: deref_def NewState_def rbind_Inr_iff Let_def split: if_splits)
  have 1: "extends w ?w1" by (auto simp: extends_def NewState_def)
  have "extends w w2 \<and> P w2" if w2: "?f x w1 = Inr w2" and w1: "P w1" "extends w w1" for x w1 w2
  proof -
    obtain k sub where x: "x = (k, sub)" by (cases x)
    from w2 x obtain sub' w1' s' where c: "State_Copy f sub w1 = Inr (sub', w1')"
      "deref ?n w1' = Inr s'" "w2 = put_state ?n (s'\<lparr>states := AList.update k sub' (states s')\<rparr>) w1'"
      by (auto simp: rbind_Inr_iff)
    from Suc.IH [OF c(1)] obtain more where m: "w1' = w1\<lparr>heap := heap w1 @ more\<rparr>" by (auto simp: extends_def)
    with w1 c(2) have s': "s' = heap w1 ! ?n" by (auto simp: P_def deref_def nth_append split: if_splits)
    have "extends w w1'" using w1(2) m by (auto simp: extends_def)
    then have "extends w w2" using c(3) by (simp add: extends_put)
    moreover have "P w2" using w1(1) m c(3) s' by (simp add: P_def put_state_def nth_append)
    ultimately show ?thesis ..
  qed
  then have "extends w w' \<and> P w'"
    by (rule each_extends [OF _ e 1]) (simp_all add: P_def NewState_def copy_of_Copy)
  with r show ?case by (simp add: P_def)
qed simp

text \<open>C20. \<open>Snapshot\<close> changes no existing state, and \<open>Revert\<close> to it, however the state was changed in
  between, brings the root and every cached node of the trie back as they were.\<close>

theorem Revert_after_Snapshot:
  assumes snap: "Snapshot E r w = Inr (sn, w1)"
    and kept: "sn < length (heap w2)" "heap w2 ! sn = heap w1 ! sn" and rev: "Revert r sn w2 = Inr w3"
  shows "(\<forall>i < length (heap w). heap w1 ! i = heap w ! i) \<and> db w1 = db w \<and>
    Root (trie (heap w3 ! r)) = Root (trie (heap w ! r)) \<and>
    nodes (cache (trie (heap w3 ! r))) = nodes (cache (trie (heap w ! r)))"
proof -
  from State_Copy_fresh [of "walk E" r w sn w1] snap obtain more where
    c: "w1 = w\<lparr>heap := heap w @ more\<rparr>" "copy_of (trie (heap w ! r)) (trie (heap w1 ! sn))"
    by (auto simp: Snapshot_def extends_def)
  from rev kept have "trie (heap w3 ! r) = trie (heap w1 ! sn)"
    by (auto simp: Revert_def deref_def rbind_Inr_iff put_state_def split: if_splits)
  with c show ?thesis by (simp add: copy_of_def nth_append)
qed

text \<open>A state with one dirty node, its snapshot, and the state after reverting to it.\<close>

definition dirty_world :: World where
  "dirty_world = (case state_Update const_env 0 [1, 2] (replicate 40 7) demo_world of Inr w \<Rightarrow> w | Inl e \<Rightarrow> demo_world)"

definition snap_world :: World where
  "snap_world = (case Snapshot const_env 0 dirty_world of Inr (s, w) \<Rightarrow> w | Inl e \<Rightarrow> demo_world)"

definition reverted_world :: World where
  "reverted_world = (case Revert 0 1 snap_world of Inr w \<Rightarrow> w | Inl e \<Rightarrow> demo_world)"

lemma snap_demo:
  "Snapshot const_env 0 dirty_world = Inr (1, snap_world)" "length (heap snap_world) = 2"
  "Revert 0 1 snap_world = Inr reverted_world"
  "Node_Dirty (snd (hd (nodes (cache (trie (heap dirty_world ! 0))))))"
proof -
  have "(case Snapshot const_env 0 dirty_world of Inr (s, w) \<Rightarrow> s = 1 | Inl e \<Rightarrow> False)" by code_simp
  then show "Snapshot const_env 0 dirty_world = Inr (1, snap_world)"
    by (auto simp: snap_world_def split: sum.splits)
  have "(case Revert 0 1 snap_world of Inr w \<Rightarrow> True | Inl e \<Rightarrow> False)" by code_simp
  then show "Revert 0 1 snap_world = Inr reverted_world" by (auto simp: reverted_world_def split: sum.splits)
qed code_simp+

theorem Revert_after_Snapshot_witness:
  "Root (trie (heap reverted_world ! 0)) = Root (trie (heap dirty_world ! 0)) \<and> Root (trie (heap dirty_world ! 0)) = VBytes (replicate 32 0)"
proof -
  have "Root (trie (heap dirty_world ! 0)) = VBytes (replicate 32 0)" by code_simp
  with Revert_after_Snapshot [OF snap_demo(1) _ _ snap_demo(3)] snap_demo(2) show ?thesis by simp
qed

text \<open>A state that was reverted is not written back until something is put into it again: the
  copy comes without the \<open>IsDirty\<close> flag, so \<open>Sync\<close> does not look at its nodes, though they may
  exist nowhere else.\<close>

theorem reverted_state_not_synced:
  assumes snap: "Snapshot E r w = Inr (sn, w1)"
    and kept: "sn < length (heap w2)" "heap w2 ! sn = heap w1 ! sn" and rev: "Revert r sn w2 = Inr w3"
  shows "snd (Trie_Sync (trie (heap w3 ! r), d)) = d"
proof -
  from State_Copy_fresh [of "walk E" r w sn w1] snap have c: "copy_of (trie (heap w ! r)) (trie (heap w1 ! sn))"
    by (auto simp: Snapshot_def)
  from rev kept have "trie (heap w3 ! r) = trie (heap w1 ! sn)"
    by (auto simp: Revert_def deref_def rbind_Inr_iff put_state_def split: if_splits)
  with c show ?thesis by (simp add: copy_of_def Trie_Sync_def Commit_def)
qed

theorem reverted_state_not_synced_witness:
  "Node_Dirty (snd (hd (nodes (cache (trie (heap reverted_world ! 0)))))) \<and>
   snd (Trie_Sync (trie (heap reverted_world ! 0), NewMemDatabase)) = NewMemDatabase"
proof -
  have "Node_Dirty (snd (hd (nodes (cache (trie (heap reverted_world ! 0))))))" by code_simp
  with reverted_state_not_synced [OF snap_demo(1) _ _ snap_demo(3), of NewMemDatabase] snap_demo(2) show ?thesis by simp
qed

end
