(* ===== verification/Manager_Correct.thy ===== *)
theory Manager_Correct
  imports StateManager Chain_Correct
begin

text \<open>
  What the chain and the state manager promise: the total difficulty only grows and is read back
  from the database, an added block is found again with its position, a block that passes
  validation satisfies each of the rules, and what the miner of a block is paid.
\<close>

section \<open>Total difficulty\<close>

definition block_difficulty :: "Block \<Rightarrow> int" where
  "block_difficulty block = Difficulty block + sum_list (map Difficulty (Uncles block))"

lemma foldl_add: "foldl (\<lambda>d u. d + f u) (a :: int) us = a + sum_list (map f us)"
  by (induction us arbitrary: a) simp_all

lemma LastKnownTD_put: "BigD (LastKnownTD (db_Put (lit ''LastKnownTotalDifficulty'') (big_Bytes td) d)) = \<bar>td\<bar>"
proof (cases "td = 0")
  case True
  then show ?thesis by (simp add: LastKnownTD_def memdb.get_put BigD_def)
next
  case False
  then show ?thesis by (simp add: LastKnownTD_def memdb.get_put)
qed

text \<open>A block is taken over exactly when it and its uncles have difficulty. The total
  difficulty then grows by theirs, and a node that starts on the database reads back the new
  total.\<close>

theorem CalculateTD_monotone:
  assumes "CalculateTD block chain w = (ok, chain', w')"
  shows "(ok \<longleftrightarrow> 0 < block_difficulty block) \<and>
    (if ok then TD chain' = TD chain + block_difficulty block \<and> BigD (LastKnownTD (db w')) = \<bar>TD chain'\<bar>
     else chain' = chain \<and> w' = w)"
  using assms
  by (auto simp: CalculateTD_def SetTotalDifficulty_def block_difficulty_def foldl_add Let_def
      LastKnownTD_put split: if_splits)

theorem CalculateTD_monotone_witness:
  "\<exists>chain' w'. CalculateTD demo_block demo_chain demo_world = (True, chain', w') \<and> TD chain' = 2048 \<and>
     BigD (LastKnownTD (db w')) = 2048"
proof -
  obtain ok chain' w' where c: "CalculateTD demo_block demo_chain demo_world = (ok, chain', w')"
    by (cases "CalculateTD demo_block demo_chain demo_world") auto
  have "block_difficulty demo_block = 2048" by (simp add: block_difficulty_def demo_block_def)
  with CalculateTD_monotone [OF c] c show ?thesis by (auto simp: demo_chain_def)
qed

section \<open>Rewards\<close>

text \<open>What the coinbase gets for a block: the reward, the inclusion reward for every uncle,
  and for every receipt the gas used by the block up to there plus the price per gas. The gas of
  the earlier transactions is paid again with each later one: \<open>lastCumulGasUsed\<close> never changes.\<close>

theorem CalculateBlockReward_sum:
  "CalculateBlockReward block n =
   BlockReward + int n * UncleInclusionReward +
   sum_list (map (\<lambda>r. CumulativeGasUsed r + GasPrice (rc_Tx r)) (receipts block))"
proof -
  have "foldl (\<lambda>b _. b + UncleInclusionReward) 0 [0..<n] = int n * UncleInclusionReward"
    by (induction n) (simp_all add: algebra_simps)
  then show ?thesis
    by (simp add: CalculateBlockReward_def Let_def foldl_add)
qed

section \<open>Validation\<close>

text \<open>C11. A block that passes validation is not older than the current block and at most
  \<open>15 * time.Minute\<close> read as seconds ahead of it, each of its uncles has the
  parent's parent, and its nonce solves the proof of work.\<close>

theorem ValidateBlock_sound:
  assumes "ValidateBlock E block chain w = Inr (None, w')"
  shows "\<exists>cur h. CurrentBlock chain = Some cur \<and>
    0 \<le> sint (hd_Time block - hd_Time cur) \<and> sint (hd_Time block - hd_Time cur) \<le> 900000000000 \<and>
    HashNoNonce E block w' = Inr h \<and> EasyPow_Verify E h (Difficulty block) (hd_Nonce block) = Inr True \<and>
    (\<forall>u \<in> set (Uncles block). \<exists>p w0. GetBlock (hd_PrevHash block) w = Inr (Some p, w0) \<and> hd_PrevHash u = hd_PrevHash p)"
proof -
  from assms obtain prev cur h where
    g: "GetBlock (hd_PrevHash block) w = Inr (prev, w')"
    and m: "uncle_mismatch (Uncles block) prev = Inr False"
    and c: "current chain = Inr cur"
    and d: "\<not> sint (hd_Time block - hd_Time cur) < 0" "\<not> sint (hd_Time block - hd_Time cur) > fifteen_minutes"
    and h: "HashNoNonce E block w' = Inr h" "EasyPow_Verify E h (Difficulty block) (hd_Nonce block) = Inr True"
    unfolding ValidateBlock_def rbind_Inr_iff case_prod_unfold Let_def
    by (auto simp: rbind_Inr_iff split: if_splits)
  have "CurrentBlock chain = Some cur" using c by (simp add: current_def split: option.splits)
  moreover have "\<exists>p. prev = Some p \<and> hd_PrevHash u = hd_PrevHash p" if "u \<in> set (Uncles block)" for u
    using m that by (auto simp: uncle_mismatch_def list_ex_iff split: if_splits option.splits)
  ultimately show ?thesis using g d h by (fastforce simp: fifteen_minutes_def)
qed

theorem ValidateBlock_sound_witness:
  "let b = demo_block\<lparr>hd_Time := 200\<rparr> in
   ValidateBlock const_env b demo_chain demo_world = Inr (None, demo_world) \<and>
   (\<exists>h. HashNoNonce const_env b demo_world = Inr h \<and> EasyPow_Verify const_env h 2048 (hd_Nonce b) = Inr True)"
proof -
  let ?b = "demo_block\<lparr>hd_Time := 200\<rparr>"
  have v: "ValidateBlock const_env ?b demo_chain demo_world = Inr (None, demo_world)"
    by (simp add: ValidateBlock_def GetBlock_def demo_world_def NewState_def demo_block_def uncle_mismatch_def
        current_def demo_chain_def fifteen_minutes_def HashNoNonce_def State_Root_def deref_def EasyPow_Verify_def
        const_env_def BigD_def big_Div_def BigPow_def)
  from ValidateBlock_sound [OF v] v show ?thesis by (auto simp: demo_block_def)
qed

section \<open>Processing a block\<close>

text \<open>The events of the transactions; no block is announced among them.\<close>

definition only_tx :: "sm_event list \<Rightarrow> bool" where
  "only_tx evs \<longleftrightarrow> list_all (\<lambda>e. case e of TxEvent _ \<Rightarrow> True | _ \<Rightarrow> False) evs"

lemma ApplyTransaction_only_tx:
  assumes "ApplyTransaction P r block tx w = Inr (g, err, w', evs)"
  shows "only_tx evs"
proof -
  from assms obtain gas e w1 ev where p: "ProcessTransaction (penv P) tx r w = Inr (gas, e, w1, ev)"
    by (auto simp: ApplyTransaction_def Let_def rbind_Inr_iff)
  have "evs = map TxEvent ev"
  proof (cases "CreatesContract tx")
    case True
    with assms p show ?thesis
      by (auto simp: ApplyTransaction_def Let_def rbind_Inr_iff split: if_split_asm option.split_asm)
  next
    case False
    with assms p obtain obj w2 where "GetStateObject r (Recipient tx) w1 = Inr (obj, w2)"
      by (auto simp: ApplyTransaction_def Let_def rbind_Inr_iff)
    with assms p False show ?thesis
      by (cases obj) (auto simp: ApplyTransaction_def Let_def rbind_Inr_iff split: if_split_asm)
  qed
  then show ?thesis by (simp add: only_tx_def list_all_iff)
qed

lemma ApplyTransactions_loop_only_tx:
  "ApplyTransactions_loop P r block txs tot rs valid w evs = Inr (rs', valid', w', evs') \<Longrightarrow> only_tx evs \<Longrightarrow> only_tx evs'"
proof (induction P r block txs tot rs valid w evs rule: ApplyTransactions_loop.induct)
  case (2 P r block tx txs tot rs valid w evs)
  then obtain g err w1 ev where a: "ApplyTransaction P r block tx w = Inr (g, err, w1, ev)"
    by (auto simp: rbind_Inr_iff)
  with ApplyTransaction_only_tx [OF a] 2 show ?case
    by (auto simp: rbind_Inr_iff Let_def only_tx_def split: if_splits)
qed simp

lemma CalculateTD_cases:
  "CalculateTD block chain w =
    (if 0 < block_difficulty block
     then (True, SetTotalDifficulty (TD chain + block_difficulty block) chain w)
     else (False, chain, w))"
  by (auto simp: CalculateTD_def block_difficulty_def foldl_add Let_def ac_simps split: prod.splits)

lemma ProcessBlock_body_cases:
  assumes "ProcessBlock_body P r parent block dontReact sm w = Inr (err, sm', w', evs)"
  obtains (reject) e where "err = Some e" "sm' = sm" "only_tx evs"
  | (weak) "err = None" "sm' = sm" "block_difficulty block \<le> 0"
  | (accept) rs valid ev1 w1 w1' w2 w2' chain p v w3 w3' where "err = None" "0 < block_difficulty block"
     "ApplyTransactions P r parent (transactions block) w = Inr (rs, valid, w1, ev1)"
     "ValidateBlock (penv P) block (bc sm) w1 = Inr (None, w1')"
     "Chain_Add (penv P) block ((bc sm)\<lparr>TD := TD (bc sm) + block_difficulty block\<rparr>) w2 = Inr (chain, w2')"
     "sm' = sm\<lparr>bc := chain, txpool := p\<rparr>" "evs \<noteq> []" "last evs = BroadcastBlock v"
     "RemoveInvalid (penv P) (Some (hd_state block)) r (txpool sm, w3) = Inr (p, w3')"
proof (cases "\<not> HasBlock (hd_PrevHash block) w \<and> CurrentBlock (bc sm) \<noteq> None")
  case True
  with assms show ?thesis by (intro reject) (auto simp: ProcessBlock_body_def only_tx_def)
next
  case False
  with assms obtain rs valid w1 ev1 where a: "ApplyTransactions P r parent (transactions block) w = Inr (rs, valid, w1, ev1)"
    by (auto simp: ProcessBlock_body_def Let_def rbind_Inr_iff)
  from a have ev1: "only_tx ev1"
    unfolding ApplyTransactions_def by (rule ApplyTransactions_loop_only_tx) (simp add: only_tx_def)
  from assms False a obtain verr w2 where v: "ValidateBlock (penv P) block (bc sm) w1 = Inr (verr, w2)"
    by (auto simp: ProcessBlock_body_def Let_def rbind_Inr_iff)
  show ?thesis
  proof (cases verr)
    case (Some e)
    with assms False a v ev1 show ?thesis by (intro reject) (auto simp: ProcessBlock_body_def Let_def)
  next
    case None
    with assms False a v obtain w3 bs s where acc: "AccumelateRewards (penv P) r block w2 = Inr w3"
      "deref (hd_state block) w3 = Inr bs" "deref r w3 = Inr s"
      by (auto simp: ProcessBlock_body_def Let_def rbind_Inr_iff)
    show ?thesis
    proof (cases "State_Cmp bs s \<and> 0 < block_difficulty block")
      case True
      with assms False a v None acc have "\<exists>w4 chain w5 p v w6 w7. err = None \<and>
          Chain_Add (penv P) block ((bc sm)\<lparr>TD := TD (bc sm) + block_difficulty block\<rparr>) w4 = Inr (chain, w5) \<and>
          sm' = sm\<lparr>bc := chain, txpool := p\<rparr> \<and> evs \<noteq> [] \<and> last evs = BroadcastBlock v \<and>
          RemoveInvalid (penv P) (Some (hd_state block)) r (txpool sm, w6) = Inr (p, w7)"
        by (auto simp: ProcessBlock_body_def Let_def rbind_Inr_iff CalculateTD_cases SetTotalDifficulty_def
            split: if_split_asm; blast)
      with True a v None show ?thesis by (auto intro: accept)
    next
      case cmp: False
      with assms False a v None acc ev1 show ?thesis
        using reject weak
        by (auto simp: ProcessBlock_body_def Let_def rbind_Inr_iff CalculateTD_cases split: if_split_asm)
    qed
  qed
qed
definition demo_manager :: StateManager where
  "demo_manager = \<lparr>bc = demo_chain, transState = 0, miningState = 0, txpool = NewTxPool\<rparr>"

definition demo_proc :: ProcEnv where
  "demo_proc = \<lparr>penv = const_env, pstale = (\<lambda>_. None), pfuel = 10\<rparr>"

text \<open>C4. A block that is refused (unknown parent, failed validation, other state root) leaves the
  manager as it was, chain, total difficulty and pool, and nobody is told about it.\<close>

theorem ProcessBlock_rejects:
  assumes "ProcessBlock P r parent block dontReact sm w = Inr (Some e, sm', w', evs)"
  shows "sm' = sm \<and> (\<forall>b. PostNewBlock b \<notin> set evs) \<and> (\<forall>v. BroadcastBlock v \<notin> set evs)"
proof -
  from assms obtain w1 where "ProcessBlock_body P r parent block dontReact sm w = Inr (Some e, sm', w1, evs)"
    by (auto simp: ProcessBlock_def rbind_Inr_iff split: if_split_asm)
  then show ?thesis by (cases rule: ProcessBlock_body_cases) (auto simp: only_tx_def list_all_iff)
qed

theorem ProcessBlock_rejects_witness:
  "\<exists>w'. ProcessBlock demo_proc 0 demo_block demo_block False demo_manager demo_world =
     Inr (Some (ParentErr (replicate 32 1)), demo_manager, w', [])"
proof -
  obtain sm' w' evs where p: "ProcessBlock demo_proc 0 demo_block demo_block False demo_manager demo_world =
      Inr (Some (ParentErr (replicate 32 1)), sm', w', evs)" "evs = []"
    by (simp add: ProcessBlock_def ProcessBlock_body_def demo_proc_def demo_manager_def demo_chain_def HasBlock_def
        Block_Hash_def Block_Value_def header_def State_Root_def deref_def demo_world_def NewState_def demo_block_def
        rlpUncles_def const_env_def demo_env_def numeral_eq_Suc)
  from ProcessBlock_rejects [OF p(1)] p show ?thesis by auto
qed

text \<open>C5. A new block that is processed without an error and has difficulty becomes the current block;
  the total difficulty grows by its own and its uncles', the number by one, after its transactions it passed
  \<open>ValidateBlock\<close>, and announcing it to the peers is the last thing that happens.\<close>

theorem ProcessBlock_accepts:
  assumes "ProcessBlock P r parent block dontReact sm w = Inr (None, sm', w', evs)"
    and "Block_Hash (penv P) block w = Inr hash" "\<not> HasBlock hash w"
  shows "if 0 < block_difficulty block
    then CurrentBlock (bc sm') = Some block \<and> TD (bc sm') = TD (bc sm) + block_difficulty block \<and>
      LastBlockNumber (bc sm') = LastBlockNumber (bc sm) + 1 \<and>
      (\<exists>rs valid evs1 w1 w2. ApplyTransactions P r parent (transactions block) w = Inr (rs, valid, w1, evs1) \<and>
        ValidateBlock (penv P) block (bc sm) w1 = Inr (None, w2)) \<and> (\<exists>v. last evs = BroadcastBlock v)
    else sm' = sm"
proof -
  from assms obtain w1 where "ProcessBlock_body P r parent block dontReact sm w = Inr (None, sm', w1, evs)"
    by (auto simp: ProcessBlock_def rbind_Inr_iff split: if_split_asm)
  then show ?thesis
  proof (cases rule: ProcessBlock_body_cases)
    case (accept rs valid ev1 w1 w1' w2 w2' chain p v w3 w3')
    have c: "CurrentBlock chain = Some block"
      "TD chain = TD (bc sm) + block_difficulty block" "LastBlockNumber chain = LastBlockNumber (bc sm) + 1"
      by (rule Chain_Add_parts [OF accept(5)], simp)+
    have "\<exists>rs valid evs1 w1 w2. ApplyTransactions P r parent (transactions block) w = Inr (rs, valid, w1, evs1) \<and>
        ValidateBlock (penv P) block (bc sm) w1 = Inr (None, w2)" using accept(3,4) by blast
    moreover have "\<exists>v. last evs = BroadcastBlock v" using accept(8) by blast
    ultimately show ?thesis using accept(2) c by (simp only: accept(6)) simp
  qed auto
qed

text \<open>A world that knows the parent of the demonstration block.\<close>

definition demo_world2 :: World where
  "demo_world2 = demo_world\<lparr>db := db_Put (replicate 32 1) (Encode (VList [])) (db demo_world)\<rparr>"

definition demo_next :: Block where
  "demo_next = demo_block\<lparr>hd_Time := 200, transactions := [], receipts := []\<rparr>"

text \<open>The worlds that block runs through, stage by stage.\<close>

definition res_or :: "'a \<Rightarrow> 'a res \<Rightarrow> 'a" where
  "res_or d r = (case r of Inr x \<Rightarrow> x | Inl e \<Rightarrow> d)"

lemma res_or_Inr: "(case r of Inr x \<Rightarrow> True | Inl e \<Rightarrow> False) \<Longrightarrow> r = Inr (res_or d r)"
  by (auto simp: res_or_def split: sum.splits)

definition demo_validated :: World where
  "demo_validated = snd (res_or (None, demo_world) (ValidateBlock const_env demo_next demo_chain demo_world2))"

definition demo_rewarded :: World where
  "demo_rewarded = res_or demo_world (AccumelateRewards const_env 0 demo_next demo_validated)"

definition demo_synced :: World where
  "demo_synced = res_or demo_world (State_Sync 50 0 (snd (SetTotalDifficulty 2048 demo_chain demo_rewarded)))"

definition demo_added :: "BlockChain \<times> World" where
  "demo_added = res_or (demo_chain, demo_world) (Chain_Add const_env demo_next (demo_chain\<lparr>TD := 2048\<rparr>) demo_synced)"

definition demo_reset :: World where
  "demo_reset = (case deref 0 (snd demo_added) of
     Inr s \<Rightarrow> put_state 0 (s\<lparr>manifest := Manifest_Reset (manifest s)\<rparr>) (snd demo_added) | Inl e \<Rightarrow> demo_world)"

lemma demo_validated: "ValidateBlock const_env demo_next demo_chain demo_world2 = Inr (None, demo_validated)"
proof -
  have "(case ValidateBlock const_env demo_next demo_chain demo_world2 of Inr (e, w) \<Rightarrow> e = None | Inl e \<Rightarrow> False)"
    by code_simp
  then show ?thesis by (auto simp: demo_validated_def res_or_def split: sum.splits)
qed

lemma demo_rewarded: "AccumelateRewards const_env 0 demo_next demo_validated = Inr demo_rewarded"
  unfolding demo_rewarded_def by (rule res_or_Inr) code_simp

lemma demo_synced: "State_Sync 50 0 (snd (SetTotalDifficulty 2048 demo_chain demo_rewarded)) = Inr demo_synced"
  unfolding demo_synced_def by (rule res_or_Inr) code_simp

lemma demo_added: "Chain_Add const_env demo_next (demo_chain\<lparr>TD := 2048\<rparr>) demo_synced = Inr demo_added"
  unfolding demo_added_def by (rule res_or_Inr) code_simp

lemma demo_rest:
  "(case deref 0 demo_rewarded of Inr x \<Rightarrow> True | Inl e \<Rightarrow> False)"
  "(case deref 0 (snd demo_added) of Inr x \<Rightarrow> True | Inl e \<Rightarrow> False)"
  "(case notifyChanges 0 (snd demo_added) of Inr x \<Rightarrow> True | Inl e \<Rightarrow> False)"
  "(case Block_Value demo_next demo_reset of Inr x \<Rightarrow> True | Inl e \<Rightarrow> False)"
  "(case State_Reset 50 0 demo_reset of Inr x \<Rightarrow> True | Inl e \<Rightarrow> False)"
  "HasBlock (replicate 32 1) demo_world2" "\<not> HasBlock (replicate 32 0) demo_world2"
  by code_simp+

lemma demo_block_run:
  "\<exists>sm' w' evs. ProcessBlock demo_proc 0 demo_block demo_next False demo_manager demo_world2 = Inr (None, sm', w', evs)"
proof -
  have hash: "Block_Hash const_env demo_next demo_world2 = Inr (replicate 32 0)"
    by (simp add: demo_next_def Block_Hash_def Block_Value_def header_def State_Root_def deref_def
        demo_world2_def demo_world_def NewState_def demo_block_def rlpUncles_def const_env_def)
  have m: "bc demo_manager = demo_chain" "txpool demo_manager = NewTxPool" "penv demo_proc = const_env"
    "walk const_env = 50" "transactions demo_next = []" "hd_state demo_next = 0" "hd_PrevHash demo_next = replicate 32 1"
    "TD demo_chain = 0"
    by (simp_all add: demo_manager_def demo_proc_def const_env_def demo_env_def demo_next_def demo_block_def demo_chain_def)
  have d: "block_difficulty demo_next = 2048" by (simp add: block_difficulty_def demo_next_def demo_block_def)
  have t: "fst (SetTotalDifficulty 2048 demo_chain w) = demo_chain\<lparr>TD := 2048\<rparr>" for w
    by (simp add: SetTotalDifficulty_def)
  obtain s1 s2 ch v wz where r: "deref 0 demo_rewarded = Inr s1" "deref 0 (snd demo_added) = Inr s2"
    "notifyChanges 0 (snd demo_added) = Inr ch" "Block_Value demo_next demo_reset = Inr v" "State_Reset 50 0 demo_reset = Inr wz"
    using demo_rest by (auto split: sum.splits)
  then have "put_state 0 (s2\<lparr>manifest := Manifest_Reset (manifest s2)\<rparr>) (snd demo_added) = demo_reset"
    by (simp add: demo_reset_def)
  then have "ProcessBlock_body demo_proc 0 demo_block demo_next False demo_manager demo_world2 =
      Inr (None, demo_manager\<lparr>bc := fst demo_added, txpool := NewTxPool\<rparr>, demo_reset,
        ch @ [PostNewBlock demo_next, BroadcastBlock v])"
    using r demo_rest(6) demo_added
    by (simp add: t ProcessBlock_body_def Let_def m ApplyTransactions_def demo_validated demo_rewarded State_Cmp_def Trie_Cmp_def
        Cmp_def CalculateTD_cases d demo_synced case_prod_unfold RemoveInvalid_def NewTxPool_def)
  then show ?thesis using hash demo_rest(7) r(5) by (simp add: ProcessBlock_def m)
qed

theorem ProcessBlock_accepts_witness:
  "\<exists>sm' w' evs. ProcessBlock demo_proc 0 demo_block demo_next False demo_manager demo_world2 = Inr (None, sm', w', evs) \<and>
     CurrentBlock (bc sm') = Some demo_next \<and> TD (bc sm') = 2048"
proof -
  obtain sm' w' evs where p: "ProcessBlock demo_proc 0 demo_block demo_next False demo_manager demo_world2 =
      Inr (None, sm', w', evs)" using demo_block_run by blast
  have hash: "Block_Hash (penv demo_proc) demo_next demo_world2 = Inr (replicate 32 0)"
    by (simp add: demo_proc_def demo_next_def Block_Hash_def Block_Value_def header_def State_Root_def deref_def
        demo_world2_def demo_world_def NewState_def demo_block_def rlpUncles_def const_env_def)
  have "block_difficulty demo_next = 2048" by (simp add: block_difficulty_def demo_next_def demo_block_def)
  moreover have "TD (bc demo_manager) = 0" by (simp add: demo_manager_def demo_chain_def)
  ultimately show ?thesis using ProcessBlock_accepts [OF p hash demo_rest(7)] p by auto
qed

end
