(* ===== verification/Merkle.thy ===== *)
theory Merkle
  imports Rlp_Correct Compact
begin

text \<open>
  The specification of the trie: a Patricia tree over nibble keys as a datatype, the map it stands
  for, the insertion that the code is supposed to make, and the Merkle item of a tree, which is
  what a reference to it is in the database. \<open>Trie_Correct\<close> relates the code to it.
\<close>

section \<open>Trees\<close>

datatype ptree = Hole | Val bytes | Ext "nat list" ptree | Branch "ptree list"

fun is_Val :: "ptree \<Rightarrow> bool" where
  "is_Val (Val b) = True" | "is_Val _ = False"

fun is_node :: "ptree \<Rightarrow> bool" where
  "is_node (Ext k t) = True" | "is_node (Branch ts) = True" | "is_node _ = False"

fun is_Branch :: "ptree \<Rightarrow> bool" where
  "is_Branch (Branch ts) = True" | "is_Branch _ = False"

text \<open>Values that survive storage, and keys that a string of at most 400 bytes can lead to.\<close>

definition val_ok :: "bytes \<Rightarrow> bool" where
  "val_ok b \<longleftrightarrow> b \<noteq> [] \<and> b \<noteq> [0] \<and> length b \<le> 60000"

text \<open>
  Well-formed: a complete key leads to a value, an incomplete one to a branch, the
  seventeenth slot of a branch holds the value of the key that ends there, and no branch has
  fewer than two occupied slots.
\<close>

fun wft :: "ptree \<Rightarrow> bool" where
  "wft Hole = True"
| "wft (Val b) = val_ok b"
| "wft (Ext k t) = (is_key k \<and> length k \<le> 801 \<and> wft t \<and> (if last k = 16 then is_Val t else is_Branch t))"
| "wft (Branch ts) =
     (length ts = 17 \<and> list_all wft ts \<and> list_all (\<lambda>t. \<not> is_Val t) (butlast ts) \<and> \<not> is_node (last ts) \<and>
      2 \<le> length (filter (\<lambda>t. t \<noteq> Hole) ts))"

lemma wf_Branch_nth:
  assumes "wft (Branch ts)"
  shows "length ts = 17" "i < 17 \<Longrightarrow> wft (ts ! i)" "i < 16 \<Longrightarrow> \<not> is_Val (ts ! i)" "\<not> is_node (ts ! 16)"
proof -
  from assms show len: "length ts = 17" by simp
  from assms len show "i < 17 \<Longrightarrow> wft (ts ! i)" by (simp add: list_all_length)
  have "i < 16 \<Longrightarrow> butlast ts ! i = ts ! i" using len by (simp add: nth_butlast)
  with assms len show "i < 16 \<Longrightarrow> \<not> is_Val (ts ! i)" by (auto simp: list_all_length)
  have "last ts = ts ! 16" using len by (subst last_conv_nth) auto
  with assms show "\<not> is_node (ts ! 16)" by simp
qed

text \<open>The value of a key; the empty rest of a key is asked at a value.\<close>

function (sequential) look :: "ptree \<Rightarrow> nat list \<Rightarrow> bytes option" where
  "look (Val b) [] = Some b"
| "look (Ext k t) key = (if take (length k) key = k then look t (drop (length k) key) else None)"
| "look (Branch ts) (n # key) = look (ts ! n) key"
| "look _ _ = None"
  by pat_completeness auto
termination
  by (relation "measures [\<lambda>(t, key). length key, \<lambda>(t, key). size t]") auto

lemma look_Hole [simp]: "look Hole key = None"
  by (cases key) auto

text \<open>How far two keys agree.\<close>

fun lcp :: "nat list \<Rightarrow> nat list \<Rightarrow> nat" where
  "lcp (x # xs) (y # ys) = (if x = y then Suc (lcp xs ys) else 0)"
| "lcp _ _ = 0"

lemma lcp_le: "lcp xs ys \<le> length xs" "lcp xs ys \<le> length ys"
  by (induction xs ys rule: lcp.induct) auto

lemma take_lcp: "take (lcp xs ys) xs = take (lcp xs ys) ys"
  by (induction xs ys rule: lcp.induct) auto

lemma lcp_mismatch: "lcp xs ys < length xs \<Longrightarrow> lcp xs ys < length ys \<Longrightarrow> xs ! lcp xs ys \<noteq> ys ! lcp xs ys"
  by (induction xs ys rule: lcp.induct) (auto split: if_splits)

section \<open>Insertion\<close>

text \<open>An extension by the empty key is the tree itself.\<close>

definition mkext :: "nat list \<Rightarrow> ptree \<Rightarrow> ptree" where
  "mkext k t = (if k = [] then t else Ext k t)"

text \<open>A branch at the first nibble where a stored key \<open>k\<close> and a new \<open>key\<close> differ.\<close>

definition split_at :: "nat \<Rightarrow> nat list \<Rightarrow> ptree \<Rightarrow> nat list \<Rightarrow> bytes \<Rightarrow> ptree" where
  "split_at m k t key v =
     Branch ((replicate 17 Hole)[k ! m := mkext (drop (m + 1) k) t, key ! m := mkext (drop (m + 1) key) (Val v)])"

function (sequential) ins :: "ptree \<Rightarrow> nat list \<Rightarrow> bytes \<Rightarrow> ptree" where
  "ins t [] v = Val v"
| "ins (Ext k t) key v =
     (if k = key then Ext key (Val v)
      else
        let m = lcp key k in
        mkext (take m key) (if m = length k then ins t (drop m key) v else split_at m k t key v))"
| "ins (Branch ts) (n # key) v = Branch (ts[n := ins (ts ! n) key v])"
| "ins t key v = Ext key (Val v)"
  by pat_completeness auto
termination
  by (relation "measures [\<lambda>(t, key, v). length key, \<lambda>(t, key, v). size t]") auto

section \<open>Complete keys\<close>

lemma terminated_Cons: "terminated (n # key) \<longleftrightarrow> (if key = [] then n = 16 else n < 16 \<and> terminated key)"
  by (auto simp: terminated_def)

lemma not_terminated_Nil [simp]: "\<not> terminated []"
  by (simp add: terminated_def)

lemma terminated_drop: "terminated key \<Longrightarrow> m < length key \<Longrightarrow> terminated (drop m key)"
proof (induction m arbitrary: key)
  case (Suc m)
  from Suc.prems obtain n rest where k: "key = n # rest" by (cases key) auto
  with Suc.prems have "rest \<noteq> []" by auto
  with Suc k show ?case by (simp add: terminated_Cons)
qed simp

lemma terminated_drop': "terminated key \<Longrightarrow> drop m key = [] \<or> terminated (drop m key)"
  by (cases "m < length key") (auto simp: terminated_drop not_less)

lemma terminated_nth: "terminated key \<Longrightarrow> i < length key \<Longrightarrow> key ! i = 16 \<longleftrightarrow> Suc i = length key"
proof (induction i arbitrary: key)
  case 0
  then show ?case by (cases key) (auto simp: terminated_Cons split: if_splits)
next
  case (Suc i)
  from Suc.prems obtain n rest where k: "key = n # rest" by (cases key) auto
  with Suc.prems have "rest \<noteq> []" by auto
  with Suc k show ?case by (simp add: terminated_Cons)
qed

lemma terminated_nth_le: "terminated key \<Longrightarrow> i < length key \<Longrightarrow> key ! i \<le> 16"
  by (induction key arbitrary: i) (auto simp: terminated_Cons nth_Cons' split: if_splits)

text \<open>No complete key is the beginning of another one.\<close>

lemma terminated_prefix: "terminated a \<Longrightarrow> terminated b \<Longrightarrow> take (length a) b = a \<Longrightarrow> a = b"
proof (induction a arbitrary: b)
  case (Cons x a)
  then obtain rest where "b = x # rest" by (cases b) auto
  with Cons show ?case by (auto simp: terminated_Cons split: if_splits)
qed simp

lemma is_key_terminated: "is_key k \<Longrightarrow> last k = 16 \<Longrightarrow> terminated k"
  by (simp add: is_key_def terminated_def)

lemma is_key_nth_lt: "is_key k \<Longrightarrow> last k \<noteq> 16 \<Longrightarrow> i < length k \<Longrightarrow> k ! i < 16"
proof (cases "Suc i = length k")
  case True
  assume "is_key k" "last k \<noteq> 16"
  then have "last k < 16" by (simp add: is_key_def)
  then show ?thesis using True \<open>is_key k\<close> by (metis diff_Suc_1 is_key_def last_conv_nth)
next
  case False
  assume "is_key k" "i < length k"
  then have "i < length (butlast k)" using False by simp
  then show ?thesis using \<open>is_key k\<close> by (metis is_key_def nth_butlast nth_mem)
qed

lemma is_key_drop: "is_key k \<Longrightarrow> m < length k \<Longrightarrow> is_key (drop m k)"
  by (auto simp: is_key_def butlast_drop dest: in_set_dropD)

lemma is_key_take:
  assumes "terminated key" "m < length key" "0 < m"
  shows "is_key (take m key)" "last (take m key) \<noteq> 16"
proof -
  have lt: "\<forall>n \<in> set (take m key). n < 16"
  proof
    fix n
    assume "n \<in> set (take m key)"
    then obtain i where i: "i < m" "n = key ! i" using assms(2) by (auto simp: in_set_conv_nth)
    then have "key ! i \<le> 16" "key ! i \<noteq> 16"
      using terminated_nth_le [OF assms(1), of i] terminated_nth [OF assms(1), of i] assms(2) by simp_all
    with i show "n < 16" by simp
  qed
  have ne: "take m key \<noteq> []" using assms by auto
  then have last: "last (take m key) < 16" using bspec [OF lt last_in_set] by blast
  then show "last (take m key) \<noteq> 16" by (rule less_imp_neq)
  have "\<forall>n \<in> set (butlast (take m key)). n < 16" using lt by (auto dest: in_set_butlastD)
  then show "is_key (take m key)" using ne less_imp_le [OF last] unfolding is_key_def by blast
qed

text \<open>What may be asked of, and inserted into, a tree: the empty rest of a key at a value, a complete
  key at a node.\<close>

definition key_for :: "ptree \<Rightarrow> nat list \<Rightarrow> bool" where
  "key_for t key \<longleftrightarrow> (if key = [] then \<not> is_node t else terminated key \<and> \<not> is_Val t)"

text \<open>Two keys for an extension part before the end of the new key.\<close>

lemma lcp_lt:
  assumes "is_key k" "terminated key" "k \<noteq> key"
  shows "lcp key k < length key"
proof (rule ccontr)
  assume "\<not> lcp key k < length key"
  then have all: "lcp key k = length key" using lcp_le(1) [of key k] by simp
  then have pre: "take (length key) k = key" using take_lcp [of key k] by simp
  have len: "length key \<le> length k" using all lcp_le(2) [of key k] by simp
  show False
  proof (cases "last k = 16")
    case True
    then show False using terminated_prefix [OF assms(2) is_key_terminated [OF assms(1)] pre] assms(3) by simp
  next
    case False
    have "key ! (length key - 1) = 16" using terminated_nth [OF assms(2), of "length key - 1"] assms(2) by (cases key) auto
    moreover have "key ! (length key - 1) = k ! (length key - 1)"
      using pre assms(2) by (metis One_nat_def Suc_pred length_greater_0_conv lessI not_terminated_Nil nth_take)
    moreover have "k ! (length key - 1) < 16" using is_key_nth_lt [OF assms(1) False] len assms(2) by (cases key) auto
    ultimately show False by simp
  qed
qed

lemma lcp_full:
  assumes "is_key k" "terminated key" "k \<noteq> key" "lcp key k = length k"
  shows "last k \<noteq> 16" "take (length k) key = k" "length k < length key"
proof -
  show pre: "take (length k) key = k" using take_lcp [of key k] assms(4) by simp
  show "length k < length key" using lcp_lt [OF assms(1-3)] assms(4) by simp
  show "last k \<noteq> 16"
  proof
    assume "last k = 16"
    from terminated_prefix [OF is_key_terminated [OF assms(1) this] assms(2) pre] assms(3) show False by simp
  qed
qed

section \<open>Insertion is map update\<close>

lemma look_mkext: "look (mkext k t) key = (if take (length k) key = k then look t (drop (length k) key) else None)"
  by (simp add: mkext_def)

lemma take_Suc_drop: "m < length xs \<Longrightarrow> xs = take m xs @ xs ! m # drop (m + 1) xs"
  by (simp add: id_take_nth_drop)

lemma is_key_nth_le: "is_key k \<Longrightarrow> i < length k \<Longrightarrow> k ! i \<le> 16"
  using is_key_nth_lt [of k i] terminated_nth_le [OF is_key_terminated, of k i] by (cases "last k = 16") fastforce+

text \<open>The rest of a complete key behind a common beginning.\<close>

lemma common_beginning:
  assumes "terminated key" "terminated key'" "m < length key" "take m key' = take m key"
  shows "m < length key'"
proof (rule ccontr)
  assume "\<not> m < length key'"
  then have "take (length key') key = key'"
    using arg_cong [OF assms(4), of "take (length key')"] assms(3) by (simp add: min_def)
  then have "key' = key" by (rule terminated_prefix [OF assms(2,1)])
  with assms(3) \<open>\<not> m < length key'\<close> show False by simp
qed

lemma look_split:
  assumes key: "terminated key" "terminated key'" and k: "is_key k" "k \<noteq> key" and m: "m = lcp key k" "m < length k"
  shows "look (mkext (take m key) (split_at m k t key v)) key' = (if key' = key then Some v else look (Ext k t) key')"
proof -
  have mk: "m < length key" using lcp_lt [OF k(1) key(1) k(2)] m by simp
  have pre: "take m k = take m key" using take_lcp [of key k] m by simp
  have ne: "key ! m \<noteq> k ! m" using lcp_mismatch [of key k] m mk by simp
  have le: "key ! m < 17" "k ! m < 17" using terminated_nth_le [OF key(1) mk] is_key_nth_le [OF k(1) m(2)] by simp_all
  note ks = take_Suc_drop [OF mk] take_Suc_drop [OF m(2)]
  show ?thesis
  proof (cases "take m key' = take m key")
    case False
    then have "key' \<noteq> key" "take (length k) key' \<noteq> k"
      using pre m(2) by (auto simp: min_def dest: arg_cong [of _ _ "take m"])
    with False mk show ?thesis by (simp add: look_mkext min_def)
  next
    case True
    have m': "m < length key'" by (rule common_beginning [OF key mk True])
    define c r where "c = key' ! m" and "r = drop (m + 1) key'"
    have key': "key' = take m key @ c # r" using take_Suc_drop [OF m'] True by (simp add: c_def r_def)
    have c: "c < 17" using terminated_nth_le [OF key(2) m'] by (simp add: c_def)
    have len: "length (take m key) = m" using mk by simp
    have new: "key' = key \<longleftrightarrow> c = key ! m \<and> r = drop (m + 1) key"
      by (subst key', subst ks(1)) simp
    have old: "take (length k) key' = k \<longleftrightarrow> c = k ! m \<and> take (length k - (m + 1)) r = drop (m + 1) k"
    proof -
      have "take (length k) key' = take m key @ take (length k - m) (c # r)"
        using m(2) mk by (subst key') (simp add: min_def)
      also have "take (length k - m) (c # r) = c # take (length k - (m + 1)) r"
        using Suc_diff_Suc [OF m(2)] by (metis Suc_eq_plus1 take_Suc_Cons)
      finally show ?thesis by (subst (2) ks(2)) (simp add: pre)
    qed
    have "look (mkext (take m key) (split_at m k t key v)) key' =
        look ((replicate 17 Hole)[k ! m := mkext (drop (m + 1) k) t, key ! m := mkext (drop (m + 1) key) (Val v)] ! c) r"
      using mk by (simp add: look_mkext key' split_at_def min_def)
    also have "\<dots> = (if key' = key then Some v else look (Ext k t) key')"
    proof (cases "c = key ! m")
      case True
      have "drop (m + 1) key = [] \<or> terminated (drop (m + 1) key)" "r = [] \<or> terminated r"
        using terminated_drop' [OF key(1), of "m + 1"] terminated_drop' [OF key(2), of "m + 1"] r_def
        by simp_all
      then have "take (length (drop (m + 1) key)) r = drop (m + 1) key \<and> drop (length (drop (m + 1) key)) r = [] \<longleftrightarrow>
          r = drop (m + 1) key"
        by auto
      then show ?thesis using True ne le old new by (auto simp: look_mkext neq_Nil_conv elim: look.elims)
    next
      case False
      show ?thesis
      proof (cases "c = k ! m")
        case True
        have "drop (length k) key' = drop (length k - (m + 1)) r"
          using m(2) by (cases k) (simp_all add: r_def)
        with True False le old new show ?thesis by (simp add: look_mkext)
      next
        case other: False
        with False c old new show ?thesis by simp
      qed
    qed
    finally show ?thesis .
  qed
qed

lemmas ins_induct = ins.induct [case_names 1 2 3 4 5]

lemma ins_node [simp]: "key \<noteq> [] \<Longrightarrow> is_node (ins t key v)"
  by (induction t key v rule: ins.induct) (auto simp: mkext_def split_at_def Let_def)

lemma Ext_full_drop:
  assumes "wft (Ext k t)" "terminated key" "k \<noteq> key" "lcp key k = length k"
  shows "is_Branch t" "terminated (drop (length k) key)" "key_for t (drop (length k) key)"
proof -
  note f = lcp_full [OF _ assms(2-4)]
  have "is_key k" using assms(1) by simp
  from f [OF this] show b: "is_Branch t" using assms(1) by simp
  show d: "terminated (drop (length k) key)" using terminated_drop [OF assms(2)] f(3) [OF \<open>is_key k\<close>] by simp
  from b d show "key_for t (drop (length k) key)" by (cases t) (auto simp: key_for_def)
qed

lemma key_for_Branch:
  "wft (Branch ts) \<Longrightarrow> key_for (Branch ts) (n # key) \<Longrightarrow> n < 17 \<and> wft (ts ! n) \<and> key_for (ts ! n) key"
  using wf_Branch_nth(2,3) [of ts n] wf_Branch_nth(4) [of ts] by (cases "key = []") (auto simp: key_for_def terminated_Cons)

text \<open>The result of an insertion under one key is asked under another.\<close>

lemma look_ins:
  "wft t \<Longrightarrow> key_for t key \<Longrightarrow> key_for t key' \<Longrightarrow> look (ins t key v) key' = (if key' = key then Some v else look t key')"
proof (induction t key v arbitrary: key' rule: ins_induct)
  case (1 t v)
  then show ?case by (cases t) (auto simp: key_for_def neq_Nil_conv split: if_splits)
next
  case (2 k t n key v)
  let ?key = "n # key"
  have key: "terminated ?key" "terminated key'" using 2 by (auto simp: key_for_def split: if_splits)
  show ?case
  proof (cases "k = ?key")
    case True
    then show ?thesis using terminated_prefix [OF key] by (cases "drop (length k) key'") auto
  next
    case False
    define m where "m = lcp ?key k"
    have k: "is_key k" using "2.prems" by simp
    show ?thesis
    proof (cases "m = length k")
      case True
      note f = Ext_full_drop [OF "2.prems"(1) key(1) False True [unfolded m_def]]
      have pre: "take m ?key = k" using lcp_full(2) [OF k key(1) False] True by (simp add: m_def)
      have "look (ins t (drop m ?key) v) (drop m key') = (if drop m key' = drop m ?key then Some v else look t (drop m key'))"
        if p: "take (length k) key' = k"
      proof -
        have "length k < length key'"
          using common_beginning [OF key, of "length k"] p pre True lcp_full(3) [OF k key(1) False] by (simp add: m_def)
        then have "key_for t (drop m key')"
          using terminated_drop [OF key(2)] f(1) True by (cases t) (auto simp: key_for_def)
        then show ?thesis using "2.IH" [OF False m_def True] "2.prems"(1) f(3) True by (auto simp: m_def)
      qed
      moreover have "key' = ?key \<longleftrightarrow> take (length k) key' = k \<and> drop m key' = drop m ?key"
        using pre True by (metis append_take_drop_id)
      ultimately show ?thesis
        using True False pre by (auto simp: look_mkext Let_def m_def [symmetric])
    next
      case f: False
      then have "m < length k" using lcp_le(2) [of ?key k] by (simp add: m_def)
      with look_split [OF key k False m_def this] False f show ?thesis by (simp add: Let_def m_def [symmetric])
    qed
  qed
next
  case (3 ts n key v)
  from "3.prems" obtain n' r where k': "key' = n' # r" by (cases key') (auto simp: key_for_def)
  have n: "n < 17 \<and> wft (ts ! n) \<and> key_for (ts ! n) key" using "3.prems" by (intro key_for_Branch)
  have n': "n' < 17 \<and> wft (ts ! n') \<and> key_for (ts ! n') r" using "3.prems" k' by (intro key_for_Branch) simp_all
  have len: "length ts = 17" using "3.prems" by simp
  show ?case
  proof (cases "n' = n")
    case True
    with "3.IH" [of r] n n' len k' show ?thesis by simp
  qed (use n n' len k' in simp)
next
  case (4 n key v)
  then have key: "terminated (n # key)" "key' = [] \<or> terminated key'" by (auto simp: key_for_def split: if_splits)
  show ?case
  proof (cases "key' = []")
    case False
    with key have "terminated key'" by simp
    from terminated_prefix [OF key(1) this] show ?thesis by (cases "drop (length (n # key)) key'") auto
  qed simp
next
  case (5 b n key v)
  then show ?case by (simp add: key_for_def)
qed

lemma occupied_update:
  assumes "x \<noteq> Hole"
  shows "length (filter (\<lambda>t. t \<noteq> Hole) ts) \<le> length (filter (\<lambda>t. t \<noteq> Hole) (ts[n := x]))"
  unfolding length_filter_conv_card using assms
  by (intro card_mono subsetI) (simp_all, metis nth_list_update_eq nth_list_update_neq)

lemma occupied_two:
  assumes "i < length ts" "j < length ts" "i \<noteq> j" "ts ! i \<noteq> Hole" "ts ! j \<noteq> Hole"
  shows "2 \<le> length (filter (\<lambda>t. t \<noteq> Hole) ts)"
proof -
  have "card {i, j} \<le> card {i. i < length ts \<and> ts ! i \<noteq> Hole}" using assms by (intro card_mono) auto
  with assms(3) show ?thesis by (simp add: length_filter_conv_card)
qed

lemma wf_BranchI:
  assumes "length ts = 17" "\<And>i. i < 17 \<Longrightarrow> wft (ts ! i)" "\<And>i. i < 16 \<Longrightarrow> \<not> is_Val (ts ! i)" "\<not> is_node (ts ! 16)"
    and "2 \<le> length (filter (\<lambda>t. t \<noteq> Hole) ts)"
  shows "wft (Branch ts)"
proof -
  have "last ts = ts ! 16" using assms(1) by (subst last_conv_nth) auto
  then show ?thesis using assms by (simp add: list_all_length nth_butlast)
qed

lemma mkext_slot:
  assumes "wft (Ext k t)" "m < length k"
  shows "wft (mkext (drop (m + 1) k) t)" "mkext (drop (m + 1) k) t \<noteq> Hole"
    "k ! m < 16 \<Longrightarrow> \<not> is_Val (mkext (drop (m + 1) k) t)" "k ! m = 16 \<Longrightarrow> \<not> is_node (mkext (drop (m + 1) k) t)"
proof -
  have k: "is_key k" "length k \<le> 801" "wft t" "if last k = 16 then is_Val t else is_Branch t" using assms(1) by simp_all
  have "wft (mkext (drop (m + 1) k) t) \<and> mkext (drop (m + 1) k) t \<noteq> Hole \<and>
      (k ! m < 16 \<longrightarrow> \<not> is_Val (mkext (drop (m + 1) k) t)) \<and> (k ! m = 16 \<longrightarrow> \<not> is_node (mkext (drop (m + 1) k) t))"
  proof (cases "m + 1 < length k")
    case True
    then have "is_key (drop (m + 1) k)" using k(1) by (intro is_key_drop)
    moreover have "k ! m \<noteq> 16"
      using True is_key_nth_lt [OF k(1), of m] terminated_nth [OF is_key_terminated [OF k(1)], of m] by (cases "last k = 16") auto
    ultimately show ?thesis using k True by (auto simp: mkext_def)
  next
    case False
    then have m: "m + 1 = length k" using assms(2) by simp
    then have "k ! m = last k" using assms(2) by (metis add_diff_cancel_right' last_conv_nth length_0_conv not_less_zero)
    then show ?thesis using k m by (cases t) (auto simp: mkext_def split: if_splits)
  qed
  then show "wft (mkext (drop (m + 1) k) t)" "mkext (drop (m + 1) k) t \<noteq> Hole"
    "k ! m < 16 \<Longrightarrow> \<not> is_Val (mkext (drop (m + 1) k) t)" "k ! m = 16 \<Longrightarrow> \<not> is_node (mkext (drop (m + 1) k) t)"
    by blast+
qed

lemma wf_split_at:
  assumes "wft (Ext k t)" "wft (Ext key (Val v))" "m < length k" "m < length key" "k ! m \<noteq> key ! m" "terminated key"
  shows "wft (split_at m k t key v)"
proof -
  let ?ts = "(replicate 17 Hole)[k ! m := mkext (drop (m + 1) k) t, key ! m := mkext (drop (m + 1) key) (Val v)]"
  have le: "k ! m \<le> 16" "key ! m \<le> 16"
    using is_key_nth_le [of k m] is_key_nth_le [of key m] assms by auto
  note a = mkext_slot [OF assms(1,3)] and b = mkext_slot [OF assms(2,4)]
  have nth: "?ts ! i = (if i = key ! m then mkext (drop (m + 1) key) (Val v) else if i = k ! m then mkext (drop (m + 1) k) t else Hole)"
    if "i < 17" for i using le that by (auto simp: nth_list_update)
  have "wft (Branch ?ts)"
  proof (rule wf_BranchI)
    show "wft (?ts ! i)" if "i < 17" for i unfolding nth [OF that] using a(1) b(1) by simp
    show "\<not> is_Val (?ts ! i)" if "i < 16" for i
    proof -
      from that have "i < 17" by simp
      from nth [OF this] show ?thesis using a(3) b(3) that by simp
    qed
    show "\<not> is_node (?ts ! 16)" using nth [of 16] a(4) b(4) by simp
    show "2 \<le> length (filter (\<lambda>t. t \<noteq> Hole) ?ts)"
      by (rule occupied_two [of "k ! m" _ "key ! m"]) (use le nth a(2) b(2) assms(5) in simp_all)
  qed simp
  then show ?thesis by (simp add: split_at_def)
qed

lemma is_Branch_ins: "key \<noteq> [] \<Longrightarrow> is_Branch t \<Longrightarrow> is_Branch (ins t key v)"
  by (cases t; cases key) simp_all

lemma wf_ins: "wft t \<Longrightarrow> key_for t key \<Longrightarrow> length key \<le> 801 \<Longrightarrow> val_ok v \<Longrightarrow> wft (ins t key v)"
proof (induction t key v rule: ins.induct)
  case (2 k t n key v)
  let ?key = "n # key"
  have key: "terminated ?key" using 2 by (auto simp: key_for_def)
  have new: "wft (Ext ?key (Val v))" using key "2.prems" by (auto simp: terminated_def)
  show ?case
  proof (cases "k = ?key")
    case True
    with new show ?thesis by (simp only: ins.simps refl if_True)
  next
    case False
    define m where "m = lcp ?key k"
    have k: "is_key k" using "2.prems" by simp
    have mk: "m < length ?key" using lcp_lt [OF k key False] by (simp add: m_def)
    have ext: "wft (mkext (take m ?key) b)" if "wft b" "is_Branch b" for b
      using that is_key_take [OF key mk] "2.prems"(3) by (cases "m = 0") (auto simp: mkext_def)
    show ?thesis
    proof (cases "m = length k")
      case True
      note f = Ext_full_drop [OF "2.prems"(1) key False True [unfolded m_def]]
      have "drop m ?key \<noteq> []" using mk by simp
      moreover have "wft (ins t (drop m ?key) v)"
        using "2.IH" [OF False m_def True] "2.prems" f(3) True by (auto simp: m_def)
      ultimately show ?thesis using True False ext [OF _ is_Branch_ins] f(1) by (simp add: Let_def m_def [symmetric])
    next
      case f: False
      then have "m < length k" using lcp_le(2) [of ?key k] by (simp add: m_def)
      moreover from this have "k ! m \<noteq> ?key ! m" using lcp_mismatch [of ?key k] mk by (simp add: m_def)
      ultimately have "wft (split_at m k t ?key v)" using wf_split_at [OF "2.prems"(1) new _ mk _ key] by simp
      with ext f False show ?thesis by (simp add: Let_def m_def [symmetric] split_at_def)
    qed
  qed
next
  case (3 ts n key v)
  have n: "n < 17 \<and> wft (ts ! n) \<and> key_for (ts ! n) key" using "3.prems" by (intro key_for_Branch)
  then have w: "wft (ins (ts ! n) key v)" using "3.IH" "3.prems" by simp
  note b = wf_Branch_nth [OF "3.prems"(1)]
  have "terminated (n # key)" using "3.prems" by (simp add: key_for_def)
  then have c: "if key = [] then n = 16 else n < 16" by (simp add: terminated_Cons split: if_splits)
  have i: "ins (ts ! n) key v \<noteq> Hole" "is_Val (ins (ts ! n) key v) \<longleftrightarrow> key = []" "is_node (ins (ts ! n) key v) \<longleftrightarrow> key \<noteq> []"
    using ins_node [of key "ts ! n" v] by (cases key; cases "ins (ts ! n) key v"; simp)+
  have "wft (Branch (ts[n := ins (ts ! n) key v]))"
  proof (rule wf_BranchI)
    show "2 \<le> length (filter (\<lambda>t. t \<noteq> Hole) (ts[n := ins (ts ! n) key v]))"
      using occupied_update [OF i(1), of ts n] "3.prems"(1) by simp
  qed (use b w c i in \<open>auto simp: nth_list_update split: if_splits\<close>)
  then show ?case by simp
qed (auto simp: key_for_def terminated_def is_key_def)

section \<open>A tree is determined by its map\<close>

lemma terminated_append: "is_key k \<Longrightarrow> last k \<noteq> 16 \<Longrightarrow> terminated r \<Longrightarrow> terminated (k @ r)"
  using is_key_nth_lt [of k]
  by (auto simp: terminated_def butlast_append in_set_conv_nth dest: in_set_butlastD)

lemma key_for_append:
  assumes "wft (Ext k t)" "key_for t r"
  shows "key_for (Ext k t) (k @ r)"
proof (cases "last k = 16")
  case True
  with assms show ?thesis by (cases t) (auto simp: key_for_def is_key_terminated is_key_def split: if_splits)
next
  case False
  with assms show ?thesis by (cases t) (auto simp: key_for_def terminated_append split: if_splits)
qed

lemma key_for_slot:
  "wft (Branch ts) \<Longrightarrow> i < 17 \<Longrightarrow> key_for (ts ! i) r \<Longrightarrow> (i = 16 \<longrightarrow> r = []) \<Longrightarrow> (i < 16 \<longrightarrow> r \<noteq> []) \<Longrightarrow>
   key_for (Branch ts) (i # r)"
  by (cases "i = 16") (auto simp: key_for_def terminated_Cons)

lemma two_slots:
  assumes "wft (Branch ts)"
  obtains i j where "i < 17" "j < 17" "i \<noteq> j" "ts ! i \<noteq> Hole" "ts ! j \<noteq> Hole"
proof -
  have "2 \<le> card {i. i < length ts \<and> ts ! i \<noteq> Hole}" using assms unfolding wft.simps length_filter_conv_card by blast
  then obtain B where B: "B \<subseteq> {i. i < length ts \<and> ts ! i \<noteq> Hole}" "card B = 2"
    by (rule obtain_subset_with_card_n)
  then obtain i j where "B = {i, j}" "i \<noteq> j" by (auto simp: card_2_iff)
  with B have "i \<noteq> j" "{i, j} \<subseteq> {i. i < length ts \<and> ts ! i \<noteq> Hole}" by simp_all
  with assms show ?thesis by (intro that [of i j]) auto
qed

lemma key_for_kind: "t \<noteq> Hole \<Longrightarrow> key_for t r \<Longrightarrow> is_node t \<longleftrightarrow> r \<noteq> []"
  by (cases t) (auto simp: key_for_def split: if_splits)

lemma not_Val_node: "t \<noteq> Hole \<Longrightarrow> \<not> is_Val t \<longleftrightarrow> is_node t"
  by (cases t) auto

text \<open>Every tree but \<open>Hole\<close> holds a key, and every occupied slot of a branch holds one.\<close>

lemma holds_key: "wft t \<Longrightarrow> t \<noteq> Hole \<Longrightarrow> \<exists>key b. key_for t key \<and> look t key = Some b"
proof (induction t)
  case (Val b)
  then show ?case by (intro exI [of _ "[] :: nat list"]) (simp add: key_for_def)
next
  case (Ext k t)
  then have "t \<noteq> Hole" by (auto split: if_splits)
  with Ext obtain r b where "key_for t r" "look t r = Some b" by auto
  with key_for_append [OF Ext.prems(1)] show ?case by (intro exI [of _ "k @ r"]) auto
next
  case (Branch ts)
  from two_slots [OF Branch.prems(1)] obtain i where i: "i < 17" "ts ! i \<noteq> Hole" by metis
  with Branch wf_Branch_nth [OF Branch.prems(1)] obtain r b where r: "key_for (ts ! i) r" "look (ts ! i) r = Some b"
    by (metis nth_mem)
  have "(i = 16 \<longrightarrow> r = []) \<and> (i < 16 \<longrightarrow> r \<noteq> [])"
    using key_for_kind [OF i(2) r(1)] not_Val_node [OF i(2)] wf_Branch_nth(3,4) [OF Branch.prems(1)] by auto
  with key_for_slot [OF Branch.prems(1) i(1) r(1)] r(2) show ?case by (intro exI [of _ "i # r"]) auto
qed simp

lemma slot_key:
  assumes "wft (Branch ts)" "i < 17" "ts ! i \<noteq> Hole"
  obtains r b where "key_for (Branch ts) (i # r)" "look (Branch ts) (i # r) = Some b"
proof -
  obtain r b where r: "key_for (ts ! i) r" "look (ts ! i) r = Some b"
    using holds_key wf_Branch_nth(2) [OF assms(1,2)] assms(3) by blast
  have "(i = 16 \<longrightarrow> r = []) \<and> (i < 16 \<longrightarrow> r \<noteq> [])"
    using key_for_kind [OF assms(3) r(1)] not_Val_node [OF assms(3)] wf_Branch_nth(3,4) [OF assms(1)] by auto
  with key_for_slot [OF assms(1,2) r(1)] r(2) show ?thesis by (intro that [of r b]) auto
qed

text \<open>Two trees that can stand in the same place.\<close>

definition alike :: "ptree \<Rightarrow> ptree \<Rightarrow> bool" where
  "alike t t' \<longleftrightarrow> (\<not> is_node t \<and> \<not> is_node t') \<or> (\<not> is_Val t \<and> \<not> is_Val t')"

definition same_map :: "ptree \<Rightarrow> ptree \<Rightarrow> bool" where
  "same_map t t' \<longleftrightarrow> (\<forall>key. key_for t key \<longrightarrow> key_for t' key \<longrightarrow> look t key = look t' key)"

lemma same_mapD: "same_map t t' \<Longrightarrow> key_for t key \<Longrightarrow> key_for t' key \<Longrightarrow> look t key = look t' key"
  by (simp add: same_map_def)

lemma same_map_sym: "same_map t t' \<Longrightarrow> same_map t' t"
  by (auto simp: same_map_def)

lemma key_for_nodes: "is_node t \<Longrightarrow> is_node t' \<Longrightarrow> key_for t key \<longleftrightarrow> key_for t' key"
  by (cases t; cases t') (auto simp: key_for_def)

text \<open>All keys of an extension begin with its key; the keys of a branch differ in their first nibble.\<close>

lemma look_Ext_Some: "look (Ext k t) key = Some b \<Longrightarrow> take (length k) key = k \<and> look t (drop (length k) key) = Some b"
  by (auto split: if_splits)

lemma Ext_not_Branch:
  assumes "wft (Ext k t)" "wft (Branch ts)" "same_map (Ext k t) (Branch ts)"
  shows False
proof -
  from two_slots [OF assms(2)] obtain i j where ij: "i < 17" "j < 17" "i \<noteq> j" "ts ! i \<noteq> Hole" "ts ! j \<noteq> Hole" .
  have hd: "n = hd k" if n: "n < 17" "ts ! n \<noteq> Hole" for n
  proof -
    from slot_key [OF assms(2) n] obtain r b where r: "key_for (Branch ts) (n # r)" "look (Branch ts) (n # r) = Some b" .
    then have "look (Ext k t) (n # r) = Some b"
      using assms(3) key_for_nodes [of "Ext k t" "Branch ts"] by (simp add: same_map_def)
    from look_Ext_Some [OF this] assms(1) show ?thesis by (cases k) (auto simp: is_key_def)
  qed
  from hd [OF ij(1,4)] hd [OF ij(2,5)] ij(3) show False by simp
qed

lemma Ext_keys_prefix:
  assumes w: "wft (Ext k t)" "wft (Ext k' t')" and same: "same_map (Ext k t) (Ext k' t')" and le: "length k \<le> length k'"
  shows "k = k'"
proof -
  obtain key b where key: "key_for (Ext k' t') key" "look (Ext k' t') key = Some b"
    using holds_key [OF w(2)] by auto
  then have "look (Ext k t) key = Some b"
    using same key_for_nodes [of "Ext k t" "Ext k' t'"] by (simp add: same_map_def)
  with look_Ext_Some [OF this] look_Ext_Some [OF key(2)] have pre: "take (length k) k' = k"
    using le by (metis min.absorb1 take_take)
  show ?thesis
  proof (rule ccontr)
    assume "k \<noteq> k'"
    with pre le have lt: "length k < length k'" by (metis le_neq_implies_less take_all)
    have k: "is_key k" "is_key k'" using w by simp_all
    have "last k \<noteq> 16"
    proof
      assume l: "last k = 16"
      have "k ! (length k - 1) = k' ! (length k - 1)" using pre k(1) by (metis diff_less is_key_def length_greater_0_conv less_numeral_extra(1) nth_take)
      moreover have "last k = k ! (length k - 1)" using k(1) by (simp add: is_key_def last_conv_nth)
      moreover have "length k - 1 < length k'" "Suc (length k - 1) \<noteq> length k'" using lt k(1) by (auto simp: is_key_def)
      ultimately show False using l is_key_nth_lt [OF k(2), of "length k - 1"] terminated_nth [OF is_key_terminated [OF k(2)], of "length k - 1"]
        by (cases "last k' = 16") auto
    qed
    with w(1) obtain ts where ts: "t = Branch ts" "wft (Branch ts)" by (cases t) (auto split: if_splits)
    from two_slots [OF ts(2)] obtain i j where ij: "i < 17" "j < 17" "i \<noteq> j" "ts ! i \<noteq> Hole" "ts ! j \<noteq> Hole" .
    have next_nibble: "n = k' ! length k" if n: "n < 17" "ts ! n \<noteq> Hole" for n
    proof -
      from slot_key [OF ts(2) n] obtain r c where r: "key_for (Branch ts) (n # r)" "look (Branch ts) (n # r) = Some c" .
      have kf: "key_for (Ext k t) (k @ n # r)" using key_for_append [OF w(1)] r(1) ts(1) by simp
      moreover from kf have "key_for (Ext k' t') (k @ n # r)" using key_for_nodes [of "Ext k t" "Ext k' t'"] by simp
      ultimately have "look (Ext k' t') (k @ n # r) = look (Ext k t) (k @ n # r)" by (intro same_mapD [OF same, symmetric])
      also have "\<dots> = Some c" using r(2) ts(1) by simp
      finally have "look (Ext k' t') (k @ n # r) = Some c" .
      from look_Ext_Some [OF this] have "take (length k') (k @ n # r) = k'" ..
      then have "k' ! length k = (k @ n # r) ! length k" using lt by (metis nth_take)
      then show ?thesis by simp
    qed
    from next_nibble [OF ij(1,4)] next_nibble [OF ij(2,5)] ij(3) show False by simp
  qed
qed

lemma Hole_holds_nothing: "wft t \<Longrightarrow> same_map t Hole \<Longrightarrow> t = Hole"
proof (rule ccontr)
  assume t: "wft t" "same_map t Hole" "t \<noteq> Hole"
  then obtain key b where "key_for t key" "look t key = Some b" using holds_key by blast
  moreover from this have "key_for Hole key" by (auto simp: key_for_def split: if_splits)
  ultimately show False using t(2) by (auto simp: same_map_def)
qed

lemma look_not_Val: "\<not> is_Val t \<Longrightarrow> look t [] = (case t of Ext k s \<Rightarrow> if k = [] then look s [] else None | _ \<Rightarrow> None)"
  by (cases t) auto

lemma same_map_slots:
  assumes w: "wft (Branch ts)" "wft (Branch ts')" and same: "same_map (Branch ts) (Branch ts')" and i: "i < 17"
  shows "same_map (ts ! i) (ts' ! i)"
  unfolding same_map_def
proof (intro allI impI)
  fix r
  assume r: "key_for (ts ! i) r" "key_for (ts' ! i) r"
  note b = wf_Branch_nth [OF w(1)] and b' = wf_Branch_nth [OF w(2)]
  show "look (ts ! i) r = look (ts' ! i) r"
  proof (cases "(i = 16 \<longrightarrow> r = []) \<and> (i < 16 \<longrightarrow> r \<noteq> [])")
    case True
    then have "key_for (Branch ts) (i # r)" "key_for (Branch ts') (i # r)"
      using key_for_slot w i r by auto
    from same_mapD [OF same this] have "look (Branch ts) (i # r) = look (Branch ts') (i # r)" .
    then show ?thesis by simp
  next
    case False
    have "ts ! i = Hole" using False key_for_kind [OF _ r(1)] not_Val_node [of "ts ! i"] b(3,4) i by (cases "i = 16") auto
    moreover have "ts' ! i = Hole" using False key_for_kind [OF _ r(2)] not_Val_node [of "ts' ! i"] b'(3,4) i by (cases "i = 16") auto
    ultimately show ?thesis by simp
  qed
qed

lemma same_map_Ext:
  assumes w: "wft (Ext k t)" "wft (Ext k t')" and same: "same_map (Ext k t) (Ext k t')"
  shows "same_map t t'"
  unfolding same_map_def
proof (intro allI impI)
  fix r
  assume r: "key_for t r" "key_for t' r"
  have "look (Ext k t) (k @ r) = look (Ext k t') (k @ r)"
    by (rule same_mapD [OF same key_for_append [OF w(1) r(1)] key_for_append [OF w(2) r(2)]])
  then show "look t r = look t' r" by simp
qed

lemma tree_of_map:
  "wft t \<Longrightarrow> wft t' \<Longrightarrow> alike t t' \<Longrightarrow> same_map t t' \<Longrightarrow> t = t'"
proof (induction t arbitrary: t')
  case Hole
  then show ?case using Hole_holds_nothing [of t'] same_map_sym by blast
next
  case (Val b)
  then show ?case by (cases t') (auto simp: alike_def same_map_def key_for_def dest: spec [of _ "[]"])
next
  case (Ext k t)
  show ?case
  proof (cases t')
    case Hole
    with Hole_holds_nothing [OF Ext.prems(1)] Ext.prems(4) show ?thesis by simp
  next
    case (Val b)
    with Ext show ?thesis by (simp add: alike_def)
  next
    case t': (Ext k' s)
    have k: "k = k'"
      using Ext_keys_prefix [of k t k' s] Ext_keys_prefix [of k' s k t] Ext.prems t' same_map_sym by (metis nat_le_linear)
    have "alike t s" using Ext.prems t' k by (cases t; cases s) (auto simp: alike_def split: if_splits)
    moreover have "same_map t s" using same_map_Ext Ext.prems t' k by blast
    ultimately have "t = s" using Ext.IH Ext.prems(1,2) t' by simp
    with t' k show ?thesis by simp
  next
    case (Branch ts)
    with Ext Ext_not_Branch show ?thesis by blast
  qed
next
  case (Branch ts)
  show ?case
  proof (cases t')
    case Hole
    with Hole_holds_nothing [OF Branch.prems(1)] Branch.prems(4) show ?thesis by simp
  next
    case (Val b)
    with Branch show ?thesis by (simp add: alike_def)
  next
    case (Ext k' s)
    with Branch Ext_not_Branch same_map_sym show ?thesis by blast
  next
    case t': (Branch ts')
    have w: "wft (Branch ts)" "wft (Branch ts')" using Branch.prems t' by simp_all
    note b = wf_Branch_nth [OF w(1)] and b' = wf_Branch_nth [OF w(2)]
    have "ts ! i = ts' ! i" if i: "i < 17" for i
    proof -
      have "alike (ts ! i) (ts' ! i)" using b(3,4) b'(3,4) i by (cases "i = 16") (auto simp: alike_def)
      moreover have "ts ! i \<in> set ts" using i b(1) by simp
      ultimately show ?thesis
        using Branch.IH [of "ts ! i" "ts' ! i"] b(2) [OF i] b'(2) [OF i] same_map_slots [OF w _ i] Branch.prems(4) t' by simp
    qed
    with b(1) b'(1) have "ts = ts'" by (intro nth_equalityI) simp_all
    with t' show ?thesis by simp
  qed
qed

section \<open>The Merkle item of a tree\<close>

text \<open>
  \<open>body\<close> is the list a node is encoded from; \<open>link\<close> what its parent holds for it: the item
  itself, or its hash when it takes 32 bytes or more.
\<close>

definition ck :: "nat list \<Rightarrow> bytes" where
  "ck k = (case CompactEncode k of Inr s \<Rightarrow> s | Inl e \<Rightarrow> [])"

definition ref :: "(bytes \<Rightarrow> bytes) \<Rightarrow> ritem \<Rightarrow> ritem" where
  "ref sha r = (if 32 \<le> length (rlp r) then RStr (sha (rlp r)) else r)"

fun body :: "(bytes \<Rightarrow> bytes) \<Rightarrow> ptree \<Rightarrow> ritem" where
  "body sha Hole = RStr []"
| "body sha (Val b) = RStr b"
| "body sha (Ext k t) = RList [RStr (ck k), if is_node t then ref sha (body sha t) else body sha t]"
| "body sha (Branch ts) = RList (map (\<lambda>t. if is_node t then ref sha (body sha t) else body sha t) ts)"

definition link :: "(bytes \<Rightarrow> bytes) \<Rightarrow> ptree \<Rightarrow> ritem" where
  "link sha t = (if is_node t then ref sha (body sha t) else body sha t)"

lemma body_simps [simp]:
  "body sha (Ext k t) = RList [RStr (ck k), link sha t]"
  "body sha (Branch ts) = RList (map (link sha) ts)"
  unfolding body.simps link_def by (rule refl)+

declare body.simps(3,4) [simp del]

text \<open>The encodings that are hashed for a tree.\<close>

fun encs :: "(bytes \<Rightarrow> bytes) \<Rightarrow> ptree \<Rightarrow> bytes set" where
  "encs sha Hole = {}"
| "encs sha (Val b) = {}"
| "encs sha (Ext k t) = insert (rlp (body sha (Ext k t))) (encs sha t)"
| "encs sha (Branch ts) = insert (rlp (body sha (Branch ts))) (\<Union> (encs sha ` set ts))"

text \<open>What is asked of the hash: 32 bytes, and no two of the encodings at hand collide.\<close>

definition good_hash :: "(bytes \<Rightarrow> bytes) \<Rightarrow> bytes set \<Rightarrow> bool" where
  "good_hash sha S \<longleftrightarrow> inj_on sha S \<and> (\<forall>x \<in> S. length (sha x) = 32)"

lemma ck_decode: "is_key k \<Longrightarrow> CompactEncode k = Inr (ck k) \<and> CompactDecode (ck k) = Inr k"
  using CompactDecode_Encode [of k] by (auto simp: ck_def)

lemma ck_inject: "is_key k \<Longrightarrow> is_key k' \<Longrightarrow> ck k = ck k' \<longleftrightarrow> k = k'"
  by (metis ck_decode sum.inject(2))

lemma length_pack: "length (pack_nibbles ns) = length ns div 2"
  by (induction ns rule: pack_nibbles.induct) auto

lemma length_ck: "length (ck k) \<le> length k + 2"
  by (cases "k = []") (auto simp: ck_def CompactEncode_def Let_def length_pack)

lemma unraw_inject: "unraw r = unraw r' \<longleftrightarrow> r = r'"
proof (induction r arbitrary: r')
  case (RStr b)
  show ?case
  proof (cases r')
    case r': (RStr b')
    then show ?thesis by (cases b; cases b') (auto simp: length_Suc_conv)
  qed simp
next
  case (RList rs)
  show ?case
  proof (cases r')
    case r': (RList rs')
    have "rs = rs'" if eq: "map unraw rs = map unraw rs'"
    proof (rule nth_equalityI)
      show len: "length rs = length rs'" using eq by (rule map_eq_imp_length_eq)
      show "rs ! i = rs' ! i" if "i < length rs" for i
        using RList.IH [of "rs ! i" "rs' ! i"] arg_cong [OF eq, of "\<lambda>xs. xs ! i"] that len by simp
    qed
    with r' show ?thesis by auto
  qed auto
qed

lemma rlp_inject: "fits r \<Longrightarrow> fits r' \<Longrightarrow> rlp r = rlp r' \<longleftrightarrow> r = r'"
  using rlp_frames.frame_unique [of r r' "[]" "[]"] by (auto simp: unraw_inject)

section \<open>The item determines the tree\<close>

lemma length_concat_le: "\<forall>x \<in> set xs. length (f x) \<le> c \<Longrightarrow> length (concat (map f xs)) \<le> c * length xs"
  by (induction xs) auto

lemma fits_RStr: "length b < 65536 \<Longrightarrow> fits (RStr b)"
  by (simp add: len_ok_small)

text \<open>Every item of a well-formed tree can be read back, and takes 33 bytes at most in its parent,
  unless it is a value.\<close>

lemma link_node:
  assumes "good_hash sha S" "rlp (body sha t) \<in> S" "is_node t" "fits (body sha t)"
  shows "fits (link sha t) \<and> length (rlp (link sha t)) \<le> 33"
proof (cases "32 \<le> length (rlp (body sha t))")
  case True
  have l: "length (sha (rlp (body sha t))) = 32" using assms(1,2) by (simp add: good_hash_def)
  then have "length (Encode_bytes (sha (rlp (body sha t)))) = 33" by (simp add: Encode_bytes_def)
  with True l assms(3) show ?thesis by (simp add: link_def ref_def len_ok_small)
qed (use assms in \<open>simp add: link_def ref_def\<close>)

lemma link_fits:
  assumes "good_hash sha S"
  shows "wft t \<Longrightarrow> encs sha t \<subseteq> S \<Longrightarrow>
    fits (link sha t) \<and> length (rlp (link sha t)) \<le> (if is_Val t then 60003 else 33) \<and> fits (body sha t)"
proof (induction t)
  case Hole
  then show ?case by (simp add: link_def len_ok_small Encode_bytes_def)
next
  case (Val b)
  then show ?case using length_Encode_bytes [of b] by (simp add: link_def len_ok_small val_ok_def)
next
  case (Ext k t)
  then have t: "fits (link sha t)" "length (rlp (link sha t)) \<le> 60003" by (auto split: if_splits)
  have k: "length (ck k) \<le> 803" using length_ck [of k] Ext.prems by simp
  then have "length (Encode_bytes (ck k)) \<le> 806" using length_Encode_bytes [of "ck k"] by simp
  with t k have "fits (body sha (Ext k t))" by (simp add: len_ok_small)
  with link_node [OF assms, of "Ext k t"] Ext.prems show ?case by simp
next
  case (Branch ts)
  have len: "length ts = 17" and wts: "\<And>i. i < 17 \<Longrightarrow> wft (ts ! i)" using wf_Branch_nth [OF Branch.prems(1)] by auto
  have each: "fits (link sha t) \<and> length (rlp (link sha t)) \<le> (if is_Val t then 60003 else 33)" if t: "t \<in> set ts" for t
  proof -
    have "wft t" "encs sha t \<subseteq> S" using Branch.prems t by (auto simp: list_all_iff)
    with Branch.IH [OF t] show ?thesis by blast
  qed
  have ts: "ts = butlast ts @ [last ts]" using len by (cases ts rule: rev_cases) auto
  have "length (concat (map (\<lambda>t. rlp (link sha t)) (butlast ts))) \<le> 33 * length (butlast ts)"
  proof (intro length_concat_le ballI)
    fix t
    assume t: "t \<in> set (butlast ts)"
    then have "\<not> is_Val t" using Branch.prems(1) by (simp add: list_all_iff)
    with each [OF in_set_butlastD [OF t]] show "length (rlp (link sha t)) \<le> 33" by simp
  qed
  moreover have "length (rlp (link sha (last ts))) \<le> 60003" using each [of "last ts"] len by (cases ts) (auto split: if_splits)
  ultimately have "length (concat (map (\<lambda>t. rlp (link sha t)) ts)) < 65536"
    using len by (subst ts) simp
  then have "fits (body sha (Branch ts))" using each by (auto simp: len_ok_small comp_def)
  with link_node [OF assms, of "Branch ts"] Branch.prems show ?case by simp
qed

lemma ref_inject:
  assumes "good_hash sha S" "rlp (RList xs) \<in> S" "rlp (RList ys) \<in> S" "fits (RList xs)" "fits (RList ys)"
    and "ref sha (RList xs) = ref sha (RList ys)"
  shows "xs = ys"
proof -
  have "rlp (RList xs) = rlp (RList ys)"
    using assms(1-3,6) by (auto simp: ref_def good_hash_def inj_on_def split: if_splits)
  with rlp_inject [OF assms(4,5)] show ?thesis by simp
qed

text \<open>Two trees with the same item are the same tree.\<close>

lemma link_RList: "is_node t \<Longrightarrow> wft t \<Longrightarrow> \<exists>xs. body sha t = RList xs \<and> link sha t = ref sha (RList xs)"
  by (cases t) (simp_all add: link_def)

lemma ref_not_Nil: "good_hash sha S \<Longrightarrow> rlp (RList xs) \<in> S \<Longrightarrow> ref sha (RList xs) \<noteq> RStr []"
  by (auto simp: ref_def good_hash_def)

lemma body_in_encs: "is_node t \<Longrightarrow> rlp (body sha t) \<in> encs sha t"
  by (cases t) simp_all

lemma encs_slot: "encs sha (Branch ts) \<subseteq> S \<Longrightarrow> t \<in> set ts \<Longrightarrow> encs sha t \<subseteq> S"
  by auto

lemma link_unique:
  assumes "good_hash sha S"
  shows "wft t \<Longrightarrow> wft t' \<Longrightarrow> encs sha t \<subseteq> S \<Longrightarrow> encs sha t' \<subseteq> S \<Longrightarrow> alike t t' \<Longrightarrow>
    link sha t = link sha t' \<Longrightarrow> t = t'"
proof (induction t arbitrary: t')
  case Hole
  show ?case
  proof (cases "is_node t'")
    case True
    then obtain xs where "body sha t' = RList xs" "link sha t' = ref sha (RList xs)" using link_RList Hole by blast
    with ref_not_Nil [OF assms, of xs] body_in_encs [OF True, of sha] Hole show ?thesis by (auto simp: link_def)
  next
    case False
    with Hole show ?thesis by (cases t') (auto simp: link_def val_ok_def)
  qed
next
  case (Val b)
  then show ?case by (cases t') (auto simp: link_def val_ok_def alike_def)
next
  case (Ext k t)
  have node: "is_node t'"
  proof (rule ccontr)
    assume "\<not> is_node t'"
    then have "t' = Hole" using Ext.prems(5) by (cases t') (auto simp: alike_def)
    with ref_not_Nil [OF assms, of "[RStr (ck k), link sha t]"] Ext.prems show False by (auto simp: link_def)
  qed
  then obtain ys where ys: "body sha t' = RList ys" "link sha t' = ref sha (RList ys)" using link_RList Ext.prems by blast
  have "[RStr (ck k), link sha t] = ys"
  proof (rule ref_inject [OF assms])
    show "rlp (RList [RStr (ck k), link sha t]) \<in> S" using Ext.prems(3) by simp
    show "rlp (RList ys) \<in> S" using body_in_encs [OF node, of sha] Ext.prems(4) ys by auto
    show "fits (RList [RStr (ck k), link sha t])" using link_fits [OF assms Ext.prems(1,3)] by simp
    show "fits (RList ys)" using link_fits [OF assms Ext.prems(2,4)] ys by simp
    show "ref sha (RList [RStr (ck k), link sha t]) = ref sha (RList ys)" using Ext.prems(6) ys by (simp add: link_def)
  qed
  with node ys wf_Branch_nth(1) Ext.prems(2) obtain k' s where t': "t' = Ext k' s" "ck k = ck k'" "link sha t = link sha s"
    by (cases t') (auto dest: map_eq_Cons_conv [THEN iffD1] simp: length_Suc_conv)
  have "k = k'" using t'(1,2) Ext.prems ck_inject by simp
  moreover from this have "alike t s" using Ext.prems t'(1) by (cases t; cases s) (auto simp: alike_def split: if_splits)
  ultimately show ?case using Ext.IH [of s] Ext.prems t' by simp
next
  case (Branch ts)
  have node: "is_node t'"
  proof (rule ccontr)
    assume "\<not> is_node t'"
    then have "t' = Hole" using Branch.prems(5) by (cases t') (auto simp: alike_def)
    with ref_not_Nil [OF assms, of "map (link sha) ts"] Branch.prems show False by (auto simp: link_def)
  qed
  then obtain ys where ys: "body sha t' = RList ys" "link sha t' = ref sha (RList ys)" using link_RList Branch.prems by blast
  have eq: "map (link sha) ts = ys"
  proof (rule ref_inject [OF assms])
    show "rlp (RList (map (link sha) ts)) \<in> S" using Branch.prems(3) by simp
    show "rlp (RList ys) \<in> S" using body_in_encs [OF node, of sha] Branch.prems(4) ys by auto
    show "fits (RList (map (link sha) ts))" using link_fits [OF assms Branch.prems(1,3)] by simp
    show "fits (RList ys)" using link_fits [OF assms Branch.prems(2,4)] ys by simp
    show "ref sha (RList (map (link sha) ts)) = ref sha (RList ys)" using Branch.prems(6) ys by (simp add: link_def)
  qed
  note b = wf_Branch_nth [OF Branch.prems(1)]
  have "length ys = 17" using eq b(1) by auto
  with node ys obtain ts' where t': "t' = Branch ts'" "ys = map (link sha) ts'" by (cases t') auto
  note b' = wf_Branch_nth [OF Branch.prems(2) [unfolded t'(1)]]
  have "ts ! i = ts' ! i" if i: "i < 17" for i
  proof (rule Branch.IH)
    show "ts ! i \<in> set ts" "wft (ts ! i)" "wft (ts' ! i)" using i b(1,2) b'(2) by simp_all
    show "encs sha (ts ! i) \<subseteq> S" by (rule encs_slot [OF Branch.prems(3)]) (use i b(1) in simp)
    show "encs sha (ts' ! i) \<subseteq> S" by (rule encs_slot [OF Branch.prems(4) [unfolded t'(1)]]) (use i b'(1) in simp)
    show "alike (ts ! i) (ts' ! i)" using b(3,4) b'(3,4) i by (cases "i = 16") (auto simp: alike_def)
    show "link sha (ts ! i) = link sha (ts' ! i)"
      using arg_cong [OF eq [unfolded t'(2)], of "\<lambda>xs. xs ! i"] i b(1) b'(1) by simp
  qed
  with b(1) b'(1) have "ts = ts'" by (intro nth_equalityI) simp_all
  with t'(1) show ?case by simp
qed

end
