(* ===== verification/Trie_Correct.thy ===== *)
theory Trie_Correct
  imports Merkle Trie
begin

text \<open>
  The trie of \<open>ethutil/trie.go\<close> against the trees of \<open>Merkle\<close>: what node values represent a tree,
  that reading and inserting follow the tree, that the fuel of \<open>State\<close> is enough for both, and what
  a root says about the contents.
\<close>

section \<open>Representation\<close>

text \<open>The forms in which a string occurs in a node: as written, or as decoded from the database.\<close>

definition str_val :: "gval \<Rightarrow> bytes \<Rightarrow> bool" where
  "str_val v b \<longleftrightarrow> v = VStr b \<or> v = VBytes b \<or> (\<exists>x. v = VByte x \<and> b = [x] \<and> x \<noteq> 0 \<and> unat x < 0x80)"

text \<open>What the cache answers, or would load.\<close>

definition load :: "Cache \<Rightarrow> memdb \<Rightarrow> bytes \<Rightarrow> gval option" where
  "load c d h =
     (case map_of (nodes c) h of
        Some n \<Rightarrow> Some (Node_Value n)
      | None \<Rightarrow> (case NewValueFromBytes (db_Get h d) of Inr v \<Rightarrow> Some v | Inl e \<Rightarrow> None))"

definition stored :: "(bytes \<Rightarrow> bytes) \<Rightarrow> (bytes \<Rightarrow> gval option) \<Rightarrow> gval \<Rightarrow> gval \<Rightarrow> bool" where
  "stored sha L v n \<longleftrightarrow>
     (if 32 \<le> length (Encode n) then v = VBytes (sha (Encode n)) \<and> L (sha (Encode n)) = Some n else v = n)"

inductive rep :: "(bytes \<Rightarrow> bytes) \<Rightarrow> (bytes \<Rightarrow> gval option) \<Rightarrow> ptree \<Rightarrow> gval \<Rightarrow> bool"
  for sha L where
  Hole: "v = VStr [] \<or> v = VBytes [] \<Longrightarrow> rep sha L Hole v"
| Val: "str_val v b \<Longrightarrow> rep sha L (Val b) v"
| Ext: "stored sha L v (VList [kv, v1]) \<Longrightarrow> str_val kv (ck k) \<Longrightarrow> rep sha L t v1 \<Longrightarrow> rep sha L (Ext k t) v"
| Branch: "stored sha L v (VList vs) \<Longrightarrow> list_all2 (rep sha L) ts vs \<Longrightarrow> rep sha L (Branch ts) v"

inductive_simps rep_simps: "rep sha L Hole v" "rep sha L (Val b) v" "rep sha L (Ext k t) v" "rep sha L (Branch ts) v"

text \<open>The contents of the node itself.\<close>

fun content :: "(bytes \<Rightarrow> bytes) \<Rightarrow> (bytes \<Rightarrow> gval option) \<Rightarrow> ptree \<Rightarrow> gval \<Rightarrow> bool" where
  "content sha L (Ext k t) n = (\<exists>kv v1. n = VList [kv, v1] \<and> str_val kv (ck k) \<and> rep sha L t v1)"
| "content sha L (Branch ts) n = (\<exists>vs. n = VList vs \<and> list_all2 (rep sha L) ts vs)"
| "content sha L _ n = False"

lemma rep_node: "is_node t \<Longrightarrow> rep sha L t v \<longleftrightarrow> (\<exists>n. stored sha L v n \<and> content sha L t n)"
  by (cases t) (auto simp: rep_simps)

lemma str_val_Str [simp]: "str_val v b \<Longrightarrow> Str v = b"
  by (auto simp: str_val_def)

lemma str_val_raw: "str_val v b \<Longrightarrow> raw v = RStr b"
proof -
  have "big_Bytes (uint (x :: byte)) = [x]" if "x \<noteq> 0" for x
  proof -
    have "unat x \<noteq> 0" using that by (simp add: unat_eq_0)
    then have "nat_be (unat x) = [x]" by (simp add: nat_be_byte)
    then show ?thesis using big_Bytes_nat [of "unat x"] by (simp only: uint_nat)
  qed
  then show "str_val v b \<Longrightarrow> raw v = RStr b" by (auto simp: str_val_def)
qed

lemma str_val_VStr [simp]: "str_val (VStr b) b"
  by (simp add: str_val_def)

lemma NewValue_str_val: "str_val v b \<Longrightarrow> NewValue v = v \<and> v \<noteq> VNil"
  by (auto simp: str_val_def)

text \<open>The item of a represented tree.\<close>

lemma stored_raw: "stored sha L v n \<Longrightarrow> raw n = r \<Longrightarrow> raw v = ref sha r"
  by (auto simp: stored_def ref_def Encode_raw split: if_splits)

lemma map_raw_links: "list_all2 (\<lambda>t v. raw v = f t) ts vs \<Longrightarrow> map raw vs = map f ts"
  by (auto simp: list_all2_conv_all_nth intro: nth_equalityI)

lemma rep_raw: "rep sha L t v \<Longrightarrow> raw v = link sha t"
proof (induction rule: rep.induct)
  case (Ext v kv v1 k t)
  then have "raw (VList [kv, v1]) = body sha (Ext k t)" by (simp add: str_val_raw)
  from stored_raw [OF Ext.hyps(1) this] show ?case by (simp add: link_def)
next
  case (Branch v vs ts)
  then have "map raw vs = map (link sha) ts" by (intro map_raw_links) (auto elim: list_all2_mono)
  then have "raw (VList vs) = body sha (Branch ts)" by simp
  from stored_raw [OF Branch.hyps(1) this] show ?case by (simp add: link_def)
qed (auto simp: link_def str_val_raw)

lemma content_Encode: "content sha L t n \<Longrightarrow> Encode n = rlp (body sha t)"
proof (cases t)
  case (Branch ts)
  assume "content sha L t n"
  with Branch obtain vs where vs: "n = VList vs" "list_all2 (rep sha L) ts vs" by auto
  from vs(2) have "map raw vs = map (link sha) ts" by (intro map_raw_links) (auto elim: list_all2_mono simp: rep_raw)
  with vs(1) Branch show ?thesis by (simp only: Encode_raw raw.simps body_simps)
qed (auto simp: Encode_raw str_val_raw rep_raw simp del: Encode.simps)

lemma rep_plain: "rep sha L t v \<Longrightarrow> NewValue v = v \<and> v \<noteq> VNil"
proof (induction rule: rep.induct)
  case (Ext v kv v1 k t)
  then show ?case by (auto simp: stored_def split: if_splits)
qed (auto simp: stored_def NewValue_str_val split: if_splits)

section \<open>Looking at a node\<close>

lemma Cache_Get_load:
  assumes "load c d h = Some n"
  shows "\<exists>c'. Cache_Get d h c = Inr (n, c') \<and> load c' d = load c d"
proof (cases "map_of (nodes c) h")
  case (Some m)
  with assms show ?thesis by (auto simp: Cache_Get_def load_def)
next
  case None
  with assms obtain v where v: "NewValueFromBytes (db_Get h d) = Inr v" "n = v"
    by (auto simp: load_def split: sum.splits)
  let ?c = "c\<lparr>nodes := AList.update h (NewNode h v False) (nodes c)\<rparr>"
  have "load ?c d = load c d"
    using None v by (auto simp: fun_eq_iff load_def update_conv' NewNode_def)
  with None v show ?thesis by (auto simp: Cache_Get_def)
qed

lemma content_VList: "content sha L t n \<Longrightarrow> wft t \<Longrightarrow> \<exists>v vs. n = VList (v # vs) \<and> NewValue v = v \<and> v \<noteq> VNil"
proof (cases t)
  case (Branch ts)
  assume a: "content sha L t n" "wft t"
  with Branch obtain vs where vs: "n = VList vs" "list_all2 (rep sha L) ts vs" by auto
  with a Branch obtain t1 ts1 where "ts = t1 # ts1" by (cases ts) auto
  with vs show ?thesis by (auto simp: list_all2_Cons1 rep_plain)
qed (auto simp: NewValue_str_val)

lemma GetNode_rep:
  assumes "good_hash sha S" "encs sha t \<subseteq> S" "is_node t" "wft t" "stored sha (load c d) v n" "content sha (load c d) t n"
  shows "\<exists>c'. GetNode d v c = Inr (n, c') \<and> load c' d = load c d"
proof -
  from content_VList [OF assms(6,4)] obtain w ws where n: "n = VList (w # ws)" "NewValue w = w" "w \<noteq> VNil" by blast
  show ?thesis
  proof (cases "32 \<le> length (Encode n)")
    case True
    then have v: "v = VBytes (sha (Encode n))" and l: "load c d (sha (Encode n)) = Some n"
      using assms(5) by (simp_all add: stored_def)
    have "Encode n \<in> S" using content_Encode [OF assms(6)] body_in_encs [OF assms(3)] assms(2) by auto
    then have "length (sha (Encode n)) = 32" using assms(1) by (simp add: good_hash_def)
    with Cache_Get_load [OF l] v show ?thesis by (auto simp: GetNode_def IsNil_def Let_def)
  next
    case False
    then have "v = n" using assms(5) by (simp add: stored_def)
    with n show ?thesis by (simp add: GetNode_def IsNil_def Let_def)
  qed
qed

lemma stored_shape:
  assumes "good_hash sha S" "encs sha t \<subseteq> S" "is_node t" "wft t" "stored sha L v n" "content sha L t n"
  shows "v \<noteq> VNil" "NewValue v = v" "Type v = Inr KSlice" "Len v \<noteq> 0"
proof -
  from content_VList [OF assms(6,4)] obtain w ws where n: "n = VList (w # ws)" by blast
  have "Encode n \<in> S" using content_Encode [OF assms(6)] body_in_encs [OF assms(3)] assms(2) by auto
  then have "sha (Encode n) \<noteq> []" using assms(1) by (auto simp: good_hash_def)
  then have "v = n \<or> (\<exists>h. v = VBytes h \<and> h \<noteq> [])" using assms(5) by (auto simp: stored_def split: if_splits)
  with n show "v \<noteq> VNil" "NewValue v = v" "Type v = Inr KSlice" "Len v \<noteq> 0" by auto
qed

section \<open>Reading\<close>

lemma Get_Raw_nth: "list_all2 (rep sha L) ts vs \<Longrightarrow> i < length vs \<Longrightarrow> Raw (Get (VList vs) (int i)) = vs ! i"
  by (auto simp: Get_nth Raw_def list_all2_conv_all_nth rep_plain)

lemma Hole_Str: "rep sha L Hole v \<Longrightarrow> Str (NewValue v) = []"
  by (auto simp: rep_simps)

lemma GetState_Hole:
  "rep sha L Hole v \<Longrightarrow> 0 < f \<Longrightarrow> GetState f d v key c = Inr (v, c) \<and> Str (NewValue v) = []"
  by (cases f) (auto simp: rep_simps)

lemma GetState_rep:
  assumes "good_hash sha S"
  shows "wft t \<Longrightarrow> encs sha t \<subseteq> S \<Longrightarrow> key_for t key \<Longrightarrow> rep sha (load c d) t v \<Longrightarrow> length key < f \<Longrightarrow>
    \<exists>v' c'. GetState f d v key c = Inr (v', c') \<and> load c' d = load c d \<and>
      Str (NewValue v') = (case look t key of Some b \<Rightarrow> b | None \<Rightarrow> [])"
proof (induction t key arbitrary: v c f rule: look.induct)
  case (1 b)
  then obtain g where "f = Suc g" by (cases f) auto
  with 1 show ?case by (auto simp: rep_simps NewValue_str_val)
next
  case (2 k t key)
  then obtain g where f: "f = Suc g" by (cases f) auto
  have key: "key \<noteq> []" "terminated key" using 2 by (auto simp: key_for_def split: if_splits)
  from 2 rep_node [of "Ext k t"] obtain n where n: "stored sha (load c d) v n" "content sha (load c d) (Ext k t) n" by auto
  then obtain kv v1 where kv: "n = VList [kv, v1]" "str_val kv (ck k)" "rep sha (load c d) t v1" by auto
  note shape = stored_shape [OF assms "2.prems"(2) _ "2.prems"(1) n]
  from GetNode_rep [OF assms "2.prems"(2) _ "2.prems"(1) n] obtain c1 where
    g: "GetNode d v c = Inr (n, c1)" "load c1 d = load c d" by auto
  have k: "is_key k" "k \<noteq> []" using "2.prems"(1) by (auto simp: is_key_def)
  have dec: "CompactDecode (Str (Get n 0)) = Inr k" using kv(1,2) ck_decode [OF k(1)] by (simp add: NewValue_str_val)
  have v1: "Raw (Get n 1) = v1" using kv rep_plain [OF kv(3)] by (simp add: Raw_def)
  show ?case
  proof (cases "take (length k) key = k")
    case True
    then have len: "length k \<le> length key" by (metis length_take min.cobounded1)
    have kf: "key_for t (drop (length k) key)"
    proof (cases "last k = 16")
      case True
      with terminated_prefix [OF is_key_terminated [OF k(1)] key(2)] \<open>take (length k) key = k\<close> "2.prems"(1)
      show ?thesis by (cases t) (auto simp: key_for_def)
    next
      case False
      moreover from this have "key \<noteq> k" using key(2) by (auto simp: terminated_def)
      then have "length k < length key" using True len by (metis le_neq_implies_less take_all order_refl)
      ultimately show ?thesis using terminated_drop [OF key(2)] "2.prems"(1) by (cases t) (auto simp: key_for_def)
    qed
    have "length (drop (length k) key) < g" using "2.prems"(5) f k(2) len by (cases k) auto
    with "2.IH" [OF True, of c1 v1 g] "2.prems" kf kv(3) g(2) obtain v' c' where
      "GetState g d v1 (drop (length k) key) c1 = Inr (v', c')" "load c' d = load c1 d"
      "Str (NewValue v') = (case look t (drop (length k) key) of Some b \<Rightarrow> b | None \<Rightarrow> [])"
      by auto
    with f key(1) shape g dec v1 True len kv(1) show ?thesis by (auto simp: IsNil_def Let_def)
  next
    case False
    with f key(1) shape g dec v1 kv(1) show ?thesis by (auto simp: IsNil_def Let_def)
  qed
next
  case (3 ts m key)
  then obtain g where f: "f = Suc g" by (cases f) auto
  from 3 rep_node [of "Branch ts"] obtain n where n: "stored sha (load c d) v n" "content sha (load c d) (Branch ts) n" by auto
  then obtain vs where vs: "n = VList vs" "list_all2 (rep sha (load c d)) ts vs" by auto
  note shape = stored_shape [OF assms "3.prems"(2) _ "3.prems"(1) n]
  from GetNode_rep [OF assms "3.prems"(2) _ "3.prems"(1) n] obtain c1 where
    g: "GetNode d v c = Inr (n, c1)" "load c1 d = load c d" by auto
  have m: "m < 17 \<and> wft (ts ! m) \<and> key_for (ts ! m) key" using "3.prems" by (intro key_for_Branch)
  have len: "length vs = 17" "length ts = 17" using vs(2) wf_Branch_nth(1) [OF "3.prems"(1)] by (auto dest: list_all2_lengthD)
  have "rep sha (load c1 d) (ts ! m) (vs ! m)" using vs(2) m len g(2) by (simp add: list_all2_conv_all_nth)
  moreover have "encs sha (ts ! m) \<subseteq> S" by (rule encs_slot [OF "3.prems"(2)]) (use m len in simp)
  ultimately obtain v' c' where
    "GetState g d (vs ! m) key c1 = Inr (v', c')" "load c' d = load c1 d"
    "Str (NewValue v') = (case look (ts ! m) key of Some b \<Rightarrow> b | None \<Rightarrow> [])"
    using "3.IH" [of c1 "vs ! m" g] m "3.prems"(5) f by auto
  with f shape g vs len m Get_Raw_nth [OF vs(2), of m] show ?case by (auto simp: IsNil_def Let_def)
qed (auto simp: key_for_def GetState_Hole Hole_Str)

section \<open>Writing a node\<close>

text \<open>Everything that was represented stays so.\<close>

definition keeps :: "(bytes \<Rightarrow> bytes) \<Rightarrow> bytes set \<Rightarrow> (bytes \<Rightarrow> gval option) \<Rightarrow> (bytes \<Rightarrow> gval option) \<Rightarrow> bool" where
  "keeps sha S L L' \<longleftrightarrow> (\<forall>t v. wft t \<longrightarrow> encs sha t \<subseteq> S \<longrightarrow> rep sha L t v \<longrightarrow> rep sha L' t v)"

lemma keeps_refl [simp]: "keeps sha S L L"
  by (simp add: keeps_def)

lemma keeps_trans: "keeps sha S L L' \<Longrightarrow> keeps sha S L' L'' \<Longrightarrow> keeps sha S L L''"
  by (auto simp: keeps_def)

lemma keepsD: "keeps sha S L L' \<Longrightarrow> rep sha L t v \<Longrightarrow> wft t \<Longrightarrow> encs sha t \<subseteq> S \<Longrightarrow> rep sha L' t v"
  by (simp add: keeps_def)

lemma content_keeps:
  assumes "content sha L t n" "wft t" "encs sha t \<subseteq> S"
    and "\<And>s v. wft s \<Longrightarrow> encs sha s \<subseteq> S \<Longrightarrow> size s < size t \<Longrightarrow> rep sha L s v \<Longrightarrow> rep sha L' s v"
  shows "content sha L' t n"
proof (cases t)
  case (Branch ts)
  with assms(1) obtain vs where vs: "n = VList vs" "list_all2 (rep sha L) ts vs" by auto
  have "rep sha L' s v" if "s \<in> set ts" "rep sha L s v" for s v
    using assms(2,3) Branch that size_list_estimation' [of s ts "size s" size]
    by (intro assms(4)) (auto simp: list_all_iff)
  then have "list_all2 (rep sha L') ts vs" using vs(2) by (auto elim: list.rel_mono_strong)
  with vs(1) Branch show ?thesis by simp
qed (use assms in auto)

lemma keeps_put:
  assumes S: "good_hash sha S" and t0: "wft t0" "encs sha t0 \<subseteq> S" "is_node t0" "content sha L t0 n"
  shows "keeps sha S L (L(sha (Encode n) \<mapsto> n))"
proof -
  let ?L = "L(sha (Encode n) \<mapsto> n)"
  have "rep sha ?L t v" if "wft t" "encs sha t \<subseteq> S" "rep sha L t v" for t v
    using that
  proof (induction "size t" arbitrary: t v rule: less_induct)
    case less
    show ?case
    proof (cases "is_node t")
      case False
      with less.prems(3) show ?thesis by (cases t) (auto simp: rep_simps)
    next
      case node: True
      with less.prems obtain m where m: "stored sha L v m" "content sha L t m" by (auto simp: rep_node)
      have em: "Encode m = rlp (body sha t)" "Encode m \<in> S"
        using content_Encode [OF m(2)] body_in_encs [OF node] less.prems(2) by auto
      have en: "Encode n = rlp (body sha t0)" "Encode n \<in> S"
        using content_Encode [OF t0(4)] body_in_encs [OF t0(3)] t0(2) by auto
      have "\<exists>m'. stored sha ?L v m' \<and> content sha ?L t m'"
      proof (cases "32 \<le> length (Encode m) \<and> sha (Encode m) = sha (Encode n)")
        case True
        then have eq: "Encode m = Encode n" using em(2) en(2) S by (auto simp: good_hash_def inj_on_def)
        have "body sha t = body sha t0"
          using eq em(1) en(1) rlp_inject [of "body sha t" "body sha t0"] link_fits [OF S] less.prems t0 by simp
        then have "link sha t = link sha t0" using node t0(3) by (simp add: link_def)
        then have "t = t0"
          using node t0 less.prems by (intro link_unique [OF S]) (cases t; cases t0; simp add: alike_def)+
        with t0(4) content_keeps [of sha L t n S ?L] less.hyps less.prems have "content sha ?L t n" by simp
        moreover have "stored sha ?L v n" using m(1) True eq by (simp add: stored_def)
        ultimately show ?thesis by blast
      next
        case False
        then have "stored sha ?L v m" using m(1) by (auto simp: stored_def)
        moreover have "content sha ?L t m" using content_keeps [OF m(2) less.prems(1,2)] less.hyps by blast
        ultimately show ?thesis by blast
      qed
      with node show ?thesis by (simp add: rep_node)
    qed
  qed
  then show ?thesis by (simp add: keeps_def)
qed

text \<open>\<open>Put\<close> of a node: the answer represents the tree, and nothing else is lost.\<close>

lemma Put_rep:
  assumes "good_hash sha S" "wft t" "encs sha t \<subseteq> S" "is_node t" "content sha (load c d) t n"
  shows "\<exists>v c'. Trie_Put sha n c = (v, c') \<and> rep sha (load c' d) t v \<and> keeps sha S (load c d) (load c' d)"
proof -
  from content_VList [OF assms(5,2)] have n: "NewValue n = n" by auto
  show ?thesis
  proof (cases "32 \<le> length (Encode n)")
    case True
    let ?h = "sha (Encode n)"
    let ?c = "c\<lparr>nodes := AList.update ?h (NewNode ?h n True) (nodes c), IsDirty := True\<rparr>"
    have load: "load ?c d = (load c d)(?h \<mapsto> n)"
      by (auto simp: fun_eq_iff load_def update_conv' NewNode_def)
    have k: "keeps sha S (load c d) (load ?c d)" unfolding load by (rule keeps_put [OF assms])
    have "content sha (load ?c d) t n"
      using content_keeps [OF assms(5,2,3)] k by (auto simp: keeps_def)
    moreover have "stored sha (load ?c d) (VBytes ?h) n" using True by (simp add: stored_def load)
    ultimately have "rep sha (load ?c d) t (VBytes ?h)" using assms(4) by (auto simp: rep_node)
    with k True n show ?thesis by (simp add: Trie_Put_def Cache_Put_def Let_def)
  next
    case False
    then have "rep sha (load c d) t n" using assms(4,5) by (auto simp: rep_node stored_def)
    with False n show ?thesis by (simp add: Trie_Put_def Cache_Put_def Let_def)
  qed
qed

section \<open>Inserting\<close>

lemma goslice_0: "n \<le> length xs \<Longrightarrow> goslice xs sp 0 n = Inr (take n xs)"
  by (rule goslice_prefix)

lemma MNL_loop_match:
  assumes m: "m < length a" "m \<le> length b" "take m a = take m b" "m < length b \<Longrightarrow> a ! m \<noteq> b ! m"
    "m = length b \<Longrightarrow> hb \<noteq> []"
  shows "i \<le> m \<Longrightarrow> MNL_loop a ha b hb i = Inr m"
proof (induction "m - i" arbitrary: i)
  case 0
  then have i: "i = m" by simp
  have "m + 1 \<le> length b + length hb" using m(2,5) by (cases "m = length b"; cases hb) auto
  then have "goslice b hb 0 (m + 1) = Inr (take (m + 1) (b @ hb))" by (simp add: goslice_def)
  moreover have "goslice a ha 0 (m + 1) = Inr (take (m + 1) a)" using m(1) by (simp add: goslice_0)
  moreover have "take (m + 1) a \<noteq> take (m + 1) (b @ hb)" if "m < length b"
  proof
    assume "take (m + 1) a = take (m + 1) (b @ hb)"
    then have "take (m + 1) a ! m = take (m + 1) (b @ hb) ! m" by simp
    with that m(1,4) show False by (simp add: nth_append)
  qed
  ultimately show ?case unfolding i using m(2) by (subst MNL_loop.simps) auto
next
  case (Suc x)
  then have i: "i < m" by simp
  have "take (i + 1) a = take (i + 1) b" using arg_cong [OF m(3), of "take (i + 1)"] i by (simp add: min_def)
  with i Suc m(1,2) show ?case by (subst MNL_loop.simps) (simp add: goslice_0)
qed

lemma MatchingNibbleLength_lcp:
  assumes "is_key k" "terminated key" "k \<noteq> key"
  shows "MatchingNibbleLength key ha k (decoded_hidden k) = Inr (lcp key k)"
  unfolding MatchingNibbleLength_def
proof (rule MNL_loop_match)
  show l: "lcp key k < length key" by (rule lcp_lt [OF assms])
  show "lcp key k < length k \<Longrightarrow> key ! lcp key k \<noteq> k ! lcp key k" by (rule lcp_mismatch [OF l])
  show "lcp key k = length k \<Longrightarrow> decoded_hidden k \<noteq> []"
    using lcp_full(1) [OF assms] by (simp add: decoded_hidden_def)
qed (simp_all add: lcp_le take_lcp)

lemma putPair_rep:
  assumes "good_hash sha S" "wft (Ext key t)" "encs sha (Ext key t) \<subseteq> S" "rep sha (load c d) t v"
  shows "\<exists>v' c'. putPair sha key v c = Inr (v', c') \<and> rep sha (load c' d) (Ext key t) v' \<and> keeps sha S (load c d) (load c' d)"
proof -
  have "CompactEncode key = Inr (ck key)" using ck_decode [of key] assms(2) by simp
  moreover obtain v' c' where "Trie_Put sha (VList [VStr (ck key), v]) c = (v', c')"
    "rep sha (load c' d) (Ext key t) v'" "keeps sha S (load c d) (load c' d)"
    using Put_rep [OF assms(1-3), of c d "VList [VStr (ck key), v]"] assms(4) by auto
  ultimately show ?thesis by (simp add: putPair_def)
qed

lemma encs_mkext: "encs sha (mkext k t) \<subseteq> S \<Longrightarrow> encs sha t \<subseteq> S"
  by (auto simp: mkext_def split: if_splits)

lemma insertEmpty_rep:
  assumes "good_hash sha S" "wft (mkext key t)" "encs sha (mkext key t) \<subseteq> S" "rep sha (load c d) t v"
  shows "\<exists>v' c'. insertEmpty sha key v c = Inr (v', c') \<and> rep sha (load c' d) (mkext key t) v' \<and> keeps sha S (load c d) (load c' d)"
  using assms putPair_rep [OF assms(1), of key t c d v] by (cases "key = []") (auto simp: insertEmpty_def mkext_def)

lemma copyBranch_id:
  assumes "list_all2 (rep sha L) ts vs" "length ts = 17"
  shows "copyBranch (VList vs) = vs"
proof (rule nth_equalityI)
  show "length (copyBranch (VList vs)) = length vs" using assms by (simp add: copyBranch_def list_all2_conv_all_nth)
  show "copyBranch (VList vs) ! i = vs ! i" if "i < length (copyBranch (VList vs))" for i
  proof -
    have i: "i < 17" "i < length vs" using that assms by (simp_all add: copyBranch_def list_all2_conv_all_nth)
    have "vs ! i \<noteq> VNil" using assms i by (auto simp: list_all2_conv_all_nth dest: rep_plain)
    with i Get_Raw_nth [OF assms(1) i(2)] show ?thesis by (simp add: copyBranch_def Let_def del: upt_rec)
  qed
qed

lemma noNode_stored:
  assumes "good_hash sha S" "encs sha t \<subseteq> S" "is_node t" "wft t" "stored sha L v n" "content sha L t n"
  shows "noNode v = Inr False"
  using stored_shape [OF assms] by (simp add: noNode_def Let_def)

lemma noNode_Hole: "rep sha L Hole v \<Longrightarrow> noNode v = Inr True"
  by (auto simp: rep_simps noNode_def Let_def)

lemma split_at_slots:
  assumes "wft (split_at m k t key v)" "encs sha (split_at m k t key v) \<subseteq> S" "k ! m < 17" "key ! m < 17" "k ! m \<noteq> key ! m"
  shows "wft (mkext (drop (m + 1) k) t)" "wft (mkext (drop (m + 1) key) (Val v))"
    "encs sha (mkext (drop (m + 1) k) t) \<subseteq> S" "encs sha (mkext (drop (m + 1) key) (Val v)) \<subseteq> S"
proof -
  let ?ts = "(replicate 17 Hole)[k ! m := mkext (drop (m + 1) k) t, key ! m := mkext (drop (m + 1) key) (Val v)]"
  have nth: "?ts ! (k ! m) = mkext (drop (m + 1) k) t" "?ts ! (key ! m) = mkext (drop (m + 1) key) (Val v)"
    using assms(3-5) by (simp_all add: nth_list_update)
  have set: "?ts ! (k ! m) \<in> set ?ts" "?ts ! (key ! m) \<in> set ?ts"
    by (rule nth_mem, use assms(3) in simp, rule nth_mem, use assms(4) in simp)
  note w = wf_Branch_nth(2) [OF assms(1) [unfolded split_at_def]]
  from w [OF assms(3)] w [OF assms(4)] show "wft (mkext (drop (m + 1) k) t)" "wft (mkext (drop (m + 1) key) (Val v))"
    unfolding nth by simp_all
  note e = encs_slot [OF assms(2) [unfolded split_at_def]]
  from e [OF set(1)] e [OF set(2)] show "encs sha (mkext (drop (m + 1) k) t) \<subseteq> S" "encs sha (mkext (drop (m + 1) key) (Val v)) \<subseteq> S"
    unfolding nth by simp_all
qed

text \<open>The branch that replaces a pair where the keys part.\<close>

definition splitNode :: "(bytes \<Rightarrow> bytes) \<Rightarrow> nat \<Rightarrow> nat list \<Rightarrow> gval \<Rightarrow> nat list \<Rightarrow> gval \<Rightarrow> Cache \<Rightarrow> (gval \<times> Cache) res" where
  "splitNode sha ml k v key val c =
     rbind (goslice k [] (ml + 1) (length k)) (\<lambda>krest.
     rbind (insertEmpty sha krest v c) (\<lambda>(oldNode, c).
     rbind (goslice key [] (ml + 1) (length key)) (\<lambda>rest.
     rbind (insertEmpty sha rest val c) (\<lambda>(newNode, c).
     rbind (goindex k ml) (\<lambda>ki.
     rbind (setIdx (EmptyStringSlice 17) ki oldNode) (\<lambda>scaledSlice.
     rbind (goindex key ml) (\<lambda>keyi.
     rbind (setIdx scaledSlice keyi newNode) (\<lambda>scaledSlice.
     Inr (Trie_Put sha (VList scaledSlice) c)))))))))"

lemma splitNode_rep:
  assumes S: "good_hash sha S" and m: "m < length k" "m < length key" "k ! m < 17" "key ! m < 17" "k ! m \<noteq> key ! m"
    and w: "wft (split_at m k t key val)" "encs sha (split_at m k t key val) \<subseteq> S"
    and r: "rep sha (load c d) t v" and t: "wft t" "encs sha t \<subseteq> S"
  shows "\<exists>v' c'. splitNode sha m k v key (VStr val) c = Inr (v', c') \<and>
    rep sha (load c' d) (split_at m k t key val) v' \<and> keeps sha S (load c d) (load c' d)"
proof -
  note sl = split_at_slots [OF w m(3-5)]
  from insertEmpty_rep [OF S sl(1,3) r] obtain o1 c1 where
    1: "insertEmpty sha (drop (m + 1) k) v c = Inr (o1, c1)" "rep sha (load c1 d) (mkext (drop (m + 1) k) t) o1"
      "keeps sha S (load c d) (load c1 d)" by blast
  have "rep sha (load c1 d) (Val val) (VStr val)" by (simp add: rep_simps)
  from insertEmpty_rep [OF S sl(2,4) this] obtain o2 c2 where
    2: "insertEmpty sha (drop (m + 1) key) (VStr val) c1 = Inr (o2, c2)" "rep sha (load c2 d) (mkext (drop (m + 1) key) (Val val)) o2"
      "keeps sha S (load c1 d) (load c2 d)" by blast
  let ?ts = "(replicate 17 Hole)[k ! m := mkext (drop (m + 1) k) t, key ! m := mkext (drop (m + 1) key) (Val val)]"
  let ?vs = "(EmptyStringSlice 17)[k ! m := o1, key ! m := o2]"
  have "list_all2 (rep sha (load c2 d)) (replicate 17 Hole) (EmptyStringSlice 17)"
    by (simp add: EmptyStringSlice_def list_all2_conv_all_nth rep_simps)
  then have "list_all2 (rep sha (load c2 d)) ?ts ?vs"
    using keepsD [OF 2(3) 1(2) sl(1,3)] 2(2) by (intro list_all2_update_cong)
  then have "content sha (load c2 d) (split_at m k t key val) (VList ?vs)" by (simp add: split_at_def)
  from Put_rep [OF S w _ this] obtain v' c' where
    3: "Trie_Put sha (VList ?vs) c2 = (v', c')" "rep sha (load c' d) (split_at m k t key val) v'"
      "keeps sha S (load c2 d) (load c' d)" by (auto simp: split_at_def)
  have "splitNode sha m k v key (VStr val) c = Inr (v', c')"
    using m 1(1) 2(1) 3(1) goslice_suffix [of "m + 1" k "[]"] goslice_suffix [of "m + 1" key "[]"]
    by (simp add: splitNode_def setIdx_def EmptyStringSlice_def)
  with 3 1(3) 2(3) show ?thesis by (blast intro: keeps_trans)
qed

lemma InsertState_Ext_eq:
  assumes f: "key \<noteq> []" "noNode nv = Inr False" "GetNode d nv c = Inr (VList [kv, v1], c1)"
    "CompactDecode (Str (NewValue kv)) = Inr k" "NewValue v1 = v1"
  shows "InsertState (Suc f) sha d spare nv key val c =
    (if k = key then putPair sha key val c1
     else
       rbind (MatchingNibbleLength key (replicate spare 0) k (decoded_hidden k)) (\<lambda>ml.
       rbind
         (if ml = length k then rbind (goslice key [] ml (length key)) (\<lambda>rest. InsertState f sha d spare v1 rest val c1)
          else splitNode sha ml k v1 key val c1)
         (\<lambda>(newHash, c).
          if ml = 0 then Inr (newHash, c)
          else rbind (goslice key (replicate spare 0) 0 ml) (\<lambda>pre. putPair sha pre newHash c))))"
  using f by (simp add: splitNode_def [abs_def] Raw_def Let_def cong: if_cong)

lemma encs_Ext: "encs sha (Ext k t) \<subseteq> S \<Longrightarrow> encs sha t \<subseteq> S"
  by auto

lemma wft_mkext: "wft (mkext k t) \<Longrightarrow> wft t"
  by (simp add: mkext_def split: if_splits)

lemma ins_Ext:
  "key \<noteq> [] \<Longrightarrow> ins (Ext k t) key v =
     (if k = key then Ext key (Val v)
      else mkext (take (lcp key k) key) (if lcp key k = length k then ins t (drop (lcp key k) key) v else split_at (lcp key k) k t key v))"
  by (cases key) (simp_all only: ins.simps Let_def simp_thms list.distinct)

lemma putPair_mkext:
  assumes "good_hash sha S" "wft (mkext key t)" "encs sha (mkext key t) \<subseteq> S" "rep sha (load c d) t v" "m = length key"
  shows "\<exists>v' c'. (if m = 0 then Inr (v, c) else putPair sha key v c) = Inr (v', c') \<and>
    rep sha (load c' d) (mkext key t) v' \<and> keeps sha S (load c d) (load c' d)"
  using insertEmpty_rep [OF assms(1-4)] assms(5) by (simp add: insertEmpty_def)

lemma InsertState_Ext_rep:
  assumes S: "good_hash sha S" and t: "wft (Ext k t)" "encs sha (Ext k t) \<subseteq> S" and key: "terminated key" "length key \<le> 801"
    and v: "val_ok v" and new: "encs sha (ins (Ext k t) key v) \<subseteq> S" and r: "rep sha (load c d) (Ext k t) nv"
    and IH: "\<And>v1 c1. lcp key k = length k \<Longrightarrow> k \<noteq> key \<Longrightarrow> key_for t (drop (length k) key) \<Longrightarrow>
      encs sha (ins t (drop (length k) key) v) \<subseteq> S \<Longrightarrow> rep sha (load c1 d) t v1 \<Longrightarrow>
      \<exists>v' c'. InsertState f sha d spare v1 (drop (length k) key) (VStr v) c1 = Inr (v', c') \<and>
        rep sha (load c' d) (ins t (drop (length k) key) v) v' \<and> keeps sha S (load c1 d) (load c' d)"
  shows "\<exists>v' c'. InsertState (Suc f) sha d spare nv key (VStr v) c = Inr (v', c') \<and>
      rep sha (load c' d) (ins (Ext k t) key v) v' \<and> keeps sha S (load c d) (load c' d)"
proof -
  from r rep_node [of "Ext k t"] obtain n where n: "stored sha (load c d) nv n" "content sha (load c d) (Ext k t) n" by auto
  then obtain kv v1 where kv: "n = VList [kv, v1]" "str_val kv (ck k)" "rep sha (load c d) t v1" by auto
  from GetNode_rep [OF S t(2) _ t(1) n] obtain c1 where g: "GetNode d nv c = Inr (n, c1)" "load c1 d = load c d" by auto
  have k: "is_key k" using t(1) by simp
  have ne: "key \<noteq> []" using key(1) by auto
  have new_wf: "wft (ins (Ext k t) key v)" using wf_ins [OF t(1) _ key(2) v] key(1) ne by (simp add: key_for_def)
  have eq: "InsertState (Suc f) sha d spare nv key (VStr v) c =
    (if k = key then putPair sha key (VStr v) c1
     else
       rbind (MatchingNibbleLength key (replicate spare 0) k (decoded_hidden k)) (\<lambda>ml.
       rbind
         (if ml = length k then rbind (goslice key [] ml (length key)) (\<lambda>rest. InsertState f sha d spare v1 rest (VStr v) c1)
          else splitNode sha ml k v1 key (VStr v) c1)
         (\<lambda>(newHash, c).
          if ml = 0 then Inr (newHash, c)
          else rbind (goslice key (replicate spare 0) 0 ml) (\<lambda>pre. putPair sha pre newHash c))))"
    using g(1) kv ck_decode [OF k] rep_plain [OF kv(3)] noNode_stored [OF S t(2) _ t(1) n] ne
    by (intro InsertState_Ext_eq) (auto simp: NewValue_str_val)
  show ?thesis
  proof (cases "k = key")
    case True
    have i: "ins (Ext k t) key v = Ext key (Val v)" unfolding ins_Ext [OF ne] by (rule if_P [OF True])
    have "rep sha (load c1 d) (Val v) (VStr v)" by (simp add: rep_simps)
    note p = putPair_rep [OF S new_wf [unfolded i] new [unfolded i] this]
    have "InsertState (Suc f) sha d spare nv key (VStr v) c = putPair sha key (VStr v) c1" unfolding eq by (rule if_P [OF True])
    with p show ?thesis
      unfolding i g(2) by (simp only:)
  next
    case False
    define m where "m = lcp key k"
    have mk: "m < length key" using lcp_lt [OF k key(1) False] by (simp add: m_def)
    have MNL: "MatchingNibbleLength key (replicate spare 0) k (decoded_hidden k) = Inr m"
      using MatchingNibbleLength_lcp [OF k key(1) False] by (simp add: m_def)
    define s where "s = (if m = length k then ins t (drop m key) v else split_at m k t key v)"
    have i: "ins (Ext k t) key v = mkext (take m key) s" unfolding m_def s_def ins_Ext [OF ne] by (rule if_not_P [OF False])
    have sw: "wft s" "encs sha s \<subseteq> S" 
      by (rule wft_mkext [OF new_wf [unfolded i]], rule encs_mkext [OF new [unfolded i]])
    have r1: "rep sha (load c1 d) t v1" using kv(3) g(2) by simp
    have "\<exists>v' c'. (if m = length k then rbind (goslice key [] m (length key)) (\<lambda>rest. InsertState f sha d spare v1 rest (VStr v) c1)
          else splitNode sha m k v1 key (VStr v) c1) = Inr (v', c') \<and> rep sha (load c' d) s v' \<and> keeps sha S (load c1 d) (load c' d)"
    proof (cases "m = length k")
      case True
      from Ext_full_drop(3) [OF t(1) key(1) False True [unfolded m_def]] True False sw(2) mk IH [of c1 v1, OF _ False _ _ r1]
      show ?thesis by (simp add: s_def m_def goslice_suffix)
    next
      case ne: False
      then have ml: "m < length k" using lcp_le(2) [of key k] by (simp add: m_def)
      have "k ! m \<noteq> key ! m" using lcp_mismatch [of key k] mk ml by (auto simp: m_def)
      moreover have "k ! m < 17" "key ! m < 17"
        using is_key_nth_le [OF k ml] terminated_nth_le [OF key(1) mk] by simp_all
      ultimately show ?thesis
        using splitNode_rep [OF S ml mk _ _ _ _ _ r1] sw t ne encs_Ext [OF t(2)] by (simp add: s_def)
    qed
    then obtain v2 c2 where 2: "(if m = length k then rbind (goslice key [] m (length key)) (\<lambda>rest. InsertState f sha d spare v1 rest (VStr v) c1)
          else splitNode sha m k v1 key (VStr v) c1) = Inr (v2, c2)" "rep sha (load c2 d) s v2" "keeps sha S (load c1 d) (load c2 d)"
      by blast
    have "length (take m key) = m" using mk by simp
    from putPair_mkext [OF S _ _ 2(2) this [symmetric]] new_wf new i obtain v' c' where
      3: "(if m = 0 then Inr (v2, c2) else putPair sha (take m key) v2 c2) = Inr (v', c')"
        "rep sha (load c' d) (mkext (take m key) s) v'" "keeps sha S (load c2 d) (load c' d)" by auto
    have "InsertState (Suc f) sha d spare nv key (VStr v) c = Inr (v', c')"
      unfolding eq if_not_P [OF False] MNL rbind_simps 2(1) using 3(1) mk by (cases "m = 0") (simp_all add: goslice_prefix)
    with 2(3) 3(2,3) i g(2) show ?thesis by (auto intro: keeps_trans)
  qed
qed

lemma InsertState_rep:
  assumes S: "good_hash sha S"
  shows "wft t \<Longrightarrow> key_for t key \<Longrightarrow> length key \<le> 801 \<Longrightarrow> val_ok v \<Longrightarrow> encs sha t \<subseteq> S \<Longrightarrow> encs sha (ins t key v) \<subseteq> S \<Longrightarrow>
    rep sha (load c d) t nv \<Longrightarrow> length key < f \<Longrightarrow>
    \<exists>v' c'. InsertState f sha d spare nv key (VStr v) c = Inr (v', c') \<and>
      rep sha (load c' d) (ins t key v) v' \<and> keeps sha S (load c d) (load c' d)"
proof (induction t key v arbitrary: nv c f rule: ins_induct)
  case (1 t v)
  then obtain g where "f = Suc g" by (cases f) auto
  then show ?case by (simp add: rep_simps)
next
  case (2 k t n key v)
  then obtain g where f: "f = Suc g" by (cases f) auto
  have key: "terminated (n # key)" using "2.prems" by (simp add: key_for_def)
  show ?case unfolding f
  proof (rule InsertState_Ext_rep [OF S "2.prems"(1,5) key "2.prems"(3,4,6,7)])
    fix v1 c1
    let ?r = "drop (length k) (n # key)"
    assume a: "lcp (n # key) k = length k" "k \<noteq> n # key" "key_for t ?r" "encs sha (ins t ?r v) \<subseteq> S" "rep sha (load c1 d) t v1"
    have "k \<noteq> []" using "2.prems"(1) by (auto simp: is_key_def)
    then have "length ?r < g" "length ?r \<le> 801" using "2.prems"(3,8) f by (cases k; simp)+
    with a "2.prems" show "\<exists>v' c'. InsertState g sha d spare v1 ?r (VStr v) c1 = Inr (v', c') \<and>
        rep sha (load c' d) (ins t ?r v) v' \<and> keeps sha S (load c1 d) (load c' d)"
      using "2.IH" [OF a(2) refl a(1), of c1 v1 g] by simp
  qed
next
  case (3 ts n key v)
  then obtain g where f: "f = Suc g" by (cases f) auto
  from 3 rep_node [of "Branch ts"] obtain nd where n: "stored sha (load c d) nv nd" "content sha (load c d) (Branch ts) nd" by auto
  then obtain vs where vs: "nd = VList vs" "list_all2 (rep sha (load c d)) ts vs" by auto
  from GetNode_rep [OF S "3.prems"(5) _ "3.prems"(1) n] obtain c1 where
    g: "GetNode d nv c = Inr (nd, c1)" "load c1 d = load c d" by auto
  have len: "length ts = 17" "length vs = 17" using vs(2) wf_Branch_nth(1) [OF "3.prems"(1)] by (auto dest: list_all2_lengthD)
  have m: "n < 17 \<and> wft (ts ! n) \<and> key_for (ts ! n) key" using "3.prems" by (intro key_for_Branch)
  let ?ts = "ts[n := ins (ts ! n) key v]"
  have w: "wft (Branch ?ts)" using wf_ins [OF "3.prems"(1-4)] by simp
  have e: "encs sha (Branch ?ts) \<subseteq> S" using "3.prems"(6) by simp
  have "ins (ts ! n) key v \<in> set ?ts" using m len by (simp add: set_update_memI)
  then have "encs sha (ins (ts ! n) key v) \<subseteq> S" by (rule encs_slot [OF e])
  moreover have "encs sha (ts ! n) \<subseteq> S" by (rule encs_slot [OF "3.prems"(5)]) (use m len in simp)
  moreover have "rep sha (load c1 d) (ts ! n) (vs ! n)" using vs(2) m len g(2) by (simp add: list_all2_conv_all_nth)
  ultimately obtain v2 c2 where 2: "InsertState g sha d spare (vs ! n) key (VStr v) c1 = Inr (v2, c2)"
      "rep sha (load c2 d) (ins (ts ! n) key v) v2" "keeps sha S (load c1 d) (load c2 d)"
    using "3.IH" [of c1 "vs ! n" g] m "3.prems"(3,4,8) f by auto
  have "list_all2 (rep sha (load c2 d)) ts vs"
    unfolding list_all2_conv_all_nth
  proof (intro conjI allI impI)
    fix i
    assume i: "i < length ts"
    have "encs sha (ts ! i) \<subseteq> S" by (rule encs_slot [OF "3.prems"(5)]) (use i in simp)
    then show "rep sha (load c2 d) (ts ! i) (vs ! i)"
      using keepsD [OF 2(3), of "ts ! i" "vs ! i"] vs(2) g(2) i len wf_Branch_nth(2) [OF "3.prems"(1), of i]
      by (simp add: list_all2_conv_all_nth)
  qed (use len in simp)
  with 2(2) have "list_all2 (rep sha (load c2 d)) ?ts (vs[n := v2])" by (intro list_all2_update_cong)
  then have "content sha (load c2 d) (Branch ?ts) (VList (vs[n := v2]))" by simp
  from Put_rep [OF S w e _ this] obtain v' c' where
    3: "Trie_Put sha (VList (vs[n := v2])) c2 = (v', c')" "rep sha (load c' d) (Branch ?ts) v'" "keeps sha S (load c2 d) (load c' d)"
    by auto
  have "InsertState f sha d spare nv (n # key) (VStr v) c = Inr (v', c')"
    using f noNode_stored [OF S "3.prems"(5) _ "3.prems"(1) n] g vs len m 2(1) 3(1)
      copyBranch_id [OF vs(2) len(1)] Get_Raw_nth [OF vs(2), of n]
    by (simp add: setIdx_def Let_def)
  with 2(3) 3(2,3) g(2) show ?case by (auto intro: keeps_trans)
next
  case (4 n key v)
  then obtain g where f: "f = Suc g" by (cases f) auto
  have "rep sha (load c d) (Val v) (VStr v)" by (simp add: rep_simps)
  with 4 wf_ins [OF "4.prems"(1-4)] putPair_rep [OF S, of "n # key" "Val v" c d "VStr v"] f noNode_Hole show ?case
    by auto
next
  case (5 b n key v)
  then show ?case by (simp add: key_for_def)
qed

end
