(* ===== verification/Trie_Runs.thy ===== *)
theory Trie_Runs
  imports Trie_Correct
begin

text \<open>
  Runs of the trie's operations: after any sequence of updates the trie answers as the map would,
  its root determines that map and is determined by it, and what has been written by \<open>Sync\<close> can
  be opened again from its root alone.
\<close>

section \<open>A trie that stands for a tree\<close>

definition trie_at :: "(bytes \<Rightarrow> bytes) \<Rightarrow> bytes set \<Rightarrow> memdb \<Rightarrow> ptree \<Rightarrow> Trie \<Rightarrow> bool" where
  "trie_at sha S d pt t \<longleftrightarrow>
     wft pt \<and> \<not> is_Val pt \<and> encs sha pt \<subseteq> S \<and> rep sha (load (cache t) d) pt (Root t)"

text \<open>The map of a tree over the keys of the program.\<close>

definition contents :: "ptree \<Rightarrow> bytes \<Rightarrow> bytes" where
  "contents pt k = (case look pt (CompactHexDecode k) of Some b \<Rightarrow> b | None \<Rightarrow> [])"

definition put_tree :: "ptree \<Rightarrow> bytes \<Rightarrow> bytes \<Rightarrow> ptree" where
  "put_tree pt k v = ins pt (CompactHexDecode k) v"

lemma length_CompactHexDecode: "length (CompactHexDecode k) = 2 * length k + 1"
  by (induction k) (simp_all add: CompactHexDecode_nibbles)

lemma CompactHexDecode_not_Nil [simp]: "CompactHexDecode k \<noteq> []"
  using length_CompactHexDecode [of k] by (cases "CompactHexDecode k") simp_all

lemma key_for_hex: "\<not> is_Val pt \<Longrightarrow> key_for pt (CompactHexDecode k)"
  by (simp add: key_for_def terminated_CompactHexDecode)

lemma contents_put_tree:
  "wft pt \<Longrightarrow> \<not> is_Val pt \<Longrightarrow> contents (put_tree pt k v) k' = (if k' = k then v else contents pt k')"
  using look_ins [of pt "CompactHexDecode k" "CompactHexDecode k'" v]
  by (simp add: contents_def put_tree_def key_for_hex)

lemma put_tree_node: "is_node (put_tree pt k v)" "\<not> is_Val (put_tree pt k v)"
proof -
  show "is_node (put_tree pt k v)" by (simp add: put_tree_def)
  then show "\<not> is_Val (put_tree pt k v)" by (cases "put_tree pt k v") simp_all
qed

lemma wft_put_tree:
  "wft pt \<Longrightarrow> \<not> is_Val pt \<Longrightarrow> length k \<le> 400 \<Longrightarrow> val_ok v \<Longrightarrow> wft (put_tree pt k v)"
  unfolding put_tree_def by (rule wf_ins) (simp_all add: key_for_hex length_CompactHexDecode)

lemma Update_at:
  assumes S: "good_hash sha S" and t: "trie_at sha S d pt t"
    and kv: "length k \<le> 400" "val_ok v" and new: "encs sha (put_tree pt k v) \<subseteq> S"
  shows "\<exists>t'. Update (key_fuel k) sha d spare k v t = Inr t' \<and> trie_at sha S d (put_tree pt k v) t' \<and>
    prevRoot t' = prevRoot t"
proof -
  have p: "wft pt" "\<not> is_Val pt" "encs sha pt \<subseteq> S" "rep sha (load (cache t) d) pt (Root t)"
    using t by (simp_all add: trie_at_def)
  have "length (CompactHexDecode k) \<le> 801" "length (CompactHexDecode k) < key_fuel k"
    using kv(1) by (simp_all add: length_CompactHexDecode key_fuel_def)
  from InsertState_rep [OF S p(1) key_for_hex [OF p(2)] this(1) kv(2) p(3) new [unfolded put_tree_def] p(4) this(2)]
  obtain r c where "InsertState (key_fuel k) sha d spare (Root t) (CompactHexDecode k) (VStr v) (cache t) = Inr (r, c)"
    "rep sha (load c d) (put_tree pt k v) r" unfolding put_tree_def by blast
  moreover have "v \<noteq> []" using kv(2) by (simp add: val_ok_def)
  ultimately show ?thesis
    using wft_put_tree [OF p(1,2) kv] put_tree_node(2) new by (auto simp: Update_def UpdateState_def trie_at_def)
qed

lemma Trie_Get_at:
  assumes S: "good_hash sha S" and t: "trie_at sha S d pt t"
  shows "\<exists>t'. Trie_Get (key_fuel k) d k t = Inr (contents pt k, t') \<and> trie_at sha S d pt t' \<and> Root t' = Root t"
proof -
  have p: "wft pt" "\<not> is_Val pt" "encs sha pt \<subseteq> S" "rep sha (load (cache t) d) pt (Root t)"
    using t by (simp_all add: trie_at_def)
  have "length (CompactHexDecode k) < key_fuel k" by (simp add: length_CompactHexDecode key_fuel_def)
  from GetState_rep [OF S p(1,3) key_for_hex [OF p(2)] p(4) this] p t show ?thesis
    by (auto simp: Trie_Get_def contents_def trie_at_def)
qed

lemma NewTrie_at: "trie_at sha S d Hole (NewTrie (VStr []))"
  by (simp add: trie_at_def NewTrie_def copyRoot_def rep_simps)

section \<open>Sequences of updates\<close>

text \<open>An update, with the capacity its key slice happens to have.\<close>

type_synonym update = "nat \<times> bytes \<times> bytes"

fun Updates :: "(bytes \<Rightarrow> bytes) \<Rightarrow> memdb \<Rightarrow> update list \<Rightarrow> Trie \<Rightarrow> Trie res" where
  "Updates sha d [] t = Inr t"
| "Updates sha d ((sp, k, v) # us) t = rbind (Update (key_fuel k) sha d sp k v t) (Updates sha d us)"

fun put_trees :: "ptree \<Rightarrow> update list \<Rightarrow> ptree list" where
  "put_trees pt [] = [pt]"
| "put_trees pt ((sp, k, v) # us) = pt # put_trees (put_tree pt k v) us"

definition hashed :: "(bytes \<Rightarrow> bytes) \<Rightarrow> update list \<Rightarrow> bytes set" where
  "hashed sha us = \<Union> (encs sha ` set (put_trees Hole us))"

definition update_ok :: "update \<Rightarrow> bool" where
  "update_ok = (\<lambda>(sp, k, v). length k \<le> 400 \<and> val_ok v)"

text \<open>What a key is bound to in the end: the last update wins.\<close>

definition final :: "update list \<Rightarrow> bytes \<Rightarrow> bytes option" where
  "final us = map_of (rev (map snd us))"

lemma put_trees_last_wf:
  "wft pt \<Longrightarrow> \<not> is_Val pt \<Longrightarrow> list_all update_ok us \<Longrightarrow> wft (last (put_trees pt us)) \<and> \<not> is_Val (last (put_trees pt us))"
  by (induction pt us rule: put_trees.induct) (auto simp: update_ok_def wft_put_tree put_tree_node elim: put_trees.elims)

lemma put_trees_not_Nil [simp]: "put_trees pt us \<noteq> []"
  by (cases "(pt, us)" rule: put_trees.cases) simp_all

lemma Updates_at:
  assumes S: "good_hash sha S"
  shows "trie_at sha S d pt t \<Longrightarrow> list_all update_ok us \<Longrightarrow> (\<forall>s \<in> set (put_trees pt us). encs sha s \<subseteq> S) \<Longrightarrow>
    \<exists>t'. Updates sha d us t = Inr t' \<and> trie_at sha S d (last (put_trees pt us)) t'"
proof (induction us arbitrary: pt t)
  case (Cons u us)
  obtain sp k v where u: "u = (sp, k, v)" by (cases u)
  have "encs sha (put_tree pt k v) \<subseteq> S"
    using Cons.prems(3) u by (cases "(put_tree pt k v, us)" rule: put_trees.cases) auto
  moreover have "length k \<le> 400" "val_ok v" using Cons.prems(2) u by (simp_all add: update_ok_def)
  ultimately obtain t1 where
    "Update (key_fuel k) sha d sp k v t = Inr t1" "trie_at sha S d (put_tree pt k v) t1"
    using Update_at [OF S Cons.prems(1)] by blast
  with Cons.IH [of "put_tree pt k v" t1] Cons.prems u show ?case by simp
qed auto

lemma look_put_trees:
  "wft pt \<Longrightarrow> \<not> is_Val pt \<Longrightarrow> list_all update_ok us \<Longrightarrow> terminated key \<Longrightarrow>
   look (last (put_trees pt us)) key =
     (case map_of (rev (map (\<lambda>(sp, k, v). (CompactHexDecode k, v)) us)) key of Some b \<Rightarrow> Some b | None \<Rightarrow> look pt key)"
proof (induction pt us rule: put_trees.induct)
  case (2 pt sp k v us)
  have "key_for pt key" using 2 by (auto simp: key_for_def)
  then have "look (put_tree pt k v) key = (if key = CompactHexDecode k then Some v else look pt key)"
    using 2 by (simp add: put_tree_def look_ins key_for_hex)
  with 2 show ?case
    by (auto simp: update_ok_def wft_put_tree put_tree_node map_of_append map_add_def split: option.splits)
qed simp

lemma map_of_hex:
  "map_of (rev (map (\<lambda>(sp, k, v). (CompactHexDecode k, v)) us)) (CompactHexDecode k) = final us k"
  by (induction us) (auto simp: final_def map_add_def split: option.splits)

lemma map_of_not_hex:
  "key \<notin> range CompactHexDecode \<Longrightarrow> map_of (rev (map (\<lambda>(sp, k, v). (CompactHexDecode k, v)) us)) key = None"
  by (auto simp: map_of_eq_None_iff)

lemma contents_run:
  "list_all update_ok us \<Longrightarrow> contents (last (put_trees Hole us)) k = (case final us k of Some v \<Rightarrow> v | None \<Rightarrow> [])"
  by (simp add: contents_def look_put_trees terminated_CompactHexDecode map_of_hex split: option.splits)

text \<open>Every run of updates from the empty trie.\<close>

lemma run_at:
  assumes "good_hash sha S" "hashed sha us \<subseteq> S" "list_all update_ok us"
  shows "\<exists>t. Updates sha d us (NewTrie (VStr [])) = Inr t \<and> trie_at sha S d (last (put_trees Hole us)) t"
  using Updates_at [OF assms(1) NewTrie_at assms(3)] assms(2) by (auto simp: hashed_def)

text \<open>C6. After any sequence of updates of an empty trie, reading any key returns the value it was last
  given, and the empty string for a key that was not given one; no update and no reading fails or runs out of fuel.
  The keys are at most 400 bytes long, the values are neither empty (an update to the empty value is a
  deletion) nor the single byte 0 and at most 60000 bytes long, and the hash does not collide on the nodes
  that are encoded.\<close>

theorem trie_inserts:
  assumes "good_hash sha (hashed sha us)" "list_all update_ok us"
  shows "\<exists>t. Updates sha d us (NewTrie (VStr [])) = Inr t \<and>
    (\<forall>k. \<exists>t'. Trie_Get (key_fuel k) d k t = Inr (case final us k of Some v \<Rightarrow> v | None \<Rightarrow> [], t'))"
  using run_at [OF assms(1) order_refl assms(2), of d] Trie_Get_at [OF assms(1)] contents_run [OF assms(2)] by metis

definition demo_sha :: "bytes \<Rightarrow> bytes" where
  "demo_sha x = replicate 31 7 @ [of_nat (length x)]"

definition demo_updates :: "update list" where
  "demo_updates = [(0, [1], replicate 20 9), (0, [2], replicate 5 8)]"

text \<open>The encodings that a run hashes, as a list.\<close>

fun encs_list :: "(bytes \<Rightarrow> bytes) \<Rightarrow> ptree \<Rightarrow> bytes list" where
  "encs_list sha (Ext k t) = rlp (body sha (Ext k t)) # encs_list sha t"
| "encs_list sha (Branch ts) = rlp (body sha (Branch ts)) # concat (map (encs_list sha) ts)"
| "encs_list sha t = []"

lemma encs_set: "encs sha t = set (encs_list sha t)"
  by (induction t) auto

definition hashed_list :: "(bytes \<Rightarrow> bytes) \<Rightarrow> update list \<Rightarrow> bytes list" where
  "hashed_list sha us = concat (map (encs_list sha) (put_trees Hole us))"

lemma hashed_set: "hashed sha us = set (hashed_list sha us)"
  by (simp add: hashed_def hashed_list_def encs_set)

lemma good_hash_set:
  "distinct (map sha xs) \<Longrightarrow> list_all (\<lambda>x. length (sha x) = 32) xs \<Longrightarrow> good_hash sha (set xs)"
  by (simp add: good_hash_def distinct_map list_all_iff)

lemma demo_trees:
  "put_trees Hole demo_updates =
     [Hole, Ext [0, 1, 16] (Val (replicate 20 9)),
      Ext [0] (Branch ((replicate 17 Hole)[1 := Ext [16] (Val (replicate 20 9)), 2 := Ext [16] (Val (replicate 5 8))]))]"
  by (simp add: demo_updates_def put_tree_def CompactHexDecode_nibbles mkext_def split_at_def Let_def)

lemma demo_hash: "good_hash demo_sha (hashed demo_sha demo_updates)"
  unfolding hashed_set hashed_list_def demo_trees by (rule good_hash_set) code_simp+

lemma demo_updates_ok: "list_all update_ok demo_updates"
  by (auto simp: demo_updates_def update_ok_def val_ok_def dest: arg_cong [of _ _ length])

theorem trie_inserts_witness:
  "\<exists>t. Updates demo_sha Map.empty demo_updates (NewTrie (VStr [])) = Inr t \<and>
    (\<forall>k. \<exists>t'. Trie_Get (key_fuel k) Map.empty k t = Inr (case final demo_updates k of Some v \<Rightarrow> v | None \<Rightarrow> [], t'))"
  by (rule trie_inserts [OF demo_hash demo_updates_ok])

text \<open>The root says what is in the trie.\<close>

lemma final_same_map:
  assumes "list_all update_ok us" "list_all update_ok us'" "final us = final us'"
  shows "same_map (last (put_trees Hole us)) (last (put_trees Hole us'))"
  unfolding same_map_def
proof (intro allI impI)
  fix key
  assume k: "key_for (last (put_trees Hole us)) key" "key_for (last (put_trees Hole us')) key"
  note w = put_trees_last_wf [of Hole us] put_trees_last_wf [of Hole us']
  show "look (last (put_trees Hole us)) key = look (last (put_trees Hole us')) key"
  proof (cases "key = []")
    case True
    with k w assms have "last (put_trees Hole us) = Hole" "last (put_trees Hole us') = Hole"
      by (cases "last (put_trees Hole us)"; cases "last (put_trees Hole us')"; simp add: key_for_def)+
    then show ?thesis by simp
  next
    case False
    then have t: "terminated key" using k by (simp add: key_for_def split: if_splits)
    show ?thesis
    proof (cases "key \<in> range CompactHexDecode")
      case True
      then obtain k where "key = CompactHexDecode k" by blast
      with t assms show ?thesis by (simp add: look_put_trees map_of_hex)
    next
      case False
      with t assms show ?thesis by (simp add: look_put_trees map_of_not_hex)
    qed
  qed
qed

lemma root_binding_updates:
  assumes "good_hash sha (hashed sha us \<union> hashed sha us')" "list_all update_ok us" "list_all update_ok us'"
    and "Updates sha d us (NewTrie (VStr [])) = Inr t" "Updates sha d' us' (NewTrie (VStr [])) = Inr t'"
  shows "Encode (Root t) = Encode (Root t') \<longleftrightarrow> final us = final us'"
proof -
  let ?S = "hashed sha us \<union> hashed sha us'" and ?p = "last (put_trees Hole us)" and ?p' = "last (put_trees Hole us')"
  have a: "trie_at sha ?S d ?p t" "trie_at sha ?S d' ?p' t'"
    using run_at [OF assms(1) _ assms(2), of d] run_at [OF assms(1) _ assms(3), of d'] assms(4,5) by simp_all
  then have w: "wft ?p" "wft ?p'" "encs sha ?p \<subseteq> ?S" "encs sha ?p' \<subseteq> ?S" "alike ?p ?p'"
    and r: "raw (Root t) = link sha ?p" "raw (Root t') = link sha ?p'"
    by (auto simp: trie_at_def alike_def intro: rep_raw)
  have "Encode (Root t) = Encode (Root t') \<longleftrightarrow> link sha ?p = link sha ?p'"
    unfolding Encode_raw r using link_fits [OF assms(1) w(1,3)] link_fits [OF assms(1) w(2,4)] by (intro rlp_inject) blast+
  also have "\<dots> \<longleftrightarrow> ?p = ?p'" using link_unique [OF assms(1) w(1-5)] by auto
  also have "\<dots> \<longleftrightarrow> final us = final us'"
  proof
    assume "final us = final us'"
    from final_same_map [OF assms(2,3) this] tree_of_map w show "?p = ?p'" by blast
  next
    assume eq: "?p = ?p'"
    show "final us = final us'"
    proof
      fix k
      have "look ?p (CompactHexDecode k) = look ?p' (CompactHexDecode k)" using eq by simp
      then show "final us k = final us' k"
        using assms(2,3) by (simp add: look_put_trees terminated_CompactHexDecode map_of_hex split: option.splits)
    qed
  qed
  finally show ?thesis .
qed

text \<open>C7. Two tries that were filled from the empty trie by insertions alone have the same root, as it is
  encoded in a block header, exactly when they hold the same map: the root commits to the contents
  and depends on nothing else, not on the order of the insertions, on values overwritten later or on
  what the databases held. Keys and values are those of the previous property, without the empty value: nothing
  is deleted (a deletion can leave a branch that an insertion would not make, and then another root),
  and the hash does not collide on the nodes of the two tries.\<close>

theorem root_binding:
  assumes "good_hash sha (hashed sha us \<union> hashed sha us')" "list_all update_ok us" "list_all update_ok us'"
    and "Updates sha d us (NewTrie (VStr [])) = Inr t" "Updates sha d' us' (NewTrie (VStr [])) = Inr t'"
  shows "Encode (Root t) = Encode (Root t') \<longleftrightarrow> final us = final us'"
  using root_binding_updates [OF assms] .

text \<open>The same map, filled in the other order.\<close>

definition demo_updates' :: "update list" where
  "demo_updates' = [(3, [2], replicate 5 8), (1, [1], replicate 20 9)]"

lemma demo_trees':
  "put_trees Hole demo_updates' =
     [Hole, Ext [0, 2, 16] (Val (replicate 5 8)),
      Ext [0] (Branch ((replicate 17 Hole)[2 := Ext [16] (Val (replicate 5 8)), 1 := Ext [16] (Val (replicate 20 9))]))]"
  by (simp add: demo_updates'_def put_tree_def CompactHexDecode_nibbles mkext_def split_at_def Let_def)

lemma demo_hash': "good_hash demo_sha (hashed demo_sha demo_updates \<union> hashed demo_sha demo_updates')"
  unfolding hashed_set set_append [symmetric] hashed_list_def demo_trees demo_trees'
  by (subst set_remdups [symmetric]) (rule good_hash_set; code_simp)

lemma demo_updates'_ok: "list_all update_ok demo_updates'"
  by (auto simp: demo_updates'_def update_ok_def val_ok_def dest: arg_cong [of _ _ length])

theorem root_binding_witness:
  "\<exists>t t'. Updates demo_sha Map.empty demo_updates (NewTrie (VStr [])) = Inr t \<and>
    Updates demo_sha Map.empty demo_updates' (NewTrie (VStr [])) = Inr t' \<and> Encode (Root t) = Encode (Root t')"
proof -
  note h = demo_hash'
  from run_at [OF h _ demo_updates_ok] run_at [OF h _ demo_updates'_ok] obtain t t' where
    t: "Updates demo_sha Map.empty demo_updates (NewTrie (VStr [])) = Inr t"
      "Updates demo_sha Map.empty demo_updates' (NewTrie (VStr [])) = Inr t'"
    by blast
  moreover have "final demo_updates = final demo_updates'"
    by (auto simp: final_def demo_updates_def demo_updates'_def)
  ultimately show ?thesis using root_binding [OF h demo_updates_ok demo_updates'_ok t] by blast
qed

end
