(* ===== verification/Trie_Sync.thy ===== *)
theory Trie_Sync
  imports Trie_Runs
begin

text \<open>
  The trie and its database: what \<open>Sync\<close> writes is enough to open the trie again from its root,
  with an empty cache, as the program does between two blocks.
\<close>

section \<open>The cache against the database\<close>

text \<open>Clean nodes are what the database holds; without the dirty mark of the cache every node is clean.\<close>

definition node_inv :: "bool \<Rightarrow> memdb \<Rightarrow> bytes \<Rightarrow> Node \<Rightarrow> bool" where
  "node_inv b d h n \<longleftrightarrow> (if Node_Dirty n then b else NewValueFromBytes (db_Get h d) = Inr (Node_Value n))"

definition cache_inv :: "Cache \<Rightarrow> memdb \<Rightarrow> bool" where
  "cache_inv c d \<longleftrightarrow>
     distinct (map fst (nodes c)) \<and> (\<forall>h n. map_of (nodes c) h = Some n \<longrightarrow> node_inv (IsDirty c) d h n)"

lemma cache_inv_New [simp]: "cache_inv NewCache d"
  by (simp add: cache_inv_def NewCache_def)

lemma node_inv_mono: "node_inv b d h n \<Longrightarrow> (b \<Longrightarrow> b') \<Longrightarrow> node_inv b' d h n"
  by (simp add: node_inv_def split: if_splits)

lemma cache_inv_update:
  assumes "cache_inv c d" "node_inv b d h n" "IsDirty c \<Longrightarrow> b"
  shows "cache_inv (c\<lparr>nodes := AList.update h n (nodes c), IsDirty := b\<rparr>) d"
  using assms by (auto simp: cache_inv_def update_conv' distinct_update intro: node_inv_mono simp del: map_of_eq_Some_iff split: if_splits)

lemma Cache_Get_inv:
  assumes "Cache_Get d h c = Inr (v, c')" "cache_inv c d"
  shows "cache_inv c' d"
proof (cases "map_of (nodes c) h")
  case None
  with assms have v: "NewValueFromBytes (db_Get h d) = Inr v"
    and c': "c' = c\<lparr>nodes := AList.update h (NewNode h v False) (nodes c), IsDirty := IsDirty c\<rparr>"
    by (auto simp: Cache_Get_def rbind_Inr_iff)
  show ?thesis unfolding c' by (rule cache_inv_update [OF assms(2)]) (simp_all add: node_inv_def NewNode_def v)
qed (use assms in \<open>simp add: Cache_Get_def\<close>)

lemma Cache_Put_inv: "Cache_Put sha v c = (v', c') \<Longrightarrow> cache_inv c d \<Longrightarrow> cache_inv c' d"
  by (auto simp: Cache_Put_def Let_def node_inv_def NewNode_def intro!: cache_inv_update split: if_splits)

lemma GetNode_inv: "GetNode d v c = Inr (n, c') \<Longrightarrow> cache_inv c d \<Longrightarrow> cache_inv c' d"
  by (auto simp: GetNode_def Let_def rbind_Inr_iff Cache_Get_inv split: if_splits)

lemma Trie_Put_inv: "Trie_Put sha v c = (v', c') \<Longrightarrow> cache_inv c d \<Longrightarrow> cache_inv c' d"
  unfolding Trie_Put_def by (rule Cache_Put_inv)

lemma putPair_inv: "putPair sha k v c = Inr (v', c') \<Longrightarrow> cache_inv c d \<Longrightarrow> cache_inv c' d"
  by (auto simp: putPair_def rbind_Inr_iff Trie_Put_inv)

lemma insertEmpty_inv: "insertEmpty sha k v c = Inr (v', c') \<Longrightarrow> cache_inv c d \<Longrightarrow> cache_inv c' d"
  by (auto simp: insertEmpty_def putPair_inv split: if_splits)

lemma GetState_inv: "GetState f d v key c = Inr (v', c') \<Longrightarrow> cache_inv c d \<Longrightarrow> cache_inv c' d"
proof (induction f d v key c arbitrary: v' c' rule: GetState.induct)
  case (2 f d v key c)
  then show ?case by (auto simp: Let_def rbind_Inr_iff GetNode_inv split: if_splits dest!: "2.IH")
qed simp

text \<open>What a step leaves in the cache, as a rule for each form of a step.\<close>

definition leaves :: "memdb \<Rightarrow> ('a \<times> Cache) res \<Rightarrow> bool" where
  "leaves d r \<longleftrightarrow> (\<forall>v c. r = Inr (v, c) \<longrightarrow> cache_inv c d)"

lemma leavesD: "leaves d r \<Longrightarrow> r = Inr (v, c) \<Longrightarrow> cache_inv c d"
  by (simp add: leaves_def)

lemma leaves_Inr: "cache_inv c d \<Longrightarrow> leaves d (Inr (v, c))"
  by (simp add: leaves_def)

lemma leaves_Put: "cache_inv c d \<Longrightarrow> leaves d (Inr (Trie_Put sha v c))"
  by (auto simp: leaves_def intro: Trie_Put_inv)

lemma leaves_fail: "leaves d (Inl e)"
  by (simp add: leaves_def)

lemma leaves_if: "leaves d a \<Longrightarrow> leaves d b \<Longrightarrow> leaves d (if P then a else b)"
  by simp

lemma leaves_state:
  "leaves d m \<Longrightarrow> (\<And>v c. cache_inv c d \<Longrightarrow> leaves d (f v c)) \<Longrightarrow> leaves d (rbind m (\<lambda>(v, c). f v c))"
  by (auto simp: leaves_def rbind_Inr_iff)

lemma leaves_pure: "(\<And>x. leaves d (f x)) \<Longrightarrow> leaves d (rbind m f)"
  by (auto simp: leaves_def rbind_Inr_iff)

lemma leaves_GetNode: "cache_inv c d \<Longrightarrow> leaves d (GetNode d v c)"
  by (auto simp: leaves_def intro: GetNode_inv)

lemma leaves_putPair: "cache_inv c d \<Longrightarrow> leaves d (putPair sha k v c)"
  by (auto simp: leaves_def intro: putPair_inv)

lemma leaves_insertEmpty: "cache_inv c d \<Longrightarrow> leaves d (insertEmpty sha k v c)"
  by (auto simp: leaves_def intro: insertEmpty_inv)

lemmas leaves_rules =
  leaves_fail leaves_Put leaves_Inr leaves_if leaves_GetNode leaves_putPair leaves_insertEmpty leaves_state leaves_pure

lemma leaves_InsertState: "cache_inv c d \<Longrightarrow> leaves d (InsertState f sha d sp v key val c)"
proof (induction f arbitrary: v key val c)
  case (Suc f)
  show ?case
    unfolding InsertState.simps Let_def
    by (insert Suc.prems, (rule Suc.IH leaves_rules | assumption)+)
qed (simp add: leaves_fail)

lemma leaves_shrinkBranch: "cache_inv c d \<Longrightarrow> leaves d (shrinkBranch sha d n c)"
  unfolding shrinkBranch_def Let_def by ((rule leaves_rules | assumption)+)

lemma leaves_DeleteState: "cache_inv c d \<Longrightarrow> leaves d (DeleteState f sha d sp v key c)"
proof (induction f arbitrary: v key c)
  case (Suc f)
  show ?case
    unfolding DeleteState.simps Let_def
    by (insert Suc.prems, (rule Suc.IH leaves_shrinkBranch leaves_rules | assumption)+)
qed (simp add: leaves_fail)

definition trie_inv :: "Trie \<Rightarrow> memdb \<Rightarrow> bool" where
  "trie_inv t d = cache_inv (cache t) d"

lemma trie_inv_New [simp]: "trie_inv (NewTrie r) d"
  by (simp add: trie_inv_def NewTrie_def)

lemma Update_inv: "Update f sha d sp k v t = Inr t' \<Longrightarrow> trie_inv t d \<Longrightarrow> trie_inv t' d"
  unfolding trie_inv_def Update_def Let_def UpdateState_def
  by (auto simp: rbind_Inr_iff dest: leavesD [OF leaves_InsertState] leavesD [OF leaves_DeleteState] split: if_split_asm)

lemma Trie_Get_inv: "Trie_Get f d k t = Inr (v, t') \<Longrightarrow> trie_inv t d \<Longrightarrow> trie_inv t' d"
  unfolding trie_inv_def Trie_Get_def Let_def by (auto simp: rbind_Inr_iff intro: GetState_inv)

lemma Updates_inv: "Updates sha d us t = Inr t' \<Longrightarrow> trie_inv t d \<Longrightarrow> trie_inv t' d"
  by (induction sha d us t rule: Updates.induct) (auto simp: rbind_Inr_iff dest: Update_inv)

section \<open>What Commit writes\<close>

lemma fold_dirty:
  "fold (\<lambda>(key, n) d. if Node_Dirty n then db_Put key (Encode (Node_Value n)) d else d) ns d =
   fold (\<lambda>(key, v). db_Put key v) (map (\<lambda>(key, n). (key, Encode (Node_Value n))) (filter (\<lambda>(key, n). Node_Dirty n) ns)) d"
  by (induction ns arbitrary: d) auto

lemma map_of_filter_map:
  "distinct (map fst ns) \<Longrightarrow>
   map_of (map (\<lambda>(key, n). (key, f n)) (filter (\<lambda>(key, n). P n) ns)) k =
     (case map_of ns k of Some n \<Rightarrow> if P n then Some (f n) else None | None \<Rightarrow> None)"
  by (induction ns) (auto simp: map_of_eq_None_iff image_iff split: option.splits)

lemma Commit_db:
  assumes "distinct (map fst (nodes c))"
  shows "db_Get h (snd (Commit (c, d))) =
    (case map_of (nodes c) h of
       Some n \<Rightarrow> if Node_Dirty n \<and> IsDirty c then Encode (Node_Value n) else db_Get h d
     | None \<Rightarrow> db_Get h d)"
proof -
  have "distinct (map fst (map (\<lambda>(key, n). (key, Encode (Node_Value n))) (filter (\<lambda>(key, n). Node_Dirty n) (nodes c))))"
    using assms by (simp add: comp_def case_prod_beta distinct_map_filter)
  then show ?thesis
    using assms by (auto simp: Commit_def Let_def fold_dirty memdb.get_puts map_of_filter_map split: option.splits)
qed

text \<open>After \<open>Commit\<close>, an empty cache loads what the full one answered, read back.\<close>

lemma load_Commit:
  assumes inv: "cache_inv c d" and l: "load c d h = Some n" and f: "fits (raw n)"
  shows "load NewCache (snd (Commit (c, d))) h = Some n \<or> load NewCache (snd (Commit (c, d))) h = Some (unraw (raw n))"
proof -
  have new: "load NewCache d' h = (case NewValueFromBytes (db_Get h d') of Inr v \<Rightarrow> Some v | Inl e \<Rightarrow> None)" for d'
    by (simp add: load_def NewCache_def)
  show ?thesis
  proof (cases "map_of (nodes c) h")
    case None
    with inv l show ?thesis by (simp add: new Commit_db cache_inv_def) (simp add: load_def)
  next
    case (Some m)
    then have m: "Node_Value m = n" using l by (simp add: load_def)
    have "node_inv (IsDirty c) d h m" using inv Some by (simp add: cache_inv_def del: map_of_eq_Some_iff)
    with Some m inv show ?thesis
      by (auto simp: new Commit_db cache_inv_def node_inv_def NewValueFromBytes_Encode [OF f] simp del: map_of_eq_Some_iff split: if_splits)
  qed
qed

section \<open>The tree read back\<close>

lemma ck_not_zero: "is_key k \<Longrightarrow> ck k \<noteq> [0]"
proof
  assume k: "is_key k" and z: "ck k = [0]"
  have "CompactDecode [0] = Inr []" by code_simp
  with ck_decode [OF k] z have "k = []" by simp
  with k show False by (simp add: is_key_def)
qed

lemma str_val_unraw: "b \<noteq> [0] \<Longrightarrow> str_val (unraw (RStr b)) b"
  by (cases b) (auto simp: str_val_def)

lemma is_node_link: "is_node t \<Longrightarrow> 32 \<le> length (rlp (body sha t)) \<Longrightarrow> length (sha (rlp (body sha t))) = 32 \<Longrightarrow>
    unraw (link sha t) = VBytes (sha (rlp (body sha t)))"
  by (simp add: link_def ref_def)

lemma content_raw: "content sha L t n \<Longrightarrow> raw n = body sha t"
proof (cases t)
  case (Branch ts)
  assume "content sha L t n"
  with Branch obtain vs where vs: "n = VList vs" "list_all2 (rep sha L) ts vs" by auto
  from vs(2) have "map raw vs = map (link sha) ts" by (intro map_raw_links) (auto elim: list_all2_mono simp: rep_raw)
  with vs(1) Branch show ?thesis by simp
qed (auto simp: str_val_raw rep_raw)

lemma content_reload:
  assumes "content sha L t n" "wft t" "encs sha t \<subseteq> S"
    and IH: "\<And>s v. size s < size t \<Longrightarrow> wft s \<Longrightarrow> encs sha s \<subseteq> S \<Longrightarrow> rep sha L s v \<Longrightarrow>
      rep sha L' s v \<and> rep sha L' s (unraw (link sha s))"
  shows "content sha L' t n \<and> content sha L' t (unraw (body sha t))"
proof (cases t)
  case (Ext k s)
  with assms(1) obtain kv v1 where n: "n = VList [kv, v1]" "str_val kv (ck k)" "rep sha L s v1" by auto
  have "rep sha L' s v1 \<and> rep sha L' s (unraw (link sha s))"
    using Ext assms(2,3) n(3) by (intro IH) auto
  moreover have "str_val (unraw (RStr (ck k))) (ck k)"
    using Ext assms(2) ck_not_zero by (intro str_val_unraw) simp
  ultimately show ?thesis using n Ext by simp
next
  case (Branch ts)
  with assms(1) obtain vs where vs: "n = VList vs" "list_all2 (rep sha L) ts vs" by auto
  have each: "rep sha L' s v \<and> rep sha L' s (unraw (link sha s))" if "s \<in> set ts" "rep sha L s v" for s v
    using assms(2,3) Branch that size_list_estimation' [of s ts "size s" size]
    by (intro IH) (auto simp: list_all_iff)
  then have "list_all2 (rep sha L') ts vs" using vs(2) by (auto elim: list.rel_mono_strong)
  moreover have "list_all2 (rep sha L') ts (map (unraw \<circ> link sha) ts)"
    using vs(2) each by (auto simp: list_all2_conv_all_nth)
  ultimately show ?thesis using vs(1) Branch by simp
qed (use assms(1) in auto)

lemma rep_reload:
  assumes S: "good_hash sha S"
    and L: "\<And>h n. L h = Some n \<Longrightarrow> fits (raw n) \<Longrightarrow> L' h = Some n \<or> L' h = Some (unraw (raw n))"
  shows "wft t \<Longrightarrow> encs sha t \<subseteq> S \<Longrightarrow> rep sha L t v \<Longrightarrow> rep sha L' t v \<and> rep sha L' t (unraw (link sha t))"
proof (induction "size t" arbitrary: t v rule: less_induct)
  case less
  show ?case
  proof (cases "is_node t")
    case False
    with less.prems show ?thesis
      using str_val_unraw by (cases t) (simp_all add: rep_simps link_def val_ok_def del: unraw.simps(1), auto)
  next
    case node: True
    with less.prems obtain n where n: "stored sha L v n" "content sha L t n" by (auto simp: rep_node)
    have raw: "raw n = body sha t" by (rule content_raw [OF n(2)])
    have both: "content sha L' t n \<and> content sha L' t (unraw (body sha t))"
      by (rule content_reload [OF n(2) less.prems(1,2)]) (use less.hyps in blast)
    have e: "Encode n = rlp (body sha t)" by (rule content_Encode [OF n(2)])
    have e': "Encode (unraw (body sha t)) = rlp (body sha t)" using content_Encode [of sha L' t] both by blast
    show ?thesis
    proof (cases "32 \<le> length (rlp (body sha t))")
      case True
      have "fits (raw n)" using link_fits [OF S less.prems(1,2)] raw by simp
      then have "L' (sha (rlp (body sha t))) = Some n \<or> L' (sha (rlp (body sha t))) = Some (unraw (body sha t))"
        using L [of "sha (rlp (body sha t))" n] n(1) True e raw by (simp add: stored_def)
      then obtain m where m: "L' (sha (rlp (body sha t))) = Some m" "content sha L' t m" "Encode m = rlp (body sha t)"
        using both e e' by blast
      then have "stored sha L' (VBytes (sha (rlp (body sha t)))) m" using True by (simp add: stored_def)
      then have "rep sha L' t (VBytes (sha (rlp (body sha t))))" using m(2) node by (auto simp: rep_node)
      moreover have "v = VBytes (sha (rlp (body sha t)))" using n(1) True e by (simp add: stored_def)
      moreover have "length (sha (rlp (body sha t))) = 32"
        using S body_in_encs [OF node, of sha] less.prems(2) by (auto simp: good_hash_def)
      ultimately show ?thesis using is_node_link [OF node True] by simp
    next
      case False
      then have "v = n" "link sha t = body sha t" using n(1) e node by (simp_all add: stored_def link_def ref_def)
      moreover have "stored sha L' n n" "stored sha L' (unraw (body sha t)) (unraw (body sha t))"
        using False e e' by (simp_all add: stored_def)
      ultimately show ?thesis using both node by (auto simp: rep_node)
    qed
  qed
qed

section \<open>Writing and opening again\<close>

lemma Sync_reopen:
  assumes S: "good_hash sha S" and t: "trie_at sha S d pt t" "trie_inv t d" and s: "Trie_Sync (t, d) = (t', d')"
  shows "trie_at sha S d' pt (NewTrie (Root t'))"
proof -
  from s have d': "d' = snd (Commit (cache t, d))" and r: "Root t' = Root t"
    by (auto simp: Trie_Sync_def case_prod_beta Let_def)
  have "rep sha (load NewCache d') pt (Root t)"
    unfolding d' using t by (intro rep_reload [OF S load_Commit, THEN conjunct1]) (auto simp: trie_at_def trie_inv_def)
  with t(1) r show ?thesis by (simp add: trie_at_def NewTrie_def)
qed

text \<open>Rounds of updates, each written and followed by opening the trie again from its root.\<close>

fun Rounds :: "(bytes \<Rightarrow> bytes) \<Rightarrow> memdb \<Rightarrow> gval \<Rightarrow> update list list \<Rightarrow> (gval \<times> memdb) res" where
  "Rounds sha d r [] = Inr (r, d)"
| "Rounds sha d r (us # uss) =
     rbind (Updates sha d us (NewTrie r)) (\<lambda>t. let (t, d) = Trie_Sync (t, d) in Rounds sha d (Root t) uss)"

lemma put_trees_append:
  "put_trees pt (us @ us') = butlast (put_trees pt us) @ put_trees (last (put_trees pt us)) us'"
  by (induction pt us rule: put_trees.induct) auto

lemma put_trees_first: "pt \<in> set (put_trees pt us)"
  by (cases "(pt, us)" rule: put_trees.cases) simp_all

lemma Rounds_at:
  assumes S: "good_hash sha S"
  shows "trie_at sha S d pt (NewTrie r) \<Longrightarrow> list_all update_ok (concat uss) \<Longrightarrow>
    (\<forall>s \<in> set (put_trees pt (concat uss)). encs sha s \<subseteq> S) \<Longrightarrow>
    \<exists>r' d'. Rounds sha d r uss = Inr (r', d') \<and> trie_at sha S d' (last (put_trees pt (concat uss))) (NewTrie r')"
proof (induction uss arbitrary: d pt r)
  case (Cons us uss)
  let ?q = "last (put_trees pt us)"
  have q: "?q \<in> set (put_trees ?q (concat uss))" by (rule put_trees_first)
  have "set (put_trees pt us) = insert ?q (set (butlast (put_trees pt us)))"
    by (subst append_butlast_last_id [OF put_trees_not_Nil, symmetric]) (simp del: append_butlast_last_id)
  then have all: "set (put_trees pt us) \<subseteq> set (put_trees pt (concat (us # uss)))"
    using q by (auto simp: put_trees_append)
  with Updates_at [OF S Cons.prems(1), of us] Cons.prems(2,3) obtain t where
    t: "Updates sha d us (NewTrie r) = Inr t" "trie_at sha S d ?q t" by auto
  obtain t' d' where s: "Trie_Sync (t, d) = (t', d')" by (cases "Trie_Sync (t, d)")
  from Sync_reopen [OF S t(2) _ s] Updates_inv [OF t(1)] have "trie_at sha S d' ?q (NewTrie (Root t'))" by simp
  with Cons.IH [of d' ?q "Root t'"] Cons.prems(2,3) t(1) s show ?case by (auto simp: put_trees_append)
qed simp

text \<open>C8. Contents survive being written: after any number of rounds of updates, each ended by \<open>Sync\<close> and
  followed by opening the trie again from the root alone with an empty cache, every key reads as the last
  value it was given, and nothing fails. The updates are insertions of keys of at most 400 bytes and
  of values that are neither empty nor the single byte 0 and at most 60000 bytes long, and the hash
  does not collide on the nodes that are encoded.\<close>

theorem trie_persists:
  assumes "good_hash sha (hashed sha (concat uss))" "list_all update_ok (concat uss)"
  shows "\<exists>r d'. Rounds sha d (VStr []) uss = Inr (r, d') \<and>
    (\<forall>k. \<exists>t'. Trie_Get (key_fuel k) d' k (NewTrie r) = Inr (case final (concat uss) k of Some v \<Rightarrow> v | None \<Rightarrow> [], t'))"
proof -
  from Rounds_at [OF assms(1) NewTrie_at assms(2), of d] obtain r d' where
    r: "Rounds sha d (VStr []) uss = Inr (r, d')"
      "trie_at sha (hashed sha (concat uss)) d' (last (put_trees Hole (concat uss))) (NewTrie r)"
    by (auto simp: hashed_def)
  from Trie_Get_at [OF assms(1) r(2)] contents_run [OF assms(2)] r(1) show ?thesis by metis
qed

theorem trie_persists_witness:
  "\<exists>r d'. Rounds demo_sha Map.empty (VStr []) [take 1 demo_updates, drop 1 demo_updates] = Inr (r, d') \<and>
    (\<forall>k. \<exists>t'. Trie_Get (key_fuel k) d' k (NewTrie r) = Inr (case final demo_updates k of Some v \<Rightarrow> v | None \<Rightarrow> [], t'))"
  using trie_persists [of demo_sha "[take 1 demo_updates, drop 1 demo_updates]" Map.empty] demo_hash demo_updates_ok by simp

section \<open>Deleting\<close>

text \<open>
  \<open>DeleteState\<close> slices the key to the length of the key of the pair it is at, without the check that
  \<open>GetState\<close> makes. A key that is shorter by more than its slice has spare capacity panics, whether
  or not it has anything to do with the key that is stored.
\<close>

lemma DeleteState_short:
  assumes S: "good_hash sha S" and t: "wft (Ext k s)" "encs sha (Ext k s) \<subseteq> S" and r: "rep sha (load c d) (Ext k s) nv"
    and key: "key \<noteq> []" "length key + sp < length k"
  shows "DeleteState (Suc f) sha d sp nv key c = Inl SliceBounds"
proof -
  from r rep_node [of "Ext k s"] obtain n where n: "stored sha (load c d) nv n" "content sha (load c d) (Ext k s) n" by auto
  then obtain kv v1 where kv: "n = VList [kv, v1]" "str_val kv (ck k)" by auto
  from GetNode_rep [OF S t(2) _ t(1) n] obtain c1 where g: "GetNode d nv c = Inr (n, c1)" by auto
  have "CompactDecode (ck k) = Inr k" using ck_decode t(1) by simp
  moreover have "k \<noteq> key" "goslice key (replicate sp 0) 0 (length k) = Inl SliceBounds"
    using key(2) by (auto simp: goslice_def)
  ultimately show ?thesis
    using g kv noNode_stored [OF S t(2) _ t(1) n] key(1) by (simp add: NewValue_str_val Let_def)
qed

text \<open>Deletion of a short key is a panic: in the trie that holds one key, deleting another key whose
  nibbles, with the spare capacity of their slice, are fewer than those of the stored key fails with
  a slice-bounds error instead of leaving the trie as it is.\<close>

theorem delete_short_key_panics:
  assumes "good_hash sha (hashed sha [(sp, k, v)])" "update_ok (sp, k, v)" "2 * length k' + sp' < 2 * length k"
    and "Updates sha d [(sp, k, v)] (NewTrie (VStr [])) = Inr t"
  shows "Trie_Delete (key_fuel k') sha d sp' k' t = Inl SliceBounds"
proof -
  let ?S = "hashed sha [(sp, k, v)]"
  have "trie_at sha ?S d (put_tree Hole k v) t" using run_at [OF assms(1) order_refl, of d] assms(2,4) by simp
  moreover have "put_tree Hole k v = Ext (CompactHexDecode k) (Val v)"
    unfolding put_tree_def using CompactHexDecode_not_Nil [of k] by (cases "CompactHexDecode k") simp_all
  ultimately have p: "wft (Ext (CompactHexDecode k) (Val v))" "encs sha (Ext (CompactHexDecode k) (Val v)) \<subseteq> ?S"
    "rep sha (load (cache t) d) (Ext (CompactHexDecode k) (Val v)) (Root t)" by (simp_all only: trie_at_def)
  have "length (CompactHexDecode k') + sp' < length (CompactHexDecode k)"
    using assms(3) by (simp add: length_CompactHexDecode)
  from DeleteState_short [OF assms(1) p CompactHexDecode_not_Nil this]
  have "DeleteState (key_fuel k') sha d sp' (Root t) (CompactHexDecode k') (cache t) = Inl SliceBounds"
    by (simp only: key_fuel_def add_Suc_right numeral_nat)
  then show ?thesis by (simp add: Trie_Delete_def Update_def UpdateState_def)
qed

text \<open>The key "a", three nibbles in a slice of capacity four, against the stored key "ab".\<close>

theorem delete_short_key_panics_witness:
  "\<exists>t. Updates demo_sha Map.empty [(0, [0x61, 0x62], [1, 2, 3])] (NewTrie (VStr [])) = Inr t \<and>
    Trie_Delete (key_fuel [0x61]) demo_sha Map.empty 1 [0x61] t = Inl SliceBounds"
proof -
  let ?us = "[(0, [0x61, 0x62], [1, 2, 3])] :: update list"
  have tr: "put_trees Hole ?us = [Hole, Ext [6, 1, 6, 2, 16] (Val [1, 2, 3])]"
    by (simp add: put_tree_def CompactHexDecode_nibbles)
  have h: "good_hash demo_sha (hashed demo_sha ?us)"
    unfolding hashed_set hashed_list_def tr by (rule good_hash_set; code_simp)
  have ok: "list_all update_ok ?us" by (simp add: update_ok_def val_ok_def)
  from run_at [OF h order_refl ok, of Map.empty] obtain t where t: "Updates demo_sha Map.empty ?us (NewTrie (VStr [])) = Inr t"
    by blast
  with delete_short_key_panics [OF h _ _ t, of "[0x61]" 1] ok show ?thesis by auto
qed

end
