(* ===== verification/Addr.thy ===== *)
theory Addr
  imports Wire Database
begin

text \<open>
  The parts of \<open>peer.go\<close> that are functions of their arguments: capabilities, the names of
  disconnect reasons, and the packing of network addresses; with what they use of \<open>strings\<close>,
  \<open>strconv\<close> and \<open>net\<close>. A Go string is its bytes.
\<close>

section \<open>Strings and numbers\<close>

text \<open>\<open>strings.Split\<close> at a one-byte separator and \<open>strings.Join\<close>.\<close>

fun Split :: "byte \<Rightarrow> bytes \<Rightarrow> bytes list" where
  "Split c [] = [[]]"
| "Split c (b # bs) =
     (if b = c then [] # Split c bs
      else case Split c bs of [] \<Rightarrow> [[b]] | w # ws \<Rightarrow> (b # w) # ws)"

fun Join :: "bytes \<Rightarrow> bytes list \<Rightarrow> bytes" where
  "Join sep [] = []"
| "Join sep [w] = w"
| "Join sep (w # ws) = w @ sep @ Join sep ws"

abbreviation (input) dot :: byte where "dot \<equiv> 0x2e"
abbreviation (input) colon :: byte where "colon \<equiv> 0x3a"
abbreviation (input) lbracket :: byte where "lbracket \<equiv> 0x5b"
abbreviation (input) rbracket :: byte where "rbracket \<equiv> 0x5d"

definition is_digit :: "byte \<Rightarrow> bool" where
  "is_digit b \<longleftrightarrow> 48 \<le> unat b \<and> unat b \<le> 57"

definition digits_val :: "bytes \<Rightarrow> int" where
  "digits_val ds = foldl (\<lambda>n d. 10 * n + (uint d - 48)) 0 ds"

fun dec_bytes :: "nat \<Rightarrow> bytes" where
  "dec_bytes n = (if n < 10 then [of_nat (48 + n)] else dec_bytes (n div 10) @ [of_nat (48 + n mod 10)])"

declare dec_bytes.simps [simp del]

definition Itoa :: "int \<Rightarrow> bytes" where
  "Itoa n = (if n < 0 then 0x2d # dec_bytes (nat (- n)) else dec_bytes (nat n))"

text \<open>The number \<open>strconv.Atoi\<close> returns beside its error: 0 for what is not a number, the nearest
  representable one for a number out of range.\<close>

definition Atoi :: "bytes \<Rightarrow> int" where
  "Atoi s =
     (let (neg, ds) = (case s of [] \<Rightarrow> (False, [])
                       | c # cs \<Rightarrow> if c = 0x2d then (True, cs) else if c = 0x2b then (False, cs) else (False, s));
          v = digits_val ds
      in if ds = [] \<or> \<not> list_all is_digit ds then 0
         else if neg then max (- v) (- (2 ^ 63)) else min v (2 ^ 63 - 1))"

text \<open>\<open>net.JoinHostPort\<close>, \<open>net.SplitHostPort\<close> (two empty strings with an error).\<close>

definition JoinHostPort :: "bytes \<Rightarrow> bytes \<Rightarrow> bytes" where
  "JoinHostPort h p =
     (if colon \<in> set h then lbracket # h @ [rbracket, colon] @ p else h @ [colon] @ p)"

definition index_of :: "byte \<Rightarrow> bytes \<Rightarrow> nat option" where
  "index_of c s = (if c \<in> set s then Some (length (takeWhile (\<lambda>b. b \<noteq> c) s)) else None)"

definition SplitHostPort :: "bytes \<Rightarrow> bytes \<times> bytes" where
  "SplitHostPort s =
     (case Split colon s of
        [] \<Rightarrow> ([], [])
      | [_] \<Rightarrow> ([], [])
      | parts \<Rightarrow>
          let port = last parts; i = length s - length port - 1 in
          if hd s = lbracket then
            (case index_of rbracket s of
               None \<Rightarrow> ([], [])
             | Some e \<Rightarrow>
                 if e + 1 = i \<and> lbracket \<notin> set (tl s) \<and> rbracket \<notin> set (drop (e + 1) s)
                 then (take (e - 1) (drop 1 s), port) else ([], []))
          else
            let h = take i s in
            if colon \<in> set h \<or> lbracket \<in> set s \<or> rbracket \<in> set s then ([], []) else (h, port))"

text \<open>
  \<open>net.ParseIP\<close> of a string whose first dot comes before its first colon: four decimal bytes. A
  string that begins with a bracket, as a remote IPv6 address does, is no IP address.
\<close>

definition ParseIPv4 :: "bytes \<Rightarrow> bytes option" where
  "ParseIPv4 s =
     (let parts = Split dot s in
      if length parts = 4 \<and> list_all (\<lambda>p. p \<noteq> [] \<and> list_all is_digit p \<and> digits_val p \<le> 255) parts
      then Some (map (\<lambda>p. of_int (digits_val p)) parts) else None)"

definition IsLoopback :: "bytes option \<Rightarrow> bool" where
  "IsLoopback ip = (case ip of None \<Rightarrow> False | Some b \<Rightarrow> hd b = 127)"

section \<open>Capabilities\<close>

definition CapPeerDiscTy :: byte where "CapPeerDiscTy = 1"
definition CapTxTy :: byte where "CapTxTy = 2"
definition CapChainTy :: byte where "CapChainTy = 4"
definition CapDefault :: byte where "CapDefault = or CapChainTy (or CapTxTy CapPeerDiscTy)"

definition capsToString :: "(byte \<times> string) list" where
  "capsToString =
     [(CapPeerDiscTy, ''Peer discovery''), (CapTxTy, ''Transaction relaying''), (CapChainTy, ''Block chain relaying'')]"

definition IsCap :: "byte \<Rightarrow> byte \<Rightarrow> bool" where
  "IsCap c cap \<longleftrightarrow> and c cap > 0"

definition cap_name :: "byte \<Rightarrow> bytes" where
  "cap_name c = (case map_of capsToString c of Some s \<Rightarrow> lit s | None \<Rightarrow> [])"

definition Caps_String :: "byte \<Rightarrow> bytes" where
  "Caps_String c =
     Join (lit '' | '') (map cap_name (filter (IsCap c) [CapPeerDiscTy, CapChainTy, CapTxTy]))"

section \<open>Disconnect reasons\<close>

definition discReasonToString :: "string list" where
  "discReasonToString =
     [''Disconnect requested'', ''Disconnect TCP sys error'', ''Disconnect bad protocol'', ''Disconnect useless peer'',
      ''Disconnect too many peers'', ''Disconnect already connected'', ''Disconnect wrong genesis block'',
      ''Disconnect incompatible network'']"

definition DiscReason_String :: "byte \<Rightarrow> string res" where
  "DiscReason_String d =
     (if length discReasonToString < unat d then Inr ''Unknown'' else goindex discReasonToString (unat d))"

section \<open>Addresses\<close>

definition packAddr :: "bytes \<Rightarrow> bytes \<Rightarrow> (bytes \<times> 16 word) res" where
  "packAddr address port =
     (let addr = Split dot address in
      rbind (goindex addr 0) (\<lambda>a.
      rbind (goindex addr 1) (\<lambda>b.
      rbind (goindex addr 2) (\<lambda>c.
      rbind (goindex addr 3) (\<lambda>d.
      Inr ([of_int (Atoi a), of_int (Atoi b), of_int (Atoi c), of_int (Atoi d)], of_int (Atoi port)))))))"

definition unpackAddr :: "gval \<Rightarrow> uint64 \<Rightarrow> bytes res" where
  "unpackAddr val p =
     (let byts = Bytes val in
      rbind (goindex byts 0) (\<lambda>a.
      rbind (goindex byts 1) (\<lambda>b.
      rbind (goindex byts 2) (\<lambda>c.
      rbind (goindex byts 3) (\<lambda>d.
      Inr (JoinHostPort (Join [dot] (map (\<lambda>x. Itoa (uint x)) [a, b, c, d])) (Itoa (sint p))))))))"

section \<open>Facts\<close>

lemma dec_bytes_digits: "list_all is_digit (dec_bytes n)"
proof (induction n rule: dec_bytes.induct)
  case (1 n)
  have d: "is_digit (of_nat (48 + k))" if "k < 10" for k
    using that by (simp add: is_digit_def unat_of_nat del: of_nat_add)
  show ?case
  proof (cases "n < 10")
    case True
    then show ?thesis using d [OF True] by (simp add: dec_bytes.simps)
  next
    case False
    moreover have "is_digit (of_nat (48 + n mod 10))" by (rule d) simp
    ultimately show ?thesis using "1.IH" by (subst dec_bytes.simps) simp
  qed
qed

lemma dec_bytes_not_Nil [simp]: "dec_bytes n \<noteq> []"
  by (subst dec_bytes.simps) simp

lemma digits_val_dec: "digits_val (dec_bytes n) = int n"
proof (induction n rule: dec_bytes.induct)
  case (1 n)
  have u: "uint (of_nat (48 + k) :: byte) = 48 + int k" if "k < 10" for k
    using that by (simp add: uint_nat unat_of_nat del: of_nat_add)
  show ?case
  proof (cases "n < 10")
    case True
    then show ?thesis using u [OF True] by (simp add: dec_bytes.simps digits_val_def)
  next
    case False
    moreover have "uint (of_nat (48 + n mod 10) :: byte) = 48 + int (n mod 10)" by (rule u) simp
    moreover have "10 * int (n div 10) + int (n mod 10) = int n" using mult_div_mod_eq [of 10 n] by linarith
    ultimately show ?thesis using "1.IH" by (subst dec_bytes.simps) (simp add: digits_val_def)
  qed
qed

lemma hd_digits: "list_all is_digit ds \<Longrightarrow> ds \<noteq> [] \<Longrightarrow> \<exists>d r. ds = d # r \<and> d \<noteq> 0x2d \<and> d \<noteq> 0x2b"
  by (cases ds) (auto simp: is_digit_def)

lemma Atoi_Itoa: "0 \<le> n \<Longrightarrow> n < 2 ^ 63 \<Longrightarrow> Atoi (Itoa n) = n"
proof -
  assume n: "0 \<le> n" "n < 2 ^ 63"
  from hd_digits [OF dec_bytes_digits dec_bytes_not_Nil, of "nat n"] obtain d r where
    d: "dec_bytes (nat n) = d # r" "d \<noteq> 0x2d" "d \<noteq> 0x2b" by blast
  have "digits_val (d # r) = int (nat n)" "list_all is_digit (d # r)"
    using digits_val_dec [of "nat n"] dec_bytes_digits [of "nat n"] d(1) by simp_all
  with n d show ?thesis by (simp add: Atoi_def Itoa_def Let_def)
qed

lemma Split_no: "c \<notin> set s \<Longrightarrow> Split c s = [s]"
  by (induction s) auto

lemma Split_append: "c \<notin> set w \<Longrightarrow> Split c (w @ c # s) = w # Split c s"
  by (induction w) auto

lemma Itoa_no: "0 \<le> n \<Longrightarrow> \<not> is_digit c \<Longrightarrow> c \<notin> set (Itoa n)"
  using dec_bytes_digits [of "nat n"] by (auto simp: Itoa_def list_all_iff)

lemma not_digit [simp]: "\<not> is_digit dot" "\<not> is_digit colon"
  by (simp_all add: is_digit_def)

lemma Atoi_byte [simp]: "Atoi (Itoa (uint (b :: byte))) = uint b"
  using uint_lt2p [of b] by (intro Atoi_Itoa) simp_all

lemma Split_dotted:
  "Split dot (Join [dot] (map (\<lambda>x. Itoa (uint x)) [a, b, c, d])) =
    map (\<lambda>x. Itoa (uint x)) [a, b, c, d :: byte]"
  by (simp add: Split_append Split_no Itoa_no)

text \<open>Addresses survive the trip through a peers message: the bytes that \<open>packAddr\<close> makes of a dotted
  address and a port are turned back by \<open>unpackAddr\<close> into the same host and port.\<close>

theorem address_roundtrip:
  "\<exists>h p. packAddr (Join [dot] (map (\<lambda>x. Itoa (uint x)) [a, b, c, d :: byte])) (Itoa (uint pt)) = Inr (h, p) \<and> p = pt \<and>
    unpackAddr (VBytes h) (ucast p) =
      Inr (JoinHostPort (Join [dot] (map (\<lambda>x. Itoa (uint x)) [a, b, c, d])) (Itoa (uint pt)))"
proof -
  have p: "0 \<le> uint pt" "uint pt < 2 ^ 16" using uint_lt2p [of pt] by simp_all
  have u: "uint (ucast pt :: uint64) = uint pt" by (rule uint_up_ucast) (simp add: is_up)
  have s: "sint (ucast pt :: uint64) = uint pt" using p(2) by (simp add: sint_eq_uint u)
  have "uint pt < 2 ^ 63" using p(2) by simp
  then have "packAddr (Join [dot] (map (\<lambda>x. Itoa (uint x)) [a, b, c, d])) (Itoa (uint pt)) = Inr ([a, b, c, d], pt)"
    unfolding packAddr_def Split_dotted Let_def using p(1) by (simp add: Atoi_Itoa)
  moreover have "unpackAddr (VBytes [a, b, c, d]) (ucast pt) =
      Inr (JoinHostPort (Join [dot] (map (\<lambda>x. Itoa (uint x)) [a, b, c, d])) (Itoa (uint pt)))"
    by (simp add: unpackAddr_def s)
  ultimately show ?thesis by blast
qed

text \<open>A host in a peers message that has fewer than four bytes makes the receiver panic; nothing on the way
  checks what a peer sends.\<close>

theorem short_host_panics: "unpackAddr (VBytes h) p = Inl IndexOutOfRange \<longleftrightarrow> length h < 4"
  by (auto simp: unpackAddr_def goindex_def Let_def)

text \<open>Every reason that the protocol defines has a name and every other one is "Unknown", except the first
  one behind the table, for which the bounds check is off by one and the lookup panics.\<close>

theorem DiscReason_String_off_by_one:
  "DiscReason_String d =
     (if unat d < 8 then Inr (discReasonToString ! unat d)
      else if unat d = 8 then Inl IndexOutOfRange else Inr ''Unknown'')"
  by (auto simp: DiscReason_String_def discReasonToString_def goindex_def)

end
