(* ===== verification/Block_Txs.thy ===== *)
theory Block_Txs
  imports Trie_Runs Chain_Correct Addr
begin

text \<open>
  What the header of a block says about its transactions. \<open>setTransactions\<close> fills a trie with the
  encoded transactions under their decimal indexes and keeps its root in \<open>TxSha\<close>; by the
  properties of the trie that root stands for exactly this list.
\<close>

section \<open>Decimal keys\<close>

lemma lit_digit: "k < 10 \<Longrightarrow> lit [char_of (48 + k)] = [of_nat (48 + k)]"
  by (simp add: lit_def take_bit_eq_mod)

lemma itoa_dec: "itoa n = dec_bytes n"
proof (induction n rule: dec_bytes.induct)
  case (1 n)
  have app: "lit (s @ r) = lit s @ lit r" for s r by (simp add: lit_def)
  show ?case
  proof (cases "n < 10")
    case True
    then show ?thesis unfolding itoa_def dec_nat.simps [of n] dec_bytes.simps [of n] if_P [OF True] by (rule lit_digit)
  next
    case False
    have "n mod 10 < 10" by simp
    then show ?thesis
      unfolding itoa_def dec_nat.simps [of n] dec_bytes.simps [of n] if_not_P [OF False] app
      using "1.IH" [OF False] by (simp only: itoa_def lit_digit)
  qed
qed

lemma itoa_inject: "itoa i = itoa j \<longleftrightarrow> i = j"
  by (metis itoa_dec digits_val_dec of_nat_eq_iff)

lemma length_dec_bytes: "n < 10 ^ Suc k \<Longrightarrow> length (dec_bytes n) \<le> Suc k"
proof (induction k arbitrary: n)
  case 0
  then show ?case by (subst dec_bytes.simps) simp
next
  case (Suc k)
  show ?case
  proof (cases "n < 10")
    case True
    then show ?thesis by (subst dec_bytes.simps) simp
  next
    case False
    have "n div 10 < 10 ^ Suc k" using Suc.prems by (intro less_mult_imp_div_less) (simp add: mult.commute)
    then have "length (dec_bytes (n div 10)) \<le> Suc k" by (rule Suc.IH)
    then show ?thesis unfolding dec_bytes.simps [of n] if_not_P [OF False] by simp
  qed
qed

section \<open>The transactions as updates of a trie\<close>

fun tx_updates :: "Env \<Rightarrow> nat \<Rightarrow> Transaction list \<Rightarrow> update list" where
  "tx_updates E i [] = []"
| "tx_updates E i (tx # txs) = (spare E (length (itoa i)), itoa i, tx_RlpEncode tx) # tx_updates E (i + 1) txs"

lemma tx_trie_Updates: "tx_trie E d i txs t = Updates (sha E) d (tx_updates E i txs) t"
  by (induction txs arbitrary: i t) (simp_all cong: rbind_cong)

text \<open>A transaction that may be put into a block.\<close>

definition tx_storable :: "Transaction list \<Rightarrow> bool" where
  "tx_storable txs \<longleftrightarrow> length txs < 10 ^ 10 \<and> list_all (\<lambda>tx. val_ok (tx_RlpEncode tx)) txs"

lemma tx_updates_ok:
  "list_all (\<lambda>tx. val_ok (tx_RlpEncode tx)) txs \<Longrightarrow> i + length txs < 10 ^ 10 \<Longrightarrow> list_all update_ok (tx_updates E i txs)"
proof (induction txs arbitrary: i)
  case (Cons tx txs)
  then have "length (itoa i) \<le> Suc 9" unfolding itoa_dec by (intro length_dec_bytes) simp
  with Cons show ?case by (simp add: update_ok_def)
qed simp

lemma final_txs:
  "final (tx_updates E i txs) (itoa k) =
    (if i \<le> k \<and> k < i + length txs then Some (tx_RlpEncode (txs ! (k - i))) else None)"
proof (induction txs arbitrary: i)
  case (Cons tx txs)
  have "final (tx_updates E i (tx # txs)) (itoa k) =
      (case final (tx_updates E (i + 1) txs) (itoa k) of Some v \<Rightarrow> Some v
       | None \<Rightarrow> if k = i then Some (tx_RlpEncode tx) else None)"
    by (auto simp: final_def map_add_def itoa_inject split: option.splits)
  with Cons.IH [of "i + 1"] show ?case by (auto simp: nth_Cons')
qed (simp add: final_def)

lemma final_txs_same:
  "map tx_RlpEncode txs = map tx_RlpEncode txs' \<Longrightarrow> map snd (tx_updates E i txs) = map snd (tx_updates E' i txs')"
proof (induction txs arbitrary: i txs')
  case (Cons tx txs)
  then show ?case by (cases txs') auto
qed simp

lemma final_txs_eq:
  "final (tx_updates E 0 txs) = final (tx_updates E' 0 txs') \<longleftrightarrow> map tx_RlpEncode txs = map tx_RlpEncode txs'"
proof
  assume e: "final (tx_updates E 0 txs) = final (tx_updates E' 0 txs')"
  have *: "(if i < length txs then Some (tx_RlpEncode (txs ! i)) else None) =
      (if i < length txs' then Some (tx_RlpEncode (txs' ! i)) else None)" for i
    using fun_cong [OF e, of "itoa i"] unfolding final_txs by (simp only: le0 simp_thms add_0 diff_zero)
  have "length txs = length txs'"
    using * [of "length txs"] * [of "length txs'"] by (auto split: if_splits)
  moreover have "tx_RlpEncode (txs ! i) = tx_RlpEncode (txs' ! i)" if "i < length txs" "i < length txs'" for i
    using * [of i] that by simp
  ultimately show "map tx_RlpEncode txs = map tx_RlpEncode txs'" by (simp add: list_eq_iff_nth_eq)
next
  assume "map tx_RlpEncode txs = map tx_RlpEncode txs'"
  from final_txs_same [OF this, of E 0 E'] show "final (tx_updates E 0 txs) = final (tx_updates E' 0 txs')"
    by (simp add: final_def)
qed

section \<open>The root in the header\<close>

lemma setTransactions_root:
  assumes "setTransactions E txs b w = Inr c"
  obtains t where "Updates (sha E) (db w) (tx_updates E 0 txs) (NewTrie (VStr [])) = Inr t" "raw (Root t) = RStr (TxSha c)"
proof -
  from assms obtain t where t: "tx_trie E (db w) 0 txs (NewTrie (VStr [])) = Inr t"
    and r: "(case Root t of VStr s \<Rightarrow> Inr (b\<lparr>transactions := txs, TxSha := s\<rparr>)
      | VBytes s \<Rightarrow> Inr (b\<lparr>transactions := txs, TxSha := s\<rparr>) | _ \<Rightarrow> Inl (Panic ''invalid root type'')) = Inr c"
    by (auto simp: setTransactions_def rbind_Inr_iff)
  from r have "raw (Root t) = RStr (TxSha c)" by (cases "Root t") auto
  with that t show ?thesis by (simp add: tx_trie_Updates)
qed

lemma root_fits:
  assumes "good_hash h S" "hashed h us \<subseteq> S" "list_all update_ok us" "Updates h d us (NewTrie (VStr [])) = Inr t"
  shows "fits (raw (Root t))"
proof -
  from run_at [OF assms(1-3), of d] assms(4) have a: "trie_at h S d (last (put_trees Hole us)) t" by simp
  then have "raw (Root t) = link h (last (put_trees Hole us))" by (auto simp: trie_at_def intro: rep_raw)
  with a link_fits [OF assms(1)] show ?thesis by (simp add: trie_at_def)
qed

text \<open>C10. The header of a block determines its transactions: two blocks have the same transaction root exactly
  when their lists of encoded transactions are the same, in the same order and number, whatever else was
  in the databases. The hash function is assumed not to collide on the nodes of the two tries.\<close>

theorem TxSha_binding:
  assumes "good_hash (sha E) (hashed (sha E) (tx_updates E 0 txs) \<union> hashed (sha E) (tx_updates E 0 txs'))"
    and "tx_storable txs" "tx_storable txs'"
    and "setTransactions E txs b w = Inr c" "setTransactions E txs' b' w' = Inr c'"
  shows "TxSha c = TxSha c' \<longleftrightarrow> map tx_RlpEncode txs = map tx_RlpEncode txs'"
proof -
  have ok: "list_all update_ok (tx_updates E 0 txs)" "list_all update_ok (tx_updates E 0 txs')"
    using assms(2,3) by (auto simp: tx_storable_def intro!: tx_updates_ok)
  obtain t where t: "Updates (sha E) (db w) (tx_updates E 0 txs) (NewTrie (VStr [])) = Inr t" "raw (Root t) = RStr (TxSha c)"
    by (rule setTransactions_root [OF assms(4)])
  obtain t' where t': "Updates (sha E) (db w') (tx_updates E 0 txs') (NewTrie (VStr [])) = Inr t'" "raw (Root t') = RStr (TxSha c')"
    by (rule setTransactions_root [OF assms(5)])
  have "Encode (Root t) = Encode (Root t') \<longleftrightarrow> raw (Root t) = raw (Root t')"
    unfolding Encode_raw using root_fits [OF assms(1) _ ok(1) t(1)] root_fits [OF assms(1) _ ok(2) t'(1)]
    by (intro rlp_inject) simp_all
  then have "TxSha c = TxSha c' \<longleftrightarrow> Encode (Root t) = Encode (Root t')" by (simp add: t(2) t'(2))
  also have "\<dots> \<longleftrightarrow> final (tx_updates E 0 txs) = final (tx_updates E 0 txs')"
    by (rule root_binding_updates [OF assms(1) ok t(1) t'(1)])
  finally show ?thesis by (simp only: final_txs_eq)
qed

section \<open>An instance\<close>

definition hash_env :: Env where
  "hash_env = demo_env\<lparr>sha := demo_sha\<rparr>"

definition signed_tx :: Transaction where
  "signed_tx = demo_tx\<lparr>tx_r := replicate 32 9\<rparr>"

lemma hash_env_updates: "tx_updates hash_env 0 [signed_tx] = [(spare demo_env 1, [0x30], tx_RlpEncode signed_tx)]"
  by (simp add: itoa_dec dec_bytes.simps hash_env_def)

lemma signed_tx_ok: "val_ok (tx_RlpEncode signed_tx)"
proof -
  have "2 < length (tx_RlpEncode signed_tx) \<and> length (tx_RlpEncode signed_tx) < 80" by code_simp
  then show ?thesis by (auto simp: val_ok_def)
qed

lemma hash_env_good: "good_hash demo_sha (hashed demo_sha (tx_updates hash_env 0 [signed_tx]) \<union> hashed demo_sha (tx_updates hash_env 0 []))"
proof -
  have "put_trees Hole (tx_updates hash_env 0 [signed_tx]) = [Hole, Ext [3, 0, 16] (Val (tx_RlpEncode signed_tx))]"
    unfolding hash_env_updates by (simp add: put_tree_def CompactHexDecode_nibbles)
  moreover have "put_trees Hole (tx_updates hash_env 0 []) = [Hole]" by simp
  ultimately have h: "hashed_list demo_sha (tx_updates hash_env 0 [signed_tx]) = [rlp (body demo_sha (Ext [3, 0, 16] (Val (tx_RlpEncode signed_tx))))]"
    "hashed_list demo_sha (tx_updates hash_env 0 []) = []"
    by (simp_all add: hashed_list_def)
  show ?thesis unfolding hashed_set h by (simp add: good_hash_def demo_sha_def)
qed

theorem TxSha_binding_witness:
  "\<exists>c c'. setTransactions hash_env [signed_tx] demo_block demo_world = Inr c \<and>
    setTransactions hash_env [] demo_block demo_world = Inr c' \<and> TxSha c \<noteq> TxSha c'"
proof -
  have "\<not> isl (setTransactions hash_env [signed_tx] demo_block demo_world)" by code_simp
  then obtain c where c: "setTransactions hash_env [signed_tx] demo_block demo_world = Inr c"
    by (cases "setTransactions hash_env [signed_tx] demo_block demo_world") auto
  have "\<not> isl (setTransactions hash_env [] demo_block demo_world)" by code_simp
  then obtain c' where c': "setTransactions hash_env [] demo_block demo_world = Inr c'"
    by (cases "setTransactions hash_env [] demo_block demo_world") auto
  have "sha hash_env = demo_sha" by (simp add: hash_env_def)
  with TxSha_binding [of hash_env "[signed_tx]" "[]", OF _ _ _ c c'] hash_env_good signed_tx_ok c c' show ?thesis
    by (auto simp: tx_storable_def)
qed

text \<open>A list whose trie has a root of less than 32 bytes, as one short transaction has, makes
  \<open>setTransactions\<close> panic: such a root is kept as a node, not as a hash.\<close>

lemma short_root_panics: "setTransactions hash_env [demo_tx] demo_block demo_world = Inl (Panic ''invalid root type'')"
  by code_simp

end
