(* ===== verification/Accounts.thy ===== *)
theory Accounts
  imports Trie_Sync Block_Txs
begin

text \<open>
  A state as a map of accounts. \<open>State\<close> keeps accounts encoded in a trie, and their scripts in the
  database under their hashes; seen from its operations it is a map from addresses to accounts.
\<close>

section \<open>Other entries of the database\<close>

lemma keeps_agree:
  assumes "\<And>x. x \<in> S \<Longrightarrow> L' (hash x) = L (hash x)"
  shows "keeps hash S L L'"
proof -
  have "rep hash L' t v" if "wft t" "encs hash t \<subseteq> S" "rep hash L t v" for t v
    using that
  proof (induction "size t" arbitrary: t v rule: less_induct)
    case less
    show ?case
    proof (cases "is_node t")
      case False
      with less.prems(3) show ?thesis by (cases t) (auto simp: rep_simps)
    next
      case node: True
      with less.prems obtain m where m: "stored hash L v m" "content hash L t m" by (auto simp: rep_node)
      have "Encode m \<in> S" using content_Encode [OF m(2)] body_in_encs [OF node] less.prems(2) by auto
      then have "stored hash L' v m" using m(1) assms [of "Encode m"] by (simp add: stored_def split: if_splits)
      moreover have "content hash L' t m" using content_keeps [OF m(2) less.prems(1,2)] less.hyps by blast
      ultimately show ?thesis using node by (auto simp: rep_node)
    qed
  qed
  then show ?thesis by (simp add: keeps_def)
qed

lemma trie_at_db_Put:
  assumes "trie_at hash S d pt t" "h \<notin> hash ` S"
  shows "trie_at hash S (db_Put h b d) pt t"
proof -
  have "keeps hash S (load (cache t) d) (load (cache t) (db_Put h b d))"
    using assms(2) by (intro keeps_agree) (auto simp: load_def memdb.get_put split: option.splits)
  then show ?thesis using assms(1) by (auto simp: trie_at_def keeps_def)
qed

section \<open>The trie of a state\<close>

definition state_at :: "Env \<Rightarrow> bytes set \<Rightarrow> ptree \<Rightarrow> nat \<Rightarrow> World \<Rightarrow> bool" where
  "state_at E S pt r w \<longleftrightarrow> r < length (heap w) \<and> trie_at (sha E) S (db w) pt (trie (heap w ! r))"

lemma state_Get_at:
  assumes "good_hash (sha E) S" "state_at E S pt r w"
  shows "\<exists>w'. state_Get r k w = Inr (contents pt k, w') \<and> db w' = db w"
proof -
  from assms(2) have "trie_at (sha E) S (db w) pt (trie (heap w ! r))" by (simp add: state_at_def)
  from Trie_Get_at [OF assms(1) this, of k] assms(2) show ?thesis
    by (auto simp: state_Get_def state_at_def deref_def put_state_def)
qed

lemma state_Update_at:
  assumes "good_hash (sha E) S" "state_at E S pt r w" "length k \<le> 400" "val_ok v" "encs (sha E) (put_tree pt k v) \<subseteq> S"
  shows "\<exists>w'. state_Update E r k v w = Inr w' \<and> state_at E S (put_tree pt k v) r w' \<and> db w' = db w"
proof -
  from assms(2) have "trie_at (sha E) S (db w) pt (trie (heap w ! r))" by (simp add: state_at_def)
  from Update_at [OF assms(1) this assms(3-5), of "spare E (length k)"] assms(2) show ?thesis
    by (auto simp: state_Update_def state_at_def deref_def put_state_def)
qed

section \<open>Plain accounts\<close>

text \<open>An account without storage, with numbers that survive their encoding.\<close>

definition plain :: "Env \<Rightarrow> StateObject \<Rightarrow> bool" where
  "plain E c \<longleftrightarrow> obj_state c = None \<and> 0 \<le> Amount c \<and> Amount c < 2 ^ 256 \<and> uint (Nonce c) < 2 ^ 16 \<and>
     length (address c) \<le> 400 \<and> length (sha E (script c)) = 32"

definition account_bytes :: "Env \<Rightarrow> StateObject \<Rightarrow> bytes" where
  "account_bytes E c = Encode (VList [VBig (Some (Amount c)), VUint64 (Nonce c), VStr [], VBytes (sha E (script c))])"

lemma raw_account:
  "raw (VList [VBig (Some (Amount c)), VUint64 (Nonce c), VStr [], VBytes h]) =
    RList [RStr (big_Bytes (Amount c)), RStr (big_Bytes (sint (Nonce c))), RStr [], RStr h]"
  by simp

lemma length_big_Bytes_256: "0 \<le> x \<Longrightarrow> x < 2 ^ 256 \<Longrightarrow> length (big_Bytes x) \<le> 32"
proof -
  assume "0 \<le> x" "x < 2 ^ 256"
  then have "nat x < 256 ^ 32" by simp
  then show ?thesis using \<open>0 \<le> x\<close> by (simp add: big_Bytes_def length_nat_be_le)
qed

lemma sint_nonce: "uint (n :: uint64) < 2 ^ 16 \<Longrightarrow> 0 \<le> sint n \<and> sint n < 2 ^ 256"
  by (simp add: sint_eq_uint)

lemma account_length:
  assumes "plain E c"
  shows "33 \<le> length (account_bytes E c)" "length (account_bytes E c) \<le> 200"
    "fits (raw (VList [VBig (Some (Amount c)), VUint64 (Nonce c), VStr [], VBytes (sha E (script c))]))"
proof -
  let ?a = "big_Bytes (Amount c)" and ?n = "big_Bytes (sint (Nonce c))" and ?h = "sha E (script c)"
  let ?p = "Encode_bytes ?a @ Encode_bytes ?n @ Encode_bytes [] @ Encode_bytes ?h"
  have l: "length ?a \<le> 32" "length ?n \<le> 32" "length ?h = 32"
    using assms sint_nonce [of "Nonce c"] by (auto simp: plain_def intro!: length_big_Bytes_256)
  then have p: "length ?p \<le> 120" "32 \<le> length (Encode_bytes ?h)"
    using length_Encode_bytes [of ?a] length_Encode_bytes [of ?n] length_Encode_bytes [of "[]"] length_Encode_bytes [of ?h]
    by (simp_all add: Encode_bytes_def [of ?h])
  have e: "account_bytes E c = WriteSliceHeader (length ?p) @ ?p"
    by (simp add: account_bytes_def Let_def)
  have "length (nat_be (length ?p)) \<le> 1" using p(1) by (intro length_nat_be_le) simp
  then have h: "1 \<le> length (WriteSliceHeader (length ?p))" "length (WriteSliceHeader (length ?p)) \<le> 2"
    by (simp_all add: WriteSliceHeader_def Let_def del: length_append)
  show "33 \<le> length (account_bytes E c)" "length (account_bytes E c) \<le> 200"
    using e h p by simp_all
  show "fits (raw (VList [VBig (Some (Amount c)), VUint64 (Nonce c), VStr [], VBytes ?h]))"
    unfolding raw_account using l p(1) by (auto simp: len_ok_small)
qed

lemma account_val_ok: "plain E c \<Longrightarrow> val_ok (account_bytes E c)"
  using account_length [of E c] by (auto simp: val_ok_def)

lemma account_read:
  assumes c: "plain E c" "db_Get (sha E (script c)) (db w) = script c"
  shows "\<exists>r' w'. NewStateObjectFromBytes (address c) (account_bytes E c) w =
    Inr (c\<lparr>ScriptHash := sha E (script c), obj_state := Some r', initScript := []\<rparr>, w')"
proof -
  let ?v = "VList [unraw (RStr (big_Bytes (Amount c))), unraw (RStr (big_Bytes (sint (Nonce c)))), unraw (RStr []),
    unraw (RStr (sha E (script c)))]"
  have d: "NewValueFromBytes (account_bytes E c) = Inr ?v"
    unfolding account_bytes_def NewValueFromBytes_Encode [OF account_length(3) [OF c(1)]] raw_account by (simp del: unraw.simps(1))
  have "big_of (Get ?v 0) = Amount c" "Uint (Get ?v 1) = Nonce c" "Bytes (Get ?v 3) = sha E (script c)"
    using c(1) by (simp_all add: plain_def big_of_unraw Uint_unraw_nonce Bytes_unraw nth_Cons' del: unraw.simps(1))
  then show ?thesis
    unfolding NewStateObjectFromBytes_def StateObject_RlpDecode_def d
    using c(2) by (cases c) (simp add: NewAccount_def NewState_def Let_def del: unraw.simps(1))
qed

lemma UpdateStateObject_at:
  assumes S: "good_hash (sha E) S" and w: "state_at E S pt r w" and c: "plain E c" "sha E (script c) \<notin> sha E ` S"
    and new: "encs (sha E) (put_tree pt (address c) (account_bytes E c)) \<subseteq> S"
  shows "\<exists>w'. UpdateStateObject E r c w = Inr w' \<and> state_at E S (put_tree pt (address c) (account_bytes E c)) r w' \<and>
    db w' = db_Put (sha E (script c)) (script c) (db w)"
proof -
  let ?w = "w\<lparr>db := db_Put (sha E (script c)) (script c) (db w)\<rparr>"
  have "state_at E S pt r ?w" using w trie_at_db_Put [OF _ c(2)] by (simp add: state_at_def)
  from state_Update_at [OF S this _ account_val_ok [OF c(1)] new] c(1) obtain w' where
    u: "state_Update E r (address c) (account_bytes E c) ?w = Inr w'" "state_at E S (put_tree pt (address c) (account_bytes E c)) r w'"
      "db w' = db ?w" by (auto simp: plain_def)
  have "put_state r (heap w ! r) w = w" by (simp add: put_state_def)
  moreover have "obj_state c = None" "r < length (heap w)" "r < length (heap w')" using c(1) w u(2) by (simp_all add: plain_def state_at_def)
  ultimately have "UpdateStateObject E r c w = Inr (put_state r ((heap w' ! r)\<lparr>manifest := AddObjectChange c (manifest (heap w' ! r))\<rparr>) w')"
    using u(1) by (simp add: UpdateStateObject_def deref_def StateObject_RlpEncode_def account_bytes_def Let_def del: Encode.simps)
  moreover have "state_at E S (put_tree pt (address c) (account_bytes E c)) r
      (put_state r ((heap w' ! r)\<lparr>manifest := AddObjectChange c (manifest (heap w' ! r))\<rparr>) w')"
    using u(2) by (simp add: state_at_def put_state_def)
  ultimately show ?thesis using u(3) by (simp add: put_state_def)
qed

section \<open>Sequences of accounts\<close>

definition account_update :: "Env \<Rightarrow> StateObject \<Rightarrow> update" where
  "account_update E c = (spare E (length (address c)), address c, account_bytes E c)"

definition last_account :: "StateObject list \<Rightarrow> bytes \<Rightarrow> StateObject option" where
  "last_account cs a = find (\<lambda>c. address c = a) (rev cs)"

lemma final_accounts: "final (map (account_update E) cs) a = map_option (account_bytes E) (last_account cs a)"
proof -
  have "map_of (map (\<lambda>c. (address c, account_bytes E c)) cs) a = map_option (account_bytes E) (find (\<lambda>c. address c = a) cs)" for cs
    by (induction cs) auto
  from this [of "rev cs"] show ?thesis
    by (simp add: final_def account_update_def last_account_def comp_def rev_map)
qed

lemma each_UpdateStateObject:
  assumes S: "good_hash (sha E) S"
  shows "state_at E S pt r w \<Longrightarrow> list_all (plain E) cs \<Longrightarrow> (\<forall>c \<in> set cs. sha E (script c) \<notin> sha E ` S) \<Longrightarrow>
    (\<forall>s \<in> set (put_trees pt (map (account_update E) cs)). encs (sha E) s \<subseteq> S) \<Longrightarrow>
    \<exists>w'. each (UpdateStateObject E r) cs w = Inr w' \<and> state_at E S (last (put_trees pt (map (account_update E) cs))) r w' \<and>
      db w' = fold (\<lambda>c. db_Put (sha E (script c)) (script c)) cs (db w)"
proof (induction cs arbitrary: pt w)
  case (Cons c cs)
  let ?t = "put_tree pt (address c) (account_bytes E c)"
  have "encs (sha E) ?t \<subseteq> S" using Cons.prems(4)
    by (cases "(?t, map (account_update E) cs)" rule: put_trees.cases) (auto simp: account_update_def)
  from UpdateStateObject_at [OF S Cons.prems(1) _ _ this] Cons.prems(2,3) obtain w1 where
    w1: "UpdateStateObject E r c w = Inr w1" "state_at E S ?t r w1" "db w1 = db_Put (sha E (script c)) (script c) (db w)"
    by auto
  with Cons.IH [OF w1(2)] Cons.prems show ?case by (simp add: account_update_def)
qed simp

lemma scripts_kept:
  "inj_on h (script ` set cs) \<Longrightarrow> c \<in> set cs \<Longrightarrow> db_Get (h (script c)) (fold (\<lambda>c. db_Put (h (script c)) (script c)) cs d) = script c"
proof (induction cs rule: rev_induct)
  case (snoc c' cs)
  show ?case
  proof (cases "h (script c) = h (script c')")
    case True
    then have "script c = script c'" using snoc.prems by (auto simp: inj_on_def)
    then show ?thesis by (simp add: memdb.get_put)
  next
    case False
    then have "c \<in> set cs" using snoc.prems(2) by auto
    with snoc False show ?thesis by (auto simp: memdb.get_put inj_on_def)
  qed
qed simp

text \<open>C9. On plain accounts the state is a map: whatever plain accounts are stored in it, in any order and any number of
  times, \<open>GetAccount\<close> then answers every address with the balance, the nonce and the script stored last under it,
  and with an empty account when there is none. A plain account has no storage state of its own (so
  contracts that have stored something are left out), a nonce below 2^16 (a larger one does not read
  back), a balance below 2^256 and an address of at most 400 bytes. The state starts empty, no script is an encoded
  trie node, and the hash has 32 bytes and does not collide on the scripts and nodes at hand.\<close>

theorem accounts_refine_map:
  assumes "good_hash (sha E) (hashed (sha E) (map (account_update E) cs) \<union> script ` set cs)"
    and "script ` set cs \<inter> hashed (sha E) (map (account_update E) cs) = {}"
    and "list_all (plain E) cs" "r < length (heap w)" "trie (heap w ! r) = NewTrie (VStr [])"
  shows "\<exists>w'. each (UpdateStateObject E r) cs w = Inr w' \<and>
    (\<forall>a. \<exists>c w''. GetAccount r a w' = Inr (c, w'') \<and> address c = a \<and>
      (Amount c, Nonce c, script c) = (case last_account cs a of Some b \<Rightarrow> (Amount b, Nonce b, script b) | None \<Rightarrow> (0, 0, [])))"
proof -
  let ?us = "map (account_update E) cs" and ?S = "hashed (sha E) (map (account_update E) cs)"
  have S: "good_hash (sha E) ?S" and inj: "inj_on (sha E) (script ` set cs)"
    using assms(1) by (auto simp: good_hash_def inj_on_Un)
  have ok: "list_all update_ok ?us"
    using assms(3) account_val_ok by (auto simp: list_all_iff update_ok_def account_update_def plain_def)
  have new: "\<forall>c \<in> set cs. sha E (script c) \<notin> sha E ` ?S"
    using assms(1,2) by (auto simp: good_hash_def inj_on_def)
  have "state_at E ?S Hole r w" using assms(4,5) NewTrie_at by (simp add: state_at_def)
  from each_UpdateStateObject [OF S this assms(3) new] obtain w' where
    w': "each (UpdateStateObject E r) cs w = Inr w'" "state_at E ?S (last (put_trees Hole ?us)) r w'"
      "db w' = fold (\<lambda>c. db_Put (sha E (script c)) (script c)) cs (db w)"
    by (auto simp: hashed_def)
  have "\<exists>c w''. GetAccount r a w' = Inr (c, w'') \<and> address c = a \<and>
      (Amount c, Nonce c, script c) = (case last_account cs a of Some b \<Rightarrow> (Amount b, Nonce b, script b) | None \<Rightarrow> (0, 0, []))" for a
  proof -
    from state_Get_at [OF S w'(2), of a] obtain w1 where
      g: "state_Get r a w' = Inr (case final ?us a of Some v \<Rightarrow> v | None \<Rightarrow> [], w1)" "db w1 = db w'"
      by (auto simp: contents_run [OF ok])
    show ?thesis
    proof (cases "last_account cs a")
      case None
      then show ?thesis using g(1) by (simp add: GetAccount_def final_accounts NewAccount_def)
    next
      case (Some b)
      then have "b \<in> set (rev cs)" and a: "address b = a" unfolding last_account_def find_Some_iff by (metis nth_mem)+
      then have b: "b \<in> set cs" "address b = a" by simp_all
      then have p: "plain E b" and d: "db_Get (sha E (script b)) (db w1) = script b"
        using assms(3) scripts_kept [OF inj b(1)] g(2) w'(3) by (simp_all add: list_all_iff)
      have "account_bytes E b \<noteq> []" using account_val_ok [OF p] by (simp add: val_ok_def)
      with Some g(1) account_read [OF p d] b(2) show ?thesis by (auto simp: GetAccount_def final_accounts)
    qed
  qed
  with w'(1) show ?thesis by blast
qed

section \<open>An instance\<close>

text \<open>Three updates of two accounts; the first account changes its balance.\<close>

definition sum_sha :: "bytes \<Rightarrow> bytes" where
  "sum_sha x = replicate 30 7 @ [of_nat (length x), foldl (\<lambda>a b. 3 * a + b) 0 x]"

definition account_env :: Env where
  "account_env = demo_env\<lparr>sha := sum_sha\<rparr>"

definition demo_accounts :: "StateObject list" where
  "demo_accounts = [NewAccount [1] 5, (NewAccount [2] 300)\<lparr>Nonce := 7, script := [0x60, 1, 0x60, 2, 0]\<rparr>, NewAccount [1] 70000]"

lemma demo_account_trees:
  "put_trees Hole (map (account_update account_env) demo_accounts) =
    (let b1 = account_bytes account_env (demo_accounts ! 0); b2 = account_bytes account_env (demo_accounts ! 1);
         b3 = account_bytes account_env (demo_accounts ! 2) in
     [Hole, Ext [0, 1, 16] (Val b1),
      Ext [0] (Branch ((replicate 17 Hole)[1 := Ext [16] (Val b1), 2 := Ext [16] (Val b2)])),
      Ext [0] (Branch ((replicate 17 Hole)[1 := Ext [16] (Val b3), 2 := Ext [16] (Val b2)]))])"
  by (simp add: demo_accounts_def account_update_def NewAccount_def put_tree_def CompactHexDecode_nibbles mkext_def split_at_def
      Let_def list_update_swap)

lemma demo_accounts_hash:
  "good_hash sum_sha (hashed sum_sha (map (account_update account_env) demo_accounts) \<union> script ` set demo_accounts)"
  unfolding hashed_set hashed_list_def demo_account_trees set_map [symmetric] set_append [symmetric]
  by (subst set_remdups [symmetric]) (rule good_hash_set; code_simp)

lemma demo_accounts_scripts:
  "script ` set demo_accounts \<inter> hashed sum_sha (map (account_update account_env) demo_accounts) = {}"
proof -
  have "list_all (\<lambda>x. 20 < length x) (hashed_list sum_sha (map (account_update account_env) demo_accounts))"
    unfolding hashed_list_def demo_account_trees by code_simp
  then show ?thesis unfolding hashed_set by (auto simp: list_all_iff demo_accounts_def NewAccount_def)
qed

theorem accounts_refine_map_witness:
  "\<exists>w'. each (UpdateStateObject account_env 0) demo_accounts demo_world = Inr w' \<and>
    (\<exists>c w''. GetAccount 0 [1] w' = Inr (c, w'') \<and> Amount c = 70000 \<and> Nonce c = 0)"
proof -
  have e: "sha account_env = sum_sha" by (simp add: account_env_def)
  have p: "list_all (plain account_env) demo_accounts"
    by (simp add: demo_accounts_def NewAccount_def plain_def account_env_def sum_sha_def)
  have w: "0 < length (heap demo_world)" "trie (heap demo_world ! 0) = NewTrie (VStr [])"
    by (simp_all add: demo_world_def NewState_def)
  have l: "last_account demo_accounts [1] = Some (NewAccount [1] 70000)"
    by (simp add: last_account_def demo_accounts_def NewAccount_def)
  from accounts_refine_map [OF _ _ p w, unfolded e, OF demo_accounts_hash demo_accounts_scripts] obtain w' where
    w': "each (UpdateStateObject account_env 0) demo_accounts demo_world = Inr w'"
    "\<And>a. \<exists>c w''. GetAccount 0 a w' = Inr (c, w'') \<and> address c = a \<and>
      (Amount c, Nonce c, script c) = (case last_account demo_accounts a of Some b \<Rightarrow> (Amount b, Nonce b, script b) | None \<Rightarrow> (0, 0, []))"
    by blast
  from w'(2) [of "[1]"] w'(1) show ?thesis by (auto simp: l NewAccount_def)
qed

end
