(* ===== verification/Keys.thy ===== *)
theory Keys
  imports State Rlp_Correct
begin

text \<open>
  \<open>ethutil/keypair.go\<close> and \<open>ethchain/keypair.go\<close>: key pairs and the key ring, which is kept in the
  database as the list of the private keys. \<open>genpub\<close> is secp256k1's \<open>GeneratePubKey\<close>: the public
  key in full format (65 bytes), or nothing for a bad secret key.
\<close>

section \<open>Key pairs\<close>

record KeyPair =
  PrivateKey :: bytes
  PubKey :: bytes

definition NewKeyPairFromSec :: "(bytes \<Rightarrow> bytes option) \<Rightarrow> bytes \<Rightarrow> KeyPair option" where
  "NewKeyPairFromSec genpub seckey =
     (case genpub seckey of
        None \<Rightarrow> None
      | Some pubkey \<Rightarrow> Some \<lparr>PrivateKey = seckey, PubKey = pubkey\<rparr>)"

definition NewKeyPairFromValue :: "(bytes \<Rightarrow> bytes option) \<Rightarrow> gval \<Rightarrow> KeyPair option" where
  "NewKeyPairFromValue genpub val = NewKeyPairFromSec genpub (Bytes val)"

definition Key_Address :: "(bytes \<Rightarrow> bytes) \<Rightarrow> KeyPair \<Rightarrow> bytes res" where
  "Key_Address h k =
     rbind (goslice (PubKey k) [] 1 (length (PubKey k))) (\<lambda>p.
     let d = h p in goslice d [] 12 (length d))"

definition Key_RlpValue :: "KeyPair \<Rightarrow> gval" where
  "Key_RlpValue k = NewValue (VBytes (PrivateKey k))"

definition Key_RlpEncode :: "KeyPair \<Rightarrow> bytes" where
  "Key_RlpEncode k = Value_Encode (Key_RlpValue k)"

section \<open>The ring\<close>

type_synonym KeyRing = "KeyPair list"

definition Ring_Add :: "KeyPair \<Rightarrow> KeyRing \<Rightarrow> KeyRing" where
  "Ring_Add pair k = k @ [pair]"

text \<open>\<open>None\<close> is the nil pointer.\<close>

definition Ring_Get :: "int \<Rightarrow> KeyRing \<Rightarrow> KeyPair option res" where
  "Ring_Get i k =
     (if int (length k) > i then if i < 0 then Inl IndexOutOfRange else Inr (Some (k ! nat i)) else Inr None)"

definition Ring_Len :: "KeyRing \<Rightarrow> nat" where
  "Ring_Len k = length k"

text \<open>\<open>Append\<close> is called with a \<open>*Value\<close>.\<close>

definition Ring_RlpValue :: "KeyRing \<Rightarrow> gval" where
  "Ring_RlpValue k = foldl (\<lambda>v keyPair. Append v (VPtr (Key_RlpValue keyPair))) EmptyValue k"

definition Ring_NewKeyPair ::
    "(bytes \<Rightarrow> bytes option) \<Rightarrow> bytes \<Rightarrow> KeyRing \<Rightarrow> memdb \<Rightarrow> KeyPair option \<times> KeyRing \<times> memdb" where
  "Ring_NewKeyPair genpub sec k d =
     (case NewKeyPairFromSec genpub sec of
        None \<Rightarrow> (None, k, d)
      | Some keyPair \<Rightarrow>
          let k = Ring_Add keyPair k in
          (Some keyPair, k, db_Put (lit ''KeyRing'') (Value_Encode (Ring_RlpValue k)) d))"

definition Ring_Reset :: "KeyRing \<times> memdb \<Rightarrow> KeyRing \<times> memdb" where
  "Ring_Reset = (\<lambda>(k, d). ([], db_Put (lit ''KeyRing'') [] d))"

fun load_keys :: "(bytes \<Rightarrow> bytes option) \<Rightarrow> gval list \<Rightarrow> KeyRing \<Rightarrow> KeyRing res" where
  "load_keys genpub [] ring = Inr ring"
| "load_keys genpub (v # vs) ring =
     (case NewKeyPairFromSec genpub (Bytes v) of
        None \<Rightarrow> Inl (Panic ''secret key'')
      | Some key \<Rightarrow> load_keys genpub vs (Ring_Add key ring))"

text \<open>The singleton: \<open>keyRing\<close> is nil until the first call.\<close>

definition GetKeyRing :: "(bytes \<Rightarrow> bytes option) \<Rightarrow> memdb \<Rightarrow> KeyRing option \<Rightarrow> KeyRing res" where
  "GetKeyRing genpub d keyRing =
     (case keyRing of
        Some k \<Rightarrow> Inr k
      | None \<Rightarrow>
          rbind (NewValueFromBytes (db_Get (lit ''KeyRing'') d)) (\<lambda>data.
          load_keys genpub (iterate (Len data) (NewIterator data)) []))"

section \<open>The ring of ethchain\<close>

text \<open>Here a pair is stored with both keys, and the account is fetched once.\<close>

record ChainKeyPair = KeyPair +
  kp_account :: "StateObject option"
  kp_state :: "nat option"

definition chain_NewKeyPairFromValue :: "gval \<Rightarrow> ChainKeyPair" where
  "chain_NewKeyPairFromValue val =
     \<lparr>PrivateKey = Bytes (Get val 0), PubKey = Bytes (Get val 1), kp_account = None, kp_state = None\<rparr>"

definition Key_Account :: "(bytes \<Rightarrow> bytes) \<Rightarrow> ChainKeyPair \<Rightarrow> World \<Rightarrow> (StateObject \<times> ChainKeyPair \<times> World) res" where
  "Key_Account h k w =
     (case kp_account k of
        Some a \<Rightarrow> Inr (a, k, w)
      | None \<Rightarrow>
          rbind (goslice (PubKey k) [] 1 (length (PubKey k))) (\<lambda>p.
          rbind (goslice (h p) [] 12 (length (h p))) (\<lambda>addr.
          case kp_state k of
            None \<Rightarrow> Inl NilDereference
          | Some r \<Rightarrow> rbind (GetAccount r addr w) (\<lambda>(a, w). Inr (a, k\<lparr>kp_account := Some a\<rparr>, w)))))"

definition chain_Key_RlpEncode :: "ChainKeyPair \<Rightarrow> bytes" where
  "chain_Key_RlpEncode k =
     Value_Encode (Append (Append EmptyValue (VBytes (PrivateKey k))) (VBytes (PubKey k)))"

definition chain_GetKeyRing :: "memdb \<Rightarrow> ChainKeyPair list res" where
  "chain_GetKeyRing d =
     rbind (NewValueFromBytes (db_Get (lit ''KeyRing'') d)) (\<lambda>data.
     Inr (map chain_NewKeyPairFromValue (iterate (Len data) (NewIterator data))))"

section \<open>What is stored is loaded\<close>

definition key_ok :: "(bytes \<Rightarrow> bytes option) \<Rightarrow> KeyPair \<Rightarrow> bool" where
  "key_ok genpub k \<longleftrightarrow> genpub (PrivateKey k) = Some (PubKey k) \<and> length (PrivateKey k) = 32"

lemma Ring_RlpValue_list: "Ring_RlpValue k = VList (map (\<lambda>p. VPtr (VBytes (PrivateKey p))) k)"
proof -
  have "foldl (\<lambda>v p. Append v (VPtr (Key_RlpValue p))) (VList xs) k = VList (xs @ map (\<lambda>p. VPtr (VBytes (PrivateKey p))) k)" for xs
    by (induction k arbitrary: xs) (simp_all add: Append_def Key_RlpValue_def)
  from this [of "[]"] show ?thesis by (simp add: Ring_RlpValue_def EmptyValue_def)
qed

lemma load_keys_stored:
  "list_all (key_ok genpub) k \<Longrightarrow> load_keys genpub (map (\<lambda>p. VBytes (PrivateKey p)) k) ring = Inr (ring @ k)"
proof (induction k arbitrary: ring)
  case (Cons p k)
  then have "NewKeyPairFromSec genpub (PrivateKey p) = Some p" by (simp add: key_ok_def NewKeyPairFromSec_def)
  with Cons show ?case by (simp add: Ring_Add_def)
qed simp

lemma length_Encode_key: "length b = 32 \<Longrightarrow> length (Encode_bytes b) = 33"
  by (simp add: Encode_bytes_def)

lemma GetKeyRing_stored:
  assumes k: "list_all (key_ok genpub) k" and n: "length k \<le> 1900"
  shows "GetKeyRing genpub (db_Put (lit ''KeyRing'') (Value_Encode (Ring_RlpValue k)) d) None = Inr k"
proof -
  have "length (concat (map (\<lambda>p. rlp (RStr (PrivateKey p))) k)) = 33 * length k"
    using k by (induction k) (simp_all add: key_ok_def length_Encode_key)
  then have "fits (raw (Ring_RlpValue k))"
    using k n by (auto simp: Ring_RlpValue_list len_ok_small comp_def key_ok_def list_all_iff)
  from NewValueFromBytes_Encode [OF this]
  have v: "NewValueFromBytes (Encode (Ring_RlpValue k)) = Inr (VList (map (\<lambda>p. VBytes (PrivateKey p)) k))"
    using k by (simp add: Ring_RlpValue_list comp_def key_ok_def list_all_iff)
  have "iterate (length k) (NewIterator (VList (map (\<lambda>p. VBytes (PrivateKey p)) k))) = map (\<lambda>p. VBytes (PrivateKey p)) k"
    by (subst iterate_from [of _ "map (\<lambda>p. VBytes (PrivateKey p)) k"]) (simp_all add: NewIterator_def)
  with v load_keys_stored [OF k, of "[]"] show ?thesis
    by (simp add: GetKeyRing_def Value_Encode_def memdb.get_put)
qed

text \<open>C30. A key that is added survives a restart: when a key pair has been made, loading the ring again
  from the database gives the ring with the new pair at its end, in the order the keys were made. Keys
  have 32 bytes and there are fewer than 1900 of them.\<close>

theorem keyring_roundtrip:
  assumes "list_all (key_ok genpub) ring" "length ring < 1900" "length sec = 32" "genpub sec \<noteq> None"
    and "Ring_NewKeyPair genpub sec ring d = (pair, ring', d')"
  shows "GetKeyRing genpub d' None = Inr ring' \<and> (\<exists>p. pair = Some p \<and> ring' = ring @ [p] \<and> PrivateKey p = sec)"
proof -
  obtain pub where pub: "genpub sec = Some pub" using assms(4) by blast
  let ?p = "\<lparr>PrivateKey = sec, PubKey = pub\<rparr>"
  from assms(5) pub have r: "pair = Some ?p" "ring' = ring @ [?p]"
    "d' = db_Put (lit ''KeyRing'') (Value_Encode (Ring_RlpValue ring')) d"
    by (auto simp: Ring_NewKeyPair_def NewKeyPairFromSec_def Ring_Add_def Let_def)
  have "GetKeyRing genpub d' None = Inr ring'"
    unfolding r(3) using assms(1-3) pub r(2) by (intro GetKeyRing_stored) (simp_all add: key_ok_def)
  with r show ?thesis by simp
qed

theorem keyring_roundtrip_witness:
  "GetKeyRing (\<lambda>s. Some (4 # s)) (snd (snd (Ring_NewKeyPair (\<lambda>s. Some (4 # s)) (replicate 32 7) [] Map.empty))) None =
     Inr [\<lparr>PrivateKey = replicate 32 7, PubKey = 4 # replicate 32 7\<rparr>]"
proof -
  let ?r = "Ring_NewKeyPair (\<lambda>s. Some (4 # s)) (replicate 32 7) [] Map.empty"
  obtain p ring' d' where r: "?r = (p, ring', d')" by (cases ?r)
  from keyring_roundtrip [OF _ _ _ _ r]
  have "GetKeyRing (\<lambda>s. Some (4 # s)) d' None = Inr ring'" by simp
  moreover have "ring' = [\<lparr>PrivateKey = replicate 32 7, PubKey = 4 # replicate 32 7\<rparr>]"
    using r by (simp add: Ring_NewKeyPair_def NewKeyPairFromSec_def Ring_Add_def Let_def)
  ultimately show ?thesis using r by simp
qed

end
