(* ===== verification/Peer.thy ===== *)
theory Peer
  imports StateManager Addr Keys
begin

text \<open>
  \<open>peer.go\<close> and the peer list of \<open>ethereum.go\<close>. A \<open>*Peer\<close> is an index into the heap of peers; the
  server's list holds such indexes. Everything a peer does is a step on the record \<open>Net\<close>: the
  goroutines' selects and loops are separate steps (see \<open>Net_Steps\<close>). A send on a peer's output
  channel waits while 50 messages are queued; the model's queue has no limit, which only changes
  when a sender goes on. Log output, sleeping and the measured times are not modelled.
\<close>

section \<open>Peers and the server\<close>

text \<open>A connection: its addresses, whether a write succeeds, whether it was closed, and what was written.\<close>

record Conn =
  LocalAddr :: bytes
  RemoteAddr :: bytes
  writable :: bool
  closed :: bool
  sent :: "Msg list"

definition open_conn :: "bytes \<Rightarrow> bytes \<Rightarrow> bool \<Rightarrow> Conn" where
  "open_conn l r wr = \<lparr>LocalAddr = l, RemoteAddr = r, writable = wr, closed = False, sent = []\<rparr>"

text \<open>\<open>quit\<close> tells whether the channel \<open>p.quit\<close> has been closed.\<close>

record Peer =
  conn :: "Conn option"
  outputQueue :: "Msg list"
  quit :: bool
  inbound :: bool
  connected :: "32 word"
  disconnect :: "32 word"
  versionKnown :: bool
  lastPong :: int
  requestedPeerList :: bool
  host :: bytes
  port :: "16 word"
  peer_caps :: byte
  pubkey :: bytes
  catchingUp :: bool
  diverted :: bool
  blocksRequested :: "64 word"
  version :: bytes

datatype net_event = PostPeerList | PostSm sm_event

record Net =
  sm :: StateManager
  world :: World
  peerHeap :: "Peer list"
  peers :: "nat list"
  serverCaps :: byte
  MaxPeers :: int
  keyRing :: KeyRing
  ClientString :: bytes
  posts :: "net_event list"

text \<open>
  The surroundings: of the state manager, the clock, name resolution, the choice among addresses.
  \<open>AddPeer\<close> and \<open>ConnectToPeer\<close> hold no lock between looking at the list of peers and adding to it, and
  every connection has a goroutine of its own: \<open>at_test\<close> is the server as it was when the length of the
  list was compared with the maximum, and \<open>at_scan\<close> as it was when the list was searched for the host
  (after the name was looked up), both seen from the state in which the peer is added.
\<close>

record NetEnv =
  proc :: ProcEnv
  now :: int
  lookupIP :: "bytes \<Rightarrow> bytes list option"
  rand :: "nat \<Rightarrow> nat"
  at_test :: "Net \<Rightarrow> Net"
  at_scan :: "Net \<Rightarrow> Net"

definition ProtocolVersion :: uint64 where "ProtocolVersion = 17"

definition peer_at :: "nat \<Rightarrow> Net \<Rightarrow> Peer res" where
  "peer_at i s = (if i < length (peerHeap s) then Inr (peerHeap s ! i) else Inl NilDereference)"

definition mod_peer :: "nat \<Rightarrow> (Peer \<Rightarrow> Peer) \<Rightarrow> Net \<Rightarrow> Net" where
  "mod_peer i f s = s\<lparr>peerHeap := (peerHeap s)[i := f (peerHeap s ! i)]\<rparr>"

definition bchain :: "Net \<Rightarrow> BlockChain" where
  "bchain s = bc (sm s)"

definition set_chain :: "BlockChain \<Rightarrow> Net \<Rightarrow> Net" where
  "set_chain c s = s\<lparr>sm := (sm s)\<lparr>bc := c\<rparr>\<rparr>"

definition net_env :: "NetEnv \<Rightarrow> Env" where
  "net_env V = penv (proc V)"

definition current_hash :: "NetEnv \<Rightarrow> Net \<Rightarrow> bytes res" where
  "current_hash V s = rbind (current (bchain s)) (\<lambda>b. Block_Hash (net_env V) b (world s))"

section \<open>Sending\<close>

definition QueueMessage :: "nat \<Rightarrow> Msg \<Rightarrow> Net \<Rightarrow> Net res" where
  "QueueMessage i msg s =
     rbind (peer_at i s) (\<lambda>p.
     if connected p \<noteq> 1 then Inr s
     else Inr (mod_peer i (\<lambda>p. p\<lparr>outputQueue := outputQueue p @ [msg]\<rparr>) s))"

text \<open>\<open>ethwire.WriteMessage\<close> on the connection: whether it failed.\<close>

definition write_conn :: "nat \<Rightarrow> Msg \<Rightarrow> Net \<Rightarrow> (bool \<times> Net) res" where
  "write_conn i msg s =
     rbind (peer_at i s) (\<lambda>p.
     case conn p of
       None \<Rightarrow> Inl NilDereference
     | Some c \<Rightarrow>
         rbind (WriteMessage msg) (\<lambda>_.
         if writable c \<and> \<not> closed c
         then Inr (False, mod_peer i (\<lambda>p. p\<lparr>conn := Some (c\<lparr>sent := sent c @ [msg]\<rparr>)\<rparr>) s)
         else Inr (True, s)))"

text \<open>\<open>writeMessage\<close> up to its handling of a failed write: not connected, or no version known and the
  message is not a handshake, nothing happens.\<close>

definition gated_write :: "nat \<Rightarrow> Msg \<Rightarrow> Net \<Rightarrow> (bool \<times> Net) res" where
  "gated_write i msg s =
     rbind (peer_at i s) (\<lambda>p.
     if connected p \<noteq> 1 then Inr (False, s)
     else if \<not> versionKnown p \<and> MsgTy msg \<noteq> MsgHandshakeTy then Inr (False, s)
     else write_conn i msg s)"

section \<open>The list of peers\<close>

definition removePeerElement :: "nat \<Rightarrow> Net \<Rightarrow> Net" where
  "removePeerElement i s = s\<lparr>peers := remove1 i (peers s), posts := posts s @ [PostPeerList]\<rparr>"

text \<open>
  \<open>eachPeer\<close>: a callback that removes the element it is called on ends the loop, because
  \<open>list.Remove\<close> clears the links of the element.
\<close>

fun eachPeer :: "(nat \<Rightarrow> Net \<Rightarrow> Net res) \<Rightarrow> nat list \<Rightarrow> Net \<Rightarrow> Net res" where
  "eachPeer f [] s = Inr s"
| "eachPeer f (i # is) s =
     rbind (f i s) (\<lambda>s. if i \<in> set (peers s) then eachPeer f is s else Inr s)"

definition RemovePeer :: "nat \<Rightarrow> Net \<Rightarrow> Net res" where
  "RemovePeer p s = eachPeer (\<lambda>i s. Inr (if i = p then removePeerElement i s else s)) (peers s) s"

text \<open>\<open>int64(5*time.Minute)\<close> counts nanoseconds; the times are in seconds.\<close>

definition five_minutes :: int where
  "five_minutes = 5 * 60 * 1000000000"

definition reapable :: "int \<Rightarrow> Peer \<Rightarrow> bool" where
  "reapable t p \<longleftrightarrow> disconnect p = 1 \<or> inbound p \<and> t - lastPong p > five_minutes"

definition reapPeers :: "NetEnv \<Rightarrow> Net \<Rightarrow> Net res" where
  "reapPeers V s =
     eachPeer (\<lambda>i s. rbind (peer_at i s) (\<lambda>p. Inr (if reapable (now V) p then removePeerElement i s else s))) (peers s) s"

definition ReapDeadPeerHandler :: "NetEnv \<Rightarrow> Net \<Rightarrow> Net res" where
  "ReapDeadPeerHandler V s = reapPeers V s"

text \<open>The peers that satisfy a condition, in the order of the list.\<close>

definition select_peers :: "(Peer \<Rightarrow> bool) \<Rightarrow> Net \<Rightarrow> nat list" where
  "select_peers P s = filter (\<lambda>i. P (peerHeap s ! i)) (peers s)"

definition OutboundPeers :: "Net \<Rightarrow> nat list" where
  "OutboundPeers s = select_peers (\<lambda>p. \<not> inbound p \<and> conn p \<noteq> None) s"

definition InboundPeers :: "Net \<Rightarrow> nat list" where
  "InboundPeers s = select_peers inbound s"

definition InOutPeers :: "NetEnv \<Rightarrow> Net \<Rightarrow> (nat list \<times> Net) res" where
  "InOutPeers V s = rbind (reapPeers V s) (\<lambda>s. Inr (select_peers (\<lambda>p. length (host p) > 0) s, s))"

definition IsUpToDate :: "Net \<Rightarrow> bool" where
  "IsUpToDate s \<longleftrightarrow> select_peers (\<lambda>p. connected p = 1 \<and> catchingUp p) s = []"

definition PeerCount :: "Net \<Rightarrow> nat" where
  "PeerCount s = length (peers s)"

definition BroadcastMsg :: "Msg \<Rightarrow> Net \<Rightarrow> Net res" where
  "BroadcastMsg msg s = eachPeer (\<lambda>i. QueueMessage i msg) (peers s) s"

definition Broadcast :: "byte \<Rightarrow> gval list \<Rightarrow> Net \<Rightarrow> Net res" where
  "Broadcast msgType data s = BroadcastMsg (NewMessage msgType (VList data)) s"

section \<open>Stopping a peer\<close>

definition close_quit :: "nat \<Rightarrow> Net \<Rightarrow> Net res" where
  "close_quit i s =
     rbind (peer_at i s) (\<lambda>p.
     if quit p then Inl (Panic ''close of closed channel'') else Inr (mod_peer i (\<lambda>p. p\<lparr>quit := True\<rparr>) s))"

definition close_conn :: "nat \<Rightarrow> Net \<Rightarrow> Net res" where
  "close_conn i s =
     rbind (peer_at i s) (\<lambda>p.
     case conn p of
       None \<Rightarrow> Inl NilDereference
     | Some c \<Rightarrow> Inr (mod_peer i (\<lambda>p. p\<lparr>conn := Some (c\<lparr>closed := True\<rparr>)\<rparr>) s))"

definition count_stop :: "nat \<Rightarrow> Net \<Rightarrow> Net" where
  "count_stop i s = mod_peer i (\<lambda>p. p\<lparr>disconnect := disconnect p + 1\<rparr>) s"

text \<open>
  \<open>Stop\<close>. The disconnect message goes through \<open>writeMessage\<close>, whose failure calls \<open>Stop\<close> again;
  that call finds the counter at 1 and only counts.
\<close>

definition Peer_Stop :: "nat \<Rightarrow> Net \<Rightarrow> Net res" where
  "Peer_Stop i s =
     rbind (peer_at i s) (\<lambda>p.
     let s = count_stop i s in
     if disconnect p + 1 \<noteq> 1 then Inr s
     else
       rbind (close_quit i s) (\<lambda>s.
       rbind
         (if connected p \<noteq> 0 then
            rbind (gated_write i (NewMessage MsgDiscTy (VStr [])) s) (\<lambda>(failed, s).
            close_conn i (if failed then count_stop i s else s))
          else Inr s) (\<lambda>s.
       RemovePeer i s)))"

definition writeMessage :: "nat \<Rightarrow> Msg \<Rightarrow> Net \<Rightarrow> Net res" where
  "writeMessage i msg s =
     rbind (gated_write i msg s) (\<lambda>(failed, s). if failed then Peer_Stop i s else Inr s)"

section \<open>Starting a peer\<close>

definition pushHandshake :: "nat \<Rightarrow> Net \<Rightarrow> Net res" where
  "pushHandshake i s =
     rbind (Ring_Get 0 (keyRing s)) (\<lambda>pair.
     case pair of
       None \<Rightarrow> Inr s
     | Some k \<Rightarrow>
         rbind (goslice (PubKey k) [] 1 (length (PubKey k))) (\<lambda>pub.
         rbind (peer_at i s) (\<lambda>p.
         QueueMessage i (NewMessage MsgHandshakeTy
           (VList [VUint32 (ucast ProtocolVersion), VUint32 0, VStr (version p), VByte (peer_caps p), VUint16 (port p), VBytes pub])) s)))"

text \<open>\<open>Start\<close> up to the goroutines it starts and its late ping.\<close>

definition Peer_Start :: "nat \<Rightarrow> Net \<Rightarrow> Net res" where
  "Peer_Start i s =
     rbind (peer_at i s) (\<lambda>p.
     case conn p of
       None \<Rightarrow> Inl NilDereference
     | Some c \<Rightarrow>
         let (peerHost, peerPort) = SplitHostPort (LocalAddr c);
             (servHost, servPort) = SplitHostPort (RemoteAddr c) in
         rbind (if inbound p then packAddr peerHost peerPort else packAddr servHost servPort) (\<lambda>(h, pt).
         pushHandshake i (mod_peer i (\<lambda>p. p\<lparr>host := h, port := pt\<rparr>) s)))"

definition InitialPing :: "nat \<Rightarrow> Net \<Rightarrow> Net res" where
  "InitialPing i s = writeMessage i (NewMessage MsgPingTy (VStr [])) s"

definition NewPeer :: "Conn \<Rightarrow> bool \<Rightarrow> Net \<Rightarrow> Peer res" where
  "NewPeer c inb s =
     rbind (Ring_Get 0 (keyRing s)) (\<lambda>pair.
     case pair of
       None \<Rightarrow> Inl NilDereference
     | Some k \<Rightarrow>
         rbind (goslice (PubKey k) [] 1 (length (PubKey k))) (\<lambda>pub.
         Inr \<lparr>conn = Some c, outputQueue = [], quit = False, inbound = inb, connected = 1, disconnect = 0,
              versionKnown = False, lastPong = 0, requestedPeerList = False, host = [], port = 30303,
              peer_caps = serverCaps s, pubkey = pub, catchingUp = False, diverted = False,
              blocksRequested = 10, version = []\<rparr>))"

definition push_peer :: "Peer \<Rightarrow> Net \<Rightarrow> nat \<times> Net" where
  "push_peer p s = (let i = length (peerHeap s) in (i, s\<lparr>peerHeap := peerHeap s @ [p], peers := peers s @ [i]\<rparr>))"

definition post_peerList :: "Net \<Rightarrow> Net" where
  "post_peerList s = s\<lparr>posts := posts s @ [PostPeerList]\<rparr>"

definition AddPeer :: "NetEnv \<Rightarrow> Conn \<Rightarrow> Net \<Rightarrow> Net res" where
  "AddPeer V c s =
     rbind (NewPeer c True s) (\<lambda>peer.
     rbind
       (if int (length (peers (at_test V s))) < MaxPeers s
        then let (i, s) = push_peer peer s in Peer_Start i s
        else Inr s) (\<lambda>s.
     Inr (post_peerList s)))"

text \<open>\<open>NewOutboundPeer\<close> without its goroutine, which dials.\<close>

definition NewOutboundPeer :: "byte \<Rightarrow> Net \<Rightarrow> Peer" where
  "NewOutboundPeer c s =
     \<lparr>conn = None, outputQueue = [], quit = False, inbound = False, connected = 0, disconnect = 0,
      versionKnown = False, lastPong = 0, requestedPeerList = False, host = [], port = 0,
      peer_caps = c, pubkey = [], catchingUp = False, diverted = False,
      blocksRequested = 0, version = ClientString s\<rparr>"

text \<open>The end of the dialling: a connection or an error.\<close>

definition Dialed :: "nat \<Rightarrow> Conn option \<Rightarrow> Net \<Rightarrow> Net res" where
  "Dialed i result s =
     (case result of
        None \<Rightarrow> Peer_Stop i s
      | Some c \<Rightarrow>
          rbind (peer_at i s) (\<lambda>_.
          Peer_Start i (mod_peer i (\<lambda>p. p\<lparr>conn := Some c, connected := 1, disconnect := 0\<rparr>) s)))"

text \<open>The address that is dialled is the name given; the resolved one only serves to find duplicates.\<close>

definition contains_colons :: "bytes \<Rightarrow> bool" where
  "contains_colons ip \<longleftrightarrow> (\<exists>i < length ip. take 2 (drop i ip) = [colon, colon])"

definition pick_ip :: "NetEnv \<Rightarrow> bytes list \<Rightarrow> bytes option res" where
  "pick_ip V ips =
     (if length ips > 1 then
        let ipsv4 = filter (\<lambda>ip. \<not> contains_colons ip) ips in
        if length ipsv4 = 0 then Inr None
        else rbind (goindex ipsv4 (rand V (length ipsv4))) (\<lambda>ip. Inr (Some ip))
      else if length ips = 0 then Inr None
      else Inr (Some (ips ! 0)))"

text \<open>The first result tells whether an error is returned.\<close>

definition ConnectToPeer :: "NetEnv \<Rightarrow> bytes \<Rightarrow> Net \<Rightarrow> (bool \<times> Net) res" where
  "ConnectToPeer V addr s =
     (if int (length (peers (at_test V s))) < MaxPeers s then
        case lookupIP V (fst (SplitHostPort addr)) of
          None \<Rightarrow> Inr (True, s)
        | Some ips \<Rightarrow>
            rbind (pick_ip V ips) (\<lambda>ip.
            case ip of
              None \<Rightarrow> Inr (True, s)
            | Some chost \<Rightarrow>
                if select_peers (\<lambda>p. case conn p of None \<Rightarrow> False | Some c \<Rightarrow> fst (SplitHostPort (RemoteAddr c)) = chost) (at_scan V s) \<noteq> []
                then Inr (False, s)
                else
                  let (i, s) = push_peer (NewOutboundPeer (serverCaps s) s) s
                  in Inr (False, post_peerList s))
      else Inr (False, s))"

fun ProcessPeerList :: "NetEnv \<Rightarrow> bytes list \<Rightarrow> Net \<Rightarrow> Net res" where
  "ProcessPeerList V [] s = Inr s"
| "ProcessPeerList V (addr # addrs) s =
     rbind (ConnectToPeer V addr s) (\<lambda>(_, s). ProcessPeerList V addrs s)"

text \<open>
  \<open>Seed\<close>: the addresses of one name, the service records of another with the addresses of their
  targets (names that do not resolve are left out), and, without service records, the text of a
  page as one address. What the network answers is in a record.
\<close>

record SeedAnswers =
  dns_go :: "bytes list option"
  srv_nodes :: "(bytes \<times> 16 word) list option"
  lookupHost :: "bytes \<Rightarrow> bytes list option"
  servers_page :: "bytes option"

definition seed_default :: "bytes \<Rightarrow> bytes" where
  "seed_default ip = ip @ [colon] @ Itoa 30303"

definition srv_peers :: "SeedAnswers \<Rightarrow> (bytes \<times> 16 word) list \<Rightarrow> bytes list" where
  "srv_peers A ns =
     concat (map (\<lambda>(target, pt).
       case lookupHost A target of
         None \<Rightarrow> []
       | Some addr \<Rightarrow> map (\<lambda>a. JoinHostPort a (Itoa (uint pt))) addr) ns)"

definition Seed :: "NetEnv \<Rightarrow> SeedAnswers \<Rightarrow> Net \<Rightarrow> Net res" where
  "Seed V A s =
     rbind (case dns_go A of None \<Rightarrow> Inr s | Some ips \<Rightarrow> ProcessPeerList V (map seed_default ips) s) (\<lambda>s.
     case srv_nodes A of
       Some ns \<Rightarrow> ProcessPeerList V (srv_peers A ns) s
     | None \<Rightarrow>
         (case servers_page A of
            None \<Rightarrow> Inr s
          | Some body \<Rightarrow> rbind (ConnectToPeer V body s) (\<lambda>(_, s). Inr s)))"

section \<open>Asking for blocks\<close>

text \<open>The log line takes the first four bytes of the current block's hash.\<close>

definition CatchupWithPeer :: "NetEnv \<Rightarrow> nat \<Rightarrow> bytes \<Rightarrow> Net \<Rightarrow> Net res" where
  "CatchupWithPeer V i blockHash s =
     rbind (peer_at i s) (\<lambda>p.
     if catchingUp p then Inr s
     else
       rbind (QueueMessage i (NewMessage MsgGetChainTy (VList [VBytes blockHash, VUint64 50]))
         (mod_peer i (\<lambda>p. p\<lparr>catchingUp := True\<rparr>) s)) (\<lambda>s.
       rbind (current_hash V s) (\<lambda>h.
       rbind (goslice h [] 0 4) (\<lambda>_.
       QueueMessage i (NewMessage MsgGetTxsTy (VList [])) s))))"

definition SyncWithPeerToLastKnown :: "NetEnv \<Rightarrow> nat \<Rightarrow> Net \<Rightarrow> Net res" where
  "SyncWithPeerToLastKnown V i s =
     (let s = mod_peer i (\<lambda>p. p\<lparr>catchingUp := False\<rparr>) s in
      rbind (current_hash V s) (\<lambda>h. CatchupWithPeer V i h s))"

definition FindCommonParentBlock :: "NetEnv \<Rightarrow> nat \<Rightarrow> Net \<Rightarrow> Net res" where
  "FindCommonParentBlock V i s =
     rbind (peer_at i s) (\<lambda>p.
     if catchingUp p then Inr s
     else
       let n = (if blocksRequested p = 0 then 20 else blocksRequested p);
           s = mod_peer i (\<lambda>p. p\<lparr>catchingUp := True, blocksRequested := n\<rparr>) s in
       rbind (current_hash V s) (\<lambda>h.
       rbind (GetChain (net_env V) h (sint n) (bchain s) (world s)) (\<lambda>(blocks, w).
       rbind (map_res (\<lambda>b. Block_Hash (net_env V) b w) blocks) (\<lambda>hashes.
       QueueMessage i (NewMessage MsgGetChainTy (VList (map VBytes hashes @ [VUint64 (of_nat (length hashes))]))) (s\<lparr>world := w\<rparr>)))))"

section \<open>Lists of peers\<close>

definition Peer_RlpData :: "Peer \<Rightarrow> gval" where
  "Peer_RlpData p = VList [VBytes (host p), VUint16 (port p), VBytes (pubkey p)]"

definition peer_entry :: "Peer \<Rightarrow> gval res" where
  "peer_entry p =
     (case conn p of
        None \<Rightarrow> Inl NilDereference
      | Some c \<Rightarrow> Inr (if \<not> IsLoopback (ParseIPv4 (RemoteAddr c)) then Peer_RlpData p else VNil))"

definition peer_entries :: "Net \<Rightarrow> nat list \<Rightarrow> gval list res" where
  "peer_entries s is = map_res (\<lambda>i. rbind (peer_at i s) peer_entry) is"

text \<open>The slice is made for the peers of one call and filled from those of the next.\<close>

definition peersMessage :: "NetEnv \<Rightarrow> Net \<Rightarrow> (Msg \<times> Net) res" where
  "peersMessage V s =
     rbind (InOutPeers V s) (\<lambda>(ps, s).
     rbind (InOutPeers V s) (\<lambda>(ps', s).
     rbind (peer_entries s ps') (\<lambda>es.
     if length es \<le> length ps then
       Inr (NewMessage MsgPeersTy (VList (es @ replicate (length ps - length es) VNil)), s)
     else Inl IndexOutOfRange)))"

definition pushPeers :: "NetEnv \<Rightarrow> nat \<Rightarrow> Net \<Rightarrow> Net res" where
  "pushPeers V i s = rbind (peersMessage V s) (\<lambda>(msg, s). QueueMessage i msg s)"

definition unpack_peers :: "gval \<Rightarrow> bytes list res" where
  "unpack_peers data = map_res (\<lambda>v. unpackAddr (Get v 0) (Uint (Get v 1))) (elements data)"

section \<open>Incoming messages\<close>

definition with_catching :: "bool \<Rightarrow> nat \<Rightarrow> Net \<Rightarrow> Net" where
  "with_catching b i s = mod_peer i (\<lambda>p. p\<lparr>catchingUp := b\<rparr>) s"

text \<open>What the state manager and the pool ask the server to do.\<close>

fun deliver :: "sm_event list \<Rightarrow> Net \<Rightarrow> Net res" where
  "deliver [] s = Inr s"
| "deliver (BroadcastBlock v # evs) s = rbind (Broadcast MsgBlockTy [v] s) (deliver evs)"
| "deliver (TxEvent (BroadcastTx tx) # evs) s = rbind (Broadcast MsgTxTy [tx_RlpData tx] s) (deliver evs)"
| "deliver (ev # evs) s = deliver evs (s\<lparr>posts := posts s @ [PostSm ev]\<rparr>)"

text \<open>One transaction taken from the pool's channel.\<close>

definition pool_step :: "NetEnv \<Rightarrow> Net \<Rightarrow> Net res" where
  "pool_step V s =
     (case queueHandler (net_env V) (map_option hd_state (CurrentBlock (bchain s))) (txpool (sm s), world s) of
        None \<Rightarrow> Inr s
      | Some r \<Rightarrow>
          rbind r (\<lambda>(p, w, evs). deliver (map TxEvent evs) (s\<lparr>sm := (sm s)\<lparr>txpool := p\<rparr>, world := w\<rparr>)))"

text \<open>A send on the full channel goes on after the pool has taken one.\<close>

definition queue_tx :: "NetEnv \<Rightarrow> Transaction \<Rightarrow> Net \<Rightarrow> Net res" where
  "queue_tx V tx s =
     (case QueueTransaction tx (txpool (sm s)) of
        Some p \<Rightarrow> Inr (s\<lparr>sm := (sm s)\<lparr>txpool := p\<rparr>\<rparr>)
      | None \<Rightarrow>
          rbind (pool_step V s) (\<lambda>s.
          let p = txpool (sm s) in
          Inr (s\<lparr>sm := (sm s)\<lparr>txpool := p\<lparr>queueChan := queueChan p @ [tx]\<rparr>\<rparr>\<rparr>)))"

fun queue_txs :: "NetEnv \<Rightarrow> gval list \<Rightarrow> Net \<Rightarrow> Net res" where
  "queue_txs V [] s = Inr s"
| "queue_txs V (v # vs) s = rbind (queue_tx V (NewTransactionFromValue v) s) (queue_txs V vs)"

text \<open>\<open>handleHandshake\<close>.\<close>

definition accept_version :: "NetEnv \<Rightarrow> nat \<Rightarrow> gval \<Rightarrow> Net \<Rightarrow> Net res" where
  "accept_version V i c s =
     (let v = Str (Get c 2) in
      SyncWithPeerToLastKnown V i
        (mod_peer i (\<lambda>p. p\<lparr>peer_caps := Byte (Get c 3), version := (if length v > 0 then v else version p)\<rparr>) s))"

definition handleHandshake :: "NetEnv \<Rightarrow> nat \<Rightarrow> gval \<Rightarrow> Net \<Rightarrow> Net res" where
  "handleHandshake V i c s =
     (if Uint (Get c 0) \<noteq> ProtocolVersion then Peer_Stop i s
      else
        rbind (peer_at i s) (\<lambda>p.
        let s = mod_peer i (\<lambda>p. p\<lparr>versionKnown := True\<rparr>) s in
        if inbound p then
          let s = mod_peer i (\<lambda>p. p\<lparr>pubkey := Bytes (Get c 5), port := ucast (Uint (Get c 4))\<rparr>) s in
          rbind (Ring_Get 0 (keyRing s)) (\<lambda>pair.
          case pair of
            None \<Rightarrow> Inl NilDereference
          | Some k \<Rightarrow> if PubKey k = Bytes (Get c 5) then Peer_Stop i s else accept_version V i c s)
        else accept_version V i c s))"

text \<open>
  The search for a common ancestor in the blocks received, from the last one (\<open>Get(k-1)\<close>) back.
\<close>

fun divert_loop :: "NetEnv \<Rightarrow> nat \<Rightarrow> gval \<Rightarrow> nat \<Rightarrow> Net \<Rightarrow> Net res" where
  "divert_loop V i data 0 s = Inr s"
| "divert_loop V i data (Suc k) s =
     (let E = net_env V; (block, w) = NewBlockFromRlpValue (Get data (int k)) (world s); s = s\<lparr>world := w\<rparr> in
      rbind (Block_Hash E block (world s)) (\<lambda>h.
      if HasBlock h (world s) then divert_loop V i data k s
      else
        rbind (HasBlockWithPrevHash (walk E) (hd_PrevHash block) (bchain s) (world s)) (\<lambda>(has, w).
        let s = s\<lparr>world := w\<rparr> in
        if \<not> has then divert_loop V i data k s
        else
          let s = mod_peer i (\<lambda>p. p\<lparr>diverted := False\<rparr>) s in
          rbind (FindCanonicalChainFromMsg (walk E) E data (hd_PrevHash block) (bchain s) (world s)) (\<lambda>(kept, c, w).
          let s = set_chain c (s\<lparr>world := w\<rparr>) in
          if \<not> kept then SyncWithPeerToLastKnown V i s else Inr s))))"

text \<open>The blocks are processed from the last one back, up to the first error.\<close>

fun process_loop ::
    "NetEnv \<Rightarrow> gval \<Rightarrow> nat \<Rightarrow> Block option \<Rightarrow> Net \<Rightarrow> ((chain_err option \<times> Block option) \<times> Net) res" where
  "process_loop V data 0 lastBlock s = Inr ((None, lastBlock), s)"
| "process_loop V data (Suc k) lastBlock s =
     (let (block, w) = NewBlockFromRlpValue (Get data (int k)) (world s) in
      rbind (Process (proc V) block False (sm s) w) (\<lambda>(err, m, w, evs).
      rbind (deliver evs (s\<lparr>sm := m, world := w\<rparr>)) (\<lambda>s.
      if err \<noteq> None then Inr ((err, lastBlock), s)
      else process_loop V data k (Some block) s)))"

definition catch_up_again :: "NetEnv \<Rightarrow> nat \<Rightarrow> Net \<Rightarrow> Net res" where
  "catch_up_again V i s =
     (let s = with_catching False i s in rbind (current_hash V s) (\<lambda>h. CatchupWithPeer V i h s))"

definition log_synced :: "NetEnv \<Rightarrow> Block option \<Rightarrow> Net \<Rightarrow> unit res" where
  "log_synced V lastBlock s =
     (case lastBlock of
        None \<Rightarrow> Inr ()
      | Some b \<Rightarrow>
          rbind (Block_BlockInfo (net_env V) b (world s)) (\<lambda>_.
          rbind (Block_Hash (net_env V) b (world s)) (\<lambda>_. Inr ())))"

definition process_blocks :: "NetEnv \<Rightarrow> nat \<Rightarrow> gval \<Rightarrow> Block option \<Rightarrow> Net \<Rightarrow> Net res" where
  "process_blocks V i data lastBlock s =
     rbind (process_loop V data (Len data) lastBlock s) (\<lambda>((err, lastBlock), s).
     let s = (if Len data = 0 then with_catching False i s else s) in
     case err of
       Some e \<Rightarrow>
         if IsParentErr e then catch_up_again V i s
         else Inr (if IsValidationErr e then with_catching False i s else s)
     | None \<Rightarrow>
         rbind (peer_at i s) (\<lambda>p.
         if catchingUp p \<and> Len data > 1
         then rbind (log_synced V lastBlock s) (\<lambda>_. catch_up_again V i s)
         else Inr s))"

definition double_request :: "nat \<Rightarrow> Net \<Rightarrow> Net" where
  "double_request i s = mod_peer i (\<lambda>p. p\<lparr>blocksRequested := blocksRequested p * 2\<rparr>) s"

definition handleBlocks :: "NetEnv \<Rightarrow> nat \<Rightarrow> gval \<Rightarrow> Net \<Rightarrow> Net res" where
  "handleBlocks V i data s =
     rbind (peer_at i s) (\<lambda>p.
     if Len data > 2 \<and> diverted p then
       let (lastBlock, w) = NewBlockFromRlpValue (Get data (int (Len data) - 1)) (world s) in
       rbind (divert_loop V i data (Len data) (s\<lparr>world := w\<rparr>)) (\<lambda>s.
       rbind (Block_Hash (net_env V) lastBlock (world s)) (\<lambda>h.
       if \<not> HasBlock h (world s)
       then FindCommonParentBlock V i (with_catching False i (double_request i s))
       else process_blocks V i data (Some lastBlock) s))
     else process_blocks V i data None s)"

definition handlePeers :: "NetEnv \<Rightarrow> nat \<Rightarrow> gval \<Rightarrow> Net \<Rightarrow> Net res" where
  "handlePeers V i data s =
     rbind (peer_at i s) (\<lambda>p.
     if requestedPeerList p then
       rbind (unpack_peers data) (\<lambda>addrs.
       rbind (ProcessPeerList V addrs s) (\<lambda>s.
       Inr (mod_peer i (\<lambda>p. p\<lparr>requestedPeerList := False\<rparr>) s)))
     else Inr s)"

definition handleGetPeers :: "NetEnv \<Rightarrow> nat \<Rightarrow> Net \<Rightarrow> Net res" where
  "handleGetPeers V i s = pushPeers V i (mod_peer i (\<lambda>p. p\<lparr>requestedPeerList := True\<rparr>) s)"

text \<open>The last element of the message is a count, which is ignored: 100 blocks at most are sent.\<close>

definition handleGetChain :: "NetEnv \<Rightarrow> nat \<Rightarrow> gval \<Rightarrow> Net \<Rightarrow> Net res" where
  "handleGetChain V i data s =
     (let l = int (Len data) - 1 in
      if l = 0 then Inr s
      else
        rbind
          (case find (\<lambda>v. HasBlock (Bytes v) (world s)) (map (\<lambda>j. Get data (int j)) [0..<nat l]) of
             None \<Rightarrow> Inr (None, world s)
           | Some v \<Rightarrow> GetBlock (Bytes v) (world s)) (\<lambda>(parent, w).
        case parent of
          Some b \<Rightarrow>
            rbind (Block_Hash (net_env V) b w) (\<lambda>h.
            rbind (GetChainFromHash (walk (net_env V)) (net_env V) h 100 (bchain s) w) (\<lambda>(chain, w).
            QueueMessage i (NewMessage MsgBlockTy (VList chain)) (s\<lparr>world := w\<rparr>)))
        | None \<Rightarrow>
            if l > 0 then QueueMessage i (NewMessage MsgNotInChainTy (VList [Raw (Get data (l - 1))])) (s\<lparr>world := w\<rparr>)
            else Inr (s\<lparr>world := w\<rparr>)))"

definition handleNotInChain :: "NetEnv \<Rightarrow> nat \<Rightarrow> Net \<Rightarrow> Net res" where
  "handleNotInChain V i s =
     rbind (peer_at i s) (\<lambda>p.
     let s = (if diverted p then double_request i s else s) in
     FindCommonParentBlock V i (mod_peer i (\<lambda>p. p\<lparr>diverted := True, catchingUp := False\<rparr>) s))"

definition handleGetTxs :: "nat \<Rightarrow> Net \<Rightarrow> Net res" where
  "handleGetTxs i s =
     QueueMessage i (NewMessage MsgTxTy (VList (map tx_RlpData (CurrentTransactions (txpool (sm s)))))) s"

text \<open>The body of the loop of \<open>HandleInbound\<close>: one message. A pong only sets times; talk is logged.\<close>

definition handleMsg :: "NetEnv \<Rightarrow> nat \<Rightarrow> Msg \<Rightarrow> Net \<Rightarrow> Net res" where
  "handleMsg V i msg s =
     (let ty = MsgTy msg; data = MsgData msg in
      if ty = MsgHandshakeTy then
        rbind (handleHandshake V i data s) (\<lambda>s.
        rbind (peer_at i s) (\<lambda>p.
        if IsCap (peer_caps p) CapPeerDiscTy then QueueMessage i (NewMessage MsgGetPeersTy (VStr [])) s else Inr s))
      else if ty = MsgDiscTy then Peer_Stop i s
      else if ty = MsgPingTy then QueueMessage i (NewMessage MsgPongTy (VStr [])) s
      else if ty = MsgPongTy then Inr (mod_peer i (\<lambda>p. p\<lparr>lastPong := now V\<rparr>) s)
      else if ty = MsgBlockTy then handleBlocks V i data s
      else if ty = MsgTxTy then queue_txs V (elements data) s
      else if ty = MsgGetPeersTy then handleGetPeers V i s
      else if ty = MsgPeersTy then handlePeers V i data s
      else if ty = MsgGetChainTy then handleGetChain V i data s
      else if ty = MsgNotInChainTy then handleNotInChain V i s
      else if ty = MsgGetTxsTy then handleGetTxs i s
      else Inr s)"

fun handleMsgs :: "NetEnv \<Rightarrow> nat \<Rightarrow> Msg list \<Rightarrow> Net \<Rightarrow> Net res" where
  "handleMsgs V i [] s = Inr s"
| "handleMsgs V i (m # ms) s = rbind (handleMsg V i m s) (handleMsgs V i ms)"

text \<open>One round of \<open>HandleInbound\<close>: the loop's test, the messages read, or the \<open>Stop\<close> behind the loop.\<close>

definition HandleInbound :: "NetEnv \<Rightarrow> nat \<Rightarrow> Msg list \<Rightarrow> Net \<Rightarrow> Net res" where
  "HandleInbound V i msgs s =
     rbind (peer_at i s) (\<lambda>p. if disconnect p = 0 then handleMsgs V i msgs s else Peer_Stop i s)"

section \<open>Outgoing messages\<close>

text \<open>The cases of the select in \<open>HandleOutbound\<close>.\<close>

definition out_message :: "nat \<Rightarrow> Net \<Rightarrow> Net res" where
  "out_message i s =
     rbind (peer_at i s) (\<lambda>p.
     case outputQueue p of
       [] \<Rightarrow> Inr s
     | msg # rest \<Rightarrow> writeMessage i msg (mod_peer i (\<lambda>p. p\<lparr>outputQueue := rest\<rparr>) s))"

definition out_ping :: "nat \<Rightarrow> Net \<Rightarrow> Net res" where
  "out_ping i s = writeMessage i (NewMessage MsgPingTy (VStr [])) s"

definition out_service :: "NetEnv \<Rightarrow> nat \<Rightarrow> Net \<Rightarrow> Net res" where
  "out_service V i s =
     rbind (peer_at i s) (\<lambda>p.
     if IsCap (peer_caps p) CapPeerDiscTy
     then rbind (peersMessage V s) (\<lambda>(msg, s). BroadcastMsg msg s)
     else Inr s)"

definition out_quit :: "nat \<Rightarrow> Net \<Rightarrow> Net res" where
  "out_quit i s =
     rbind (peer_at i s) (\<lambda>p. Inr (if quit p then mod_peer i (\<lambda>p. p\<lparr>outputQueue := []\<rparr>) s else s))"

section \<open>The server\<close>

definition Net_Stop :: "Net \<Rightarrow> Net res" where
  "Net_Stop s =
     rbind (eachPeer Peer_Stop (peers s) s) (\<lambda>s.
     Inr (s\<lparr>sm := (sm s)\<lparr>txpool := TxPool_Stop (txpool (sm s))\<rparr>\<rparr>))"

definition NewNet :: "StateManager \<Rightarrow> World \<Rightarrow> byte \<Rightarrow> int \<Rightarrow> KeyRing \<Rightarrow> bytes \<Rightarrow> Net" where
  "NewNet m w caps maxp ring client =
     \<lparr>sm = m, world = w, peerHeap = [], peers = [], serverCaps = caps, MaxPeers = maxp, keyRing = ring,
      ClientString = client, posts = []\<rparr>"

end
