(* ===== verification/Net_Steps.thy ===== *)
theory Net_Steps
  imports Peer
begin

text \<open>
  The server as a transition system: the steps its goroutines take, and the states they reach. An
  invariant is an instance of the locale \<open>net_invariant\<close>: it is proved for the few ways in which the
  peers change, and holds of every handler and every reachable state.
\<close>

section \<open>Steps\<close>

datatype action =
    Inbound nat "Msg list"
  | OutMessage nat
  | OutPing nat
  | OutService nat
  | OutQuit nat
  | StartPing nat
  | Accept bytes bytes bool
  | Connect bytes
  | Seeding SeedAnswers
  | DialOk nat bytes bytes bool
  | DialFail nat
  | StopPeer nat
  | Reap
  | PoolStep
  | Shutdown

fun net_step :: "NetEnv \<Rightarrow> action \<Rightarrow> Net \<Rightarrow> Net res" where
  "net_step V (Inbound i msgs) s = HandleInbound V i msgs s"
| "net_step V (OutMessage i) s = out_message i s"
| "net_step V (OutPing i) s = out_ping i s"
| "net_step V (OutService i) s = out_service V i s"
| "net_step V (OutQuit i) s = out_quit i s"
| "net_step V (StartPing i) s = InitialPing i s"
| "net_step V (Accept l r wr) s = AddPeer V (open_conn l r wr) s"
| "net_step V (Connect addr) s = rbind (ConnectToPeer V addr s) (\<lambda>(_, s). Inr s)"
| "net_step V (Seeding A) s = Seed V A s"
| "net_step V (DialOk i l r wr) s = Dialed i (Some (open_conn l r wr)) s"
| "net_step V (DialFail i) s = Dialed i None s"
| "net_step V (StopPeer i) s = Peer_Stop i s"
| "net_step V Reap s = ReapDeadPeerHandler V s"
| "net_step V PoolStep s = pool_step V s"
| "net_step V Shutdown s = Net_Stop s"

text \<open>
  The environment may differ from step to step: time passes, names resolve differently, goroutines
  race. \<open>reachable_in P\<close> restricts the environments of all steps to those with the property \<open>P\<close>.
\<close>

inductive reachable_in :: "(NetEnv \<Rightarrow> bool) \<Rightarrow> Net \<Rightarrow> bool" for P where
  start: "reachable_in P (NewNet m w caps maxp ring client)"
| step: "reachable_in P s \<Longrightarrow> P V \<Longrightarrow> net_step V a s = Inr s' \<Longrightarrow> reachable_in P s'"

abbreviation reachable :: "Net \<Rightarrow> bool" where
  "reachable \<equiv> reachable_in (\<lambda>_. True)"

lemma reachable_start: "reachable (NewNet m w caps maxp ring client)"
  by (rule reachable_in.start)

lemma reachable_step: "reachable s \<Longrightarrow> net_step V a s = Inr s' \<Longrightarrow> reachable s'"
  by (rule reachable_in.step [OF _ TrueI])

section \<open>Rules for results\<close>

definition yields :: "('a \<Rightarrow> bool) \<Rightarrow> 'a res \<Rightarrow> bool" where
  "yields P m \<longleftrightarrow> (\<forall>x. m = Inr x \<longrightarrow> P x)"

lemma yieldsD: "yields P m \<Longrightarrow> m = Inr x \<Longrightarrow> P x"
  by (simp add: yields_def)

lemma y_Inr: "P x \<Longrightarrow> yields P (Inr x)"
  by (simp add: yields_def)

lemma y_Inl: "yields P (Inl e)"
  by (simp add: yields_def)

lemma y_if: "(b \<Longrightarrow> yields P m) \<Longrightarrow> (\<not> b \<Longrightarrow> yields P m') \<Longrightarrow> yields P (if b then m else m')"
  by simp

lemma y_option: "(z = None \<Longrightarrow> yields P m) \<Longrightarrow> (\<And>x. z = Some x \<Longrightarrow> yields P (f x)) \<Longrightarrow> yields P (case z of None \<Rightarrow> m | Some x \<Rightarrow> f x)"
  by (cases z) simp_all

lemma y_prod: "(\<And>a b. z = (a, b) \<Longrightarrow> yields P (f a b)) \<Longrightarrow> yields P (case z of (a, b) \<Rightarrow> f a b)"
  by (cases z) simp

lemma y_list: "(z = [] \<Longrightarrow> yields P m) \<Longrightarrow> (\<And>x xs. z = x # xs \<Longrightarrow> yields P (f x xs)) \<Longrightarrow> yields P (case z of [] \<Rightarrow> m | x # xs \<Rightarrow> f x xs)"
  by (cases z) simp_all

lemma y_bind: "yields Q m \<Longrightarrow> (\<And>x. Q x \<Longrightarrow> yields P (f x)) \<Longrightarrow> yields P (rbind m f)"
  by (auto simp: yields_def rbind_Inr_iff)

lemma y_any: "(\<And>x. yields P (f x)) \<Longrightarrow> yields P (rbind m f)"
  by (auto simp: yields_def rbind_Inr_iff)

lemma y_peer: "(i < length (peerHeap s) \<Longrightarrow> yields P (f (peerHeap s ! i))) \<Longrightarrow> yields P (rbind (peer_at i s) f)"
  by (auto simp: yields_def rbind_Inr_iff peer_at_def)

section \<open>Invariants\<close>

text \<open>Changes of a peer that concern neither its connection nor, except to set it, \<open>versionKnown\<close>.\<close>

definition inert :: "(Peer \<Rightarrow> Peer) \<Rightarrow> bool" where
  "inert f \<longleftrightarrow> (\<forall>p. conn (f p) = conn p \<and> (versionKnown p \<longrightarrow> versionKnown (f p)))"

definition unsent :: "Peer \<Rightarrow> bool" where
  "unsent p \<longleftrightarrow> (case conn p of None \<Rightarrow> True | Some c \<Rightarrow> sent c = [])"

locale net_invariant =
  fixes fair :: "NetEnv \<Rightarrow> bool" and I :: "Net \<Rightarrow> bool"
  assumes start: "I (NewNet m w caps maxp ring client)"
    and same_peers: "I s \<Longrightarrow> peerHeap s' = peerHeap s \<Longrightarrow> peers s' = peers s \<Longrightarrow> MaxPeers s' = MaxPeers s \<Longrightarrow> I s'"
    and inert: "I s \<Longrightarrow> inert f \<Longrightarrow> I (mod_peer i f s)"
    and wrote: "I s \<Longrightarrow> i < length (peerHeap s) \<Longrightarrow> conn (peerHeap s ! i) = Some c \<Longrightarrow>
      versionKnown (peerHeap s ! i) \<or> MsgTy msg = MsgHandshakeTy \<Longrightarrow>
      I (mod_peer i (\<lambda>p. p\<lparr>conn := Some (c\<lparr>sent := sent c @ [msg]\<rparr>)\<rparr>) s)"
    and closed: "I s \<Longrightarrow> i < length (peerHeap s) \<Longrightarrow> conn (peerHeap s ! i) = Some c \<Longrightarrow>
      I (mod_peer i (\<lambda>p. p\<lparr>conn := Some (c\<lparr>closed := True\<rparr>)\<rparr>) s)"
    and dialled: "I s \<Longrightarrow> sent c = [] \<Longrightarrow> I (mod_peer i (\<lambda>p. p\<lparr>conn := Some c, connected := 1, disconnect := 0\<rparr>) s)"
    and pushed: "I s \<Longrightarrow> fair V \<Longrightarrow> int (length (peers (at_test V s))) < MaxPeers s \<Longrightarrow> unsent p \<Longrightarrow> I (snd (push_peer p s))"
    and removed: "I s \<Longrightarrow> I (s\<lparr>peers := remove1 i (peers s)\<rparr>)"
begin

lemma I_world [simp]: "I (s\<lparr>world := w\<rparr>) \<longleftrightarrow> I s"
  by (auto intro: same_peers [of "s\<lparr>world := w\<rparr>" s] same_peers [of s "s\<lparr>world := w\<rparr>"])

lemma I_sm [simp]: "I (s\<lparr>sm := m\<rparr>) \<longleftrightarrow> I s"
  by (auto intro: same_peers [of "s\<lparr>sm := m\<rparr>" s] same_peers [of s "s\<lparr>sm := m\<rparr>"])

lemma I_posts [simp]: "I (s\<lparr>posts := ps\<rparr>) \<longleftrightarrow> I s"
  by (auto intro: same_peers [of "s\<lparr>posts := ps\<rparr>" s] same_peers [of s "s\<lparr>posts := ps\<rparr>"])

lemma I_chain [simp]: "I (set_chain c s) \<longleftrightarrow> I s"
  by (simp add: set_chain_def)

lemma I_mod [simp]: "inert f \<Longrightarrow> I s \<Longrightarrow> I (mod_peer i f s)"
  by (rule inert)

lemma I_remove [simp]: "I s \<Longrightarrow> I (removePeerElement i s)"
  unfolding removePeerElement_def by (simp add: removed)

lemma I_with_catching [simp]: "I s \<Longrightarrow> I (with_catching b i s)"
  by (simp add: with_catching_def inert_def)

lemma I_double [simp]: "I s \<Longrightarrow> I (double_request i s)"
  by (simp add: double_request_def inert_def)

lemma I_count [simp]: "I s \<Longrightarrow> I (count_stop i s)"
  by (simp add: count_stop_def inert_def)

lemma I_post [simp]: "I s \<Longrightarrow> I (post_peerList s)"
  by (simp add: post_peerList_def)

abbreviation keeps :: "Net res \<Rightarrow> bool" where "keeps \<equiv> yields I"

abbreviation keeps2 :: "('x \<times> Net) res \<Rightarrow> bool" where "keeps2 \<equiv> yields (\<lambda>(x, s). I s)"

lemma y_net: "keeps m \<Longrightarrow> (\<And>s. I s \<Longrightarrow> yields P (f s)) \<Longrightarrow> yields P (rbind m f)"
  by (rule y_bind)

lemma y_pair: "keeps2 m \<Longrightarrow> (\<And>x s. I s \<Longrightarrow> yields P (f x s)) \<Longrightarrow> yields P (rbind m (\<lambda>(x, s). f x s))"
  by (auto simp: yields_def rbind_Inr_iff)

lemma y_done: "I s \<Longrightarrow> keeps (Inr s)"
  by (rule y_Inr)

lemma y_done2: "I s \<Longrightarrow> keeps2 (Inr (x, s))"
  by (rule y_Inr) simp

lemmas flow = y_Inl y_if y_option y_prod y_list y_done y_done2 y_peer

lemma QueueMessage_keeps: "I s \<Longrightarrow> keeps (QueueMessage i msg s)"
  unfolding QueueMessage_def by (rule flow | simp add: inert_def)+

lemma eachPeer_keeps: "(\<And>i s. I s \<Longrightarrow> keeps (f i s)) \<Longrightarrow> I s \<Longrightarrow> keeps (eachPeer f is s)"
proof (induction "is" arbitrary: s)
  case (Cons i "is")
  show ?case unfolding eachPeer.simps
    by (rule y_net, rule Cons.prems(1), rule Cons.prems(2)) (simp add: y_done Cons.IH Cons.prems(1))
qed (simp add: y_done)

lemma gated_write_keeps: "I s \<Longrightarrow> keeps2 (gated_write i msg s)"
  unfolding gated_write_def write_conn_def
  by (rule y_peer, rule y_if, rule y_done2, assumption, rule y_if, rule y_done2, assumption, rule y_peer, rule y_option,
      rule y_Inl, rule y_any, rule y_if) (auto intro!: y_done2 wrote)

lemma RemovePeer_keeps: "I s \<Longrightarrow> keeps (RemovePeer i s)"
  unfolding RemovePeer_def by (rule eachPeer_keeps) (simp_all add: y_done)

lemma close_quit_keeps: "I s \<Longrightarrow> keeps (close_quit i s)"
  unfolding close_quit_def by (rule flow | simp add: inert_def)+

lemma close_conn_keeps: "I s \<Longrightarrow> keeps (close_conn i s)"
  unfolding close_conn_def by (rule flow)+ (auto intro: closed)

lemma Peer_Stop_keeps: "I s \<Longrightarrow> keeps (Peer_Stop i s)"
  unfolding Peer_Stop_def Let_def
  by (rule flow y_net close_quit_keeps RemovePeer_keeps y_pair gated_write_keeps close_conn_keeps | simp)+

lemma writeMessage_keeps: "I s \<Longrightarrow> keeps (writeMessage i msg s)"
  unfolding writeMessage_def by (rule y_pair gated_write_keeps flow Peer_Stop_keeps | assumption)+

lemma reapPeers_keeps: "I s \<Longrightarrow> keeps (reapPeers V s)"
  unfolding reapPeers_def by (rule eachPeer_keeps) (rule flow | simp)+

lemma InOutPeers_keeps: "I s \<Longrightarrow> keeps2 (InOutPeers V s)"
  unfolding InOutPeers_def by (rule y_net flow reapPeers_keeps | assumption)+

lemma BroadcastMsg_keeps: "I s \<Longrightarrow> keeps (BroadcastMsg msg s)"
  unfolding BroadcastMsg_def by (rule eachPeer_keeps QueueMessage_keeps | assumption)+

lemma Broadcast_keeps: "I s \<Longrightarrow> keeps (Broadcast ty d s)"
  unfolding Broadcast_def by (rule BroadcastMsg_keeps)

lemma pushHandshake_keeps: "I s \<Longrightarrow> keeps (pushHandshake i s)"
  unfolding pushHandshake_def by (rule flow QueueMessage_keeps y_any | assumption)+

lemma Peer_Start_keeps: "I s \<Longrightarrow> keeps (Peer_Start i s)"
  unfolding Peer_Start_def Let_def by (rule flow y_any pushHandshake_keeps | simp add: inert_def)+

lemma push_keeps:
  "I s \<Longrightarrow> fair V \<Longrightarrow> int (length (peers (at_test V s))) < MaxPeers s \<Longrightarrow> unsent p \<Longrightarrow> push_peer p s = (i, s') \<Longrightarrow> I s'"
  using pushed [of s V p] by simp

lemma NewPeer_unsent: "sent c = [] \<Longrightarrow> yields unsent (NewPeer c b s)"
  by (auto simp: yields_def NewPeer_def rbind_Inr_iff unsent_def split: option.splits)

lemma AddPeer_keeps: "fair V \<Longrightarrow> I s \<Longrightarrow> sent c = [] \<Longrightarrow> keeps (AddPeer V c s)"
  unfolding AddPeer_def Let_def
  by (rule y_bind, erule NewPeer_unsent, rule y_net, rule y_if, rule y_prod, rule Peer_Start_keeps, rule push_keeps)
    (auto intro: y_done)

lemma NewOutboundPeer_unsent: "unsent (NewOutboundPeer c s)"
  by (simp add: NewOutboundPeer_def unsent_def)

lemma Dialed_keeps: "I s \<Longrightarrow> (case r of None \<Rightarrow> True | Some c \<Rightarrow> sent c = []) \<Longrightarrow> keeps (Dialed i r s)"
  unfolding Dialed_def by (rule y_option, erule Peer_Stop_keeps, rule y_peer, rule Peer_Start_keeps, rule dialled) auto

lemma ConnectToPeer_keeps: "fair V \<Longrightarrow> I s \<Longrightarrow> keeps2 (ConnectToPeer V addr s)"
  unfolding ConnectToPeer_def Let_def
  by ((rule flow y_any | assumption)+, rule I_post, rule push_keeps, assumption+, rule NewOutboundPeer_unsent,
      (rule flow | assumption)+)

lemma ProcessPeerList_keeps: "fair V \<Longrightarrow> I s \<Longrightarrow> keeps (ProcessPeerList V addrs s)"
proof (induction addrs arbitrary: s)
  case (Cons a addrs)
  show ?case unfolding ProcessPeerList.simps by (rule y_pair ConnectToPeer_keeps Cons | assumption)+
qed (simp add: y_done)

lemma CatchupWithPeer_keeps: "I s \<Longrightarrow> keeps (CatchupWithPeer V i h s)"
  unfolding CatchupWithPeer_def by (rule flow y_net QueueMessage_keeps y_any | simp add: inert_def)+

lemma SyncWithPeer_keeps: "I s \<Longrightarrow> keeps (SyncWithPeerToLastKnown V i s)"
  unfolding SyncWithPeerToLastKnown_def Let_def by (rule y_any CatchupWithPeer_keeps | simp add: inert_def)+

lemma FindCommonParentBlock_keeps: "I s \<Longrightarrow> keeps (FindCommonParentBlock V i s)"
  unfolding FindCommonParentBlock_def Let_def
  by (rule flow QueueMessage_keeps y_any | simp add: inert_def)+

lemma peersMessage_keeps: "I s \<Longrightarrow> keeps2 (peersMessage V s)"
  unfolding peersMessage_def by (rule y_pair InOutPeers_keeps flow y_any | assumption)+

lemma pushPeers_keeps: "I s \<Longrightarrow> keeps (pushPeers V i s)"
  unfolding pushPeers_def by (rule y_pair peersMessage_keeps QueueMessage_keeps | assumption)+

lemma deliver_keeps: "I s \<Longrightarrow> keeps (deliver evs s)"
  by (induction evs s rule: deliver.induct) (auto intro!: y_done y_net Broadcast_keeps)

lemma pool_step_keeps: "I s \<Longrightarrow> keeps (pool_step V s)"
  unfolding pool_step_def by (rule flow y_any deliver_keeps | simp)+

lemma queue_tx_keeps: "I s \<Longrightarrow> keeps (queue_tx V tx s)"
  unfolding queue_tx_def Let_def by (rule flow y_net pool_step_keeps | simp)+

lemma queue_txs_keeps: "I s \<Longrightarrow> keeps (queue_txs V vs s)"
proof (induction vs arbitrary: s)
  case (Cons a vs)
  show ?case unfolding queue_txs.simps by (rule y_net queue_tx_keeps Cons | assumption)+
qed (simp add: y_done)

lemma accept_version_keeps: "I s \<Longrightarrow> keeps (accept_version V i c s)"
  unfolding accept_version_def Let_def by (rule SyncWithPeer_keeps) (simp add: inert_def)

lemma handleHandshake_keeps: "I s \<Longrightarrow> keeps (handleHandshake V i c s)"
  unfolding handleHandshake_def Let_def
  by (rule flow y_any Peer_Stop_keeps accept_version_keeps | simp add: inert_def)+

lemma divert_loop_keeps: "I s \<Longrightarrow> keeps (divert_loop V i data k s)"
proof (induction k arbitrary: s)
  case (Suc k)
  show ?case unfolding divert_loop.simps Let_def using Suc.prems
    by - ((rule flow y_any Suc.IH SyncWithPeer_keeps | simp add: inert_def)+)
qed (simp add: y_done)

lemma process_loop_keeps: "I s \<Longrightarrow> keeps2 (process_loop V data k b s)"
proof (induction k arbitrary: b s)
  case (Suc k)
  show ?case unfolding process_loop.simps Let_def using Suc.prems
    by - (rule y_prod, rule y_any, rule y_prod, rule y_prod, rule y_prod, rule y_net, rule deliver_keeps, simp,
        rule y_if, erule y_done2, erule Suc.IH)
qed (simp add: y_done2)

lemma catch_up_again_keeps: "I s \<Longrightarrow> keeps (catch_up_again V i s)"
  unfolding catch_up_again_def Let_def by (rule y_any, rule CatchupWithPeer_keeps) simp

lemma process_blocks_keeps: "I s \<Longrightarrow> keeps (process_blocks V i data b s)"
  unfolding process_blocks_def Let_def
  by (rule y_pair, erule process_loop_keeps)
    (auto split: option.split intro!: y_done y_peer y_any catch_up_again_keeps)

lemma handleBlocks_keeps: "I s \<Longrightarrow> keeps (handleBlocks V i data s)"
  unfolding handleBlocks_def Let_def
  by (rule y_peer, rule y_if, rule y_prod, rule y_net, rule divert_loop_keeps, simp, rule y_any, rule y_if,
      rule FindCommonParentBlock_keeps) (auto intro!: process_blocks_keeps)

lemma handlePeers_keeps: "fair V \<Longrightarrow> I s \<Longrightarrow> keeps (handlePeers V i data s)"
  unfolding handlePeers_def
  by (rule y_peer, rule y_if, rule y_any, rule y_net, erule (1) ProcessPeerList_keeps) (auto intro!: y_done simp: inert_def)

lemma handleGetPeers_keeps: "I s \<Longrightarrow> keeps (handleGetPeers V i s)"
  unfolding handleGetPeers_def by (rule pushPeers_keeps) (simp add: inert_def)

lemma handleGetChain_keeps: "I s \<Longrightarrow> keeps (handleGetChain V i data s)"
  unfolding handleGetChain_def Let_def
  by (rule y_if, erule y_done, rule y_any, rule y_prod, rule y_option, rule y_if, rule QueueMessage_keeps, simp,
      rule y_done, simp, rule y_any, rule y_any, rule y_prod, rule QueueMessage_keeps) simp

lemma handleNotInChain_keeps: "I s \<Longrightarrow> keeps (handleNotInChain V i s)"
  unfolding handleNotInChain_def Let_def by (rule y_peer, rule FindCommonParentBlock_keeps) (simp add: inert_def)

lemma handleGetTxs_keeps: "I s \<Longrightarrow> keeps (handleGetTxs i s)"
  unfolding handleGetTxs_def by (rule QueueMessage_keeps)

lemmas handler_keeps =
  Peer_Stop_keeps QueueMessage_keeps handleBlocks_keeps queue_txs_keeps handleGetPeers_keeps handlePeers_keeps
  handleGetChain_keeps handleNotInChain_keeps handleGetTxs_keeps

lemma handleMsg_keeps: "fair V \<Longrightarrow> I s \<Longrightarrow> keeps (handleMsg V i msg s)"
  unfolding handleMsg_def Let_def
  by (rule y_if, rule y_net, erule handleHandshake_keeps, rule y_peer, rule y_if)
    (auto intro!: handler_keeps y_done simp: inert_def)

lemma handleMsgs_keeps: "fair V \<Longrightarrow> I s \<Longrightarrow> keeps (handleMsgs V i ms s)"
proof (induction ms arbitrary: s)
  case (Cons m ms)
  show ?case unfolding handleMsgs.simps by (rule y_net handleMsg_keeps Cons | assumption)+
qed (simp add: y_done)

lemma out_message_keeps: "I s \<Longrightarrow> keeps (out_message i s)"
  unfolding out_message_def by (rule y_peer, rule y_list, erule y_done, rule writeMessage_keeps) (simp add: inert_def)

lemma out_service_keeps: "I s \<Longrightarrow> keeps (out_service V i s)"
  unfolding out_service_def by (rule flow y_pair peersMessage_keeps BroadcastMsg_keeps | assumption)+

lemma Seed_keeps: "fair V \<Longrightarrow> I s \<Longrightarrow> keeps (Seed V A s)"
  unfolding Seed_def by (rule y_net y_option y_pair ConnectToPeer_keeps ProcessPeerList_keeps y_done | assumption)+

lemma net_step_keeps: "fair V \<Longrightarrow> I s \<Longrightarrow> keeps (net_step V a s)"
proof (cases a)
  case (Inbound i msgs)
  assume "fair V" "I s"
  then show ?thesis
    unfolding Inbound net_step.simps HandleInbound_def by - ((rule flow handleMsgs_keeps Peer_Stop_keeps | assumption)+)
next
  case (OutQuit i)
  assume "I s"
  then show ?thesis unfolding OutQuit net_step.simps out_quit_def by - ((rule flow | simp add: inert_def)+)
next
  case (Connect addr)
  assume "fair V" "I s"
  then show ?thesis unfolding Connect net_step.simps by - ((rule y_pair ConnectToPeer_keeps y_done | assumption)+)
next
  case Shutdown
  assume "I s"
  then show ?thesis
    unfolding Shutdown net_step.simps Net_Stop_def by - ((rule y_net eachPeer_keeps Peer_Stop_keeps y_done | simp)+)
qed (simp_all add: out_message_keeps out_ping_def out_service_keeps InitialPing_def writeMessage_keeps AddPeer_keeps
    open_conn_def Dialed_keeps Seed_keeps Peer_Stop_keeps ReapDeadPeerHandler_def reapPeers_keeps pool_step_keeps)

theorem reachable_I: "reachable_in fair s \<Longrightarrow> I s"
proof (induction rule: reachable_in.induct)
  case (step s V a s')
  from yieldsD [OF net_step_keeps [OF step.hyps(2) step.IH] step.hyps(3)] show ?case .
qed (rule start)

end

end
