(* ===== verification/Peer_Correct.thy ===== *)
theory Peer_Correct
  imports Net_Steps Chain_Correct
begin

text \<open>
  What holds of the peers in every reachable state of the server, what the handshake of a peer does,
  and where stopping, reaping and shutting down go wrong.
\<close>

section \<open>Invariants of reachable states\<close>

text \<open>An environment in which, between the test of the length of the list and the addition that the test
  allows, the list grows by at most \<open>k\<close> peers that other goroutines add.\<close>

definition lag :: "nat \<Rightarrow> NetEnv \<Rightarrow> bool" where
  "lag k V \<longleftrightarrow> (\<forall>s. length (peers s) \<le> length (peers (at_test V s)) + k)"

definition peers_ok :: "nat \<Rightarrow> Net \<Rightarrow> bool" where
  "peers_ok k s \<longleftrightarrow>
     distinct (peers s) \<and> (\<forall>i \<in> set (peers s). i < length (peerHeap s)) \<and>
     int (length (peers s)) \<le> max 0 (MaxPeers s) + int k"

lemma mod_peer_simps [simp]:
  "peers (mod_peer i f s) = peers s" "MaxPeers (mod_peer i f s) = MaxPeers s"
  "length (peerHeap (mod_peer i f s)) = length (peerHeap s)"
  by (simp_all add: mod_peer_def)

lemma mod_peer_nth: "i < length (peerHeap s) \<Longrightarrow> peerHeap (mod_peer i f s) ! j = (if j = i then f (peerHeap s ! i) else peerHeap s ! j)"
  by (simp add: mod_peer_def)

lemma mod_mod: "i < length (peerHeap s) \<Longrightarrow> mod_peer i f (mod_peer i g s) = mod_peer i (f \<circ> g) s"
  by (simp add: mod_peer_def)

lemma mod_peer_const: "mod_peer i (\<lambda>_. f (peerHeap s ! i)) s = mod_peer i f s"
  by (simp add: mod_peer_def)

lemma peers_ok_mod: "peers_ok k s \<Longrightarrow> peers_ok k (mod_peer i f s)"
  by (simp add: peers_ok_def)

lemma peers_ok_push:
  assumes "peers_ok k s" "lag k V" "int (length (peers (at_test V s))) < MaxPeers s"
  shows "peers_ok k (snd (push_peer p s))"
proof -
  have "length (peers s) \<le> length (peers (at_test V s)) + k" using assms(2) by (simp add: lag_def)
  then show ?thesis using assms(1,3) by (auto simp: peers_ok_def push_peer_def Let_def less_Suc_eq)
qed

interpretation listed: net_invariant "lag k" "peers_ok k" for k
proof
  fix s i
  assume "peers_ok k s"
  then show "peers_ok k (s\<lparr>peers := remove1 i (peers s)\<rparr>)"
    using notin_set_remove1 [of _ "peers s"] by (auto simp: peers_ok_def length_remove1 dest: notin_set_remove1)
qed (auto simp: peers_ok_mod peers_ok_push, auto simp: peers_ok_def NewNet_def)

text \<open>Before the version of a peer is known, it is sent nothing but handshakes.\<close>

definition quiet :: "Peer \<Rightarrow> bool" where
  "quiet p \<longleftrightarrow>
     (case conn p of None \<Rightarrow> True | Some c \<Rightarrow> versionKnown p \<or> list_all (\<lambda>m. MsgTy m = MsgHandshakeTy) (sent c))"

definition all_quiet :: "Net \<Rightarrow> bool" where
  "all_quiet s \<longleftrightarrow> list_all quiet (peerHeap s)"

lemma all_quiet_mod: "all_quiet s \<Longrightarrow> (i < length (peerHeap s) \<Longrightarrow> quiet (peerHeap s ! i) \<Longrightarrow> quiet (f (peerHeap s ! i))) \<Longrightarrow> all_quiet (mod_peer i f s)"
  by (auto simp: all_quiet_def mod_peer_def list_all_length) (case_tac "n = i", auto)

interpretation gate: net_invariant "\<lambda>_. True" all_quiet
proof
  fix s i f
  assume "all_quiet s" "inert f"
  then show "all_quiet (mod_peer i f s)"
    by (intro all_quiet_mod) (auto simp: quiet_def inert_def split: option.splits)
qed (auto simp: all_quiet_def NewNet_def push_peer_def Let_def unsent_def quiet_def split: option.splits intro!: all_quiet_mod [unfolded all_quiet_def])

text \<open>C24. In every state the server can reach, through any sequence of accepted and dialled connections, received
  messages, timers, failed writes and stops, the list of peers has no duplicates and holds only peers
  that exist, and it exceeds the configured maximum by at most \<open>k\<close>, when at most \<open>k\<close> peers are added by
  other goroutines between a test of the length and the addition that it allows. Without such a race
  (\<open>k = 0\<close>) the maximum holds; the code has no lock that excludes the race, and with it the maximum is
  exceeded (\<open>race_exceeds_maximum\<close> below).\<close>

theorem peer_list_bounded:
  assumes "reachable_in (lag k) s"
  shows "distinct (peers s) \<and> (\<forall>i \<in> set (peers s). i < length (peerHeap s)) \<and>
    int (length (peers s)) \<le> max 0 (MaxPeers s) + int k"
  using listed.reachable_I [OF assms] by (simp add: peers_ok_def)

text \<open>C23. In every reachable state, a peer whose version is not known has been sent nothing but handshake messages,
  whatever it was made to queue and whoever stopped it.\<close>

theorem silent_before_version:
  assumes "reachable s" "i < length (peerHeap s)" "conn (peerHeap s ! i) = Some c" "\<not> versionKnown (peerHeap s ! i)" "m \<in> set (sent c)"
  shows "MsgTy m = MsgHandshakeTy"
proof -
  have "quiet (peerHeap s ! i)" using gate.reachable_I [OF assms(1)] assms(2) by (simp add: all_quiet_def list_all_length)
  then show ?thesis using assms(3-) by (auto simp: quiet_def list_all_iff)
qed

section \<open>The handshake\<close>

text \<open>What the receiver reads of the handshake that \<open>pushHandshake\<close> makes.\<close>

definition handshake :: "bytes \<Rightarrow> byte \<Rightarrow> 16 word \<Rightarrow> bytes \<Rightarrow> Msg" where
  "handshake v c pt pub =
     NewMessage MsgHandshakeTy (VList [VUint32 (ucast ProtocolVersion), VUint32 0, VStr v, VByte c, VUint16 pt, VBytes pub])"

lemma pushHandshake_handshake:
  assumes "keyRing s = k # ks" "PubKey k \<noteq> []" "i < length (peerHeap s)"
  shows "pushHandshake i s =
    QueueMessage i (handshake (version (peerHeap s ! i)) (peer_caps (peerHeap s ! i)) (port (peerHeap s ! i)) (tl (PubKey k))) s"
  using assms by (cases "PubKey k") (simp_all add: pushHandshake_def Ring_Get_def goslice_def handshake_def peer_at_def)

lemma big_Bytes_word: "big_Bytes (uint (w :: 'a::len word)) = nat_be (unat w)"
  using big_Bytes_nat [of "unat w"] by (simp only: uint_nat)

lemma Byte_unraw: "c < 128 \<Longrightarrow> Byte (unraw (RStr (big_Bytes (uint (c :: byte))))) = c"
proof (cases "c = 0")
  case False
  assume c: "c < 128"
  then have "unat c < 128" by (simp add: word_less_nat_alt)
  moreover have "unat c \<noteq> 0" using False by (simp add: unat_eq_0)
  ultimately show ?thesis by (simp add: big_Bytes_word nat_be_byte)
qed (simp add: big_Bytes_def)

lemma port_read: "(ucast (ReadVarint (big_Bytes (uint (pt :: 16 word)))) :: 16 word) = pt"
proof -
  have "unat pt < 65536" using unsigned_less [of pt] by simp
  then have "length (nat_be (unat pt)) \<le> 2" by (intro length_nat_be_le) simp
  then have "length (nat_be (unat pt)) \<in> {0, 1, 2, 4, 8}" by (cases "length (nat_be (unat pt))" rule: nat.exhaust) auto
  from unat_ReadVarint_be [OF this] have "unat (ReadVarint (nat_be (unat pt))) = unat pt" by simp
  from arg_cong [OF this, of "of_nat :: nat \<Rightarrow> uint64"] have "ReadVarint (nat_be (unat pt)) = (ucast pt :: uint64)" by simp
  then show ?thesis by (simp add: big_Bytes_word ucast_up_ucast_id is_up)
qed

lemma version_read: "ReadVarint (big_Bytes (uint (ucast ProtocolVersion :: 32 word))) = ProtocolVersion"
  by code_simp

lemma handshake_read:
  assumes "c < 128" "length pub \<noteq> 1"
  shows "let d = MsgData (msg_norm (handshake v c pt pub)) in
    Uint (Get d 0) = ProtocolVersion \<and> Str (Get d 2) = v \<and> Byte (Get d 3) = c \<and>
    (ucast (Uint (Get d 4)) :: 16 word) = pt \<and> Bytes (Get d 5) = pub"
  using assms
  by (simp add: handshake_def msg_norm_def NewMessage_def Let_def Uint_unraw_RStr Bytes_unraw version_read Str_unraw_RStr
      Byte_unraw port_read del: unraw.simps(1))

lemma length_big_Bytes_word: "length (big_Bytes (uint (w :: 'a::len word))) \<le> LENGTH('a) div 8 + 1"
proof -
  have "unat w < 2 ^ LENGTH('a)" by (rule unsigned_less)
  also have "(2 :: nat) ^ LENGTH('a) \<le> 2 ^ (8 * (LENGTH('a) div 8 + 1))" by (intro power_increasing) auto
  also have "\<dots> = 256 ^ (LENGTH('a) div 8 + 1)" by (subst power_mult) simp
  finally show ?thesis unfolding big_Bytes_word by (rule length_nat_be_le)
qed

lemma length_Encode_word:
  "LENGTH('a) < 1000 \<Longrightarrow> length (Encode_bytes (big_Bytes (uint (w :: 'a::len word)))) \<le> LENGTH('a) div 8 + 4"
proof -
  assume n: "LENGTH('a) < 1000"
  have "LENGTH('a) div 8 \<le> LENGTH('a)" by simp
  with n length_big_Bytes_word [of w] have "length (big_Bytes (uint w)) < 65536" by linarith
  from length_Encode_bytes [OF this] length_big_Bytes_word [of w] show ?thesis by linarith
qed

lemma handshake_ok:
  assumes "length v < 10000" "length pub < 10000"
  shows "msg_ok (handshake v c pt pub)"
proof -
  let ?ns = "[raw (VByte MsgHandshakeTy), raw (VUint32 (ucast ProtocolVersion)), raw (VUint32 0), raw (VStr v),
    raw (VByte c), raw (VUint16 pt), raw (VBytes pub)]"
  have i: "raw (msg_items (handshake v c pt pub)) = RList ?ns"
    by (simp add: msg_items_def handshake_def NewMessage_def)
  note small = length_big_Bytes_word [of "MsgHandshakeTy"] length_big_Bytes_word [of "ucast ProtocolVersion :: 32 word"]
    length_big_Bytes_word [of c] length_big_Bytes_word [of pt]
  note lens = length_Encode_bytes [of v] length_Encode_bytes [of pub] length_Encode_word [of "MsgHandshakeTy"]
    length_Encode_word [of "ucast ProtocolVersion :: 32 word"] length_Encode_word [of "0 :: 32 word"]
    length_Encode_word [of c] length_Encode_word [of pt]
  have len: "length (concat (map rlp ?ns)) < 65536" using lens assms by simp
  then have "fits (RList ?ns)" using assms small by (simp add: len_ok_small)
  moreover have "length (rlp (RList ?ns)) < 2 ^ 32"
  proof (cases "length (concat (map rlp ?ns)) < 256 ^ 8")
    case True
    from length_nat_be_le [OF this] len show ?thesis by (simp add: WriteSliceHeader_def Let_def del: concat.simps list.map)
  qed (use len in simp)
  ultimately show ?thesis unfolding msg_ok_def Encode_raw i ..
qed

text \<open>C33. The two ends of a connection understand each other: the message that \<open>pushHandshake\<close> queues for a
  connected peer, written to the connection and read at the other end, in whatever pieces, is one
  handshake message, in which the receiver finds the protocol version it requires and exactly the
  sender's version string, capabilities, port and public key without its format byte. (The
  capabilities are below 128, as all combinations of the three defined ones are, the key has not exactly two bytes,
  and version and key are shorter than 10000 bytes.)\<close>

theorem handshake_understood:
  assumes "keyRing s = k # ks" "PubKey k \<noteq> []" "length (PubKey k) \<noteq> 2" "length (PubKey k) < 10000"
    and "i < length (peerHeap s)" "connected (peerHeap s ! i) = 1"
    and "peer_caps (peerHeap s ! i) < 128" "length (version (peerHeap s ! i)) < 10000"
    and "pushHandshake i s = Inr s'" "WriteMessage (last (outputQueue (peerHeap s' ! i))) = Inr bs" "received chunks = bs"
  shows "\<exists>d. ReadMessages chunks sp = Some ([\<lparr>MsgTy = MsgHandshakeTy, MsgData = d\<rparr>], None) \<and>
    Uint (Get d 0) = ProtocolVersion \<and> Str (Get d 2) = version (peerHeap s ! i) \<and>
    Byte (Get d 3) = peer_caps (peerHeap s ! i) \<and> (ucast (Uint (Get d 4)) :: 16 word) = port (peerHeap s ! i) \<and>
    Bytes (Get d 5) = tl (PubKey k)"
proof -
  let ?p = "peerHeap s ! i"
  let ?m = "handshake (version ?p) (peer_caps ?p) (port ?p) (tl (PubKey k))"
  have "s' = mod_peer i (\<lambda>p. p\<lparr>outputQueue := outputQueue p @ [?m]\<rparr>) s"
    using assms(9) pushHandshake_handshake [OF assms(1,2,5)] assms(5,6) by (simp add: QueueMessage_def peer_at_def)
  then have "last (outputQueue (peerHeap s' ! i)) = ?m" using assms(5) by (simp add: mod_peer_nth)
  with assms(10) have "bs = msg_frame ?m" by (simp add: msg_frame_def)
  then have c: "received chunks = concat (map msg_frame [?m])" using assms(11) by simp
  have ok: "\<forall>m \<in> set [?m]. msg_ok m" using handshake_ok assms(4,8) by simp
  have "length (tl (PubKey k)) \<noteq> 1" using assms(2,3) by (cases "PubKey k") auto
  from ReadMessages_frames [OF ok c] handshake_read [OF assms(7) this, of "version ?p" "port ?p"]
  show ?thesis by (simp add: Let_def msg_norm_def handshake_def NewMessage_def)
qed

text \<open>The effect of an accepted handshake on an outbound peer.\<close>

lemma handshake_effect:
  assumes "i < length (peerHeap s)" "connected (peerHeap s ! i) = 1"
    and "inbound (peerHeap s ! i) \<longrightarrow> (\<exists>k ks. keyRing s = k # ks \<and> PubKey k \<noteq> Bytes (Get c 5))"
    and "Uint (Get c 0) = ProtocolVersion" "current_hash V s = Inr h" "4 \<le> length h"
  obtains f where "handleMsg V i \<lparr>MsgTy = MsgHandshakeTy, MsgData = c\<rparr> s = Inr (mod_peer i f s)"
    "\<And>p. versionKnown (f p) \<and> catchingUp (f p) \<and> peer_caps (f p) = Byte (Get c 3) \<and>
      version (f p) = (if Str (Get c 2) = [] then version p else Str (Get c 2)) \<and>
      pubkey (f p) = (if inbound (peerHeap s ! i) then Bytes (Get c 5) else pubkey p) \<and>
      port (f p) = (if inbound (peerHeap s ! i) then ucast (Uint (Get c 4)) else port p) \<and>
      requestedPeerList (f p) = requestedPeerList p \<and>
      outputQueue (f p) = outputQueue p @
        [NewMessage MsgGetChainTy (VList [VBytes h, VUint64 50]), NewMessage MsgGetTxsTy (VList [])] @
        (if IsCap (Byte (Get c 3)) CapPeerDiscTy then [NewMessage MsgGetPeersTy (VStr [])] else [])"
proof -
  have h: "current_hash V (mod_peer i f t) = current_hash V t" and kr: "keyRing (mod_peer i f t) = keyRing t" for f t
    by (simp_all add: current_hash_def mod_peer_def bchain_def)
  have "\<exists>f. handleMsg V i \<lparr>MsgTy = MsgHandshakeTy, MsgData = c\<rparr> s = Inr (mod_peer i f s) \<and>
      (\<forall>p. versionKnown (f p) \<and> catchingUp (f p) \<and> peer_caps (f p) = Byte (Get c 3) \<and>
        version (f p) = (if Str (Get c 2) = [] then version p else Str (Get c 2)) \<and>
        pubkey (f p) = (if inbound (peerHeap s ! i) then Bytes (Get c 5) else pubkey p) \<and>
        port (f p) = (if inbound (peerHeap s ! i) then ucast (Uint (Get c 4)) else port p) \<and>
        requestedPeerList (f p) = requestedPeerList p \<and>
        outputQueue (f p) = outputQueue p @
          [NewMessage MsgGetChainTy (VList [VBytes h, VUint64 50]), NewMessage MsgGetTxsTy (VList [])] @
          (if IsCap (Byte (Get c 3)) CapPeerDiscTy then [NewMessage MsgGetPeersTy (VStr [])] else []))"
  proof (cases "inbound (peerHeap s ! i)")
    case True
    with assms(3) obtain k ks where k: "keyRing s = k # ks" "PubKey k \<noteq> Bytes (Get c 5)" by blast
    from True k assms(1,2,4-6) show ?thesis
      by (auto simp: handleMsg_def handleHandshake_def accept_version_def SyncWithPeerToLastKnown_def CatchupWithPeer_def
          QueueMessage_def peer_at_def mod_peer_nth mod_mod h kr Ring_Get_def goslice_def Let_def)
  next
    case False
    with assms(1,2,4-6) show ?thesis
      by (auto simp: handleMsg_def handleHandshake_def accept_version_def SyncWithPeerToLastKnown_def CatchupWithPeer_def
          QueueMessage_def peer_at_def mod_peer_nth mod_mod h goslice_def Let_def)
  qed
  then show ?thesis using that by blast
qed

text \<open>C25. A handshake that is accepted from a connected peer starts the synchronisation. It is accepted when
  its protocol version is the node's own and, for an inbound peer, its key is not the first key of the
  ring. Then the version is known, capabilities, version string and, of an inbound peer, key and port
  are those of the message, the peer is being caught up with, and exactly a request for the chain from the current block (whose
  hash has at least the four bytes that are logged) and one for the transactions are queued,
  followed by a request for peers when the other side has that capability.\<close>

theorem handshake_then_sync:
  assumes "i < length (peerHeap s)" "connected (peerHeap s ! i) = 1"
    and "inbound (peerHeap s ! i) \<longrightarrow> (\<exists>k ks. keyRing s = k # ks \<and> PubKey k \<noteq> Bytes (Get c 5))"
    and "Uint (Get c 0) = ProtocolVersion" "current_hash V s = Inr h" "4 \<le> length h"
  shows "\<exists>s' p. handleMsg V i \<lparr>MsgTy = MsgHandshakeTy, MsgData = c\<rparr> s = Inr s' \<and> s' = mod_peer i (\<lambda>_. p) s \<and>
    versionKnown p \<and> catchingUp p \<and> peer_caps p = Byte (Get c 3) \<and>
    (Str (Get c 2) \<noteq> [] \<longrightarrow> version p = Str (Get c 2)) \<and>
    (inbound (peerHeap s ! i) \<longrightarrow> pubkey p = Bytes (Get c 5) \<and> port p = ucast (Uint (Get c 4))) \<and>
    outputQueue p = outputQueue (peerHeap s ! i) @
      [NewMessage MsgGetChainTy (VList [VBytes h, VUint64 50]), NewMessage MsgGetTxsTy (VList [])] @
      (if IsCap (Byte (Get c 3)) CapPeerDiscTy then [NewMessage MsgGetPeersTy (VStr [])] else [])"
proof -
  from handshake_effect [OF assms] obtain f where
    f: "handleMsg V i \<lparr>MsgTy = MsgHandshakeTy, MsgData = c\<rparr> s = Inr (mod_peer i f s)"
      "\<And>p. versionKnown (f p) \<and> catchingUp (f p) \<and> peer_caps (f p) = Byte (Get c 3) \<and>
      version (f p) = (if Str (Get c 2) = [] then version p else Str (Get c 2)) \<and>
      pubkey (f p) = (if inbound (peerHeap s ! i) then Bytes (Get c 5) else pubkey p) \<and>
      port (f p) = (if inbound (peerHeap s ! i) then ucast (Uint (Get c 4)) else port p) \<and>
      requestedPeerList (f p) = requestedPeerList p \<and>
      outputQueue (f p) = outputQueue p @
        [NewMessage MsgGetChainTy (VList [VBytes h, VUint64 50]), NewMessage MsgGetTxsTy (VList [])] @
        (if IsCap (Byte (Get c 3)) CapPeerDiscTy then [NewMessage MsgGetPeersTy (VStr [])] else [])" by blast
  show ?thesis
    by (rule exI [of _ "mod_peer i f s"], rule exI [of _ "f (peerHeap s ! i)"])
      (use f(2) [of "peerHeap s ! i"] in \<open>simp add: f(1) mod_peer_const\<close>)
qed

section \<open>A server with one peer\<close>

text \<open>For the concrete instances: an inbound connection, and an outbound one, of a server with one key.\<close>

definition demo_ring :: KeyRing where
  "demo_ring = [\<lparr>PrivateKey = [1], PubKey = [4, 5, 6, 7]\<rparr>]"

definition demo_net :: "StateManager \<Rightarrow> World \<Rightarrow> Net" where
  "demo_net m w = NewNet m w 7 5 demo_ring []"

definition local_addr :: bytes where "local_addr = lit ''10.0.0.1:30303''"
definition remote_addr :: bytes where "remote_addr = lit ''10.0.0.2:40000''"

lemma demo_addrs:
  "SplitHostPort local_addr = (lit ''10.0.0.1'', lit ''30303'')" "SplitHostPort remote_addr = (lit ''10.0.0.2'', lit ''40000'')"
  "packAddr (lit ''10.0.0.1'') (lit ''30303'') = Inr ([10, 0, 0, 1], 30303)"
  "packAddr (lit ''10.0.0.2'') (lit ''40000'') = Inr ([10, 0, 0, 2], 40000)"
  by code_simp+

definition accepted_peer :: Peer where
  "accepted_peer =
     \<lparr>conn = Some (open_conn local_addr remote_addr True), outputQueue = [handshake [] 7 30303 [5, 6, 7]], quit = False,
      inbound = True, connected = 1, disconnect = 0, versionKnown = False, lastPong = 0, requestedPeerList = False,
      host = [10, 0, 0, 1], port = 30303, peer_caps = 7, pubkey = [5, 6, 7], catchingUp = False, diverted = False,
      blocksRequested = 10, version = []\<rparr>"

definition demo_env2 :: NetEnv where
  "demo_env2 = \<lparr>proc = \<lparr>penv = const_env, pstale = (\<lambda>_. None), pfuel = 10\<rparr>, now = 0, lookupIP = (\<lambda>_. None),
     rand = (\<lambda>_. 0), at_test = id, at_scan = id\<rparr>"

lemma demo_env2_lag: "lag 0 demo_env2"
  by (simp add: lag_def demo_env2_def)

lemma accept_step:
  assumes "keyRing s = demo_ring" "serverCaps s = 7" "int (length (peers (at_test V s))) < MaxPeers s"
  shows "net_step V (Accept local_addr remote_addr True) s =
    Inr (s\<lparr>peerHeap := peerHeap s @ [accepted_peer], peers := peers s @ [length (peerHeap s)], posts := posts s @ [PostPeerList]\<rparr>)"
  using assms
  by (simp add: AddPeer_def NewPeer_def Ring_Get_def demo_ring_def goslice_def push_peer_def
      Peer_Start_def peer_at_def open_conn_def demo_addrs mod_peer_def pushHandshake_def QueueMessage_def
      post_peerList_def accepted_peer_def handshake_def Let_def)

lemma demo_accept:
  "net_step demo_env2 (Accept local_addr remote_addr True) (demo_net m w) =
     Inr ((demo_net m w)\<lparr>peerHeap := [accepted_peer], peers := [0], posts := [PostPeerList]\<rparr>)"
  using accept_step [of "demo_net m w" demo_env2] by (simp add: demo_net_def NewNet_def demo_env2_def)

lemma reachable_accept:
  "reachable_in (lag 0) ((demo_net m w)\<lparr>peerHeap := [accepted_peer], peers := [0], posts := [PostPeerList]\<rparr>)"
  "reachable ((demo_net m w)\<lparr>peerHeap := [accepted_peer], peers := [0], posts := [PostPeerList]\<rparr>)"
proof -
  have "reachable_in (lag 0) (demo_net m w)" "reachable (demo_net m w)"
    unfolding demo_net_def by (rule reachable_in.start)+
  then show "reachable_in (lag 0) ((demo_net m w)\<lparr>peerHeap := [accepted_peer], peers := [0], posts := [PostPeerList]\<rparr>)"
    "reachable ((demo_net m w)\<lparr>peerHeap := [accepted_peer], peers := [0], posts := [PostPeerList]\<rparr>)"
    using reachable_in.step [where P = "lag 0", OF _ demo_env2_lag demo_accept] reachable_step [OF _ demo_accept] by blast+
qed

theorem peer_list_bounded_witness:
  "\<forall>m w. \<exists>s. reachable_in (lag 0) s \<and> peers s = [0] \<and> (\<forall>i \<in> set (peers s). i < length (peerHeap s)) \<and>
    int (length (peers s)) \<le> max 0 (MaxPeers s)"
proof (intro allI exI conjI)
  fix m w
  let ?s = "(demo_net m w)\<lparr>peerHeap := [accepted_peer], peers := [0], posts := [PostPeerList]\<rparr>"
  show r: "reachable_in (lag 0) ?s" by (rule reachable_accept)
  show "peers ?s = [0]" by simp
  show "\<forall>i \<in> set (peers ?s). i < length (peerHeap ?s)" "int (length (peers ?s)) \<le> max 0 (MaxPeers ?s)"
    using peer_list_bounded [OF r] by simp_all
qed

text \<open>Two connections accepted at the same time by a server that wants one peer: each goroutine tests the
  length before the other has added its peer, and both are added.\<close>

theorem race_exceeds_maximum:
  "\<exists>s. reachable_in (lag 1) s \<and> MaxPeers s = 1 \<and> peers s = [0, 1]"
proof -
  let ?V = "demo_env2\<lparr>at_test := (\<lambda>s. s\<lparr>peers := butlast (peers s)\<rparr>)\<rparr>"
  have lag: "lag 1 ?V" by (auto simp: lag_def)
  let ?s0 = "\<lambda>m w. NewNet m w 7 1 demo_ring []"
  fix m w
  let ?s1 = "(?s0 m w)\<lparr>peerHeap := [accepted_peer], peers := [0], posts := [PostPeerList]\<rparr>"
  have "net_step ?V (Accept local_addr remote_addr True) (?s0 m w) = Inr ?s1"
    using accept_step [of "?s0 m w" ?V] by (simp add: NewNet_def)
  from reachable_in.step [where P = "lag 1", OF reachable_in.start lag this] have r: "reachable_in (lag 1) ?s1" .
  have "net_step ?V (Accept local_addr remote_addr True) ?s1 =
      Inr (?s1\<lparr>peerHeap := [accepted_peer, accepted_peer], peers := [0, 1], posts := [PostPeerList, PostPeerList]\<rparr>)"
    using accept_step [of ?s1 ?V] by (simp add: NewNet_def)
  from reachable_in.step [where P = "lag 1", OF r lag this] show ?thesis by (intro exI conjI) (assumption, simp_all add: NewNet_def)
qed

text \<open>The handshake is written although no version is known.\<close>

lemma demo_write:
  "net_step V (OutMessage 0) ((demo_net m w)\<lparr>peerHeap := [accepted_peer], peers := [0], posts := [PostPeerList]\<rparr>) =
     Inr ((demo_net m w)\<lparr>peerHeap := [accepted_peer\<lparr>outputQueue := [],
       conn := Some ((open_conn local_addr remote_addr True)\<lparr>sent := [handshake [] 7 30303 [5, 6, 7]]\<rparr>)\<rparr>],
       peers := [0], posts := [PostPeerList]\<rparr>)"
proof -
  have "\<not> isl (WriteMessage (handshake [] 7 30303 [5, 6, 7]))" by code_simp
  then obtain b where "WriteMessage (handshake [] 7 30303 [5, 6, 7]) = Inr b"
    by (cases "WriteMessage (handshake [] 7 30303 [5, 6, 7])") auto
  then show ?thesis
    by (auto simp: out_message_def peer_at_def accepted_peer_def mod_peer_def writeMessage_def gated_write_def write_conn_def
        open_conn_def handshake_def NewMessage_def)
qed

theorem silent_before_version_witness:
  "\<forall>m w. \<exists>s c. reachable s \<and> conn (peerHeap s ! 0) = Some c \<and> sent c \<noteq> [] \<and> (\<forall>m \<in> set (sent c). MsgTy m = MsgHandshakeTy)"
proof (intro allI)
  fix m w
  let ?c = "(open_conn local_addr remote_addr True)\<lparr>sent := [handshake [] 7 30303 [5, 6, 7]]\<rparr>"
  let ?s = "(demo_net m w)\<lparr>peerHeap := [accepted_peer\<lparr>outputQueue := [], conn := Some ?c\<rparr>], peers := [0], posts := [PostPeerList]\<rparr>"
  have r: "reachable ?s" by (rule reachable_step [OF reachable_accept(2) demo_write])
  have "\<forall>m \<in> set (sent ?c). MsgTy m = MsgHandshakeTy"
    using silent_before_version [OF r, of 0 ?c] by (simp add: accepted_peer_def)
  with r show "\<exists>s c. reachable s \<and> conn (peerHeap s ! 0) = Some c \<and> sent c \<noteq> [] \<and> (\<forall>m \<in> set (sent c). MsgTy m = MsgHandshakeTy)"
    by (intro exI [of _ ?s] exI [of _ ?c]) simp
qed

section \<open>Stopping\<close>

lemma eachPeer_one:
  assumes "\<And>j s. f j s = Inr (if j = i then removePeerElement i s else s)"
  shows "distinct (peers s) \<Longrightarrow> set is \<subseteq> set (peers s) \<Longrightarrow>
    eachPeer f is s = Inr (if i \<in> set is then removePeerElement i s else s)"
proof (induction "is")
  case (Cons j "is")
  have "i \<notin> set (peers (removePeerElement i s))" using Cons.prems(1) by (simp add: removePeerElement_def)
  then show ?case using Cons by (auto simp: assms)
qed simp

lemma RemovePeer_eq:
  "distinct (peers s) \<Longrightarrow> RemovePeer i s = Inr (if i \<in> set (peers s) then removePeerElement i s else s)"
  unfolding RemovePeer_def by (rule eachPeer_one) simp_all

lemma gated_write_cases:
  "gated_write i msg s = Inr (b, s') \<Longrightarrow>
    s' = s \<or> (\<exists>c ms. conn (peerHeap s ! i) = Some c \<and> s' = mod_peer i (\<lambda>p. p\<lparr>conn := Some (c\<lparr>sent := ms\<rparr>)\<rparr>) s)"
  by (auto simp: gated_write_def write_conn_def rbind_Inr_iff peer_at_def split: if_split_asm option.splits)

text \<open>The peer after its first \<open>Stop\<close>.\<close>

definition stopped :: "Peer \<Rightarrow> Peer \<Rightarrow> bool" where
  "stopped p p' \<longleftrightarrow> quit p' \<and> (disconnect p' = 1 \<or> disconnect p' = 2) \<and>
     (connected p \<noteq> 0 \<longrightarrow> (\<exists>c. conn p' = Some c \<and> closed c))"

lemma first_Stop:
  assumes i: "i < length (peerHeap s)" "disconnect (peerHeap s ! i) = 0" and st: "Peer_Stop i s = Inr s'"
  shows "\<exists>f. RemovePeer i (mod_peer i f s) = Inr s' \<and> stopped (peerHeap s ! i) (f (peerHeap s ! i))"
proof -
  let ?p = "peerHeap s ! i" and ?f = "\<lambda>p. p\<lparr>disconnect := disconnect p + 1, quit := True\<rparr>"
  let ?s1 = "mod_peer i ?f s"
  from i st have nq: "\<not> quit ?p"
    by (auto simp: Peer_Stop_def peer_at_def close_quit_def count_stop_def mod_peer_nth Let_def)
  have s1: "close_quit i (count_stop i s) = Inr ?s1"
    using i nq by (simp add: close_quit_def count_stop_def peer_at_def mod_peer_nth mod_mod comp_def)
  show ?thesis
  proof (cases "connected ?p = 0")
    case True
    with i st s1 have "RemovePeer i ?s1 = Inr s'" by (simp add: Peer_Stop_def peer_at_def Let_def)
    with i True show ?thesis by (intro exI [of _ ?f]) (simp add: stopped_def)
  next
    case False
    with i st s1 obtain b s2 s3 where
      2: "gated_write i (NewMessage MsgDiscTy (VStr [])) ?s1 = Inr (b, s2)"
      and 3: "close_conn i (if b then count_stop i s2 else s2) = Inr s3" and 4: "RemovePeer i s3 = Inr s'"
      by (auto simp: Peer_Stop_def peer_at_def Let_def rbind_Inr_iff)
    have "s2 = ?s1 \<or> (\<exists>c ms. s2 = mod_peer i ((\<lambda>p. p\<lparr>conn := Some (c\<lparr>sent := ms\<rparr>)\<rparr>) \<circ> ?f) s)"
      using gated_write_cases [OF 2] i(1) by (auto simp: mod_mod)
    then have "\<exists>f. s2 = mod_peer i f s \<and> quit (f ?p) \<and> disconnect (f ?p) = 1"
    proof
      assume "s2 = ?s1"
      then show ?thesis using i(2) by (intro exI [of _ ?f]) simp
    next
      assume "\<exists>c ms. s2 = mod_peer i ((\<lambda>p. p\<lparr>conn := Some (c\<lparr>sent := ms\<rparr>)\<rparr>) \<circ> ?f) s"
      then obtain c ms where "s2 = mod_peer i ((\<lambda>p. p\<lparr>conn := Some (c\<lparr>sent := ms\<rparr>)\<rparr>) \<circ> ?f) s" by blast
      then show ?thesis using i(2) by (intro exI [of _ "(\<lambda>p. p\<lparr>conn := Some (c\<lparr>sent := ms\<rparr>)\<rparr>) \<circ> ?f"]) simp
    qed
    then obtain f where f: "s2 = mod_peer i f s" "quit (f ?p)" "disconnect (f ?p) = 1" by blast
    let ?g = "if b then (\<lambda>p. p\<lparr>disconnect := disconnect p + 1\<rparr>) \<circ> f else f"
    have g: "(if b then count_stop i s2 else s2) = mod_peer i ?g s" "quit (?g ?p)" "disconnect (?g ?p) = 1 \<or> disconnect (?g ?p) = 2"
      using f i by (simp_all add: count_stop_def mod_mod)
    with 3 i obtain c where "s3 = mod_peer i ((\<lambda>p. p\<lparr>conn := Some (c\<lparr>closed := True\<rparr>)\<rparr>) \<circ> ?g) s"
      by (auto simp: close_conn_def peer_at_def mod_mod split: option.splits)
    with 4 have "RemovePeer i (mod_peer i ((\<lambda>p. p\<lparr>conn := Some (c\<lparr>closed := True\<rparr>)\<rparr>) \<circ> ?g) s) = Inr s'" by (simp only:)
    moreover have "stopped ?p (((\<lambda>p. p\<lparr>conn := Some (c\<lparr>closed := True\<rparr>)\<rparr>) \<circ> ?g) ?p)"
      using g(2,3) by (simp add: stopped_def)
    ultimately show ?thesis by blast
  qed
qed

text \<open>C32. Stopping a peer works once: the first \<open>Stop\<close> takes the peer off the list, closes its quit channel and
  its connection and touches no other peer; any further \<open>Stop\<close> only counts.\<close>

theorem Stop_once:
  assumes "distinct (peers s)" "i < length (peerHeap s)" "disconnect (peerHeap s ! i) = 0"
    and "Peer_Stop i s = Inr s'"
  shows "i \<notin> set (peers s') \<and> quit (peerHeap s' ! i) \<and> (\<forall>j. j \<noteq> i \<longrightarrow> peerHeap s' ! j = peerHeap s ! j) \<and>
    (connected (peerHeap s ! i) \<noteq> 0 \<longrightarrow> (\<exists>c. conn (peerHeap s' ! i) = Some c \<and> closed c)) \<and>
    Peer_Stop i s' = Inr (count_stop i s')"
proof -
  from first_Stop [OF assms(2-4)] obtain f where
    f: "RemovePeer i (mod_peer i f s) = Inr s'" "stopped (peerHeap s ! i) (f (peerHeap s ! i))" by blast
  have heap: "peerHeap s' = peerHeap (mod_peer i f s)" and "i \<notin> set (peers s')"
    using f(1) assms(1) by (auto simp: RemovePeer_eq removePeerElement_def split: if_splits)
  moreover have "peerHeap s' ! i = f (peerHeap s ! i)" "i < length (peerHeap s')"
    using heap assms(2) by (simp_all add: mod_peer_nth)
  ultimately show ?thesis
    using f(2) assms(2) by (auto simp: stopped_def mod_peer_nth Peer_Stop_def peer_at_def Let_def)
qed

text \<open>Shutting the server down stops one peer only: \<open>Stop\<close> removes the peer from the list that \<open>eachPeer\<close> walks,
  which ends the walk, so if the first peer was not stopped before, all others are left as they are.\<close>

theorem shutdown_stops_one:
  assumes "distinct (peers s)" "peers s = i # is" "i < length (peerHeap s)" "disconnect (peerHeap s ! i) = 0"
    and "Net_Stop s = Inr s'"
  shows "peers s' = is \<and> (\<forall>j. j \<noteq> i \<longrightarrow> peerHeap s' ! j = peerHeap s ! j)"
proof -
  from assms(2,5) obtain s1 s2 where st: "Peer_Stop i s = Inr s1"
    and rest: "(if i \<in> set (peers s1) then eachPeer Peer_Stop is s1 else Inr s1) = Inr s2"
    and s': "s' = s2\<lparr>sm := (sm s2)\<lparr>txpool := TxPool_Stop (txpool (sm s2))\<rparr>\<rparr>"
    by (auto simp: Net_Stop_def rbind_Inr_iff)
  from first_Stop [OF assms(3,4) st] obtain f where f: "RemovePeer i (mod_peer i f s) = Inr s1" by blast
  then have s1: "s1 = removePeerElement i (mod_peer i f s)"
    using assms(1,2) by (simp add: RemovePeer_eq)
  then have "i \<notin> set (peers s1)" using assms(1) by (simp add: removePeerElement_def)
  with rest have "s2 = s1" by simp
  then show ?thesis unfolding s' s1 using assms(2,3) by (simp add: removePeerElement_def mod_peer_nth)
qed

lemma pushHandshake_quit:
  "pushHandshake i s = Inr s' \<Longrightarrow> i < length (peerHeap s) \<Longrightarrow>
    quit (peerHeap s' ! i) = quit (peerHeap s ! i) \<and> disconnect (peerHeap s' ! i) = disconnect (peerHeap s ! i) \<and>
    length (peerHeap s') = length (peerHeap s)"
  by (auto simp: pushHandshake_def QueueMessage_def rbind_Inr_iff peer_at_def mod_peer_nth split: option.splits if_split_asm)

text \<open>A peer that is stopped while it is being dialled cannot be stopped again: a dial that succeeds resets the
  counter of stops, but the quit channel is already closed, so the next \<open>Stop\<close> panics.\<close>

theorem stop_while_dialling_panics:
  assumes "i < length (peerHeap s)" "quit (peerHeap s ! i)" "Dialed i (Some c) s = Inr s'"
  shows "Peer_Stop i s' = Inl (Panic ''close of closed channel'')"
proof -
  let ?g = "\<lambda>p. p\<lparr>conn := Some c, connected := 1, disconnect := 0\<rparr>"
  from assms(1,3) obtain h pt where ph: "pushHandshake i (mod_peer i ((\<lambda>p. p\<lparr>host := h, port := pt\<rparr>) \<circ> ?g) s) = Inr s'"
    by (auto simp: Dialed_def Peer_Start_def peer_at_def mod_peer_nth rbind_Inr_iff mod_mod Let_def split: prod.splits)
  from pushHandshake_quit [OF ph] assms(1,2)
  have "quit (peerHeap s' ! i)" "disconnect (peerHeap s' ! i) = 0" "i < length (peerHeap s')"
    by (simp_all add: mod_peer_nth)
  then show ?thesis
    by (simp add: Peer_Stop_def peer_at_def close_quit_def count_stop_def mod_peer_nth Let_def)
qed

section \<open>Silence, self connections and unanswered requests\<close>

lemma eachPeer_idle: "(\<And>i. i \<in> set is \<Longrightarrow> f i s = Inr s) \<Longrightarrow> eachPeer f is s = Inr s"
  by (induction "is") auto

text \<open>Inbound peers that fall silent are never reaped: the five minutes are compared as a number of nanoseconds with
  a difference of seconds, so for any clock before the year 11000 nothing is removed.\<close>

theorem silent_peers_not_reaped:
  assumes "\<forall>i \<in> set (peers s). i < length (peerHeap s) \<and> disconnect (peerHeap s ! i) \<noteq> 1 \<and> 0 \<le> lastPong (peerHeap s ! i)"
    and "now V < 300000000000"
  shows "reapPeers V s = Inr s"
  unfolding reapPeers_def using assms
  by (intro eachPeer_idle) (fastforce simp: peer_at_def reapable_def five_minutes_def)

text \<open>A node does not notice that it is connected to itself: the handshake carries the public key without its
  format byte and is compared with the whole key, so the handshake of the node's own key is accepted.\<close>

theorem own_handshake_accepted:
  assumes "i < length (peerHeap s)" "inbound (peerHeap s ! i)" "keyRing s = k # ks" "PubKey k \<noteq> []"
    and "Uint (Get c 0) = ProtocolVersion" "Bytes (Get c 5) = tl (PubKey k)"
  shows "handleHandshake V i c s =
    accept_version V i c (mod_peer i (\<lambda>p. p\<lparr>versionKnown := True, pubkey := tl (PubKey k), port := ucast (Uint (Get c 4))\<rparr>) s)"
proof -
  have "PubKey k \<noteq> tl (PubKey k)" using assms(4) by (cases "PubKey k") (auto dest: arg_cong [of _ _ length])
  moreover have "(\<lambda>p. p\<lparr>pubkey := tl (PubKey k), port := ucast (Uint (Get c 4))\<rparr>) \<circ> versionKnown_update (\<lambda>_. True) =
      (\<lambda>p. p\<lparr>versionKnown := True, pubkey := tl (PubKey k), port := ucast (Uint (Get c 4))\<rparr>)"
    by (rule ext) simp
  ultimately show ?thesis
    using assms by (simp add: handleHandshake_def peer_at_def Ring_Get_def mod_mod Let_def mod_peer_def comp_def)
qed

text \<open>The answer to our own request for peers is thrown away: the flag that admits a peers message is set when the
  remote side asks for peers, not when we ask, so after a handshake (which makes us ask) a peers
  message has no effect.\<close>

theorem answer_to_own_request_ignored:
  assumes "i < length (peerHeap s)" "connected (peerHeap s ! i) = 1" "\<not> inbound (peerHeap s ! i)"
    and "\<not> requestedPeerList (peerHeap s ! i)"
    and "Uint (Get c 0) = ProtocolVersion" "current_hash V s = Inr h" "4 \<le> length h"
  shows "handleMsgs V i [\<lparr>MsgTy = MsgHandshakeTy, MsgData = c\<rparr>, \<lparr>MsgTy = MsgPeersTy, MsgData = d\<rparr>] s =
    handleMsg V i \<lparr>MsgTy = MsgHandshakeTy, MsgData = c\<rparr> s"
proof -
  have "inbound (peerHeap s ! i) \<longrightarrow> (\<exists>k ks. keyRing s = k # ks \<and> PubKey k \<noteq> Bytes (Get c 5))" using assms(3) by simp
  from handshake_effect [OF assms(1,2) this assms(5-7)] obtain f where
    f: "handleMsg V i \<lparr>MsgTy = MsgHandshakeTy, MsgData = c\<rparr> s = Inr (mod_peer i f s)"
      "\<And>p. requestedPeerList (f p) = requestedPeerList p" by metis
  have "handleMsg V i \<lparr>MsgTy = MsgPeersTy, MsgData = d\<rparr> (mod_peer i f s) = Inr (mod_peer i f s)"
    using assms(1,4) by (simp add: handleMsg_def handlePeers_def peer_at_def mod_peer_nth f(2))
  with f(1) show ?thesis by simp
qed

section \<open>Instances\<close>

text \<open>An outbound connection of a server that has a chain.\<close>

definition demo_server :: Net where
  "demo_server =
     (demo_net \<lparr>bc = demo_chain, transState = 0, miningState = 0, txpool = NewTxPool\<rparr> demo_world)
       \<lparr>peerHeap := [accepted_peer\<lparr>inbound := False\<rparr>, accepted_peer], peers := [0, 1]\<rparr>"

lemma demo_current_hash: "current_hash demo_env2 demo_server = Inr (replicate 32 0)"
  by (simp add: current_hash_def bchain_def demo_server_def demo_net_def NewNet_def current_def demo_chain_def net_env_def
      demo_env2_def Block_Hash_def Block_Value_def header_def State_Root_def deref_def demo_world_def NewState_def
      demo_block_def rlpUncles_def const_env_def)

lemma demo_server_peers:
  "peers demo_server = [0, 1]" "peerHeap demo_server = [accepted_peer\<lparr>inbound := False\<rparr>, accepted_peer]"
  "keyRing demo_server = demo_ring"
  by (simp_all add: demo_server_def demo_net_def NewNet_def)

theorem handshake_understood_witness:
  "\<exists>d. ReadMessages [msg_frame (handshake [] 7 30303 [5, 6, 7])] [] = Some ([\<lparr>MsgTy = MsgHandshakeTy, MsgData = d\<rparr>], None) \<and>
    Byte (Get d 3) = 7 \<and> (ucast (Uint (Get d 4)) :: 16 word) = 30303 \<and> Bytes (Get d 5) = [5, 6, 7]"
proof -
  let ?m = "handshake [] 7 30303 [5, 6, 7]"
  let ?s = "mod_peer 0 (\<lambda>p. p\<lparr>outputQueue := outputQueue p @ [?m]\<rparr>) demo_server"
  have k: "keyRing demo_server = \<lparr>PrivateKey = [1], PubKey = [4, 5, 6, 7]\<rparr> # []"
    by (simp add: demo_server_peers demo_ring_def)
  have "pushHandshake 0 demo_server = Inr ?s"
    using pushHandshake_handshake [OF k] by (simp add: demo_server_peers accepted_peer_def QueueMessage_def peer_at_def)
  moreover have "last (outputQueue (peerHeap ?s ! 0)) = ?m" by (simp add: mod_peer_nth demo_server_peers)
  moreover have "\<not> isl (WriteMessage ?m)" by code_simp
  then have w: "WriteMessage ?m = Inr (msg_frame ?m)" by (cases "WriteMessage ?m") (simp_all add: msg_frame_def)
  moreover have "msg_frame ?m \<noteq> []" using w by (auto simp: WriteMessage_def rbind_Inr_iff MagicToken_def Let_def)
  then have "received [msg_frame ?m] = msg_frame ?m" by (simp add: received_def)
  ultimately show ?thesis
    using handshake_understood [OF k, of 0 ?s "msg_frame ?m" "[msg_frame ?m]" "[]"]
    by (auto simp: demo_server_peers accepted_peer_def)
qed

definition demo_hello :: gval where
  "demo_hello = VList [VByte 17, VBytes [], VByte 0x2f, VByte 7, VBytes [0x76, 0x5f], VBytes [5, 6, 7]]"

lemma demo_hello_version: "Uint (Get demo_hello 0) = ProtocolVersion"
  by code_simp

lemma demo_hello_rest: "Byte (Get demo_hello 3) = 7" "Bytes (Get demo_hello 5) = [5, 6, 7]"
  by (simp_all add: demo_hello_def)

lemma demo_outbound:
  "connected (peerHeap demo_server ! 0) = 1" "\<not> inbound (peerHeap demo_server ! 0)"
  "disconnect (peerHeap demo_server ! 0) = 0" "outputQueue (peerHeap demo_server ! 0) = [handshake [] 7 30303 [5, 6, 7]]"
  "\<not> requestedPeerList (peerHeap demo_server ! 0)"
  by (simp_all add: demo_server_peers accepted_peer_def)

theorem handshake_then_sync_witness:
  "\<exists>p. handleMsg demo_env2 0 \<lparr>MsgTy = MsgHandshakeTy, MsgData = demo_hello\<rparr> demo_server = Inr (mod_peer 0 (\<lambda>_. p) demo_server) \<and>
    versionKnown p \<and> catchingUp p \<and> length (outputQueue p) = 4"
proof -
  have "IsCap 7 CapPeerDiscTy" by code_simp
  then show ?thesis
    using handshake_then_sync [OF _ demo_outbound(1) _ demo_hello_version demo_current_hash]
    by (auto simp: demo_server_peers(2) demo_outbound(2,4) demo_hello_rest accepted_peer_def)
qed

lemma demo_stop: "\<exists>s'. Peer_Stop 0 demo_server = Inr s'"
  by (simp add: Peer_Stop_def peer_at_def demo_server_peers accepted_peer_def count_stop_def close_quit_def mod_peer_def
      gated_write_def close_conn_def open_conn_def NewMessage_def RemovePeer_eq Let_def)

theorem Stop_once_witness:
  "\<exists>s'. Peer_Stop 0 demo_server = Inr s' \<and> 0 \<notin> set (peers s') \<and> quit (peerHeap s' ! 0) \<and>
    peerHeap s' ! 1 = accepted_peer \<and> Peer_Stop 0 s' = Inr (count_stop 0 s')"
proof -
  obtain s' where s': "Peer_Stop 0 demo_server = Inr s'" using demo_stop by blast
  from Stop_once [OF _ _ demo_outbound(3) s'] show ?thesis
    using s' by (auto simp: demo_server_peers)
qed

theorem shutdown_stops_one_witness:
  "\<exists>s'. Net_Stop demo_server = Inr s' \<and> peers s' = [1] \<and> peerHeap s' ! 1 = accepted_peer \<and> disconnect (peerHeap s' ! 1) = 0"
proof -
  obtain s1 where s1: "Peer_Stop 0 demo_server = Inr s1" using demo_stop by blast
  from first_Stop [OF _ demo_outbound(3) s1] have "0 \<notin> set (peers s1)"
    by (auto simp: demo_server_peers RemovePeer_eq removePeerElement_def)
  with s1 obtain s' where s': "Net_Stop demo_server = Inr s'"
    by (simp add: Net_Stop_def demo_server_peers)
  from shutdown_stops_one [OF _ demo_server_peers(1) _ demo_outbound(3) s'] show ?thesis
    using s' by (simp add: demo_server_peers accepted_peer_def)
qed

definition demo_dialling :: Net where
  "demo_dialling = demo_server\<lparr>peerHeap := [(NewOutboundPeer 7 demo_server)\<lparr>quit := True, disconnect := 1\<rparr>], peers := []\<rparr>"

theorem stop_while_dialling_panics_witness:
  "\<exists>s'. Dialed 0 (Some (open_conn local_addr remote_addr True)) demo_dialling = Inr s' \<and>
    Peer_Stop 0 s' = Inl (Panic ''close of closed channel'')"
proof -
  have "\<exists>s'. Dialed 0 (Some (open_conn local_addr remote_addr True)) demo_dialling = Inr s'"
    by (simp add: Dialed_def demo_dialling_def NewOutboundPeer_def peer_at_def mod_peer_def Peer_Start_def open_conn_def
        demo_addrs pushHandshake_def Ring_Get_def demo_server_peers(3) demo_ring_def goslice_def QueueMessage_def Let_def)
  then obtain s' where s': "Dialed 0 (Some (open_conn local_addr remote_addr True)) demo_dialling = Inr s'" by blast
  from stop_while_dialling_panics [OF _ _ s'] show ?thesis
    using s' by (simp add: demo_dialling_def)
qed

theorem silent_peers_not_reaped_witness: "reapPeers demo_env2 demo_server = Inr demo_server"
  by (rule silent_peers_not_reaped) (simp_all add: demo_server_peers accepted_peer_def demo_env2_def)

theorem own_handshake_accepted_witness:
  "handleHandshake demo_env2 1 demo_hello demo_server =
    accept_version demo_env2 1 demo_hello
      (mod_peer 1 (\<lambda>p. p\<lparr>versionKnown := True, pubkey := [5, 6, 7], port := ucast (Uint (Get demo_hello 4))\<rparr>) demo_server)"
  using own_handshake_accepted [of 1 demo_server, OF _ _ demo_server_peers(3) [unfolded demo_ring_def] _ demo_hello_version]
  by (simp add: demo_server_peers accepted_peer_def demo_hello_rest)

theorem answer_to_own_request_ignored_witness:
  "handleMsgs demo_env2 0 [\<lparr>MsgTy = MsgHandshakeTy, MsgData = demo_hello\<rparr>, \<lparr>MsgTy = MsgPeersTy, MsgData = VList []\<rparr>] demo_server =
    handleMsg demo_env2 0 \<lparr>MsgTy = MsgHandshakeTy, MsgData = demo_hello\<rparr> demo_server"
  using answer_to_own_request_ignored [OF _ demo_outbound(1,2,5) demo_hello_version demo_current_hash, of "VList []"]
  by (simp add: demo_server_peers(2))

end
