(* ===== verification/Mnemonic.thy ===== *)
theory Mnemonic
  imports Words Numbers "HOL-Library.Signed_Division"
begin

text \<open>
  \<open>ethutil/mnemonic.go\<close>: keys written as words. Eight hex digits are a number below \<open>2 ^ 32\<close>, which
  three of the 1626 words hold. The numbers stay far below the width of \<open>int64\<close>, so they are
  integers here, with Go's truncating \<open>/\<close> and \<open>%\<close>.
\<close>

section \<open>Encoding and decoding\<close>

fun index_from :: "int \<Rightarrow> string list \<Rightarrow> string \<Rightarrow> int" where
  "index_from p [] val = - 1"
| "index_from p (v # vs) val = (if v = val then p else index_from (p + 1) vs val)"

definition IndexOf :: "string list \<Rightarrow> string \<Rightarrow> int" where
  "IndexOf strs val = index_from 0 strs val"

definition word_count :: int where
  "word_count = int (length words)"

text \<open>\<open>strconv.ParseInt(x, 16, 64)\<close> without its error: 0 for what is not a number. A sign is accepted.\<close>

definition hex_value :: "bytes \<Rightarrow> int option" where
  "hex_value ds =
     foldl (\<lambda>acc d. case (acc, unhex_digit d) of (Some n, Some k) \<Rightarrow> Some (16 * n + int k) | _ \<Rightarrow> None) (Some 0) ds"

definition ParseHex :: "bytes \<Rightarrow> int" where
  "ParseHex x =
     (let (neg, ds) = (case x of [] \<Rightarrow> (False, [])
                       | c # cs \<Rightarrow> if c = 0x2d then (True, cs) else if c = 0x2b then (False, cs) else (False, x))
      in if ds = [] then 0
         else case hex_value ds of None \<Rightarrow> 0 | Some v \<Rightarrow> if neg then - v else v)"

definition word_at :: "int \<Rightarrow> string res" where
  "word_at w = (if w < 0 then Inl IndexOutOfRange else goindex words (nat w))"

definition three_words :: "int \<Rightarrow> string list res" where
  "three_words v =
     (let n = word_count;
          w1 = v smod n;
          w2 = (v sdiv n + w1) smod n;
          w3 = ((v sdiv n) sdiv n + w2) smod n in
      rbind (word_at w1) (\<lambda>a. rbind (word_at w2) (\<lambda>b. rbind (word_at w3) (\<lambda>c. Inr [a, b, c]))))"

declare rbind_cong [fundef_cong]

text \<open>The loop: a step of an eighth of the message, a block of eight characters.\<close>

function encode_from :: "bytes \<Rightarrow> nat \<Rightarrow> string list res" where
  "encode_from message i =
     (if i < length message then
        rbind (goslice message [] i (i + 8)) (\<lambda>x.
        rbind (three_words (ParseHex x)) (\<lambda>ws.
        rbind (encode_from message (i + length message div 8)) (\<lambda>out. Inr (ws @ out))))
      else Inr [])"
  by pat_completeness auto
termination
proof (relation "measure (\<lambda>(message, i). length message - i)")
  fix message :: bytes and i x
  assume "i < length message" "goslice message [] i (i + 8) = Inr x"
  from goslice_InrD [OF this(2)] have "0 < length message div 8" by simp
  with \<open>i < length message\<close>
  show "((message, i + length message div 8), message, i) \<in> measure (\<lambda>(message, i). length message - i)" by simp
qed simp

declare encode_from.simps [simp del]

definition MnemonicEncode :: "bytes \<Rightarrow> string list res" where
  "MnemonicEncode message = encode_from message 0"

text \<open>\<open>%08x\<close>: at least eight characters, zeros after the sign.\<close>

fun hex_nat :: "nat \<Rightarrow> bytes" where
  "hex_nat n = (if n < 16 then [hex_digit n] else hex_nat (n div 16) @ [hex_digit (n mod 16)])"

declare hex_nat.simps [simp del]

definition zero_pad :: "nat \<Rightarrow> bytes \<Rightarrow> bytes" where
  "zero_pad w ds = replicate (w - length ds) 48 @ ds"

definition format_08x :: "int \<Rightarrow> bytes" where
  "format_08x x =
     (if x < 0 then 0x2d # zero_pad 7 (hex_nat (nat (- x))) else zero_pad 8 (hex_nat (nat x)))"

definition number_of_words :: "string \<Rightarrow> string \<Rightarrow> string \<Rightarrow> int" where
  "number_of_words word1 word2 word3 =
     (let n = word_count;
          w1 = IndexOf words word1; w2 = IndexOf words word2; w3 = IndexOf words word3;
          y = (w2 - w1) smod n; z = (w3 - w2) smod n;
          z = (if z < 0 then z + n else z); y = (if y < 0 then y + n else y)
      in w1 + n * y + n * n * z)"

fun MnemonicDecode :: "string list \<Rightarrow> bytes res" where
  "MnemonicDecode [] = Inr []"
| "MnemonicDecode (a # b # c # wordsar) =
     rbind (MnemonicDecode wordsar) (\<lambda>out. Inr (format_08x (number_of_words a b c) @ out))"
| "MnemonicDecode _ = Inl IndexOutOfRange"

section \<open>Words and their places\<close>

lemma index_from_nth: "distinct ws \<Longrightarrow> i < length ws \<Longrightarrow> index_from p ws (ws ! i) = p + int i"
proof (induction ws arbitrary: p i)
  case (Cons w ws)
  then show ?case by (cases i) (auto simp: nth_eq_iff_index_eq)
qed simp

lemma word_count: "word_count = 1626"
  by (simp add: word_count_def length_words)

lemma word_at_in: "0 \<le> w \<Longrightarrow> w < 1626 \<Longrightarrow> word_at w = Inr (words ! nat w)"
  by (simp add: word_at_def length_words)

lemma IndexOf_word: "0 \<le> w \<Longrightarrow> w < 1626 \<Longrightarrow> IndexOf words (words ! nat w) = w"
  using index_from_nth [OF distinct_words, of "nat w" 0] by (simp add: IndexOf_def length_words)

lemma smod_adjust: "0 < n \<Longrightarrow> (if v smod n < 0 then v smod n + n else v smod n) = v mod (n :: int)"
proof -
  assume n: "0 < n"
  show ?thesis
  proof (cases "0 \<le> v")
    case True
    then show ?thesis using n smod_mod_positive [of v n] by (simp add: not_less)
  next
    case False
    have "v smod n = - ((- v) mod n)" using False n by (simp add: smod_int_alt_def)
    then show ?thesis using n by (simp add: zmod_zminus1_eq_if)
  qed
qed

lemma sdiv_div: "0 \<le> a \<Longrightarrow> 0 < b \<Longrightarrow> a sdiv b = a div (b :: int)"
  by (cases "a = 0") (simp_all add: signed_divide_int_def)

text \<open>Three words hold every number below \<open>1626 ^ 3\<close>, in particular every one of 32 bits.\<close>

lemma three_words_back:
  assumes "0 \<le> v" "v < 1626 ^ 3"
  obtains a b c where "three_words v = Inr [a, b, c]" "number_of_words a b c = v" "{a, b, c} \<subseteq> set words"
proof -
  let ?n = "1626 :: int"
  define q where "q = v div ?n"
  define w1 where "w1 = v mod ?n"
  define w2 where "w2 = (q + w1) mod ?n"
  define w3 where "w3 = (q div ?n + w2) mod ?n"
  have q: "0 \<le> q" "q < ?n * ?n" "v = w1 + ?n * q" and q2: "0 \<le> q div ?n" "q div ?n < ?n"
    using assms by (auto simp: q_def w1_def)
  have w: "0 \<le> w1" "w1 < ?n" "0 \<le> w2" "w2 < ?n" "0 \<le> w3" "w3 < ?n" by (simp_all add: w1_def w2_def w3_def)
  have "v smod ?n = w1" "v sdiv ?n = q" unfolding w1_def q_def using assms(1) by (simp_all add: smod_mod_positive sdiv_div)
  moreover have "(q + w1) smod ?n = w2" "q sdiv ?n = q div ?n" "(q div ?n + w2) smod ?n = w3"
    unfolding w2_def w3_def using q(1) q2 w by (simp_all add: smod_mod_positive sdiv_div)
  ultimately have e: "three_words v = Inr [words ! nat w1, words ! nat w2, words ! nat w3]"
    using w by (simp add: three_words_def word_count word_at_in)
  have "(w2 - w1) mod ?n = q mod ?n" "(w3 - w2) mod ?n = q div ?n"
    using q2 by (simp_all add: w2_def w3_def mod_diff_left_eq)
  then have "number_of_words (words ! nat w1) (words ! nat w2) (words ! nat w3) = w1 + ?n * (q mod ?n) + ?n * ?n * (q div ?n)"
    using w by (simp add: number_of_words_def word_count IndexOf_word Let_def smod_adjust)
  also have "\<dots> = v" using q(3) mult_div_mod_eq [of ?n q] by linarith
  finally show ?thesis using that [OF e] w by (simp add: length_words nat_less_iff)
qed

section \<open>Hex blocks\<close>

definition lower_hex :: "bytes \<Rightarrow> bool" where
  "lower_hex s \<longleftrightarrow> (\<exists>ks. s = map hex_digit ks \<and> (\<forall>k \<in> set ks. k < 16))"

definition digits_nat :: "nat list \<Rightarrow> nat" where
  "digits_nat ks = foldl (\<lambda>n k. 16 * n + k) 0 ks"

lemma hex_value_digits: "\<forall>k \<in> set ks. k < 16 \<Longrightarrow> hex_value (map hex_digit ks) = Some (int (digits_nat ks))"
  by (induction ks rule: rev_induct) (simp_all add: hex_value_def digits_nat_def)

lemma digits_nat_bound: "\<forall>k \<in> set ks. k < 16 \<Longrightarrow> digits_nat ks < 16 ^ length ks"
  by (induction ks rule: rev_induct) (auto simp: digits_nat_def)

lemma hex_digit_sign: "k < 16 \<Longrightarrow> hex_digit k \<noteq> 0x2d \<and> hex_digit k \<noteq> 0x2b"
  using hex_digit_lt [of k] by (auto split: if_splits)

lemma ParseHex_digits: "\<forall>k \<in> set ks. k < 16 \<Longrightarrow> ks \<noteq> [] \<Longrightarrow> ParseHex (map hex_digit ks) = int (digits_nat ks)"
  using hex_value_digits [of ks] hex_digit_sign [of "hd ks"] by (cases ks) (simp_all add: ParseHex_def)

lemma hex_nat_small: "n < 16 \<Longrightarrow> hex_nat n = [hex_digit n]"
  by (simp add: hex_nat.simps)

lemma hex_nat_step: "16 \<le> n \<Longrightarrow> hex_nat n = hex_nat (n div 16) @ [hex_digit (n mod 16)]"
  by (subst hex_nat.simps) simp

lemma zero_pad_digits:
  "\<forall>k \<in> set ks. k < 16 \<Longrightarrow> ks \<noteq> [] \<Longrightarrow> zero_pad (length ks) (hex_nat (digits_nat ks)) = map hex_digit ks"
proof (induction ks rule: rev_induct)
  case (snoc k ks)
  let ?d = "digits_nat ks"
  have k: "k < 16" and d: "digits_nat (ks @ [k]) = 16 * ?d + k" using snoc.prems by (simp_all add: digits_nat_def)
  show ?case
  proof (cases "ks = []")
    case True
    then show ?thesis using k by (simp add: digits_nat_def hex_nat_small zero_pad_def)
  next
    case False
    then have IH: "zero_pad (length ks) (hex_nat ?d) = map hex_digit ks" using snoc by simp
    show ?thesis
    proof (cases "?d = 0")
      case True
      then have "map hex_digit ks = replicate (length ks - 1) 48 @ [48]"
        using IH by (simp add: hex_nat_small zero_pad_def hex_digit_def)
      then show ?thesis using True k False d
        by (cases ks) (simp_all add: hex_nat_small zero_pad_def replicate_append_same)
    next
      case n: False
      then have "hex_nat (16 * ?d + k) = hex_nat ?d @ [hex_digit k]" using k by (subst hex_nat_step) simp_all
      then show ?thesis using IH d by (simp add: zero_pad_def)
    qed
  qed
qed simp

lemma format_ParseHex: "lower_hex x \<Longrightarrow> length x = 8 \<Longrightarrow> 0 \<le> ParseHex x \<and> ParseHex x < 1626 ^ 3 \<and> format_08x (ParseHex x) = x"
proof -
  assume "lower_hex x" "length x = 8"
  then obtain ks where k: "x = map hex_digit ks" "\<forall>k \<in> set ks. k < 16" "length ks = 8" by (auto simp: lower_hex_def)
  then have "ks \<noteq> []" by auto
  from ParseHex_digits [OF k(2) this] zero_pad_digits [OF k(2) this] digits_nat_bound [OF k(2)] k(1,3) show ?thesis
    by (simp add: format_08x_def)
qed

lemma lower_hex_take: "lower_hex s \<Longrightarrow> lower_hex (take n (drop m s))"
  unfolding lower_hex_def by (metis drop_map take_map in_set_dropD in_set_takeD)

section \<open>Round trip\<close>

lemma encode_from_back:
  assumes "lower_hex m" "length m = 64" "k \<le> 8"
  shows "\<exists>ws. encode_from m (64 - 8 * k) = Inr ws \<and> length ws = 3 * k \<and> set ws \<subseteq> set words \<and>
    MnemonicDecode ws = Inr (drop (64 - 8 * k) m)"
  using assms(3)
proof (induction k)
  case (Suc k)
  let ?i = "64 - 8 * Suc k" and ?x = "take 8 (drop (64 - 8 * Suc k) m)"
  from Suc obtain ws where ws: "encode_from m (64 - 8 * k) = Inr ws" "length ws = 3 * k" "set ws \<subseteq> set words"
    "MnemonicDecode ws = Inr (drop (64 - 8 * k) m)" by auto
  have "length ?x = 8" using Suc.prems assms(2) by simp
  from format_ParseHex [OF lower_hex_take [OF assms(1)] this]
  have v: "0 \<le> ParseHex ?x" "ParseHex ?x < 1626 ^ 3" "format_08x (ParseHex ?x) = ?x" by simp_all
  obtain a b c where abc: "three_words (ParseHex ?x) = Inr [a, b, c]" "number_of_words a b c = ParseHex ?x" "{a, b, c} \<subseteq> set words"
    by (rule three_words_back [OF v(1,2)])
  have "goslice m [] ?i (?i + 8) = Inr ?x" "?i < length m" "?i + length m div 8 = 64 - 8 * k"
    using Suc.prems assms(2) by (simp_all add: goslice_def)
  then have "encode_from m ?i = Inr ([a, b, c] @ ws)"
    using abc(1) ws(1) by (subst encode_from.simps) simp
  moreover have "?x @ drop (64 - 8 * k) m = drop ?i m"
  proof -
    have "64 - 8 * k = 8 + ?i" using Suc.prems by simp
    then have "drop (64 - 8 * k) m = drop 8 (drop ?i m)" by (simp only: drop_drop)
    then show ?thesis by (simp only: append_take_drop_id)
  qed
  ultimately show ?case using ws abc(2,3) v(3) by simp
qed (use assms(2) in \<open>simp add: encode_from.simps\<close>)

text \<open>C31. A key that was written down as words is read back: a private key in hex (64 lower-case digits) is encoded
  as 24 words of the list, and decoding them gives the same digits.\<close>

theorem mnemonic_roundtrip:
  assumes "lower_hex m" "length m = 64"
  shows "\<exists>ws. MnemonicEncode m = Inr ws \<and> length ws = 24 \<and> set ws \<subseteq> set words \<and> MnemonicDecode ws = Inr m"
  using encode_from_back [OF assms, of 8] by (simp add: MnemonicEncode_def)

theorem mnemonic_roundtrip_witness:
  "\<exists>ws. MnemonicEncode (replicate 64 0x61) = Inr ws \<and> length ws = 24 \<and> set ws \<subseteq> set words \<and>
    MnemonicDecode ws = Inr (replicate 64 0x61)"
proof (rule mnemonic_roundtrip)
  have "replicate 64 0x61 = map hex_digit (replicate 64 10)" by (simp add: hex_digit_def)
  then show "lower_hex (replicate 64 0x61)" unfolding lower_hex_def by (intro exI [of _ "replicate 64 10"]) simp
qed simp

text \<open>The encoder panics on every other length: when the length is not a multiple of eight, or below 64, the
  last block reaches behind the end of the message.\<close>

lemma next_block:
  assumes "\<not> 8 dvd length m \<or> length m < 64" "length m div 8 dvd i" "i + 8 \<le> length m"
  shows "i + length m div 8 < length m"
proof (cases "length m < 64")
  case True
  then have "length m div 8 < 8" by simp
  with assms(3) show ?thesis by simp
next
  case False
  let ?s = "length m div 8" and ?r = "length m mod 8"
  from assms(2) obtain j where j: "i = ?s * j" by (auto simp: dvd_def)
  have m: "length m = ?s * 8 + ?r" "?r < 8" "0 < ?r" using assms(1) False by (auto simp: mod_greater_zero_iff_not_dvd)
  with assms(3) j have "?s * j < ?s * 8" by linarith
  then have "Suc j \<le> 8" by simp
  then have "?s * Suc j \<le> ?s * 8" by (rule mult_le_mono2)
  then have "?s * j + ?s \<le> ?s * 8" by (simp only: mult_Suc_right add.commute)
  with m(1,3) j show ?thesis by linarith
qed

lemma encode_from_bad:
  "\<not> 8 dvd length m \<or> length m < 64 \<Longrightarrow> i < length m \<Longrightarrow> length m div 8 dvd i \<Longrightarrow> isl (encode_from m i)"
proof (induction m i rule: encode_from.induct)
  case (1 m i)
  show ?case
  proof (cases "goslice m [] i (i + 8)")
    case (Inl e)
    then show ?thesis using "1.prems" by (subst encode_from.simps) simp
  next
    case (Inr x)
    then have "i + 8 \<le> length m" using goslice_InrD by fastforce
    then have l: "i + length m div 8 < length m" "length m div 8 dvd i + length m div 8"
      using next_block "1.prems" by simp_all
    show ?thesis
    proof (cases "three_words (ParseHex x)")
      case (Inl e)
      then show ?thesis using "1.prems" Inr by (subst encode_from.simps) simp
    next
      case (Inr ws)
      from "1.IH" [OF "1.prems"(2) \<open>goslice m [] i (i + 8) = Inr x\<close> Inr "1.prems"(1) l] obtain e where
        "encode_from m (i + length m div 8) = Inl e" by (auto simp: isl_def)
      then show ?thesis using "1.prems" Inr \<open>goslice m [] i (i + 8) = Inr x\<close> by (subst encode_from.simps) simp
    qed
  qed
qed

theorem odd_message_panics:
  assumes "m \<noteq> []" "\<not> 8 dvd length m \<or> length m < 64"
  shows "isl (MnemonicEncode m)"
  unfolding MnemonicEncode_def using assms by (intro encode_from_bad) simp_all

end
