(* ===== verification/Miner.thy ===== *)
theory Miner
  imports Manager_Correct Reactor
begin

text \<open>
  \<open>ethminer/miner.go\<close>. The listener is a transition system: it prepares a block, searches for a
  nonce, and in between takes the messages of its channels, while the rest of the node changes the
  chain and the pool. A channel is the list of the messages in it and of the senders that wait for
  room. The block in work is a value; its state is an index into the heap.
\<close>

section \<open>The miner\<close>

text \<open>The resource of a reactor message, as far as the miner tells them apart.\<close>

datatype resource = BlockRes Block | TxRes Transaction | OtherRes

record Miner =
  mi_coinbase :: bytes
  mi_txs :: "Transaction list"
  mi_uncles :: "Block list"
  mi_block :: Block
  reactChan :: "resource list"
  powQuitChan :: "resource list"
  quitChan :: "bool list"
  mi_hash :: "bytes option"
  listening :: bool

text \<open>
  \<open>mi_hash\<close> is the local \<open>hash\<close> of \<open>Search\<close> while it runs. \<open>sort.Sort\<close> is not stable: the order it
  gives to transactions with equal nonces is the parameter \<open>nonce_sort\<close>.
\<close>

record MinerEnv =
  mproc :: ProcEnv
  nonce_sort :: "Transaction list \<Rightarrow> Transaction list"

text \<open>The channels \<open>react\<close> and \<open>powQuit\<close> are subscribed to the same two events.\<close>

definition NewDefaultMiner ::
    "Env \<Rightarrow> 64 word \<Rightarrow> bytes \<Rightarrow> nat \<Rightarrow> nat \<Rightarrow> ReactorEngine \<Rightarrow> StateManager \<Rightarrow> World \<Rightarrow>
     (Miner \<times> ReactorEngine \<times> StateManager \<times> World) res" where
  "NewDefaultMiner E now coinbase react powQuit reactor sm w =
     (let reactor = Subscribe ''newTx:pre'' powQuit (Subscribe ''newBlock'' powQuit
            (Subscribe ''newTx:pre'' react (Subscribe ''newBlock'' react reactor)));
          (txs, p) = Flush (txpool sm); sm = sm\<lparr>txpool := p\<rparr>
      in rbind (NewBlock E now coinbase (bc sm) w) (\<lambda>(b, w).
         Inr (\<lparr>mi_coinbase = coinbase, mi_txs = txs, mi_uncles = [], mi_block = b, reactChan = [],
               powQuitChan = [], quitChan = [], mi_hash = None, listening = False\<rparr>, reactor, sm, w)))"

definition Miner_Start :: "Miner \<Rightarrow> Miner" where
  "Miner_Start m = m\<lparr>listening := True\<rparr>"

definition Miner_Stop :: "Miner \<Rightarrow> Miner" where
  "Miner_Stop m = m\<lparr>powQuitChan := powQuitChan m @ [OtherRes], quitChan := quitChan m @ [True]\<rparr>"

section \<open>Messages\<close>

definition on_block :: "Env \<Rightarrow> Block \<Rightarrow> Miner \<Rightarrow> BlockChain \<Rightarrow> World \<Rightarrow> Miner res" where
  "on_block E block m chain w =
     rbind (current chain) (\<lambda>cur.
     rbind (Block_Hash E cur w) (\<lambda>top.
     rbind (Block_Hash E block w) (\<lambda>hash.
     if top = hash then
       Inr (m\<lparr>mi_txs := filter (\<lambda>tx. \<not> list_ex (\<lambda>othertx. tx_Hash E tx = tx_Hash E othertx) (transactions block))
                          (mi_txs m)\<rparr>)
     else if hd_PrevHash block = hd_PrevHash cur then Inr (m\<lparr>mi_uncles := mi_uncles m @ [block]\<rparr>)
     else Inr m)))"

definition on_tx :: "Env \<Rightarrow> Transaction \<Rightarrow> Miner \<Rightarrow> World \<Rightarrow> (Miner \<times> World) res" where
  "on_tx E tx m w =
     (if list_ex (\<lambda>ctx. tx_Hash E ctx = tx_Hash E tx) (mi_txs m) then Inr (m, w)
      else rbind (Block_Undo E (mi_block m) w) (\<lambda>w. Inr (m\<lparr>mi_txs := mi_txs m @ [tx]\<rparr>, w)))"

definition on_react :: "Env \<Rightarrow> resource \<Rightarrow> Miner \<Rightarrow> BlockChain \<Rightarrow> World \<Rightarrow> (Miner \<times> World) res" where
  "on_react E r m chain w =
     (case r of
        BlockRes b \<Rightarrow> rbind (on_block E b m chain w) (\<lambda>m. Inr (m, w))
      | TxRes tx \<Rightarrow> on_tx E tx m w
      | OtherRes \<Rightarrow> Inr (m, w))"

section \<open>Mining\<close>

text \<open>\<open>mineNewBlock\<close> up to the search, of which the first act is to hash the block.\<close>

definition prepareBlock ::
    "MinerEnv \<Rightarrow> 64 word \<Rightarrow> Miner \<Rightarrow> StateManager \<Rightarrow> World \<Rightarrow> (Miner \<times> World \<times> sm_event list) res" where
  "prepareBlock M now m sm w =
     (let P = mproc M; E = penv P in
      rbind (NewBlock E now (mi_coinbase m) (bc sm) w) (\<lambda>(b, w).
      rbind (if mi_uncles m = [] then Inr b else SetUncles E (map Header.truncate (mi_uncles m)) b w) (\<lambda>b.
      rbind (ApplyTransactions P (hd_state b) b (nonce_sort M (mi_txs m)) w) (\<lambda>(receipts, txs, w, evs).
      rbind (SetReceipts E receipts txs b w) (\<lambda>b.
      rbind (AccumelateRewards E (hd_state b) b w) (\<lambda>w.
      rbind (HashNoNonce E b w) (\<lambda>hash.
      Inr (m\<lparr>mi_txs := txs, mi_block := b, mi_hash := Some hash\<rparr>, w, evs))))))))"

text \<open>What follows when the search ends: with a nonce the block is processed, without one nothing is.\<close>

definition submitBlock ::
    "MinerEnv \<Rightarrow> bytes option \<Rightarrow> Miner \<Rightarrow> StateManager \<Rightarrow> World \<Rightarrow> (Miner \<times> StateManager \<times> World \<times> sm_event list) res" where
  "submitBlock M nonce m sm w =
     (let m = m\<lparr>mi_hash := None\<rparr> in
      case nonce of
        None \<Rightarrow> Inr (m\<lparr>mi_block := (mi_block m)\<lparr>hd_Nonce := []\<rparr>\<rparr>, sm, w, [])
      | Some n \<Rightarrow>
          let b = (mi_block m)\<lparr>hd_Nonce := n\<rparr>; m = m\<lparr>mi_block := b\<rparr> in
          rbind (Process (mproc M) b False sm w) (\<lambda>(err, sm, w, evs).
          if err \<noteq> None then Inr (m, sm, w, evs)
          else
            rbind (Block_Value b w) (\<lambda>v.
            Inr (m\<lparr>mi_txs := CurrentTransactions (txpool sm)\<rparr>, sm, w, evs @ [BroadcastBlock v]))))"

text \<open>
  The whole of \<open>mineNewBlock\<close> when nothing else runs: \<open>rnds\<close> are the numbers that the search draws
  before it is interrupted. A message that is already there interrupts it at once.
\<close>

definition mineNewBlock ::
    "MinerEnv \<Rightarrow> 64 word \<Rightarrow> int list \<Rightarrow> Miner \<Rightarrow> StateManager \<Rightarrow> World \<Rightarrow>
     (Miner \<times> StateManager \<times> World \<times> sm_event list) res" where
  "mineNewBlock M now rnds m sm w =
     rbind (prepareBlock M now m sm w) (\<lambda>(m, w, evs).
     rbind (EasyPow_Search (penv (mproc M)) (mi_block m) (if powQuitChan m = [] then rnds else []) w) (\<lambda>nonce.
     rbind (submitBlock M nonce (m\<lparr>powQuitChan := tl (powQuitChan m)\<rparr>) sm w) (\<lambda>(m, sm, w, evs').
     Inr (m, sm, w, evs @ evs'))))"

section \<open>The listener and its surroundings\<close>

text \<open>
  The first five rules are the listener: leaving its loop, taking a message, and mining when no
  channel is ready (\<open>default\<close>), which ends by a nonce or by a message on \<open>powQuitChan\<close>. The others are
  the rest of the program: \<open>Stop\<close>, the reactor's deliveries, and whatever changes chain and pool.
\<close>

inductive miner_step :: "MinerEnv \<Rightarrow> Miner \<times> StateManager \<times> World \<Rightarrow> Miner \<times> StateManager \<times> World \<Rightarrow> bool"
  for M where
  quit: "listening m \<Longrightarrow> mi_hash m = None \<Longrightarrow> quitChan m = q # qs \<Longrightarrow>
    miner_step M (m, sm, w) (m\<lparr>quitChan := qs, listening := False\<rparr>, sm, w)"
| react: "listening m \<Longrightarrow> mi_hash m = None \<Longrightarrow> reactChan m = r # rs \<Longrightarrow>
    on_react (penv (mproc M)) r (m\<lparr>reactChan := rs\<rparr>) (bc sm) w = Inr (m', w') \<Longrightarrow>
    miner_step M (m, sm, w) (m', sm, w')"
| mine: "listening m \<Longrightarrow> mi_hash m = None \<Longrightarrow> quitChan m = [] \<Longrightarrow> reactChan m = [] \<Longrightarrow>
    prepareBlock M now m sm w = Inr (m', w', evs) \<Longrightarrow> miner_step M (m, sm, w) (m', sm, w')"
| found: "mi_hash m = Some hash \<Longrightarrow> powQuitChan m = [] \<Longrightarrow>
    EasyPow_Search_loop (penv (mproc M)) hash (Difficulty (mi_block m)) rnds = Inr (Some n) \<Longrightarrow>
    submitBlock M (Some n) m sm w = Inr (m', sm', w', evs) \<Longrightarrow> miner_step M (m, sm, w) (m', sm', w')"
| interrupted: "mi_hash m = Some hash \<Longrightarrow> powQuitChan m = r # rs \<Longrightarrow>
    submitBlock M None (m\<lparr>powQuitChan := rs\<rparr>) sm w = Inr (m', sm', w', evs) \<Longrightarrow>
    miner_step M (m, sm, w) (m', sm', w')"
| stop: "miner_step M (m, sm, w) (Miner_Stop m, sm, w)"
| deliver: "miner_step M (m, sm, w)
    (m\<lparr>reactChan := reactChan m @ rs, powQuitChan := powQuitChan m @ ps\<rparr>, sm, w)"
| others: "pool_step (penv (mproc M)) (txpool sm, w) (p, w') \<Longrightarrow>
    miner_step M (m, sm, w) (m, sm\<lparr>bc := c, txpool := p\<rparr>, w')"

inductive_cases miner_stepE: "miner_step M s s'"

end
