(* ===== verification/Miner_Correct.thy ===== *)
theory Miner_Correct
  imports Miner "HOL-Library.Sublist" "HOL-Library.Multiset"
begin

text \<open>
  What the miner guarantees: what is in a block it prepares, the nonce it finds, that it never holds a
  transaction twice, and that uncles it has once collected keep it from ever mining again.
\<close>

section \<open>The transactions of a prepared block\<close>

lemma ApplyTransactions_loop_valid:
  "ApplyTransactions_loop P r block txs tot rs valid w evs = Inr (rs', valid', w', evs') \<Longrightarrow>
   map rc_Tx rs = valid \<Longrightarrow> map rc_Tx rs' = valid' \<and> (\<exists>ys. subseq ys txs \<and> valid' = valid @ ys)"
proof (induction P r block txs tot rs valid w evs rule: ApplyTransactions_loop.induct)
  case (2 P r block tx txs tot rs valid w evs)
  then obtain g err w1 ev where a: "ApplyTransaction P r block tx w = Inr (g, err, w1, ev)"
    by (auto simp: rbind_Inr_iff)
  show ?case
  proof (cases "case err of Some e \<Rightarrow> IsNonceErr e | None \<Rightarrow> False")
    case True
    with 2 a show ?thesis by (fastforce simp: subseq_Cons')
  next
    case False
    with 2(3) a obtain w2 b where
      "ApplyTransactions_loop P r block txs (tot + g) (rs @ [\<lparr>rc_Tx = tx, PostState = b, CumulativeGasUsed = tot + g\<rparr>])
         (valid @ [tx]) w2 (evs @ ev) = Inr (rs', valid', w', evs')"
      by (auto simp: rbind_Inr_iff Let_def)
    from 2(2) [OF False refl this] 2(4) show ?thesis by fastforce
  qed
qed auto

lemma ApplyTransactions_valid:
  assumes "ApplyTransactions P r block txs w = Inr (rs, valid, w', evs)"
  shows "map rc_Tx rs = valid" "subseq valid txs"
  using ApplyTransactions_loop_valid [of P r block txs 0 "[]" "[]" w "[]"] assms
  by (auto simp: ApplyTransactions_def)

lemma CreateBlock_parts:
  "CreateBlock E now root prev base diff nonce extra w = Inr (b, w') \<Longrightarrow>
   hd_Coinbase b = base \<and> hd_PrevHash b = prev \<and> Uncles b = []"
  by (auto simp: CreateBlock_def SetUncles_def rlpUncles_def Let_def rbind_Inr_iff split: prod.splits)

lemma NewBlock_parts:
  "NewBlock E now coinbase chain w = Inr (b, w') \<Longrightarrow>
   hd_Coinbase b = coinbase \<and> Uncles b = [] \<and> (CurrentBlock chain \<noteq> None \<longrightarrow> hd_PrevHash b = LastBlockHash chain)"
  by (auto simp: NewBlock_def rbind_Inr_iff Let_def dest!: CreateBlock_parts split: option.splits)

lemma SetReceipts_parts:
  assumes "SetReceipts E rs txs b w = Inr b'"
  shows "\<exists>s. b' = b\<lparr>receipts := rs, transactions := txs, TxSha := s\<rparr>"
proof -
  from assms obtain t :: Trie where "(case Root t of
        VStr s \<Rightarrow> Inr (b\<lparr>receipts := rs, transactions := txs, TxSha := s\<rparr>)
      | VBytes s \<Rightarrow> Inr (b\<lparr>receipts := rs, transactions := txs, TxSha := s\<rparr>)
      | _ \<Rightarrow> Inl (Panic ''invalid root type'')) = Inr b'"
    unfolding SetReceipts_def setTransactions_def rbind_Inr_iff by (elim exE conjE) (rule that)
  then show ?thesis by (cases "Root t") auto
qed

lemma prepareBlock_parts:
  assumes "prepareBlock M now m sm w = Inr (m', w', evs)"
  obtains b rs txs h where
    "m' = m\<lparr>mi_txs := txs, mi_block := b, mi_hash := Some h\<rparr>"
    "hd_Coinbase b = mi_coinbase m" "Uncles b = map Header.truncate (mi_uncles m)"
    "CurrentBlock (bc sm) \<noteq> None \<longrightarrow> hd_PrevHash b = LastBlockHash (bc sm)"
    "transactions b = txs" "receipts b = rs" "map rc_Tx rs = txs" "subseq txs (nonce_sort M (mi_txs m))"
    "HashNoNonce (penv (mproc M)) b w' = Inr h"
proof -
  from assms obtain b0 b1 b2 rs txs h w0 w1 where
    s: "NewBlock (penv (mproc M)) now (mi_coinbase m) (bc sm) w = Inr (b0, w0)"
    "(if mi_uncles m = [] then Inr b0 else SetUncles (penv (mproc M)) (map Header.truncate (mi_uncles m)) b0 w0) = Inr b1"
    "ApplyTransactions (mproc M) (hd_state b1) b1 (nonce_sort M (mi_txs m)) w0 = Inr (rs, txs, w1, evs)"
    "SetReceipts (penv (mproc M)) rs txs b1 w1 = Inr b2"
    "HashNoNonce (penv (mproc M)) b2 w' = Inr h"
    "m' = m\<lparr>mi_txs := txs, mi_block := b2, mi_hash := Some h\<rparr>"
    by (auto simp: prepareBlock_def Let_def rbind_Inr_iff)
  have b1: "Uncles b1 = map Header.truncate (mi_uncles m) \<and> hd_Coinbase b1 = hd_Coinbase b0 \<and> hd_PrevHash b1 = hd_PrevHash b0"
    using s(2) NewBlock_parts [OF s(1)] by (auto simp: SetUncles_def rbind_Inr_iff split: if_splits)
  have b2: "Uncles b2 = Uncles b1 \<and> hd_Coinbase b2 = hd_Coinbase b1 \<and> hd_PrevHash b2 = hd_PrevHash b1 \<and>
      transactions b2 = txs \<and> receipts b2 = rs"
    using SetReceipts_parts [OF s(4)] by auto
  show thesis
    by (rule that [OF s(6)]) (use b1 b2 s(5) NewBlock_parts [OF s(1)] ApplyTransactions_valid [OF s(3)] in auto)
qed

section \<open>The search\<close>

text \<open>The search returns the first nonce that satisfies the check of \<open>Verify\<close>, of those it draws before it is
  interrupted.\<close>

lemma EasyPow_Search_loop_find:
  "0 < d \<Longrightarrow> EasyPow_Search_loop E h d rnds =
     Inr (find (\<lambda>n. BigD (sha E (h @ n)) < 2 ^ 256 div d) (map (\<lambda>r. sha E (big_Bytes r)) rnds))"
  by (induction rnds) (auto simp: EasyPow_Verify_def big_Div_def BigPow_def Let_def)

lemma EasyPow_Search_loop_sound:
  "EasyPow_Search_loop E h d rnds = Inr (Some n) \<Longrightarrow> EasyPow_Verify E h d n = Inr True"
  by (induction rnds) (auto simp: Let_def rbind_Inr_iff split: if_splits)

section \<open>What holds while the miner runs\<close>

text \<open>Processing a block changes the pool only by pruning it.\<close>

lemma Process_pool:
  assumes "Process P b dontReact sm w = Inr (err, sm', w', evs)"
  shows "txpool sm' = txpool sm \<or> (\<exists>cur r w1 w2. RemoveInvalid (penv P) cur r (txpool sm, w1) = Inr (txpool sm', w2))"
proof -
  consider "sm' = sm" | parent r w1 w2 where "ProcessBlock_body P r parent b dontReact sm w1 = Inr (err, sm', w2, evs)"
    using assms by (auto simp: Process_def ProcessBlock_def rbind_Inr_iff split: if_splits option.splits)
  then show ?thesis
  proof cases
    case 2
    then show ?thesis by (cases rule: ProcessBlock_body_cases) auto
  qed simp
qed

lemma pool_inv_world: "pool_inv E (p, w) = pool_inv E (p, w')"
  by (simp add: pool_inv_def)

lemma Process_pool_inv:
  "Process P b dontReact sm w = Inr (err, sm', w', evs) \<Longrightarrow> pool_inv (penv P) (txpool sm, w) \<Longrightarrow>
   pool_inv (penv P) (txpool sm', w')"
  by (metis Process_pool pool_inv_step pool_inv_world pool_step.remove)

text \<open>The miner's transactions and the pool's have distinct hashes.\<close>

definition txs_inv :: "Env \<Rightarrow> Miner \<times> StateManager \<times> World \<Rightarrow> bool" where
  "txs_inv E s \<longleftrightarrow> (case s of (m, sm, w) \<Rightarrow> distinct (map (tx_Hash E) (mi_txs m)) \<and> pool_inv E (txpool sm, w))"

text \<open>The block in work names every uncle that the miner knows.\<close>

definition names_uncles :: "Miner \<Rightarrow> bool" where
  "names_uncles m \<longleftrightarrow> (mi_hash m \<noteq> None \<longrightarrow> Uncles (mi_block m) = map Header.truncate (mi_uncles m))"

lemma submitBlock_parts:
  assumes "submitBlock M nonce m sm w = Inr (m', sm', w', evs)"
  shows "mi_uncles m' = mi_uncles m \<and> mi_hash m' = None \<and> (mi_txs m' = mi_txs m \<or> mi_txs m' = pool (txpool sm')) \<and>
    (pool_inv (penv (mproc M)) (txpool sm, w) \<longrightarrow> pool_inv (penv (mproc M)) (txpool sm', w'))"
proof (cases nonce)
  case None
  with assms show ?thesis by (auto simp: submitBlock_def Let_def)
next
  case (Some n)
  with assms obtain err evs' where
    p: "Process (mproc M) ((mi_block m)\<lparr>hd_Nonce := n\<rparr>) False sm w = Inr (err, sm', w', evs')"
    by (auto simp: submitBlock_def Let_def rbind_Inr_iff split: if_split_asm)
  have "mi_uncles m' = mi_uncles m \<and> mi_hash m' = None \<and> (mi_txs m' = mi_txs m \<or> mi_txs m' = pool (txpool sm'))"
    using assms Some by (auto simp: submitBlock_def Let_def rbind_Inr_iff CurrentTransactions_def split: if_split_asm)
  then show ?thesis using Process_pool_inv [OF p] by blast
qed

lemma on_react_parts:
  assumes "on_react E r m chain w = Inr (m', w')"
  shows "mi_hash m' = mi_hash m \<and> (\<exists>us. mi_uncles m' = mi_uncles m @ us) \<and>
    (distinct (map (tx_Hash E) (mi_txs m)) \<longrightarrow> distinct (map (tx_Hash E) (mi_txs m')))"
proof (cases r)
  case (BlockRes b)
  with assms have "on_block E b m chain w = Inr m'" by (auto simp: on_react_def rbind_Inr_iff)
  then show ?thesis
    by (auto simp: on_block_def rbind_Inr_iff distinct_map_filter split: if_split_asm)
next
  case (TxRes tx)
  with assms show ?thesis
    by (force simp: on_react_def on_tx_def rbind_Inr_iff list_ex_iff split: if_split_asm)
next
  case OtherRes
  with assms show ?thesis by (simp add: on_react_def)
qed

lemma distinct_subseq: "subseq xs ys \<Longrightarrow> distinct (map f ys) \<Longrightarrow> distinct (map f xs)"
  by (metis distinct_nthsI subseq_conv_nths subseq_map) 

lemma txs_inv_step:
  assumes "miner_step M s s'" "txs_inv (penv (mproc M)) s" "\<And>txs. mset (nonce_sort M txs) = mset txs"
  shows "txs_inv (penv (mproc M)) s'"
  using assms(1,2)
proof (induction rule: miner_step.induct)
  case (react m r rs sm w m' w')
  then show ?case using on_react_parts [OF react(4)] by (auto simp: txs_inv_def pool_inv_def)
next
  case (mine m sm now w m' w' evs)
  have "distinct (map f (nonce_sort M txs)) = distinct (map f txs)" for f :: "Transaction \<Rightarrow> bytes" and txs
    using assms(3) [of txs] by (metis mset_eq_imp_distinct_iff mset_map)
  with mine show ?case
    by (elim prepareBlock_parts) (auto simp: txs_inv_def pool_inv_def dest: distinct_subseq)
next
  case (found m hash rnds n sm w m' sm' w' evs)
  then show ?case using submitBlock_parts [OF found(4)] by (auto simp: txs_inv_def pool_inv_def)
next
  case (interrupted m hash r rs sm w m' sm' w' evs)
  then show ?case using submitBlock_parts [OF interrupted(3)] by (auto simp: txs_inv_def pool_inv_def)
next
  case (others sm w p w' m c)
  then show ?case using pool_inv_step [OF others(1)] by (simp add: txs_inv_def)
qed (auto simp: txs_inv_def Miner_Stop_def)

lemma uncles_step:
  "miner_step M (m, sm, w) (m', sm', w') \<Longrightarrow> names_uncles m \<Longrightarrow>
   names_uncles m' \<and> set (mi_uncles m) \<subseteq> set (mi_uncles m')"
  by (erule miner_stepE)
    (auto simp: names_uncles_def Miner_Stop_def dest: on_react_parts submitBlock_parts elim!: prepareBlock_parts)

lemma uncles_run:
  assumes "(miner_step M)\<^sup>*\<^sup>* (m0, sm0, w0) (m, sm, w)" "names_uncles m0"
  shows "names_uncles m \<and> set (mi_uncles m0) \<subseteq> set (mi_uncles m)"
  using assms(1)
proof (induction "(m, sm, w)" arbitrary: m sm w rule: rtranclp_induct)
  case base
  then show ?case using assms(2) by simp
next
  case (step s)
  obtain m1 sm1 w1 where s: "s = (m1, sm1, w1)" by (cases s)
  show ?case using step(3) [OF s] uncles_step [OF step(2) [unfolded s]] by blast
qed

text \<open>C17. The miner never holds two transactions with the same hash, whatever the order in which it
  takes transactions and blocks from the reactor, mines, and has its blocks accepted or refused, while
  the pool and the chain change under it.\<close>

theorem miner_txs_distinct:
  assumes "NewDefaultMiner (penv (mproc M)) now coinbase react powQuit reactor sm w = Inr (m0, reactor', sm0, w0)"
    and "pool_inv (penv (mproc M)) (txpool sm, w)"
    and "(miner_step M)\<^sup>*\<^sup>* (Miner_Start m0, sm0, w0) (m, sm', w')"
    and "\<And>txs. mset (nonce_sort M txs) = mset txs"
  shows "distinct (map (tx_Hash (penv (mproc M))) (mi_txs m))"
proof -
  have "txs_inv (penv (mproc M)) (Miner_Start m0, sm0, w0)"
    using assms(1,2) by (auto simp: NewDefaultMiner_def Let_def Flush_def CurrentTransactions_def rbind_Inr_iff
        txs_inv_def Miner_Start_def pool_inv_def)
  from assms(3) this have "txs_inv (penv (mproc M)) (m, sm', w')"
    by (induction rule: rtranclp_induct) (auto intro: txs_inv_step assms(4))
  then show ?thesis by (simp add: txs_inv_def)
qed

text \<open>C18. What is in a block that the miner prepares: its parent is the last block, it names all uncles
  the miner knows, its transactions are the miner's, in the order of their nonces, with a receipt for
  each, and any nonce that the search finds for it satisfies the check of \<open>ValidateBlock\<close>.\<close>

theorem prepared_block:
  assumes "prepareBlock M now m sm w = Inr (m', w', evs)" "mi_block m' = b"
    and "\<And>txs. mset (nonce_sort M txs) = mset txs \<and> sorted (map tx_Nonce (nonce_sort M txs))"
  shows "hd_Coinbase b = mi_coinbase m \<and> (CurrentBlock (bc sm) \<noteq> None \<longrightarrow> hd_PrevHash b = LastBlockHash (bc sm)) \<and>
    Uncles b = map Header.truncate (mi_uncles m) \<and>
    transactions b = mi_txs m' \<and> set (mi_txs m') \<subseteq> set (mi_txs m) \<and> sorted (map tx_Nonce (transactions b)) \<and>
    map rc_Tx (receipts b) = transactions b \<and>
    (\<forall>rnds n. EasyPow_Search (penv (mproc M)) b rnds w' = Inr (Some n) \<longrightarrow>
      (\<exists>h. HashNoNonce (penv (mproc M)) (b\<lparr>hd_Nonce := n\<rparr>) w' = Inr h \<and>
         EasyPow_Verify (penv (mproc M)) h (Difficulty b) n = Inr True))"
proof -
  obtain rs txs h where p: "mi_block m' = b" "mi_txs m' = txs" "hd_Coinbase b = mi_coinbase m"
    "Uncles b = map Header.truncate (mi_uncles m)" "CurrentBlock (bc sm) \<noteq> None \<longrightarrow> hd_PrevHash b = LastBlockHash (bc sm)"
    "transactions b = txs" "receipts b = rs" "map rc_Tx rs = txs" "subseq txs (nonce_sort M (mi_txs m))"
    "HashNoNonce (penv (mproc M)) b w' = Inr h"
    by (rule prepareBlock_parts [OF assms(1)]) (use assms(2) in auto)
  from p(9) obtain N where "txs = nths (nonce_sort M (mi_txs m)) N" by (auto simp: subseq_conv_nths)
  then have "sorted (map tx_Nonce txs)" "set txs \<subseteq> set (nonce_sort M (mi_txs m))"
    using assms(3) [of "mi_txs m"] by (auto simp flip: nths_map intro: sorted_nths dest: in_set_nthsD)
  moreover have "set (nonce_sort M (mi_txs m)) = set (mi_txs m)"
    using assms(3) [of "mi_txs m"] mset_eq_setD by blast
  moreover have "HashNoNonce (penv (mproc M)) (b\<lparr>hd_Nonce := n\<rparr>) w' = Inr h" for n
    using p(10) by (simp add: HashNoNonce_def)
  ultimately show ?thesis using p
    by (auto simp: EasyPow_Search_def dest: EasyPow_Search_loop_sound)
qed

lemma Process_stale_uncle:
  assumes "GetBlock (hd_PrevHash b) w = Inr (Some parent, w0)"
    and "Block_Hash (penv P) b w0 = Inr hash" "\<not> HasBlock hash w0"
    and "ApplyTransactions P (hd_state parent) parent (transactions b) w0 = Inr (rs, valid, w1, evs1)"
    and "GetBlock (hd_PrevHash b) w1 = Inr (Some p, w2)"
    and "u \<in> set (Uncles b)" "hd_PrevHash u \<noteq> hd_PrevHash p"
    and "Process P b dontReact sm w = Inr (err, sm', w', evs)"
  shows "err \<noteq> None \<and> sm' = sm \<and> only_tx evs"
proof -
  have has: "HasBlock (hd_PrevHash b) w" using assms(1) by (auto simp: GetBlock_def HasBlock_def Let_def split: if_splits)
  have "list_ex (\<lambda>u. hd_PrevHash u \<noteq> hd_PrevHash p) (Uncles b)" "Uncles b \<noteq> []" using assms(6,7) by (auto simp: list_ex_iff)
  then have v: "ValidateBlock (penv P) b (bc sm) w1 = Inr (Some (ValidationErr ''Mismatch uncle's previous hash''), w2)"
    using assms(5) by (simp add: ValidateBlock_def uncle_mismatch_def)
  have evs1: "only_tx evs1" using assms(4) unfolding ApplyTransactions_def
    by (rule ApplyTransactions_loop_only_tx) (simp add: only_tx_def)
  obtain w3 where "ProcessBlock_body P (hd_state parent) parent b dontReact sm w0 = Inr (err, sm', w3, evs)"
    using assms(1,2,3,8) has by (auto simp: Process_def ProcessBlock_def rbind_Inr_iff)
  then show ?thesis using assms(4) v evs1
    by (auto simp: ProcessBlock_body_def Let_def only_tx_def split: if_split_asm)
qed

text \<open>C12. Uncles are collected and never given up, and every block the miner prepares names all of them.
  So once the chain has grown past the height at which an uncle was collected, no block of this miner
  is accepted any more: whatever nonce is found, the chain, the pool and the miner's transactions stay as
  they are and nothing is broadcast.\<close>

theorem stale_uncle_stops_mining:
  assumes run: "(miner_step M)\<^sup>*\<^sup>* (m0, sm0, w00) (m, sm, w)" "mi_hash m0 = None" "mi_hash m \<noteq> None"
    and uncle: "u \<in> set (mi_uncles m0)" "hd_PrevHash u \<noteq> hd_PrevHash p"
    and block: "b = (mi_block m)\<lparr>hd_Nonce := n\<rparr>" "GetBlock (hd_PrevHash b) w = Inr (Some parent, w0)"
      "Block_Hash (penv (mproc M)) b w0 = Inr hash" "\<not> HasBlock hash w0"
      "ApplyTransactions (mproc M) (hd_state parent) parent (transactions b) w0 = Inr (rs, valid, w1, evs1)"
      "GetBlock (hd_PrevHash b) w1 = Inr (Some p, w2)"
    and submit: "submitBlock M (Some n) m sm w = Inr (m', sm', w', evs)"
  shows "sm' = sm \<and> mi_txs m' = mi_txs m \<and> u \<in> set (mi_uncles m') \<and> (\<forall>v. BroadcastBlock v \<notin> set evs)"
proof -
  have us: "Uncles (mi_block m) = map Header.truncate (mi_uncles m)" "u \<in> set (mi_uncles m)"
    using uncles_run [OF run(1)] run(2,3) uncle(1) by (auto simp: names_uncles_def)
  have "Header.truncate u \<in> set (Uncles b)" using us block(1) by simp
  moreover have "hd_PrevHash (Header.truncate u) \<noteq> hd_PrevHash p" using uncle(2) by (simp add: Header.truncate_def)
  moreover obtain err sm1 w3 ev where pr: "Process (mproc M) b False sm w = Inr (err, sm1, w3, ev)"
    using submit block(1) by (auto simp: submitBlock_def Let_def rbind_Inr_iff)
  ultimately have "err \<noteq> None" "sm1 = sm" "only_tx ev"
    using Process_stale_uncle [OF block(2-6)] by blast+
  then show ?thesis using submit pr block(1) us(2)
    by (auto simp: submitBlock_def Let_def only_tx_def list_all_iff)
qed

section \<open>Concrete runs\<close>

text \<open>A miner with an uncle from another height, on the demonstration chain.\<close>

definition demo_uncle :: Block where
  "demo_uncle = demo_next\<lparr>hd_PrevHash := replicate 32 5\<rparr>"

definition demo_miner :: Miner where
  "demo_miner = \<lparr>mi_coinbase = replicate 20 3, mi_txs = [], mi_uncles = [demo_uncle], mi_block = demo_next, reactChan = [],
     powQuitChan = [], quitChan = [], mi_hash = None, listening = True\<rparr>"

definition demo_miner_env :: MinerEnv where
  "demo_miner_env = \<lparr>mproc = demo_proc, nonce_sort = sort_key tx_Nonce\<rparr>"

lemma demo_miner_env_sorts:
  "mset (nonce_sort demo_miner_env txs) = mset txs \<and> sorted (map tx_Nonce (nonce_sort demo_miner_env txs))"
  by (simp add: demo_miner_env_def)

lemma demo_miner_env_proc: "mproc demo_miner_env = demo_proc" "penv demo_proc = const_env"
  by (simp_all add: demo_miner_env_def demo_proc_def)

text \<open>The block in work can be submitted: its hash is new and its parent is found.\<close>

definition demo_submittable :: "Miner \<Rightarrow> World \<Rightarrow> Block \<Rightarrow> World \<Rightarrow> bool" where
  "demo_submittable m w parent w0 \<longleftrightarrow>
         transactions (mi_block m) = [] \<and> hd_PrevHash parent = [] \<and> \<not> HasBlock (replicate 32 0) w0 \<and>
     (case Block_Hash const_env ((mi_block m)\<lparr>hd_Nonce := [1]\<rparr>) w0 of Inr h \<Rightarrow> h = replicate 32 0 | Inl e \<Rightarrow> False) \<and>
     (case GetBlock (hd_PrevHash (mi_block m)) w0 of Inr (Some p, w2) \<Rightarrow> hd_PrevHash p = [] | _ \<Rightarrow> False) \<and>
     (case submitBlock demo_miner_env (Some [1]) m demo_manager w of Inr s \<Rightarrow> True | Inl e \<Rightarrow> False)"

lemma demo_prepared:
  "\<exists>m w evs. prepareBlock demo_miner_env 0 demo_miner demo_manager demo_world2 = Inr (m, w, evs) \<and>
    (case GetBlock (hd_PrevHash (mi_block m)) w of
       Inr (Some parent, w0) \<Rightarrow> demo_submittable m w parent w0
     | _ \<Rightarrow> False)"
proof -
  have "case prepareBlock demo_miner_env 0 demo_miner demo_manager demo_world2 of Inr (m, w, evs) \<Rightarrow>
    (case GetBlock (hd_PrevHash (mi_block m)) w of
       Inr (Some parent, w0) \<Rightarrow> demo_submittable m w parent w0
     | _ \<Rightarrow> False) | Inl e \<Rightarrow> False"
    by code_simp
  then show ?thesis by (cases "prepareBlock demo_miner_env 0 demo_miner demo_manager demo_world2") auto
qed

lemma demo_new_miner:
  "\<exists>m r sm w m' w'. NewDefaultMiner const_env 0 [3] 1 2 NewReactorEngine demo_manager demo_world2 = Inr (m, r, sm, w) \<and>
     reactChan m = [] \<and> powQuitChan m = [] \<and> mi_hash m = None \<and>
     on_react const_env (TxRes demo_tx) (Miner_Start m) (bc sm) w = Inr (m', w') \<and> mi_txs m' = [demo_tx]"
proof -
  have "case NewDefaultMiner const_env 0 [3] 1 2 NewReactorEngine demo_manager demo_world2 of Inr (m, r, sm, w) \<Rightarrow>
     (case on_react const_env (TxRes demo_tx) (Miner_Start m) (bc sm) w of Inr (m', w') \<Rightarrow> True | Inl e \<Rightarrow> False)
     | Inl e \<Rightarrow> False"
    by code_simp
  then obtain m r sm w where m: "NewDefaultMiner const_env 0 [3] 1 2 NewReactorEngine demo_manager demo_world2 = Inr (m, r, sm, w)"
    "case on_react const_env (TxRes demo_tx) (Miner_Start m) (bc sm) w of Inr (m', w') \<Rightarrow> True | Inl e \<Rightarrow> False"
    by (cases "NewDefaultMiner const_env 0 [3] 1 2 NewReactorEngine demo_manager demo_world2") (auto simp del: One_nat_def)
  from m(2) obtain m' w' where "on_react const_env (TxRes demo_tx) (Miner_Start m) (bc sm) w = Inr (m', w')"
    by (cases "on_react const_env (TxRes demo_tx) (Miner_Start m) (bc sm) w") auto
  with m(1) have n: "NewDefaultMiner const_env 0 [3] 1 2 NewReactorEngine demo_manager demo_world2 = Inr (m, r, sm, w)"
    "on_react const_env (TxRes demo_tx) (Miner_Start m) (bc sm) w = Inr (m', w')" .
  then have "mi_txs m = []" "reactChan m = []" "powQuitChan m = []" "mi_hash m = None"
    by (auto simp: NewDefaultMiner_def Let_def Flush_def CurrentTransactions_def demo_manager_def NewTxPool_def rbind_Inr_iff)
  moreover from this n(2) have "mi_txs m' = [demo_tx]"
    by (auto simp: on_react_def on_tx_def Miner_Start_def rbind_Inr_iff)
  ultimately show ?thesis using n by blast
qed

theorem miner_txs_distinct_witness:
  "\<exists>m r sm w m' w'. NewDefaultMiner const_env 0 [3] 1 2 NewReactorEngine demo_manager demo_world2 = Inr (m, r, sm, w) \<and>
     (miner_step demo_miner_env)\<^sup>*\<^sup>* (Miner_Start m, sm, w) (m', sm, w') \<and> mi_txs m' = [demo_tx] \<and>
     distinct (map (tx_Hash const_env) (mi_txs m'))"
proof -
  obtain m r sm w m' w' where n: "NewDefaultMiner const_env 0 [3] 1 2 NewReactorEngine demo_manager demo_world2 = Inr (m, r, sm, w)"
    "reactChan m = []" "powQuitChan m = []" "mi_hash m = None"
    "on_react const_env (TxRes demo_tx) (Miner_Start m) (bc sm) w = Inr (m', w')" "mi_txs m' = [demo_tx]"
    using demo_new_miner by blast
  have "miner_step demo_miner_env (Miner_Start m, sm, w) ((Miner_Start m)\<lparr>reactChan := reactChan (Miner_Start m) @ [TxRes demo_tx],
      powQuitChan := powQuitChan (Miner_Start m) @ []\<rparr>, sm, w)"
    by (rule miner_step.deliver)
  moreover have "(Miner_Start m)\<lparr>reactChan := reactChan (Miner_Start m) @ [TxRes demo_tx],
      powQuitChan := powQuitChan (Miner_Start m) @ []\<rparr>\<lparr>reactChan := []\<rparr> = Miner_Start m"
    using n(2,3) by (cases m) (simp add: Miner_Start_def)
  then have "miner_step demo_miner_env ((Miner_Start m)\<lparr>reactChan := reactChan (Miner_Start m) @ [TxRes demo_tx],
      powQuitChan := powQuitChan (Miner_Start m) @ []\<rparr>, sm, w) (m', sm, w')"
    using n by (intro miner_step.react [where rs = "[]" and r = "TxRes demo_tx"])
      (simp_all only: demo_miner_env_proc, simp_all add: Miner_Start_def)
  ultimately have run: "(miner_step demo_miner_env)\<^sup>*\<^sup>* (Miner_Start m, sm, w) (m', sm, w')" by auto
  have "pool_inv const_env (txpool demo_manager, demo_world2)"
    by (simp add: pool_inv_def demo_manager_def NewTxPool_def)
  with run have "distinct (map (tx_Hash (penv (mproc demo_miner_env))) (mi_txs m'))"
    using n(1) demo_miner_env_sorts
    by (intro miner_txs_distinct [of demo_miner_env 0 "[3]" 1 2 NewReactorEngine demo_manager demo_world2])
      (simp_all add: demo_miner_env_proc del: One_nat_def)
  then have "distinct (map (tx_Hash const_env) (mi_txs m'))" by (simp add: demo_miner_env_proc)
  with n(1,6) run show ?thesis by blast
qed

theorem prepared_block_witness:
  "\<exists>m w evs. prepareBlock demo_miner_env 0 demo_miner demo_manager demo_world2 = Inr (m, w, evs) \<and>
     Uncles (mi_block m) = [Header.truncate demo_uncle] \<and> hd_PrevHash (mi_block m) = replicate 32 1"
proof -
  obtain m w evs where p: "prepareBlock demo_miner_env 0 demo_miner demo_manager demo_world2 = Inr (m, w, evs)"
    using demo_prepared by blast
  from prepared_block [OF p refl demo_miner_env_sorts]
  have "Uncles (mi_block m) = [Header.truncate demo_uncle] \<and> hd_PrevHash (mi_block m) = replicate 32 1"
    by (simp add: demo_miner_def demo_manager_def demo_chain_def)
  with p show ?thesis by blast
qed

theorem stale_uncle_stops_mining_witness:
  "\<exists>m w evs m' w' evs'. prepareBlock demo_miner_env 0 demo_miner demo_manager demo_world2 = Inr (m, w, evs) \<and>
     submitBlock demo_miner_env (Some [1]) m demo_manager w = Inr (m', demo_manager, w', evs') \<and>
     (\<forall>v. BroadcastBlock v \<notin> set evs')"
proof -
  obtain m w evs parent w0 p w2 m' sm' w' evs' where
    d: "prepareBlock demo_miner_env 0 demo_miner demo_manager demo_world2 = Inr (m, w, evs)"
      "GetBlock (hd_PrevHash (mi_block m)) w = Inr (Some parent, w0)" "transactions (mi_block m) = []"
      "\<not> HasBlock (replicate 32 0) w0" "Block_Hash const_env ((mi_block m)\<lparr>hd_Nonce := [1]\<rparr>) w0 = Inr (replicate 32 0)"
      "GetBlock (hd_PrevHash (mi_block m)) w0 = Inr (Some p, w2)" "hd_PrevHash p = []"
      "submitBlock demo_miner_env (Some [1]) m demo_manager w = Inr (m', sm', w', evs')"
  proof -
    obtain m w evs where a: "prepareBlock demo_miner_env 0 demo_miner demo_manager demo_world2 = Inr (m, w, evs)"
      "case GetBlock (hd_PrevHash (mi_block m)) w of Inr (Some parent, w0) \<Rightarrow> demo_submittable m w parent w0 | _ \<Rightarrow> False"
      using demo_prepared by blast
    then obtain parent w0 where b: "GetBlock (hd_PrevHash (mi_block m)) w = Inr (Some parent, w0)" "demo_submittable m w parent w0"
      by (auto split: sum.split_asm option.split_asm prod.split_asm)
    then obtain p w2 where c: "GetBlock (hd_PrevHash (mi_block m)) w0 = Inr (Some p, w2)" "hd_PrevHash p = []"
      by (auto simp: demo_submittable_def split: sum.split_asm option.split_asm prod.split_asm)
    from b obtain m' sm' w' evs' where "submitBlock demo_miner_env (Some [1]) m demo_manager w = Inr (m', sm', w', evs')"
      by (auto simp: demo_submittable_def split: sum.split_asm)
    with a(1) b c show thesis by (intro that) (auto simp: demo_submittable_def split: sum.split_asm)
  qed
  have "miner_step demo_miner_env (demo_miner, demo_manager, demo_world2) (m, demo_manager, w)"
    by (rule miner_step.mine [OF _ _ _ _ d(1)]) (simp_all add: demo_miner_def)
  then have run: "(miner_step demo_miner_env)\<^sup>*\<^sup>* (demo_miner, demo_manager, demo_world2) (m, demo_manager, w)" ..
  have hash: "mi_hash m \<noteq> None" using d(1) by (elim prepareBlock_parts) simp
  from stale_uncle_stops_mining [OF run _ hash _ _ refl, of demo_uncle p "[1]" parent w0
      "replicate 32 0" "[]" "[]" w0 "[]" w2 m' sm' w' evs'] d
  show ?thesis
    by (auto simp: demo_miner_env_proc ApplyTransactions_def demo_miner_def demo_uncle_def)
qed
end
