(* ===== verification/Public.thy ===== *)
theory Public
  imports Peer Opcodes
begin

text \<open>
  \<open>ethpub/pub.go\<close> and \<open>types.go\<close>: what the node offers to its user interfaces. Go strings are byte
  strings, texts of numbers are character strings. Parameters: the generation of public keys, the
  compiler of scripts, and the value of a \<open>big.Int\<close> after \<open>SetString\<close> has failed on it, which the
  library leaves undefined. JSON texts stand as the values they are made of.
\<close>

record PubEnv =
  genpub :: "bytes \<Rightarrow> bytes option"
  compile :: "bytes \<Rightarrow> bytes option"
  junk :: "bytes \<Rightarrow> int"

section \<open>Texts\<close>

definition text_of :: "bytes \<Rightarrow> string" where
  "text_of b = map (\<lambda>c. char_of (unat c)) b"

definition parse_big :: "PubEnv \<Rightarrow> bytes \<Rightarrow> int" where
  "parse_big U s = (case SetString0 (text_of s) of Some n \<Rightarrow> n | None \<Rightarrow> junk U s)"

definition Big :: "PubEnv \<Rightarrow> bytes \<Rightarrow> int" where
  "Big U num = parse_big U num"

text \<open>\<open>FormatData\<close>: text in quotes, hex, or a number, as 32 bytes. A lone quote slices \<open>data[1:0]\<close>.\<close>

definition FormatData :: "PubEnv \<Rightarrow> bytes \<Rightarrow> bytes res" where
  "FormatData U data =
     (if data = [] then Inr []
      else if hd data = 0x22 \<and> last data = 0x22 then
        rbind (gosliceI data [] 1 (int (length data) - 1)) (\<lambda>t. Inr (BigToBytes (BigD t) 256))
      else if 1 < length data \<and> take 2 data = str_0x then Inr (BigToBytes (BigD (FromHex (drop 2 data))) 256)
      else Inr (BigToBytes (parse_big U data) 256))"

text \<open>\<open>strings.Split(s, "\n")\<close> and \<open>strings.Join\<close>.\<close>

fun split_lines :: "bytes \<Rightarrow> bytes list" where
  "split_lines [] = [[]]"
| "split_lines (c # cs) =
     (if c = 0x0a then [] # split_lines cs
      else case split_lines cs of l # ls \<Rightarrow> (c # l) # ls | [] \<Rightarrow> [[c]])"

fun join :: "string \<Rightarrow> string list \<Rightarrow> string" where
  "join sep [] = []"
| "join sep [x] = x"
| "join sep (x # y # xs) = x @ sep @ join sep (y # xs)"

text \<open>\<open>String\<close> of a \<open>*big.Int\<close> that may be nil.\<close>

definition big_String :: "int option \<Rightarrow> string" where
  "big_String x = (case x of None \<Rightarrow> ''<nil>'' | Some n \<Rightarrow> dec_int n)"

section \<open>types.go\<close>

record PPeer =
  pp_Inbound :: bool
  pp_LastPong :: int
  pp_Ip :: string
  pp_Port :: int
  pp_Version :: bytes

definition NewPPeer :: "Peer \<Rightarrow> PPeer" where
  "NewPPeer peer =
     \<lparr>pp_Inbound = inbound peer, pp_LastPong = lastPong peer,
      pp_Ip = join ''.'' (map (\<lambda>i. dec_nat (unat i)) (host peer)),
      pp_Port = uint (port peer), pp_Version = version peer\<rparr>"

record PTx =
  pt_ref :: Transaction
  pt_Value :: string
  pt_Gas :: string
  pt_GasPrice :: string
  pt_Hash :: bytes
  pt_Address :: bytes
  pt_Sender :: bytes
  pt_RawData :: bytes
  pt_Data :: string
  pt_Contract :: bool
  pt_CreatesContract :: bool

definition NewPTx :: "Env \<Rightarrow> Transaction \<Rightarrow> PTx res" where
  "NewPTx E tx =
     (let hash = Hex (tx_Hash E tx); receiver = Hex (Recipient tx) in
      rbind (if receiver = [] then rbind (CreationAddress E tx) (\<lambda>a. Inr (Hex a)) else Inr receiver) (\<lambda>receiver.
      rbind (Sender E tx) (\<lambda>from.
      rbind (Disassemble (Data tx) (behind E (Data tx))) (\<lambda>asm.
      Inr \<lparr>pt_ref = tx, pt_Value = CurrencyToString (tx_Value tx), pt_Gas = dec_int (tx_Gas tx),
           pt_GasPrice = dec_int (GasPrice tx), pt_Hash = hash, pt_Address = receiver, pt_Sender = Hex from,
           pt_RawData = Hex (Data tx), pt_Data = join [CHR 0x0a] asm, pt_Contract = 0 < length (Data tx),
           pt_CreatesContract = CreatesContract tx\<rparr>))))"

record PBlock =
  pb_ref :: Block
  pb_Number :: int
  pb_Hash :: bytes
  pb_Transactions :: "PTx list"
  pb_Time :: int
  pb_Coinbase :: bytes

definition NewPBlock :: "Env \<Rightarrow> Block option \<Rightarrow> World \<Rightarrow> PBlock option res" where
  "NewPBlock E block w =
     (case block of
        None \<Rightarrow> Inr None
      | Some b \<Rightarrow>
          rbind (map_res (NewPTx E) (transactions b)) (\<lambda>ptxs.
          case Number b of
            None \<Rightarrow> Inl NilDereference
          | Some n \<Rightarrow>
              rbind (Block_Hash E b w) (\<lambda>hash.
              Inr (Some \<lparr>pb_ref = b, pb_Number = sint (big_Uint64 n), pb_Hash = Hex hash, pb_Transactions = ptxs,
                         pb_Time = sint (hd_Time b), pb_Coinbase = Hex (hd_Coinbase b)\<rparr>))))"

definition PBlock_GetTransaction :: "Env \<Rightarrow> bytes \<Rightarrow> PBlock \<Rightarrow> PTx option res" where
  "PBlock_GetTransaction E hash self =
     (case GetTransaction E (FromHex hash) (pb_ref self) of
        None \<Rightarrow> Inr None
      | Some tx \<Rightarrow> rbind (NewPTx E tx) (\<lambda>t. Inr (Some t)))"

record PKey =
  pk_Address :: bytes
  pk_PrivateKey :: bytes
  pk_PublicKey :: bytes

definition NewPKey :: "Env \<Rightarrow> KeyPair option \<Rightarrow> PKey res" where
  "NewPKey E key =
     (case key of
        None \<Rightarrow> Inl NilDereference
      | Some k \<Rightarrow>
          rbind (Key_Address (sha E) k) (\<lambda>a.
          Inr \<lparr>pk_Address = Hex a, pk_PrivateKey = Hex (PrivateKey k), pk_PublicKey = Hex (PubKey k)\<rparr>))"

record PReceipt =
  CreatedContract :: bool
  pr_Address :: bytes
  pr_Hash :: bytes
  pr_Sender :: bytes

definition NewPReciept :: "bool \<Rightarrow> bytes \<Rightarrow> bytes \<Rightarrow> bytes \<Rightarrow> PReceipt" where
  "NewPReciept creation creationAddress hash addr =
     \<lparr>CreatedContract = creation, pr_Address = Hex creationAddress, pr_Hash = Hex hash, pr_Sender = Hex addr\<rparr>"

text \<open>A \<open>PStateObject\<close> is its object, or nil.\<close>

type_synonym PStateObject = "StateObject option"

definition NewPStateObject :: "StateObject option \<Rightarrow> PStateObject" where
  "NewPStateObject obj = obj"

definition P_GetStorage :: "PubEnv \<Rightarrow> bytes \<Rightarrow> PStateObject \<Rightarrow> World \<Rightarrow> (string \<times> World) res" where
  "P_GetStorage U addr c w =
     (case c of
        None \<Rightarrow> Inr ([], w)
      | Some obj \<Rightarrow> rbind (GetMem (Big U (str_0x @ addr)) obj w) (\<lambda>(val, w). Inr (big_String (BigInt val), w)))"

definition P_Value :: "PStateObject \<Rightarrow> string" where
  "P_Value c = (case c of None \<Rightarrow> [] | Some obj \<Rightarrow> dec_int (Amount obj))"

definition P_Address :: "PStateObject \<Rightarrow> bytes" where
  "P_Address c = (case c of None \<Rightarrow> [] | Some obj \<Rightarrow> Hex (address obj))"

definition P_Nonce :: "PStateObject \<Rightarrow> int" where
  "P_Nonce c = (case c of None \<Rightarrow> 0 | Some obj \<Rightarrow> sint (Nonce obj))"

definition P_Root :: "PStateObject \<Rightarrow> World \<Rightarrow> bytes res" where
  "P_Root c w =
     (case c of
        None \<Rightarrow> Inr (lit ''<err>'')
      | Some obj \<Rightarrow>
          (case obj_state obj of
             None \<Rightarrow> Inl NilDereference
           | Some r \<Rightarrow> rbind (State_Root r w) (\<lambda>root. Inr (Hex (Bytes (NewValue root))))))"

definition P_IsContract :: "PStateObject \<Rightarrow> bool" where
  "P_IsContract c = (case c of None \<Rightarrow> False | Some obj \<Rightarrow> 0 < length (script obj))"

definition P_StateKeyVal :: "Env \<Rightarrow> PStateObject \<Rightarrow> World \<Rightarrow> ((bytes \<times> bytes) list \<times> World) res" where
  "P_StateKeyVal E c w =
     (case c of
        None \<Rightarrow> Inr ([], w)
      | Some obj \<Rightarrow>
          (case obj_state obj of
             None \<Rightarrow> Inl NilDereference
           | Some r \<Rightarrow>
               rbind (EachStorage E r w) (\<lambda>(calls, w). Inr (map (\<lambda>(name, v). (name, Hex (Bytes v))) calls, w))))"

definition P_Script :: "Env \<Rightarrow> PStateObject \<Rightarrow> string res" where
  "P_Script E c =
     (case c of
        None \<Rightarrow> Inr []
      | Some obj \<Rightarrow> rbind (Disassemble (script obj) (behind E (script obj))) (\<lambda>asm. Inr (join '' '' asm)))"

definition NewPStorageState :: "bytes \<times> bytes \<times> int \<Rightarrow> bytes \<times> bytes \<times> string" where
  "NewPStorageState = (\<lambda>(stateAddress, addr, v). (Hex stateAddress, Hex addr, dec_int v))"

section \<open>pub.go\<close>

definition PE_GetBlock :: "Env \<Rightarrow> bytes \<Rightarrow> Net \<Rightarrow> (PBlock option \<times> Net) res" where
  "PE_GetBlock E hexHash s =
     rbind (GetBlock (FromHex hexHash) (world s)) (\<lambda>(block, w).
     rbind (NewPBlock E block w) (\<lambda>b. Inr (b, s\<lparr>world := w\<rparr>)))"

definition PE_GetKey :: "Env \<Rightarrow> Net \<Rightarrow> PKey res" where
  "PE_GetKey E s = rbind (Ring_Get 0 (keyRing s)) (NewPKey E)"

definition PE_GetStateObject :: "bytes \<Rightarrow> Net \<Rightarrow> (PStateObject \<times> Net) res" where
  "PE_GetStateObject addr s =
     rbind (CurrentState (sm s)) (\<lambda>r.
     rbind (GetStateObject r (FromHex addr) (world s)) (\<lambda>(obj, w).
     Inr (NewPStateObject obj, s\<lparr>world := w\<rparr>)))"

definition PE_GetPeerCount :: "Net \<Rightarrow> nat" where
  "PE_GetPeerCount s = PeerCount s"

definition PE_GetPeers :: "Net \<Rightarrow> PPeer list" where
  "PE_GetPeers s = map (\<lambda>i. NewPPeer (peerHeap s ! i)) (select_peers (\<lambda>p. connected p \<noteq> 0) s)"

definition SecretToAddress :: "Env \<Rightarrow> PubEnv \<Rightarrow> bytes \<Rightarrow> bytes res" where
  "SecretToAddress E U key =
     (case NewKeyPairFromSec (genpub U) (FromHex key) of
        None \<Rightarrow> Inr []
      | Some pair \<Rightarrow> rbind (Key_Address (sha E) pair) (\<lambda>a. Inr (Hex a)))"

definition PE_GetCoinBase :: "Env \<Rightarrow> PubEnv \<Rightarrow> Net \<Rightarrow> bytes res" where
  "PE_GetCoinBase E U s =
     rbind (NewValueFromBytes (db_Get (lit ''KeyRing'') (db (world s)))) (\<lambda>ring.
     SecretToAddress E U (Hex (Bytes (Get ring 0))))"

definition PE_GetStorage :: "PubEnv \<Rightarrow> bytes \<Rightarrow> bytes \<Rightarrow> Net \<Rightarrow> (string \<times> Net) res" where
  "PE_GetStorage U addr storageAddress s =
     rbind (PE_GetStateObject addr s) (\<lambda>(c, s).
     rbind (P_GetStorage U storageAddress c (world s)) (\<lambda>(v, w). Inr (v, s\<lparr>world := w\<rparr>)))"

definition PE_GetTxCountAt :: "bytes \<Rightarrow> Net \<Rightarrow> (int \<times> Net) res" where
  "PE_GetTxCountAt addr s = rbind (PE_GetStateObject addr s) (\<lambda>(c, s). Inr (P_Nonce c, s))"

definition PE_IsContract :: "bytes \<Rightarrow> Net \<Rightarrow> (bool \<times> Net) res" where
  "PE_IsContract addr s = rbind (PE_GetStateObject addr s) (\<lambda>(c, s). Inr (P_IsContract c, s))"

section \<open>Transactions\<close>

definition namereg :: bytes where
  "namereg = FromHex (lit ''bb5f186604d057c1c5240ca2ae0f6430138ac010'')"

text \<open>The method \<open>GetStorage\<close> of a nil object reads its state.\<close>

definition GetAddressFromNameReg :: "bytes \<Rightarrow> Net \<Rightarrow> (bytes \<times> Net) res" where
  "GetAddressFromNameReg name s =
     rbind (CurrentState (sm s)) (\<lambda>r.
     rbind (GetStateObject r namereg (world s)) (\<lambda>(found, w).
     case found of
       None \<Rightarrow> Inl NilDereference
     | Some obj \<Rightarrow> rbind (GetStorage (BigD name) obj w) (\<lambda>(reg, w). Inr (Bytes reg, s\<lparr>world := w\<rparr>))))"

text \<open>The bytes of a key: with the prefix \<open>0x\<close> it is the prefix that is decoded.\<close>

definition key_bytes :: "bytes \<Rightarrow> bytes res" where
  "key_bytes key =
     rbind (goslice key [] 0 2) (\<lambda>prefix.
     Inr (if prefix = str_0x then FromHex prefix else FromHex key))"

text \<open>The script of a new contract; an error of the compiler is \<open>None\<close>.\<close>

definition contract_script :: "PubEnv \<Rightarrow> bytes \<Rightarrow> bytes option" where
  "contract_script U scriptStr = (if IsHex scriptStr then Some (FromHex scriptStr) else compile U scriptStr)"

definition message_data :: "PubEnv \<Rightarrow> bytes \<Rightarrow> bytes res" where
  "message_data U scriptStr =
     rbind (if 0 < length scriptStr
            then rbind (goslice scriptStr [] 0 2) (\<lambda>prefix.
                 if prefix = str_0x then goslice scriptStr [] 2 (length scriptStr) else Inr scriptStr)
            else Inr scriptStr) (\<lambda>scriptStr.
     rbind (if 1 < length scriptStr \<and> take 2 scriptStr = str_0x then Inr []
            else map_res (FormatData U) (split_lines scriptStr)) (\<lambda>items.
     Inr (StringToByteFunc scriptStr (\<lambda>_. concat items))))"

text \<open>
  What follows once the key pair and the transaction are made: the nonce of the sender's account in
  the transient state, which is counted up, the signature, and the pool's channel.
\<close>

definition submitTx ::
    "NetEnv \<Rightarrow> KeyPair \<Rightarrow> Transaction \<Rightarrow> bool \<Rightarrow> Net \<Rightarrow> (PReceipt option \<times> Net) res" where
  "submitTx V keyPair tx creation s =
     (let E = net_env V; r = transState (sm s) in
      rbind (Key_Address (sha E) keyPair) (\<lambda>addr.
      rbind (GetStateObject r addr (world s)) (\<lambda>(acc, w).
      case acc of
        None \<Rightarrow> Inl NilDereference
      | Some acc \<Rightarrow>
          let tx = tx\<lparr>tx_Nonce := Nonce acc\<rparr>; acc = acc\<lparr>Nonce := Nonce acc + 1\<rparr> in
          rbind (UpdateStateObject E r acc w) (\<lambda>w.
          rbind (Sign E (PrivateKey keyPair) tx) (\<lambda>tx.
          rbind (queue_tx V tx (s\<lparr>world := w\<rparr>)) (\<lambda>s.
          rbind (CreationAddress E tx) (\<lambda>created.
          Inr (Some (NewPReciept creation created (tx_Hash E tx) addr), s))))))))"

text \<open>\<open>createTx\<close>; the receipt is \<open>None\<close> when an error is returned.\<close>

definition createTx ::
    "NetEnv \<Rightarrow> PubEnv \<Rightarrow> bytes \<Rightarrow> bytes \<Rightarrow> bytes \<Rightarrow> bytes \<Rightarrow> bytes \<Rightarrow> bytes \<Rightarrow> Net \<Rightarrow> (PReceipt option \<times> Net) res" where
  "createTx V U key recipient valueStr gasStr gasPriceStr scriptStr s =
     (let creation = length recipient = 0 in
      rbind (if creation then Inr ([], s)
             else rbind (GetAddressFromNameReg recipient s) (\<lambda>(addr, s).
                  Inr (if 0 < length addr then addr else FromHex recipient, s))) (\<lambda>(hash, s).
      rbind (key_bytes key) (\<lambda>sec.
      case NewKeyPairFromSec (genpub U) sec of
        None \<Rightarrow> Inr (None, s)
      | Some keyPair \<Rightarrow>
          let v = Big U valueStr; gas = Big U gasStr; gasPrice = Big U gasPriceStr in
          if creation then
            (case contract_script U scriptStr of
               None \<Rightarrow> Inr (None, s)
             | Some scr \<Rightarrow> submitTx V keyPair (NewContractCreationTx v gas gasPrice scr) True s)
          else
            rbind (message_data U scriptStr) (\<lambda>data.
            submitTx V keyPair (NewTransactionMessage hash v gas gasPrice data) False s))))"

definition PE_Transact where
  "PE_Transact V U key recipient valueStr gasStr gasPriceStr dataStr s =
     createTx V U key recipient valueStr gasStr gasPriceStr dataStr s"

definition PE_Create where
  "PE_Create V U key valueStr gasStr gasPriceStr scr s = createTx V U key [] valueStr gasStr gasPriceStr scr s"

end
