(* ===== verification/Rpc.thy ===== *)
theory Rpc
  imports Public
begin

text \<open>
  \<open>ethrpc/packages.go\<close> and \<open>server.go\<close>: the requests of the JSON-RPC interface. A request is
  answered with an error text or with a result, the value that is marshalled into the reply. A panic
  in a handler is not recovered by \<open>net/rpc\<close>: it ends the node.
\<close>

type_synonym 'a reply = "((string + 'a) \<times> Net) res"

text \<open>\<open>err := args.requirements(); if err != nil { return err }\<close>.\<close>

definition requiring :: "string option \<Rightarrow> Net \<Rightarrow> 'a reply \<Rightarrow> 'a reply" where
  "requiring err s k = (case err of Some msg \<Rightarrow> Inr (Inl msg, s) | None \<Rightarrow> k)"

definition NewSuccessRes :: "('a \<times> Net) res \<Rightarrow> 'a reply" where
  "NewSuccessRes r = rbind r (\<lambda>(x, s). Inr (Inr x, s))"

section \<open>Blocks\<close>

record GetBlockArgs =
  ga_BlockNumber :: int
  ga_Hash :: bytes

definition GetBlock_requirements :: "GetBlockArgs \<Rightarrow> string option" where
  "GetBlock_requirements b =
     (if ga_BlockNumber b = 0 \<and> ga_Hash b = []
      then Some ''GetBlock requires either a block 'number' or a block 'hash' as argument'' else None)"

definition Api_GetBlock :: "Env \<Rightarrow> GetBlockArgs \<Rightarrow> Net \<Rightarrow> PBlock option reply" where
  "Api_GetBlock E args s = requiring (GetBlock_requirements args) s (NewSuccessRes (PE_GetBlock E (ga_Hash args) s))"

section \<open>Transactions\<close>

record NewTxArgs =
  na_Sec :: bytes
  na_Recipient :: bytes
  na_Value :: bytes
  na_Gas :: bytes
  na_GasPrice :: bytes
  na_Init :: bytes
  na_Body :: bytes

definition Transact_requirements :: "NewTxArgs \<Rightarrow> string option" where
  "Transact_requirements a =
     (if na_Recipient a = [] then Some ''Transact requires a 'recipient' address as argument''
      else if na_Value a = [] then Some ''Transact requires a 'value' as argument''
      else if na_Gas a = [] then Some ''Transact requires a 'gas' value as argument''
      else if na_GasPrice a = [] then Some ''Transact requires a 'gasprice' value as argument''
      else None)"

definition Create_requirements :: "NewTxArgs \<Rightarrow> string option" where
  "Create_requirements a =
     (if na_Value a = [] then Some ''Create requires a 'value' as argument''
      else if na_Gas a = [] then Some ''Create requires a 'gas' value as argument''
      else if na_GasPrice a = [] then Some ''Create requires a 'gasprice' value as argument''
      else if na_Body a = [] then Some ''Create requires a 'body' value as argument''
      else None)"

text \<open>\<open>result, _ :=\<close>: the error is dropped, the result is then nil.\<close>

definition Api_Transact :: "NetEnv \<Rightarrow> PubEnv \<Rightarrow> NewTxArgs \<Rightarrow> Net \<Rightarrow> PReceipt option reply" where
  "Api_Transact V U args s =
     requiring (Transact_requirements args) s
       (rbind (PE_GetKey (net_env V) s) (\<lambda>key.
        NewSuccessRes (PE_Transact V U (pk_PrivateKey key) (na_Recipient args) (na_Value args) (na_Gas args)
          (na_GasPrice args) (na_Body args) s)))"

definition Api_Create :: "NetEnv \<Rightarrow> PubEnv \<Rightarrow> NewTxArgs \<Rightarrow> Net \<Rightarrow> PReceipt option reply" where
  "Api_Create V U args s =
     requiring (Create_requirements args) s
       (rbind (PE_GetKey (net_env V) s) (\<lambda>key.
        NewSuccessRes (PE_Create V U (pk_PrivateKey key) (na_Value args) (na_Gas args) (na_GasPrice args)
          (na_Body args) s)))"

definition Api_GetKey :: "Env \<Rightarrow> Net \<Rightarrow> PKey reply" where
  "Api_GetKey E s = NewSuccessRes (rbind (PE_GetKey E s) (\<lambda>k. Inr (k, s)))"

section \<open>Accounts\<close>

record GetStorageArgs =
  gs_Address :: bytes
  gs_Key :: bytes

definition GetStorage_requirements :: "GetStorageArgs \<Rightarrow> string option" where
  "GetStorage_requirements a =
     (if gs_Address a = [] then Some ''GetStorageAt requires an 'address' value as argument''
      else if gs_Key a = [] then Some ''GetStorageAt requires an 'key' value as argument''
      else None)"

text \<open>\<open>SetString(s, 10)\<close>: a sign and decimal digits. On failure its result is nil, whose bytes are then read.\<close>

fun scan10 :: "nat \<Rightarrow> string \<Rightarrow> nat option" where
  "scan10 acc [] = Some acc"
| "scan10 acc (c # cs) =
     (case digit_val c of
        Some d \<Rightarrow> if d < 10 then scan10 (10 * acc + d) cs else None
      | None \<Rightarrow> None)"

definition SetString10 :: "string \<Rightarrow> int option" where
  "SetString10 s =
     (let (neg, ds) = (case s of c # cs \<Rightarrow> if c = CHR ''-'' then (True, cs) else if c = CHR ''+'' then (False, cs) else (False, s)
                                | [] \<Rightarrow> (False, []))
      in if ds = [] then None else map_option (\<lambda>n. if neg then - int n else int n) (scan10 0 ds))"

record GetStorageAtRes =
  gr_Key :: bytes
  gr_Value :: string
  gr_Address :: bytes

definition Api_GetStorageAt :: "PubEnv \<Rightarrow> GetStorageArgs \<Rightarrow> Net \<Rightarrow> GetStorageAtRes reply" where
  "Api_GetStorageAt U args s =
     requiring (GetStorage_requirements args) s
       (rbind (PE_GetStateObject (gs_Address args) s) (\<lambda>(st, s).
        case SetString10 (text_of (gs_Key args)) of
          None \<Rightarrow> Inl NilDereference
        | Some i \<Rightarrow>
            NewSuccessRes
              (rbind (P_GetStorage U (Hex (big_Bytes i)) st (world s)) (\<lambda>(v, w).
               Inr (\<lparr>gr_Key = gs_Key args, gr_Value = v, gr_Address = gs_Address args\<rparr>, s\<lparr>world := w\<rparr>)))))"

definition GetTxCount_requirements :: "bytes \<Rightarrow> string option" where
  "GetTxCount_requirements addr =
     (if addr = [] then Some ''GetTxCountAt requires an 'address' value as argument'' else None)"

definition Api_GetTxCountAt :: "bytes \<Rightarrow> Net \<Rightarrow> int reply" where
  "Api_GetTxCountAt addr s =
     requiring (GetTxCount_requirements addr) s (NewSuccessRes (PE_GetTxCountAt addr s))"

definition GetBalance_requirements :: "bytes \<Rightarrow> string option" where
  "GetBalance_requirements addr =
     (if addr = [] then Some ''GetBalanceAt requires an 'address' value as argument'' else None)"

record BalanceRes =
  br_Balance :: string
  br_Address :: bytes

definition Api_GetBalanceAt :: "bytes \<Rightarrow> Net \<Rightarrow> BalanceRes reply" where
  "Api_GetBalanceAt addr s =
     requiring (GetBalance_requirements addr) s
       (NewSuccessRes
         (rbind (PE_GetStateObject addr s) (\<lambda>(st, s). Inr (\<lparr>br_Balance = P_Value st, br_Address = addr\<rparr>, s))))"

section \<open>The node\<close>

definition Api_GetPeerCount :: "Net \<Rightarrow> nat reply" where
  "Api_GetPeerCount s = NewSuccessRes (Inr (PE_GetPeerCount s, s))"

definition Api_GetCoinbase :: "Env \<Rightarrow> PubEnv \<Rightarrow> Net \<Rightarrow> bytes reply" where
  "Api_GetCoinbase E U s = NewSuccessRes (rbind (PE_GetCoinBase E U s) (\<lambda>c. Inr (c, s)))"

definition Api_Test :: "GetBlockArgs \<Rightarrow> Net \<Rightarrow> int reply" where
  "Api_Test args s = NewSuccessRes (Inr (15, s))"

end
