(* ===== verification/Upnp.thy ===== *)
theory Upnp
  imports Addr
begin

text \<open>
  \<open>nat.go\<close>, \<open>natupnp.go\<close>, \<open>natpmp.go\<close> and the renewal thread of \<open>ethereum.go\<close>: how the node finds
  a gateway and asks it to forward its port. What answers over the network (HTTP, SSDP, NAT-PMP)
  and the XML decoder are parameters: functions that may change a world \<open>'w\<close>, the gateway's own
  state included. An error is its text.
\<close>

section \<open>Strings\<close>

text \<open>\<open>strings.Index\<close>: the first position of \<open>p\<close> in \<open>s\<close>, or -1.\<close>

fun find_sub :: "bytes \<Rightarrow> bytes \<Rightarrow> nat option" where
  "find_sub p [] = (if p = [] then Some 0 else None)"
| "find_sub p (c # cs) =
     (if take (length p) (c # cs) = p then Some 0 else map_option Suc (find_sub p cs))"

definition Index :: "bytes \<Rightarrow> bytes \<Rightarrow> int" where
  "Index s p = (case find_sub p s of None \<Rightarrow> -1 | Some i \<Rightarrow> int i)"

text \<open>\<open>strings.ToLower\<close>: a text that is not ASCII goes through the Unicode tables, the argument \<open>u\<close>.\<close>

definition is_upper :: "byte \<Rightarrow> bool" where
  "is_upper b \<longleftrightarrow> 0x41 \<le> b \<and> b \<le> 0x5a"

definition ToLower :: "(bytes \<Rightarrow> bytes) \<Rightarrow> bytes \<Rightarrow> bytes" where
  "ToLower u s =
     (if \<forall>b \<in> set s. b < 0x80 then map (\<lambda>b. if is_upper b then b + 0x20 else b) s else u s)"

text \<open>The conversion \<open>string(n)\<close> of an integer: the UTF-8 encoding of the code point \<open>n\<close>.\<close>

definition rune_string :: "int \<Rightarrow> bytes" where
  "rune_string n =
     (if n < 0 \<or> n > 0x10FFFF \<or> 0xD800 \<le> n \<and> n \<le> 0xDFFF then [0xEF, 0xBF, 0xBD]
      else if n < 0x80 then [of_int n]
      else if n < 0x800 then [of_int (0xC0 + n div 64), of_int (0x80 + n mod 64)]
      else if n < 0x10000 then
        [of_int (0xE0 + n div 4096), of_int (0x80 + n div 64 mod 64), of_int (0x80 + n mod 64)]
      else [of_int (0xF0 + n div 262144), of_int (0x80 + n div 4096 mod 64),
            of_int (0x80 + n div 64 mod 64), of_int (0x80 + n mod 64)])"

text \<open>
  \<open>strconv.ParseInt(s, 10, 16)\<close> without its error: 0 for what is not a number, the nearest
  number of 16 bits with a sign for one that is out of range.
\<close>

fun uint16_digits :: "int \<Rightarrow> bytes \<Rightarrow> int option" where
  "uint16_digits n [] = Some n"
| "uint16_digits n (d # ds) =
     (if \<not> is_digit d then None
      else let n1 = 10 * n + (uint d - 48) in
           if n1 > 65535 then Some 65535 else uint16_digits n1 ds)"

definition ParseInt16 :: "bytes \<Rightarrow> int" where
  "ParseInt16 s =
     (let (neg, ds) = (case s of [] \<Rightarrow> (False, [])
                       | c # cs \<Rightarrow> if c = 0x2d then (True, cs) else if c = 0x2b then (False, cs) else (False, s))
      in if ds = [] then 0
         else case uint16_digits 0 ds of
                None \<Rightarrow> 0
              | Some un \<Rightarrow> if \<not> neg \<and> un \<ge> 32768 then 32767
                           else if neg \<and> un > 32768 then - 32768
                           else if neg then - un else un)"

section \<open>What the code calls\<close>

type_synonym nat_error = bytes

text \<open>Quotation marks and line ends of the messages.\<close>

definition quoted :: "bytes \<Rightarrow> bytes" where
  "quoted s = 0x22 # s @ [0x22]"

definition crlf :: bytes where
  "crlf = [0x0d, 0x0a]"

record Request =
  Method :: bytes
  URL :: bytes
  Header :: "(bytes \<times> bytes) list"
  ReqBody :: bytes

record Response =
  StatusCode :: int
  Body :: bytes

record XmlName =
  Space :: bytes
  Local :: bytes

record service =
  ServiceType :: bytes
  ControlURL :: bytes

record serviceList =
  ServiceListXMLName :: XmlName
  Service :: "service list"

text \<open>
  A device has a list of devices, each with a list of its own: \<open>deviceList\<close> is stated for any type of
  its elements, and \<open>device\<close> recurses through it.
\<close>

datatype 'd deviceList =
  DevList (DevListXMLName: XmlName) (Device: "'d list")

datatype device =
  Dev (DevXMLName: XmlName) (DeviceType: bytes) (DeviceList: "device deviceList") (ServiceList: serviceList)

record specVersion =
  SpecXMLName :: XmlName
  Major :: int
  Minor :: int

record root =
  RootXMLName :: XmlName
  SpecVersion :: specVersion
  RootDevice :: device

text \<open>
  The network as this code sees it. \<open>http_Get\<close>, \<open>http_Do\<close> and the two UDP calls have an effect;
  \<open>bad_url\<close> is the error of \<open>http.NewRequest\<close>, \<open>xml_decode\<close> the decoder of a body,
  \<open>lookup_ip\<close> the addresses of a name, with an error beside them, as texts.
\<close>

record 'w Services =
  resolve_udp :: "bytes \<Rightarrow> nat_error option"
  listen_udp :: "nat_error option"
  set_deadline :: "nat_error option"
  udp_write :: "bytes \<Rightarrow> 'w \<Rightarrow> nat_error option \<times> 'w"
  udp_read :: "'w \<Rightarrow> (nat_error + bytes) \<times> 'w"
  http_Get :: "bytes \<Rightarrow> 'w \<Rightarrow> (nat_error + Response) \<times> 'w"
  http_Do :: "Request \<Rightarrow> 'w \<Rightarrow> (nat_error + Response) \<times> 'w"
  bad_url :: "bytes \<Rightarrow> nat_error option"
  xml_decode :: "bytes \<Rightarrow> nat_error + root"
  host_name :: "nat_error + bytes"
  lookup_ip :: "bytes \<Rightarrow> bytes list \<times> nat_error option"
  unicode_lower :: "bytes \<Rightarrow> bytes"
  parse_ip :: "bytes \<Rightarrow> bytes"

section \<open>Finding the gateway\<close>

definition getChildDevice :: "device \<Rightarrow> bytes \<Rightarrow> device option" where
  "getChildDevice d t = find (\<lambda>x. DeviceType x = t) (Device (DeviceList d))"

definition getChildService :: "device \<Rightarrow> bytes \<Rightarrow> service option" where
  "getChildService d t = find (\<lambda>x. ServiceType x = t) (Service (ServiceList d))"

text \<open>\<open>err != nil && len(p) > 0\<close> lets a failed lookup through to \<open>p[0]\<close>.\<close>

definition getOurIP :: "'w Services \<Rightarrow> (nat_error + bytes) res" where
  "getOurIP S =
     (case host_name S of
        Inl e \<Rightarrow> Inr (Inl e)
      | Inr hostname \<Rightarrow>
          let (p, err) = lookup_ip S hostname in
          if err \<noteq> None \<and> length p > 0 then Inr (Inl (the err))
          else rbind (goindex p 0) (\<lambda>ip. Inr (Inr ip)))"

definition combineURL :: "bytes \<Rightarrow> bytes \<Rightarrow> bytes res" where
  "combineURL rootURL subURL =
     (let protocolEnd = lit ''://'';
          protoEndIndex = Index rootURL protocolEnd in
      rbind (gosliceI rootURL [] (protoEndIndex + int (length protocolEnd)) (int (length rootURL))) (\<lambda>a.
      let rootIndex = Index a (lit ''/'') in
      rbind (gosliceI rootURL [] 0 (protoEndIndex + int (length protocolEnd) + rootIndex)) (\<lambda>base.
      Inr (base @ subURL))))"

definition device_urn :: "string \<Rightarrow> bytes" where
  "device_urn n = lit ''urn:schemas-upnp-org:device:'' @ lit n @ lit '':1''"

definition service_urn :: "string \<Rightarrow> bytes" where
  "service_urn n = lit ''urn:schemas-upnp-org:service:'' @ lit n @ lit '':1''"

definition getServiceURL :: "'w Services \<Rightarrow> bytes \<Rightarrow> 'w \<Rightarrow> ((nat_error + bytes) \<times> 'w) res" where
  "getServiceURL S rootURL w =
     (case http_Get S rootURL w of
        (Inl e, w1) \<Rightarrow> Inr (Inl e, w1)
      | (Inr r, w1) \<Rightarrow>
          if StatusCode r \<ge> 400 then Inr (Inl (rune_string (StatusCode r)), w1)
          else case xml_decode S (Body r) of
            Inl e \<Rightarrow> Inr (Inl e, w1)
          | Inr root \<Rightarrow>
              let a = RootDevice root in
              if DeviceType a \<noteq> device_urn ''InternetGatewayDevice''
              then Inr (Inl (lit ''No InternetGatewayDevice''), w1)
              else case getChildDevice a (device_urn ''WANDevice'') of
                None \<Rightarrow> Inr (Inl (lit ''No WANDevice''), w1)
              | Some b \<Rightarrow>
                  case getChildDevice b (device_urn ''WANConnectionDevice'') of
                    None \<Rightarrow> Inr (Inl (lit ''No WANConnectionDevice''), w1)
                  | Some c \<Rightarrow>
                      case getChildService c (service_urn ''WANIPConnection'') of
                        None \<Rightarrow> Inr (Inl (lit ''No WANIPConnection''), w1)
                      | Some d \<Rightarrow>
                          rbind (combineURL rootURL (ControlURL d)) (\<lambda>url. Inr (Inr url, w1)))"

record upnpNAT =
  serviceURL :: bytes
  ourIP :: bytes

definition search_target :: bytes where
  "search_target = lit ''ST: urn:schemas-upnp-org:device:InternetGatewayDevice:1'' @ crlf"

definition search_message :: bytes where
  "search_message =
     lit ''M-SEARCH * HTTP/1.1'' @ crlf @ lit ''HOST: 239.255.255.250:1900'' @ crlf @ search_target @
     lit ''MAN: '' @ quoted (lit ''ssdp:discover'') @ crlf @ lit ''MX: 2'' @ crlf @ crlf"

text \<open>
  The location in an answer: \<open>None\<close> stands for \<open>continue\<close>. The search target is looked for in the
  answer as it came, the header's name in lower case, and what follows is lower case, too.
\<close>

definition answer_location :: "(bytes \<Rightarrow> bytes) \<Rightarrow> bytes \<Rightarrow> bytes option res" where
  "answer_location u answer =
     (if Index answer (crlf @ search_target) < 0 then Inr None
      else
        let locString = crlf @ lit ''location: ''; answer = ToLower u answer;
            locIndex = Index answer locString in
        if locIndex < 0 then Inr None
        else rbind (gosliceI answer [] (locIndex + int (length locString)) (int (length answer))) (\<lambda>loc.
             let endIndex = Index loc crlf in
             if endIndex < 0 then Inr None
             else rbind (gosliceI loc [] 0 endIndex) (\<lambda>locURL. Inr (Some locURL))))"

text \<open>The loop over three rounds; \<open>n\<close> rounds are left. A datagram is cut at 1024 bytes.\<close>

fun discover_rounds :: "'w Services \<Rightarrow> nat \<Rightarrow> 'w \<Rightarrow> ((nat_error + upnpNAT) \<times> 'w) res" where
  "discover_rounds S 0 w = Inr (Inl (lit ''UPnP port discovery failed.''), w)"
| "discover_rounds S (Suc n) w =
     (case udp_write S search_message w of
        (Some e, w1) \<Rightarrow> Inr (Inl e, w1)
      | (None, w1) \<Rightarrow>
          case udp_read S w1 of
            (Inl e, w2) \<Rightarrow> discover_rounds S n w2
          | (Inr datagram, w2) \<Rightarrow>
              rbind (answer_location (unicode_lower S) (take 1024 datagram)) (\<lambda>location.
              case location of
                None \<Rightarrow> discover_rounds S n w2
              | Some locURL \<Rightarrow>
                  rbind (getServiceURL S locURL w2) (\<lambda>(su, w3).
                  case su of
                    Inl e \<Rightarrow> Inr (Inl e, w3)
                  | Inr url \<Rightarrow>
                      rbind (getOurIP S) (\<lambda>ip.
                      case ip of
                        Inl e \<Rightarrow> Inr (Inl e, w3)
                      | Inr ip \<Rightarrow> Inr (Inr \<lparr>serviceURL = url, ourIP = ip\<rparr>, w3)))))"

definition Discover :: "'w Services \<Rightarrow> 'w \<Rightarrow> ((nat_error + upnpNAT) \<times> 'w) res" where
  "Discover S w =
     (case resolve_udp S (lit ''239.255.255.250:1900'') of
        Some e \<Rightarrow> Inr (Inl e, w)
      | None \<Rightarrow>
          case listen_udp S of
            Some e \<Rightarrow> Inr (Inl e, w)
          | None \<Rightarrow>
              case set_deadline S of
                Some e \<Rightarrow> Inr (Inl e, w)
              | None \<Rightarrow> discover_rounds S 3 w)"

section \<open>The two implementations of the interface\<close>

text \<open>A value of type \<open>NAT\<close>: its three methods.\<close>

record 'w NAT =
  GetExternalAddress :: "'w \<Rightarrow> (nat_error + bytes) \<times> 'w"
  AddPortMapping :: "bytes \<Rightarrow> int \<Rightarrow> int \<Rightarrow> bytes \<Rightarrow> int \<Rightarrow> 'w \<Rightarrow> (nat_error + int) \<times> 'w"
  DeletePortMapping :: "bytes \<Rightarrow> int \<Rightarrow> int \<Rightarrow> 'w \<Rightarrow> nat_error option \<times> 'w"

definition soap_body :: "bytes \<Rightarrow> bytes" where
  "soap_body message =
     lit ''<?xml version='' @ quoted (lit ''1.0'') @ lit '' ?>'' @
     lit ''<s:Envelope xmlns:s='' @ quoted (lit ''http://schemas.xmlsoap.org/soap/envelope/'') @
     lit '' s:encodingStyle='' @ quoted (lit ''http://schemas.xmlsoap.org/soap/encoding/'') @ lit ''>'' @ crlf @
     lit ''<s:Body>'' @ message @ lit ''</s:Body></s:Envelope>''"

definition soap_request :: "bytes \<Rightarrow> bytes \<Rightarrow> bytes \<Rightarrow> Request" where
  "soap_request url function message =
     \<lparr>Method = lit ''POST'', URL = url,
      Header =
        [(lit ''Content-Type'', lit ''text/xml ; charset='' @ quoted (lit ''utf-8'')),
         (lit ''User-Agent'', lit ''Darwin/10.0.0, UPnP/1.0, MiniUPnPc/1.3''),
         (lit ''SOAPAction'', quoted (lit ''urn:schemas-upnp-org:service:WANIPConnection:1#'' @ function)),
         (lit ''Connection'', lit ''Close''),
         (lit ''Cache-Control'', lit ''no-cache''),
         (lit ''Pragma'', lit ''no-cache'')],
      ReqBody = soap_body message\<rparr>"

definition soapRequest ::
  "'w Services \<Rightarrow> bytes \<Rightarrow> bytes \<Rightarrow> bytes \<Rightarrow> 'w \<Rightarrow> (nat_error + Response) \<times> 'w" where
  "soapRequest S url function message w =
     (case bad_url S url of
        Some e \<Rightarrow> (Inl e, w)
      | None \<Rightarrow>
          case http_Do S (soap_request url function message) w of
            (Inl e, w1) \<Rightarrow> (Inl e, w1)
          | (Inr r, w1) \<Rightarrow>
              if StatusCode r \<ge> 400
              then (Inl (lit ''Error '' @ Itoa (StatusCode r) @ lit '' for '' @ function), w1)
              else (Inr r, w1))"

definition soap_element :: "bytes \<Rightarrow> bytes" where
  "soap_element function =
     lit ''<u:'' @ function @ lit '' xmlns:u='' @ quoted (lit ''urn:schemas-upnp-org:service:WANIPConnection:1'') @
     lit ''>'' @ crlf"

record statusInfo =
  externalIpAddress :: bytes

text \<open>The reply is not parsed: the address is always empty.\<close>

definition getStatusInfo :: "'w Services \<Rightarrow> upnpNAT \<Rightarrow> 'w \<Rightarrow> (nat_error + statusInfo) \<times> 'w" where
  "getStatusInfo S n w =
     (case soapRequest S (serviceURL n) (lit ''GetStatusInfo'')
             (soap_element (lit ''GetStatusInfo'') @ lit ''</u:GetStatusInfo>'') w of
        (Inl e, w1) \<Rightarrow> (Inl e, w1)
      | (Inr r, w1) \<Rightarrow> (Inr \<lparr>externalIpAddress = []\<rparr>, w1))"

definition upnp_GetExternalAddress :: "'w Services \<Rightarrow> upnpNAT \<Rightarrow> 'w \<Rightarrow> (nat_error + bytes) \<times> 'w" where
  "upnp_GetExternalAddress S n w =
     (case getStatusInfo S n w of
        (Inl e, w1) \<Rightarrow> (Inl e, w1)
      | (Inr i, w1) \<Rightarrow> (Inr (parse_ip S (externalIpAddress i)), w1))"

definition add_message :: "bytes \<Rightarrow> bytes \<Rightarrow> int \<Rightarrow> int \<Rightarrow> bytes \<Rightarrow> int \<Rightarrow> bytes" where
  "add_message ip protocol externalPort internalPort description timeout =
     soap_element (lit ''AddPortMapping'') @
     lit ''<NewRemoteHost></NewRemoteHost><NewExternalPort>'' @ Itoa externalPort @
     lit ''</NewExternalPort><NewProtocol>'' @ protocol @ lit ''</NewProtocol>'' @
     lit ''<NewInternalPort>'' @ Itoa internalPort @ lit ''</NewInternalPort>'' @
     lit ''<NewInternalClient>'' @ ip @ lit ''</NewInternalClient>'' @
     lit ''<NewEnabled>1</NewEnabled><NewPortMappingDescription>'' @ description @
     lit ''</NewPortMappingDescription><NewLeaseDuration>'' @ Itoa timeout @
     lit ''</NewLeaseDuration></u:AddPortMapping>''"

definition upnp_AddPortMapping ::
  "'w Services \<Rightarrow> upnpNAT \<Rightarrow> bytes \<Rightarrow> int \<Rightarrow> int \<Rightarrow> bytes \<Rightarrow> int \<Rightarrow> 'w \<Rightarrow> (nat_error + int) \<times> 'w" where
  "upnp_AddPortMapping S n protocol externalPort internalPort description timeout w =
     (case soapRequest S (serviceURL n) (lit ''AddPortMapping'')
             (add_message (ourIP n) protocol externalPort internalPort description timeout) w of
        (Inl e, w1) \<Rightarrow> (Inl e, w1)
      | (Inr r, w1) \<Rightarrow> (Inr externalPort, w1))"

definition delete_message :: "bytes \<Rightarrow> int \<Rightarrow> bytes" where
  "delete_message protocol externalPort =
     soap_element (lit ''DeletePortMapping'') @
     lit ''<NewRemoteHost></NewRemoteHost><NewExternalPort>'' @ Itoa externalPort @
     lit ''</NewExternalPort><NewProtocol>'' @ protocol @ lit ''</NewProtocol>'' @
     lit ''</u:DeletePortMapping>''"

definition upnp_DeletePortMapping ::
  "'w Services \<Rightarrow> upnpNAT \<Rightarrow> bytes \<Rightarrow> int \<Rightarrow> int \<Rightarrow> 'w \<Rightarrow> nat_error option \<times> 'w" where
  "upnp_DeletePortMapping S n protocol externalPort internalPort w =
     (case soapRequest S (serviceURL n) (lit ''DeletePortMapping'')
             (delete_message protocol externalPort) w of
        (Inl e, w1) \<Rightarrow> (Some e, w1)
      | (Inr r, w1) \<Rightarrow> (None, w1))"

definition upnp_NAT :: "'w Services \<Rightarrow> upnpNAT \<Rightarrow> 'w NAT" where
  "upnp_NAT S n =
     \<lparr>GetExternalAddress = upnp_GetExternalAddress S n,
      AddPortMapping = upnp_AddPortMapping S n,
      DeletePortMapping = upnp_DeletePortMapping S n\<rparr>"

text \<open>
  The client of \<open>go-nat-pmp\<close> is a parameter: the request for the external address, answered by its
  four bytes, and the request for a mapping (protocol, internal port, external port, lifetime).
\<close>

record 'w natpmp_client =
  pmp_external :: "'w \<Rightarrow> (nat_error + byte \<times> byte \<times> byte \<times> byte) \<times> 'w"
  pmp_mapping :: "bytes \<Rightarrow> int \<Rightarrow> int \<Rightarrow> int \<Rightarrow> 'w \<Rightarrow> (nat_error + 16 word) \<times> 'w"

text \<open>\<open>net.IPv4\<close>.\<close>

definition IPv4 :: "byte \<Rightarrow> byte \<Rightarrow> byte \<Rightarrow> byte \<Rightarrow> bytes" where
  "IPv4 a b c d = replicate 10 0 @ [0xff, 0xff, a, b, c, d]"

definition pmp_GetExternalAddress :: "'w natpmp_client \<Rightarrow> 'w \<Rightarrow> (nat_error + bytes) \<times> 'w" where
  "pmp_GetExternalAddress C w =
     (case pmp_external C w of
        (Inl e, w1) \<Rightarrow> (Inl e, w1)
      | (Inr (a, b, c, d), w1) \<Rightarrow> (Inr (IPv4 a b c d), w1))"

definition pmp_AddPortMapping ::
  "'w natpmp_client \<Rightarrow> bytes \<Rightarrow> int \<Rightarrow> int \<Rightarrow> bytes \<Rightarrow> int \<Rightarrow> 'w \<Rightarrow> (nat_error + int) \<times> 'w" where
  "pmp_AddPortMapping C protocol externalPort internalPort description timeout w =
     (if timeout \<le> 0 then (Inl (lit ''timeout must not be <= 0''), w)
      else case pmp_mapping C protocol internalPort externalPort timeout w of
        (Inl e, w1) \<Rightarrow> (Inl e, w1)
      | (Inr p, w1) \<Rightarrow> (Inr (uint p), w1))"

definition pmp_DeletePortMapping ::
  "'w natpmp_client \<Rightarrow> bytes \<Rightarrow> int \<Rightarrow> int \<Rightarrow> 'w \<Rightarrow> nat_error option \<times> 'w" where
  "pmp_DeletePortMapping C protocol externalPort internalPort w =
     (case pmp_mapping C protocol internalPort 0 0 w of
        (Inl e, w1) \<Rightarrow> (Some e, w1)
      | (Inr _, w1) \<Rightarrow> (None, w1))"

definition pmp_NAT :: "'w natpmp_client \<Rightarrow> 'w NAT" where
  "pmp_NAT C =
     \<lparr>GetExternalAddress = pmp_GetExternalAddress C,
      AddPortMapping = pmp_AddPortMapping C,
      DeletePortMapping = pmp_DeletePortMapping C\<rparr>"

section \<open>The renewal thread\<close>

text \<open>
  \<open>timer\<close> is the time, in seconds, at which the timer fires, \<open>None\<close> once it has fired or was stopped.
  \<open>removed\<close> is the result of the deletion at the end. The clock is read off the world: calls take time.
\<close>

record upnp_thread =
  timer :: "int option"
  is_first :: bool
  running :: bool
  removed :: "nat_error option option"

definition thread_start :: "int \<Rightarrow> upnp_thread" where
  "thread_start t0 = \<lparr>timer = Some (t0 + 5 * 60), is_first = True, running = True, removed = None\<rparr>"

definition tcp :: bytes where "tcp = lit ''TCP''"

definition thread_finish :: "'w NAT \<Rightarrow> int \<Rightarrow> upnp_thread \<Rightarrow> 'w \<Rightarrow> upnp_thread \<times> 'w" where
  "thread_finish N lport t w =
     (let (err, w1) = DeletePortMapping N tcp lport lport w in
      (t\<lparr>timer := None, running := False, removed := Some err\<rparr>, w1))"

definition thread_fire :: "'w NAT \<Rightarrow> ('w \<Rightarrow> int) \<Rightarrow> int \<Rightarrow> upnp_thread \<Rightarrow> 'w \<Rightarrow> upnp_thread \<times> 'w" where
  "thread_fire N clk lport t w =
     (case AddPortMapping N tcp lport lport (lit ''eth listen port'') (20 * 60) w of
        (Inl e, w1) \<Rightarrow> thread_finish N lport t w1
      | (Inr _, w1) \<Rightarrow>
          if is_first t then
            (case GetExternalAddress N w1 of
               (Inl e, w2) \<Rightarrow> (t\<lparr>timer := None\<rparr>, w2)
             | (Inr _, w2) \<Rightarrow> (t\<lparr>is_first := False, timer := Some (clk w2 + 15 * 60)\<rparr>, w2))
          else (t\<lparr>timer := Some (clk w1 + 15 * 60)\<rparr>, w1))"

text \<open>
  The select: the timer fires, at its time or later, or the server's channel \<open>quit\<close> is closed. Between
  two events time passes and the gateway may do what \<open>env\<close> allows.
\<close>

inductive upnp_step ::
    "'w NAT \<Rightarrow> ('w \<Rightarrow> int) \<Rightarrow> int \<Rightarrow> ('w \<Rightarrow> 'w \<Rightarrow> bool) \<Rightarrow> upnp_thread \<times> 'w \<Rightarrow> upnp_thread \<times> 'w \<Rightarrow> bool"
  for N :: "'w NAT" and clk :: "'w \<Rightarrow> int" and lport :: int and env :: "'w \<Rightarrow> 'w \<Rightarrow> bool"
where
  fire: "running t \<Longrightarrow> timer t = Some d \<Longrightarrow> d \<le> clk w \<Longrightarrow> upnp_step N clk lport env (t, w) (thread_fire N clk lport t w)"
| quit: "running t \<Longrightarrow> upnp_step N clk lport env (t, w) (thread_finish N lport t w)"
| gateway: "env w w' \<Longrightarrow> upnp_step N clk lport env (t, w) (t, w')"

definition upnpUpdateThread ::
    "'w NAT \<Rightarrow> ('w \<Rightarrow> int) \<Rightarrow> bytes \<Rightarrow> ('w \<Rightarrow> 'w \<Rightarrow> bool) \<Rightarrow> int \<Rightarrow> 'w \<Rightarrow> upnp_thread \<times> 'w \<Rightarrow> bool" where
  "upnpUpdateThread N clk portText env t0 w =
     (upnp_step N clk (ParseInt16 portText) env)\<^sup>*\<^sup>* (thread_start t0, w)"

end
