(* ===== verification/Upnp_Messages.thy ===== *)
theory Upnp_Messages
  imports Upnp
begin

text \<open>
  What a discovered gateway's address is made of, and what the messages to it say: a reader that
  takes the text after each tag finds the arguments of the call again.
\<close>

section \<open>Substrings and URLs\<close>

lemma find_sub_Some:
  "find_sub p s = Some i \<Longrightarrow> i + length p \<le> length s \<and> take (length p) (drop i s) = p"
proof (induction p s arbitrary: i rule: find_sub.induct)
  case (2 p c cs)
  then show ?case
    by (cases "take (length p) (c # cs) = p") (auto dest: arg_cong [where f = length])
qed (auto split: if_splits)

lemma find_sub_None: "p \<noteq> [] \<Longrightarrow> hd p \<notin> set s \<Longrightarrow> find_sub p s = None"
  by (induction p s rule: find_sub.induct) (auto simp: neq_Nil_conv)

lemma find_sub_skip: "p \<noteq> [] \<Longrightarrow> hd p \<notin> set a \<Longrightarrow> find_sub p (a @ p @ b) = Some (length a)"
proof (induction a)
  case Nil
  then show ?case by (cases p) auto
next
  case (Cons c a)
  then show ?case by (cases p) auto
qed

lemma Index_bounds: "0 \<le> Index s p \<Longrightarrow> Index s p + int (length p) \<le> int (length s)"
  unfolding Index_def by (auto split: option.splits dest: find_sub_Some)

lemma Index_ge: "- 1 \<le> Index s p"
  unfolding Index_def by (auto split: option.splits)

lemma Index_skip: "p \<noteq> [] \<Longrightarrow> hd p \<notin> set a \<Longrightarrow> Index (a @ p @ b) p = int (length a)"
  unfolding Index_def by (simp add: find_sub_skip)

lemma Index_absent: "p \<noteq> [] \<Longrightarrow> hd p \<notin> set s \<Longrightarrow> Index s p = - 1"
  unfolding Index_def by (simp add: find_sub_None)

lemma lit_slash: "lit ''/'' = [0x2f]" and lit_protocol: "lit ''://'' = [0x3a, 0x2f, 0x2f]"
  by (simp_all add: lit_def)

lemma gosliceI_suffix: "n = int (length a) \<Longrightarrow> m = int (length (a @ b)) \<Longrightarrow> gosliceI (a @ b) [] n m = Inr b"
  by (simp add: gosliceI_def)

lemma gosliceI_prefix: "n = int (length a) \<Longrightarrow> gosliceI (a @ b) [] 0 n = Inr a"
  by (simp add: gosliceI_def)

lemma combineURL_parts:
  assumes "0x3a \<notin> set scheme"
  shows "combineURL (scheme @ lit ''://'' @ rest) sub =
           rbind (gosliceI (scheme @ lit ''://'' @ rest) [] 0 (int (length scheme) + 3 + Index rest (lit ''/'')))
             (\<lambda>base. Inr (base @ sub))"
proof -
  have "Index (scheme @ lit ''://'' @ rest) (lit ''://'') = int (length scheme)"
    using Index_skip [of "lit ''://''" scheme rest] assms by (simp add: lit_protocol)
  moreover have "gosliceI (scheme @ lit ''://'' @ rest) [] (int (length scheme) + 3) (int (length (scheme @ lit ''://'' @ rest))) = Inr rest"
    using gosliceI_suffix [of "int (length scheme) + 3" "scheme @ lit ''://''" _ rest] by (simp add: lit_protocol)
  ultimately show ?thesis
    unfolding combineURL_def Let_def by (simp add: lit_protocol)
qed

lemma combineURL_at_root:
  assumes "0x3a \<notin> set scheme" "0x2f \<notin> set hostport"
  shows "combineURL (scheme @ lit ''://'' @ hostport @ lit ''/'' @ path) sub =
           Inr (scheme @ lit ''://'' @ hostport @ sub)"
proof -
  have "Index (hostport @ lit ''/'' @ path) (lit ''/'') = int (length hostport)"
    using Index_skip [of "lit ''/''" hostport path] assms by (simp add: lit_slash)
  moreover have "gosliceI ((scheme @ lit ''://'' @ hostport) @ lit ''/'' @ path) [] 0 (int (length scheme) + 3 + int (length hostport)) =
      Inr (scheme @ lit ''://'' @ hostport)"
    by (rule gosliceI_prefix) (simp add: lit_protocol)
  ultimately show ?thesis
    using combineURL_parts [OF assms(1), of "hostport @ lit ''/'' @ path" sub] by simp
qed

text \<open>Without a slash after the host, the host is lost: what is left ends in one slash.\<close>

lemma combineURL_without_path:
  assumes "0x3a \<notin> set scheme" "0x2f \<notin> set hostport"
  shows "combineURL (scheme @ lit ''://'' @ hostport) sub = Inr (scheme @ lit '':/'' @ sub)"
proof -
  have "Index hostport (lit ''/'') = - 1" using Index_absent [of "lit ''/''" hostport] assms by (simp add: lit_slash)
  moreover have "gosliceI ((scheme @ lit '':/'') @ lit ''/'' @ hostport) [] 0 (int (length scheme) + 3 + - 1) =
      Inr (scheme @ lit '':/'')"
    by (rule gosliceI_prefix) (simp add: lit_def)
  ultimately show ?thesis
    using combineURL_parts [OF assms(1), of hostport sub] by (simp add: lit_def)
qed

lemma combineURL_without_path_example:
  "combineURL (lit ''http://192.168.0.1'') (lit ''/ctl'') = Inr (lit ''http://ctl'')"
  using combineURL_without_path [of "lit ''http''" "lit ''192.168.0.1''" "lit ''/ctl''"]
  by (simp add: lit_def)

section \<open>Discovery\<close>

text \<open>Reading an answer never goes out of bounds.\<close>

lemma answer_location_total: "\<exists>x. answer_location u answer = Inr x"
proof (cases "Index answer (crlf @ search_target) < 0")
  case True
  then show ?thesis by (simp add: answer_location_def)
next
  case False
  let ?s = "ToLower u answer" and ?p = "crlf @ lit ''location: ''"
  show ?thesis
  proof (cases "Index ?s ?p < 0")
    case True
    with False show ?thesis by (simp add: answer_location_def Let_def)
  next
    case b: False
    with Index_bounds [of ?s ?p]
    obtain loc where l: "gosliceI ?s [] (Index ?s ?p + int (length ?p)) (int (length ?s)) = Inr loc"
      by (auto simp: gosliceI_def)
    have "0 \<le> Index loc crlf \<Longrightarrow> \<exists>x. gosliceI loc [] 0 (Index loc crlf) = Inr x"
      using Index_bounds [of loc crlf] by (auto simp: gosliceI_def)
    with False b l show ?thesis
      by (auto simp: answer_location_def Let_def not_less)
  qed
qed

text \<open>
  What an answer must say for its location to be used: it repeats the search target, and in lower
  case it has a line with the location.
\<close>

definition announces :: "(bytes \<Rightarrow> bytes) \<Rightarrow> bytes \<Rightarrow> bytes \<Rightarrow> bool" where
  "announces u answer loc \<longleftrightarrow>
     (\<exists>a b. answer = a @ crlf @ search_target @ b) \<and>
     (\<exists>a b. ToLower u answer = a @ crlf @ lit ''location: '' @ loc @ crlf @ b)"

lemma Index_split:
  assumes "0 \<le> Index s p"
  shows "s = take (nat (Index s p)) s @ p @ drop (nat (Index s p) + length p) s"
proof -
  from assms obtain i where i: "find_sub p s = Some i" "Index s p = int i"
    by (auto simp: Index_def split: option.splits)
  have "s = take i s @ take (length p) (drop i s) @ drop (length p) (drop i s)" by (simp only: append_take_drop_id)
  with find_sub_Some [OF i(1)] i(2) show ?thesis by (simp add: add.commute)
qed

lemma answer_location_sound:
  assumes "answer_location u answer = Inr (Some loc)"
  shows "announces u answer loc"
proof -
  let ?s = "ToLower u answer" and ?p = "crlf @ lit ''location: ''"
  from assms obtain rest where t: "0 \<le> Index answer (crlf @ search_target)" and l: "0 \<le> Index ?s ?p"
    and r: "gosliceI ?s [] (Index ?s ?p + int (length ?p)) (int (length ?s)) = Inr rest"
    and e: "0 \<le> Index rest crlf" "gosliceI rest [] 0 (Index rest crlf) = Inr loc"
    by (auto simp: answer_location_def Let_def rbind_Inr_iff not_less split: if_splits)
  define j where "j = nat (Index ?s ?p) + length ?p"
  have "nat (Index ?s ?p + int (length ?p)) = j" using l by (simp add: j_def nat_add_distrib)
  with r have "rest = drop j ?s"
    by (auto simp: gosliceI_def split: if_splits)
  with Index_split [OF l] have s: "?s = take (nat (Index ?s ?p)) ?s @ ?p @ rest" by (simp add: j_def)
  from e(2) have "loc = take (nat (Index rest crlf)) rest" by (auto simp: gosliceI_def split: if_splits)
  with Index_split [OF e(1)] have "rest = loc @ crlf @ drop (nat (Index rest crlf) + length crlf) rest" by simp
  with s have "\<exists>a b. ?s = a @ crlf @ lit ''location: '' @ loc @ crlf @ b" by (metis append.assoc)
  moreover from Index_split [OF t] have "\<exists>a b. answer = a @ crlf @ search_target @ b" by (metis append.assoc)
  ultimately show ?thesis unfolding announces_def by blast
qed

lemma answer_location_lower:
  assumes "answer_location u answer = Inr (Some loc)"
  shows "set loc \<subseteq> set (ToLower u answer)"
  using assms
  by (auto simp: answer_location_def Let_def gosliceI_def rbind_Inr_iff split: if_splits dest!: in_set_takeD in_set_dropD)

text \<open>What a service address is made of.\<close>

definition describes_gateway :: "root \<Rightarrow> service \<Rightarrow> bool" where
  "describes_gateway r s \<longleftrightarrow>
     DeviceType (RootDevice r) = device_urn ''InternetGatewayDevice'' \<and>
     (\<exists>b \<in> set (Device (DeviceList (RootDevice r))). DeviceType b = device_urn ''WANDevice'' \<and>
       (\<exists>c \<in> set (Device (DeviceList b)). DeviceType c = device_urn ''WANConnectionDevice'' \<and>
         s \<in> set (Service (ServiceList c)) \<and> ServiceType s = service_urn ''WANIPConnection''))"

lemma getChildDevice_SomeD: "getChildDevice d t = Some x \<Longrightarrow> x \<in> set (Device (DeviceList d)) \<and> DeviceType x = t"
  unfolding getChildDevice_def by (auto simp: find_Some_iff)

lemma getChildService_SomeD: "getChildService d t = Some x \<Longrightarrow> x \<in> set (Service (ServiceList d)) \<and> ServiceType x = t"
  unfolding getChildService_def by (auto simp: find_Some_iff)

lemma getServiceURL_sound:
  assumes "getServiceURL S u w = Inr (Inr url, w')"
  shows "\<exists>r root s. http_Get S u w = (Inr r, w') \<and> StatusCode r < 400 \<and> xml_decode S (Body r) = Inr root \<and>
           describes_gateway root s \<and> combineURL u (ControlURL s) = Inr url"
proof -
  from assms obtain r root b c s where
    "http_Get S u w = (Inr r, w')" "StatusCode r < 400" "xml_decode S (Body r) = Inr root"
    "DeviceType (RootDevice root) = device_urn ''InternetGatewayDevice''"
    "getChildDevice (RootDevice root) (device_urn ''WANDevice'') = Some b"
    "getChildDevice b (device_urn ''WANConnectionDevice'') = Some c"
    "getChildService c (service_urn ''WANIPConnection'') = Some s"
    "combineURL u (ControlURL s) = Inr url"
    unfolding getServiceURL_def Let_def
    by (auto simp: rbind_Inr_iff not_le split: prod.splits sum.splits if_splits option.splits)
  then show ?thesis
    unfolding describes_gateway_def by (fastforce dest: getChildDevice_SomeD getChildService_SomeD)
qed

text \<open>Rounds of the search that bring nothing: no answer in time, or one without a usable location.\<close>

inductive unanswered :: "'w Services \<Rightarrow> nat \<Rightarrow> 'w \<Rightarrow> 'w \<Rightarrow> bool" for S :: "'w Services" where
  none: "unanswered S 0 w w"
| silent: "udp_write S search_message w = (None, w1) \<Longrightarrow> udp_read S w1 = (Inl e, w2) \<Longrightarrow>
    unanswered S n w2 v \<Longrightarrow> unanswered S (Suc n) w v"
| useless: "udp_write S search_message w = (None, w1) \<Longrightarrow> udp_read S w1 = (Inr dg, w2) \<Longrightarrow>
    answer_location (unicode_lower S) (take 1024 dg) = Inr None \<Longrightarrow>
    unanswered S n w2 v \<Longrightarrow> unanswered S (Suc n) w v"

lemma discover_rounds_sound:
  "discover_rounds S n w = Inr (Inr nt, w') \<Longrightarrow>
     \<exists>k v w1 dg w2 loc. k < n \<and> unanswered S k w v \<and>
       udp_write S search_message v = (None, w1) \<and> udp_read S w1 = (Inr dg, w2) \<and>
       answer_location (unicode_lower S) (take 1024 dg) = Inr (Some loc) \<and>
       getServiceURL S loc w2 = Inr (Inr (serviceURL nt), w') \<and> getOurIP S = Inr (Inr (ourIP nt))"
proof (induction n arbitrary: w)
  case (Suc n)
  obtain e w1 where wr: "udp_write S search_message w = (e, w1)" by fastforce
  obtain d w2 where rd: "udp_read S w1 = (d, w2)" by fastforce
  from Suc.prems wr have e: "e = None" by (cases e) auto
  show ?case
  proof (cases d)
    case (Inl x)
    with Suc.prems wr rd e have "discover_rounds S n w2 = Inr (Inr nt, w')" by simp
    from Suc.IH [OF this] unanswered.silent [OF wr [unfolded e] rd [unfolded Inl]] show ?thesis
      by (metis Suc_less_eq)
  next
    case (Inr dg)
    obtain loc where loc: "answer_location (unicode_lower S) (take 1024 dg) = Inr loc"
      using answer_location_total by blast
    show ?thesis
    proof (cases loc)
      case None
      with Suc.prems wr rd e Inr loc have "discover_rounds S n w2 = Inr (Inr nt, w')" by simp
      from Suc.IH [OF this] unanswered.useless [OF wr [unfolded e] rd [unfolded Inr] loc [unfolded None]] show ?thesis
        by (metis Suc_less_eq)
    next
      case (Some l)
      from Suc.prems wr rd e Inr loc Some obtain su w3 where g: "getServiceURL S l w2 = Inr (su, w3)"
        by (auto simp: rbind_Inr_iff)
      with Suc.prems wr rd e Inr loc Some obtain url where u: "su = Inr url" by (cases su) auto
      from Suc.prems wr rd e Inr loc Some g u obtain ip where i: "getOurIP S = Inr ip"
        by (auto simp: rbind_Inr_iff)
      with Suc.prems wr rd e Inr loc Some g u have
        "getServiceURL S l w2 = Inr (Inr (serviceURL nt), w') \<and> getOurIP S = Inr (Inr (ourIP nt))"
        by (cases ip) auto
      with wr rd e Inr loc Some show ?thesis
        by (intro exI [of _ 0] exI [of _ w] exI [of _ w1] exI [of _ dg] exI [of _ w2] exI [of _ l])
          (simp add: unanswered.none)
    qed
  qed
qed simp

lemma Discover_sound:
  assumes "Discover S w = Inr (Inr nt, w')"
  shows "\<exists>k v w1 dg w2 loc r root s. k < 3 \<and> unanswered S k w v \<and>
    udp_write S search_message v = (None, w1) \<and> udp_read S w1 = (Inr dg, w2) \<and>
    announces (unicode_lower S) (take 1024 dg) loc \<and>
    http_Get S loc w2 = (Inr r, w') \<and> StatusCode r < 400 \<and> xml_decode S (Body r) = Inr root \<and>
    describes_gateway root s \<and> combineURL loc (ControlURL s) = Inr (serviceURL nt) \<and>
    getOurIP S = Inr (Inr (ourIP nt))"
proof -
  from assms have "discover_rounds S 3 w = Inr (Inr nt, w')"
    unfolding Discover_def by (simp split: option.splits)
  from discover_rounds_sound [OF this]
  obtain k v w1 dg w2 loc where d: "k < 3" "unanswered S k w v" "udp_write S search_message v = (None, w1)"
    "udp_read S w1 = (Inr dg, w2)" "answer_location (unicode_lower S) (take 1024 dg) = Inr (Some loc)"
    "getServiceURL S loc w2 = Inr (Inr (serviceURL nt), w')" "getOurIP S = Inr (Inr (ourIP nt))"
    by blast
  from getServiceURL_sound [OF d(6)] answer_location_sound [OF d(5)] d show ?thesis by blast
qed

text \<open>A failed lookup of the host's own name is a panic.\<close>

lemma getOurIP_failed_lookup:
  "host_name S = Inr h \<Longrightarrow> lookup_ip S h = ([], Some e) \<Longrightarrow> getOurIP S = Inl IndexOutOfRange"
  unfolding getOurIP_def by simp

section \<open>What the messages say\<close>

text \<open>
  A reading of a request that knows nothing of how it was put together: the text after each tag, up
  to the next one.
\<close>

definition xml_entry :: "bytes \<Rightarrow> bytes \<times> bytes" where
  "xml_entry c = (takeWhile (\<lambda>b. b \<noteq> 0x3e) c, drop 1 (dropWhile (\<lambda>b. b \<noteq> 0x3e) c))"

definition xml_text :: "string \<Rightarrow> bytes \<Rightarrow> bytes option" where
  "xml_text tag s = map_of (map xml_entry (Split 0x3c s)) (lit tag)"

definition plain :: "bytes \<Rightarrow> bool" where
  "plain s \<longleftrightarrow> 0x3c \<notin> set s"

lemma plain_Itoa [simp]: "plain (Itoa n)"
  using dec_bytes_digits [of "nat n"] dec_bytes_digits [of "nat (- n)"]
  by (auto simp: plain_def Itoa_def list_all_iff is_digit_def)

lemma plain_append [simp]: "plain (a @ b) \<longleftrightarrow> plain a \<and> plain b"
  by (auto simp: plain_def)

abbreviation (input) tags :: "bytes list \<Rightarrow> bytes" where
  "tags cs \<equiv> concat (map (\<lambda>c. 0x3c # c) cs)"

lemma Split_tags: "plain a \<Longrightarrow> list_all plain cs \<Longrightarrow> Split 0x3c (a @ tags cs) = a # cs"
proof (induction cs arbitrary: a)
  case Nil
  then show ?case by (simp add: Split_no plain_def)
next
  case (Cons c cs)
  then show ?case using Split_append [of "0x3c" a "c @ tags cs"] by (simp add: plain_def)
qed

definition envelope_open :: "bytes list" where
  "envelope_open =
     [lit ''?xml version='' @ quoted (lit ''1.0'') @ lit '' ?>'',
      lit ''s:Envelope xmlns:s='' @ quoted (lit ''http://schemas.xmlsoap.org/soap/envelope/'') @
        lit '' s:encodingStyle='' @ quoted (lit ''http://schemas.xmlsoap.org/soap/encoding/'') @ lit ''>'' @ crlf,
      lit ''s:Body>'']"

definition action_open :: "string \<Rightarrow> bytes" where
  "action_open f =
     lit ''u:'' @ lit f @ lit '' xmlns:u='' @ quoted (lit ''urn:schemas-upnp-org:service:WANIPConnection:1'') @
     lit ''>'' @ crlf"

definition envelope_close :: "bytes list" where
  "envelope_close = [lit ''/s:Body>'', lit ''/s:Envelope>'']"

definition add_tags :: "bytes \<Rightarrow> bytes \<Rightarrow> bytes \<Rightarrow> bytes \<Rightarrow> bytes \<Rightarrow> bytes \<Rightarrow> bytes list" where
  "add_tags ip p e i d t =
     [action_open ''AddPortMapping'', lit ''NewRemoteHost>'', lit ''/NewRemoteHost>'',
      lit ''NewExternalPort>'' @ e, lit ''/NewExternalPort>'', lit ''NewProtocol>'' @ p, lit ''/NewProtocol>'',
      lit ''NewInternalPort>'' @ i, lit ''/NewInternalPort>'', lit ''NewInternalClient>'' @ ip, lit ''/NewInternalClient>'',
      lit ''NewEnabled>1'', lit ''/NewEnabled>'', lit ''NewPortMappingDescription>'' @ d, lit ''/NewPortMappingDescription>'',
      lit ''NewLeaseDuration>'' @ t, lit ''/NewLeaseDuration>'', lit ''/u:AddPortMapping>'']"

definition delete_tags :: "bytes \<Rightarrow> bytes \<Rightarrow> bytes list" where
  "delete_tags p e =
     [action_open ''DeletePortMapping'', lit ''NewRemoteHost>'', lit ''/NewRemoteHost>'',
      lit ''NewExternalPort>'' @ e, lit ''/NewExternalPort>'', lit ''NewProtocol>'' @ p, lit ''/NewProtocol>'',
      lit ''/u:DeletePortMapping>'']"

lemmas tag_defs = add_tags_def delete_tags_def action_open_def envelope_open_def envelope_close_def
lemmas text_defs = lit_def quoted_def crlf_def

lemma soap_body_tags: "m = tags cs \<Longrightarrow> soap_body m = tags (envelope_open @ cs @ envelope_close)"
  by (simp add: soap_body_def envelope_open_def envelope_close_def text_defs)

lemma add_message_tags: "add_message ip p e i d t = tags (add_tags ip p (Itoa e) (Itoa i) d (Itoa t))"
  by (simp add: add_message_def soap_element_def add_tags_def action_open_def text_defs)

lemma delete_message_tags: "delete_message p e = tags (delete_tags p (Itoa e))"
  by (simp add: delete_message_def soap_element_def delete_tags_def action_open_def text_defs)

lemma plain_envelope: "list_all plain envelope_open" "list_all plain envelope_close"
  by (simp_all add: envelope_open_def envelope_close_def plain_def text_defs)

lemma plain_add_tags: "plain p \<Longrightarrow> plain e \<Longrightarrow> plain i \<Longrightarrow> plain ip \<Longrightarrow> plain d \<Longrightarrow> plain t \<Longrightarrow> list_all plain (add_tags ip p e i d t)"
  by (simp add: add_tags_def action_open_def plain_def text_defs)

lemma plain_delete_tags: "plain p \<Longrightarrow> plain e \<Longrightarrow> list_all plain (delete_tags p e)"
  by (simp add: delete_tags_def action_open_def plain_def text_defs)

lemma xml_text_soap:
  assumes "m = tags cs" "list_all plain cs"
  shows "xml_text tag (soap_body m) = map_of (map xml_entry ([] # envelope_open @ cs @ envelope_close)) (lit tag)"
proof -
  have "Split 0x3c (soap_body m) = [] # envelope_open @ cs @ envelope_close"
    using Split_tags [of "[]" "envelope_open @ cs @ envelope_close"] assms(2) plain_envelope
    unfolding soap_body_tags [OF assms(1)] by (simp add: plain_def)
  then show ?thesis unfolding xml_text_def by (simp only:)
qed

lemma xml_entries_add:
  "map xml_entry (add_tags ip p e i d t) =
     [xml_entry (action_open ''AddPortMapping''), (lit ''NewRemoteHost'', []), (lit ''/NewRemoteHost'', []),
      (lit ''NewExternalPort'', e), (lit ''/NewExternalPort'', []), (lit ''NewProtocol'', p), (lit ''/NewProtocol'', []),
      (lit ''NewInternalPort'', i), (lit ''/NewInternalPort'', []), (lit ''NewInternalClient'', ip), (lit ''/NewInternalClient'', []),
      (lit ''NewEnabled'', lit ''1''), (lit ''/NewEnabled'', []), (lit ''NewPortMappingDescription'', d), (lit ''/NewPortMappingDescription'', []),
      (lit ''NewLeaseDuration'', t), (lit ''/NewLeaseDuration'', []), (lit ''/u:AddPortMapping'', [])]"
  by (simp add: add_tags_def xml_entry_def lit_def)

lemma xml_entries_delete:
  "map xml_entry (delete_tags p e) =
     [xml_entry (action_open ''DeletePortMapping''), (lit ''NewRemoteHost'', []), (lit ''/NewRemoteHost'', []),
      (lit ''NewExternalPort'', e), (lit ''/NewExternalPort'', []), (lit ''NewProtocol'', p), (lit ''/NewProtocol'', []),
      (lit ''/u:DeletePortMapping'', [])]"
  by (simp add: delete_tags_def xml_entry_def lit_def)

lemma lit_inject [simp]: "lit s = lit t \<longleftrightarrow> s = t"
proof -
  have "inj (\<lambda>c. of_nat (of_char c) :: byte)"
  proof (rule injI)
    fix c d :: char
    assume "(of_nat (of_char c) :: byte) = of_nat (of_char d)"
    then have "(of_char c :: nat) mod 256 = of_char d mod 256" by (simp add: word_of_nat_eq_iff take_bit_eq_mod)
    then show "c = d" by simp
  qed
  then show ?thesis unfolding lit_def by (simp add: inj_map_eq_map)
qed

lemma xml_entries_before:
  "map_of (map xml_entry ([] # envelope_open)) (lit (CHR ''N'' # tag)) = None"
  "map_of (xml_entry (action_open ''AddPortMapping'') # es) (lit (CHR ''N'' # tag)) = map_of es (lit (CHR ''N'' # tag))"
  "map_of (xml_entry (action_open ''DeletePortMapping'') # es) (lit (CHR ''N'' # tag)) = map_of es (lit (CHR ''N'' # tag))"
  by (simp_all add: envelope_open_def action_open_def xml_entry_def text_defs)

lemma xml_text_New:
  assumes "m = tags cs" "list_all plain cs" "map_of (map xml_entry cs) (lit (CHR ''N'' # tag)) = Some v"
  shows "xml_text (CHR ''N'' # tag) (soap_body m) = Some v"
proof -
  have "map xml_entry ([] # envelope_open @ cs @ envelope_close) =
      map xml_entry ([] # envelope_open) @ map xml_entry cs @ map xml_entry envelope_close" by simp
  with assms(3) xml_entries_before(1) [of tag] show ?thesis
    unfolding xml_text_soap [OF assms(1,2)] by (simp only: map_of_append map_add_Some_iff) blast
qed

lemma add_message_fields:
  fixes e i t :: int
  assumes "plain ip" "plain p" "plain d"
  defines "m \<equiv> soap_body (add_message ip p e i d t)"
  shows "xml_text ''NewExternalPort'' m = Some (Itoa e)" "xml_text ''NewProtocol'' m = Some p"
    "xml_text ''NewInternalPort'' m = Some (Itoa i)" "xml_text ''NewInternalClient'' m = Some ip"
    "xml_text ''NewPortMappingDescription'' m = Some d" "xml_text ''NewLeaseDuration'' m = Some (Itoa t)"
  unfolding m_def using assms(1-3)
  by (intro xml_text_New [OF add_message_tags plain_add_tags]; simp only: xml_entries_add xml_entries_before plain_Itoa; simp)+

lemma delete_message_fields:
  assumes "plain p"
  shows "xml_text ''NewExternalPort'' (soap_body (delete_message p e)) = Some (Itoa e)"
    "xml_text ''NewProtocol'' (soap_body (delete_message p e)) = Some p"
  using assms
  by (intro xml_text_New [OF delete_message_tags plain_delete_tags]; simp only: xml_entries_delete xml_entries_before plain_Itoa; simp)+

end
