(* ===== verification/Upnp_Correct.thy ===== *)
theory Upnp_Correct
  imports Upnp_Messages
begin

text \<open>
  The contract of the interface \<open>NAT\<close> as a locale, its interpretations for both implementations, and
  what the renewal thread achieves on a gateway that follows it.
\<close>

section \<open>The contract\<close>

text \<open>
  \<open>clk\<close> is the time. \<open>lasts w p e i x\<close>: the gateway forwards its port \<open>e\<close> of protocol \<open>p\<close> to the node's
  port \<open>i\<close> until the time \<open>x\<close> at least. \<open>free w p e i\<close>: nothing that the node has asked for under these
  ports is forwarded. \<open>grants e e'\<close>: a request for the external port \<open>e\<close> may be answered with \<open>e'\<close>. The
  lease of a mapping starts no earlier than the call, and a call that succeeds takes at most 150 seconds (the code
  sets no limit; a call that hangs delays the renewal).
\<close>

locale nat_contract =
  fixes N :: "'w NAT"
    and clk :: "'w \<Rightarrow> int"
    and lasts :: "'w \<Rightarrow> bytes \<Rightarrow> int \<Rightarrow> int \<Rightarrow> int \<Rightarrow> bool"
    and free :: "'w \<Rightarrow> bytes \<Rightarrow> int \<Rightarrow> int \<Rightarrow> bool"
    and grants :: "int \<Rightarrow> int \<Rightarrow> bool"
  assumes add_ok: "plain p \<Longrightarrow> plain d \<Longrightarrow> 0 < t \<Longrightarrow> AddPortMapping N p e i d t w = (Inr e', w') \<Longrightarrow>
      grants e e' \<and> clk w' \<le> clk w + 150 \<and> lasts w' p e' i (clk w + t)"
    and del_ok: "plain p \<Longrightarrow> DeletePortMapping N p e i w = (None, w') \<Longrightarrow> free w' p e i"
    and ext_ok: "GetExternalAddress N w = (Inr a, w') \<Longrightarrow>
      clk w' \<le> clk w + 150 \<and> (lasts w p e i x \<longrightarrow> clk w' \<le> x \<longrightarrow> lasts w' p e i x)"
    and free_ok: "free w p e i \<Longrightarrow> \<not> lasts w p e i x"
    and lasts_mono: "lasts w p e i x \<Longrightarrow> y \<le> x \<Longrightarrow> lasts w p e i y"

text \<open>A gateway that keeps its mappings for the time of their lease while nobody asks.\<close>

locale nat_thread = nat_contract +
  fixes env :: "'w \<Rightarrow> 'w \<Rightarrow> bool"
  assumes env_ok: "env w w' \<Longrightarrow>
    clk w \<le> clk w' \<and> (lasts w p e i x \<longrightarrow> clk w' \<le> x \<longrightarrow> lasts w' p e i x) \<and> (free w p e i \<longrightarrow> free w' p e i)"

lemma plain_args [simp]: "plain tcp" "plain (lit ''eth listen port'')"
  by (simp_all add: plain_def tcp_def lit_def)

text \<open>The thread never leaves its end, and tells its result only there.\<close>

lemma thread_fields:
  "thread_finish N lport t w = (t', w') \<Longrightarrow> \<not> running t' \<and> timer t' = None \<and> removed t' \<noteq> None"
  by (auto simp: thread_finish_def split: prod.splits)

context nat_contract
begin

lemma finish_frees:
  "thread_finish N lport t w = (t', w') \<Longrightarrow> removed t' = Some None \<Longrightarrow> free w' tcp lport lport"
  by (auto simp: thread_finish_def split: prod.splits intro: del_ok)

text \<open>The lease of 20 minutes outlives the 15 minutes to the next renewal.\<close>

lemma fire_maps:
  assumes "thread_fire N clk lport t w = (t', w')" "timer t' = Some d"
  shows "running t' = running t \<and> removed t' = removed t \<and> (\<exists>e. grants lport e \<and> lasts w' tcp e lport d)"
proof -
  obtain r w1 where a: "AddPortMapping N tcp lport lport (lit ''eth listen port'') 1200 w = (r, w1)" by fastforce
  show ?thesis
  proof (cases r)
    case (Inl e)
    with assms a have "thread_finish N lport t w1 = (t', w')" by (simp add: thread_fire_def)
    from thread_fields [OF this] assms(2) show ?thesis by simp
  next
    case (Inr e)
    from add_ok [OF plain_args _ a [unfolded Inr]]
    have m: "grants lport e" "clk w1 \<le> clk w + 150" "lasts w1 tcp e lport (clk w + 1200)" by simp_all
    show ?thesis
    proof (cases "is_first t")
      case True
      obtain x w2 where g: "GetExternalAddress N w1 = (x, w2)" by fastforce
      with assms a Inr True obtain y where y: "x = Inr y" "w' = w2" "d = clk w2 + 900"
        "running t' = running t" "removed t' = removed t"
        by (cases x) (auto simp: thread_fire_def)
      from ext_ok [OF g [unfolded y(1)], of tcp e lport "clk w + 1200"] m
      have "lasts w2 tcp e lport (clk w + 1200)" "clk w2 \<le> clk w + 300" by simp_all
      with lasts_mono [of w2 tcp e lport "clk w + 1200" d] m(1) y show ?thesis by auto
    next
      case False
      with assms a Inr have "w' = w1" "d = clk w1 + 900" "running t' = running t" "removed t' = removed t"
        by (auto simp: thread_fire_def)
      with lasts_mono [OF m(3), of d] m(1,2) show ?thesis by auto
    qed
  qed
qed

lemma fire_ends:
  assumes "thread_fire N clk lport t w = (t', w')" "running t" "\<not> running t'"
  shows "removed t' \<noteq> None \<and> (removed t' = Some None \<longrightarrow> free w' tcp lport lport)"
proof -
  from assms obtain w1 where f: "thread_finish N lport t w1 = (t', w')"
    by (auto simp: thread_fire_def split: prod.splits sum.splits if_splits)
  from thread_fields [OF f] finish_frees [OF f] show ?thesis by simp
qed

lemma fire_timer:
  assumes "thread_fire N clk lport t w = (t', w')" "running t'" "\<not> is_first t'"
  shows "timer t' \<noteq> None"
  using assms
  by (auto simp: thread_fire_def split: prod.splits sum.splits if_splits dest: thread_fields)

end

text \<open>
  What holds in every state of the thread: once the first mapping was made and until the next renewal
  is due, at the time \<open>d\<close>, the port is mapped at least until then (\<open>M d\<close>), and when the thread has
  ended and reported success the port is free (\<open>F\<close>).
\<close>

definition thread_ok :: "('w \<Rightarrow> int) \<Rightarrow> (int \<Rightarrow> 'w \<Rightarrow> bool) \<Rightarrow> ('w \<Rightarrow> bool) \<Rightarrow> upnp_thread \<times> 'w \<Rightarrow> bool" where
  "thread_ok clk M F = (\<lambda>(t, w).
     (running t \<longrightarrow> removed t = None \<and> (\<not> is_first t \<longrightarrow> (\<exists>d. timer t = Some d \<and> (clk w \<le> d \<longrightarrow> M d w)))) \<and>
     (removed t = Some None \<longrightarrow> F w))"

context nat_thread
begin

abbreviation kept_ok :: "int \<Rightarrow> upnp_thread \<times> 'w \<Rightarrow> bool" where
  "kept_ok lport \<equiv> thread_ok clk (\<lambda>d w. \<exists>e. grants lport e \<and> lasts w tcp e lport d) (\<lambda>w. free w tcp lport lport)"

lemma step_keeps:
  assumes "upnp_step N clk lport env s s'" "kept_ok lport s"
  shows "kept_ok lport s'"
  using assms
proof (induction rule: upnp_step.induct)
  case (fire t d w)
  obtain t' w' where f: "thread_fire N clk lport t w = (t', w')" by fastforce
  show ?case
  proof (cases "running t'")
    case True
    then have "removed t' = removed t"
      using f by (auto simp: thread_fire_def dest: thread_fields split: prod.splits sum.splits if_splits)
    then show ?thesis using f True fire.hyps(1) fire.prems fire_maps [OF f] fire_timer [OF f]
      by (cases "timer t'") (auto simp: thread_ok_def)
  next
    case False
    with fire_ends [OF f] fire.hyps(1) f show ?thesis by (simp add: thread_ok_def)
  qed
next
  case (quit t w)
  then show ?case
    using thread_fields [of N lport t w] finish_frees [of lport t w]
    by (cases "thread_finish N lport t w") (auto simp: thread_ok_def)
next
  case (gateway w w' t)
  have m: "clk w \<le> clk w'" "lasts w tcp e lport d \<Longrightarrow> clk w' \<le> d \<Longrightarrow> lasts w' tcp e lport d"
    "free w tcp lport lport \<Longrightarrow> free w' tcp lport lport" for e d
    using env_ok [OF gateway.hyps] by blast+
  from gateway.prems show ?case
    unfolding thread_ok_def split_conv using m by (meson order_trans)
qed

lemma thread_invariant:
  "upnpUpdateThread N clk pt env t0 w s \<Longrightarrow> kept_ok (ParseInt16 pt) s"
  unfolding upnpUpdateThread_def
proof (induction rule: rtranclp_induct)
  case base
  show ?case by (simp add: thread_ok_def thread_start_def)
next
  case (step s s')
  from step.hyps(2) step.IH show ?case by (rule step_keeps)
qed

end

section \<open>UPnP meets the contract\<close>

text \<open>
  What the standard asks of a gateway: an action that is posted to the control URL of its service and
  succeeds has the effect its request describes, on a table from protocol and external port to the
  client, its port and the end of the lease; protocol, client and ports are texts as in the messages.
  \<open>tbl\<close> reads the table off the world. Nothing is said of requests with another method or to another URL.
\<close>

definition soap_action :: "Request \<Rightarrow> bytes option" where
  "soap_action rq = map_of (Header rq) (lit ''SOAPAction'')"

definition wan_action :: "string \<Rightarrow> bytes" where
  "wan_action f = quoted (lit ''urn:schemas-upnp-org:service:WANIPConnection:1#'' @ lit f)"

type_synonym port_table = "bytes \<times> bytes \<Rightarrow> (bytes \<times> bytes \<times> int) option"

datatype gateway_request =
    AddMapping bytes bytes bytes bytes int
  | RemoveMapping bytes bytes
  | OtherRequest

definition igd_request :: "Request \<Rightarrow> gateway_request" where
  "igd_request rq =
     (case (xml_text ''NewProtocol'' (ReqBody rq), xml_text ''NewExternalPort'' (ReqBody rq)) of
        (Some p, Some e) \<Rightarrow>
          if soap_action rq = Some (wan_action ''AddPortMapping'') then
            (case (xml_text ''NewInternalClient'' (ReqBody rq), xml_text ''NewInternalPort'' (ReqBody rq),
                   xml_text ''NewLeaseDuration'' (ReqBody rq)) of
               (Some ip, Some i, Some l) \<Rightarrow> AddMapping p e ip i (digits_val l)
             | _ \<Rightarrow> OtherRequest)
          else if soap_action rq = Some (wan_action ''DeletePortMapping'') then RemoveMapping p e
          else OtherRequest
      | _ \<Rightarrow> OtherRequest)"

text \<open>Entries whose lease has not ended are kept.\<close>

definition kept :: "('w \<Rightarrow> int) \<Rightarrow> ('w \<Rightarrow> port_table) \<Rightarrow> 'w \<Rightarrow> 'w \<Rightarrow> bool" where
  "kept clk tbl w w' \<longleftrightarrow>
     (\<forall>k ip i x. tbl w k = Some (ip, i, x) \<longrightarrow> clk w' \<le> x \<longrightarrow> tbl w' k = Some (ip, i, x))"

definition igd :: "'w Services \<Rightarrow> ('w \<Rightarrow> int) \<Rightarrow> bytes \<Rightarrow> ('w \<Rightarrow> port_table) \<Rightarrow> bool" where
  "igd S clk url tbl \<longleftrightarrow>
     (\<forall>rq r w w'. http_Do S rq w = (Inr r, w') \<longrightarrow> StatusCode r < 400 \<longrightarrow>
        Method rq = lit ''POST'' \<longrightarrow> URL rq = url \<longrightarrow>
        clk w' \<le> clk w + 150 \<and>
        (case igd_request rq of
           AddMapping p e ip i l \<Rightarrow> \<exists>x. clk w + l \<le> x \<and> tbl w' (p, e) = Some (ip, i, x)
         | RemoveMapping p e \<Rightarrow> tbl w' (p, e) = None
         | OtherRequest \<Rightarrow> kept clk tbl w w'))"

text \<open>What happens when nobody asks: time passes, and leases that ended may go.\<close>

definition idle :: "('w \<Rightarrow> int) \<Rightarrow> ('w \<Rightarrow> port_table) \<Rightarrow> 'w \<Rightarrow> 'w \<Rightarrow> bool" where
  "idle clk tbl w w' \<longleftrightarrow>
     clk w \<le> clk w' \<and> kept clk tbl w w' \<and> (\<forall>k. tbl w k = None \<longrightarrow> tbl w' k = None)"

lemma soap_action_request [simp]:
  "soap_action (soap_request url f m) = Some (quoted (lit ''urn:schemas-upnp-org:service:WANIPConnection:1#'' @ f))"
  by (simp add: soap_action_def soap_request_def)

lemma ReqBody_request [simp]: "ReqBody (soap_request url f m) = soap_body m"
  by (simp add: soap_request_def)

lemma wan_action_eq [simp]:
  "quoted (lit ''urn:schemas-upnp-org:service:WANIPConnection:1#'' @ lit f) = wan_action g \<longleftrightarrow> f = g"
  by (simp add: wan_action_def quoted_def)

lemma soapRequest_igd:
  assumes "igd S clk url tbl" "soapRequest S url f m w = (Inr r, w')"
  shows "clk w' \<le> clk w + 150 \<and>
    (case igd_request (soap_request url f m) of
       AddMapping p e ip i l \<Rightarrow> \<exists>x. clk w + l \<le> x \<and> tbl w' (p, e) = Some (ip, i, x)
     | RemoveMapping p e \<Rightarrow> tbl w' (p, e) = None
     | OtherRequest \<Rightarrow> kept clk tbl w w')"
proof -
  from assms(2) have "http_Do S (soap_request url f m) w = (Inr r, w')" "StatusCode r < 400"
    unfolding soapRequest_def by (auto split: option.split_asm prod.split_asm sum.split_asm if_split_asm)
  moreover have "Method (soap_request url f m) = lit ''POST''" "URL (soap_request url f m) = url"
    by (simp_all add: soap_request_def)
  ultimately show ?thesis using assms(1) unfolding igd_def by blast
qed

lemma xml_text_none:
  assumes "m = tags cs" "list_all plain cs" "map_of (map xml_entry cs) (lit (CHR ''N'' # tag)) = None"
  shows "xml_text (CHR ''N'' # tag) (soap_body m) = None"
proof -
  have "map xml_entry ([] # envelope_open @ cs @ envelope_close) =
      map xml_entry ([] # envelope_open) @ map xml_entry cs @ map xml_entry envelope_close" by simp
  moreover have "map_of (map xml_entry envelope_close) (lit (CHR ''N'' # tag)) = None"
    by (simp add: envelope_close_def xml_entry_def lit_def)
  ultimately show ?thesis
    using assms(3) xml_entries_before(1) [of tag]
    unfolding xml_text_soap [OF assms(1,2)] by (simp only: map_of_append map_add_None simp_thms)
qed

lemma upnp_add_effect:
  assumes "igd S clk (serviceURL n) tbl" "plain (ourIP n)" "plain p" "plain d" "0 < t"
    and "upnp_AddPortMapping S n p e i d t w = (Inr e', w')"
  shows "e' = e \<and> clk w' \<le> clk w + 150 \<and> (\<exists>x. clk w + t \<le> x \<and> tbl w' (p, Itoa e) = Some (ourIP n, Itoa i, x))"
proof -
  from assms(6) obtain r where r: "e' = e"
    "soapRequest S (serviceURL n) (lit ''AddPortMapping'') (add_message (ourIP n) p e i d t) w = (Inr r, w')"
    unfolding upnp_AddPortMapping_def by (auto split: prod.split_asm sum.split_asm)
  have "digits_val (Itoa t) = t" using assms(5) digits_val_dec [of "nat t"] by (simp add: Itoa_def)
  then have "igd_request (soap_request (serviceURL n) (lit ''AddPortMapping'') (add_message (ourIP n) p e i d t)) =
      AddMapping p (Itoa e) (ourIP n) (Itoa i) t"
    by (simp add: igd_request_def add_message_fields [OF assms(2-4)])
  with soapRequest_igd [OF assms(1) r(2)] r(1) show ?thesis by simp
qed

lemma upnp_delete_effect:
  assumes "igd S clk (serviceURL n) tbl" "plain p" "upnp_DeletePortMapping S n p e i w = (None, w')"
  shows "tbl w' (p, Itoa e) = None"
proof -
  from assms(3) obtain r where
    r: "soapRequest S (serviceURL n) (lit ''DeletePortMapping'') (delete_message p e) w = (Inr r, w')"
    unfolding upnp_DeletePortMapping_def by (auto split: prod.split_asm sum.split_asm)
  have "igd_request (soap_request (serviceURL n) (lit ''DeletePortMapping'') (delete_message p e)) = RemoveMapping p (Itoa e)"
    by (simp add: igd_request_def delete_message_fields [OF assms(2)])
  with soapRequest_igd [OF assms(1) r] show ?thesis by simp
qed

lemma status_message_tags:
  "soap_element (lit ''GetStatusInfo'') @ lit ''</u:GetStatusInfo>'' = tags [action_open ''GetStatusInfo'', lit ''/u:GetStatusInfo>'']"
  by (simp add: soap_element_def action_open_def text_defs)

lemma upnp_external_effect:
  assumes "igd S clk (serviceURL n) tbl" "upnp_GetExternalAddress S n w = (Inr a, w')"
  shows "a = parse_ip S [] \<and> clk w' \<le> clk w + 150 \<and> kept clk tbl w w'"
proof -
  let ?m = "soap_element (lit ''GetStatusInfo'') @ lit ''</u:GetStatusInfo>''"
  from assms(2) obtain r where a: "a = parse_ip S []" and
    r: "soapRequest S (serviceURL n) (lit ''GetStatusInfo'') ?m w = (Inr r, w')"
    unfolding upnp_GetExternalAddress_def getStatusInfo_def by (auto split: prod.split_asm sum.split_asm)
  have "xml_text ''NewProtocol'' (soap_body ?m) = None"
    by (rule xml_text_none [OF status_message_tags])
      (simp_all add: action_open_def xml_entry_def plain_def text_defs)
  then have "igd_request (soap_request (serviceURL n) (lit ''GetStatusInfo'') ?m) = OtherRequest"
    by (simp add: igd_request_def)
  with a soapRequest_igd [OF assms(1) r] show ?thesis by simp
qed

lemma upnp_meets_contract:
  assumes "igd S clk (serviceURL n) tbl" "plain (ourIP n)" "\<And>w w'. env w w' \<Longrightarrow> idle clk tbl w w'"
  shows "nat_thread (upnp_NAT S n) clk (\<lambda>w p e i x. \<exists>y. x \<le> y \<and> tbl w (p, Itoa e) = Some (ourIP n, Itoa i, y))
           (\<lambda>w p e i. tbl w (p, Itoa e) = None) (=) env"
proof (unfold_locales, goal_cases)
  case (1 p d t e i w e' w')
  then have "upnp_AddPortMapping S n p e i d t w = (Inr e', w')" by (simp add: upnp_NAT_def)
  from upnp_add_effect [OF assms(1,2) 1(1,2,3) this] show ?case by simp
next
  case (2 p e i w w')
  then have "upnp_DeletePortMapping S n p e i w = (None, w')" by (simp add: upnp_NAT_def)
  from upnp_delete_effect [OF assms(1) 2(1) this] show ?case by simp
next
  case (3 w a w' p e i x)
  then have "upnp_GetExternalAddress S n w = (Inr a, w')" by (simp add: upnp_NAT_def)
  from upnp_external_effect [OF assms(1) this] show ?case unfolding kept_def by (meson order_trans)
next
  case (5 w p e i x y)
  then show ?case by (meson order_trans)
next
  case (6 w w' p e i x)
  from assms(3) [OF 6] show ?case unfolding idle_def kept_def by (meson order_trans)
qed simp

text \<open>A gateway that does what the requests say, at once, and nothing else; its world is its table and the time.\<close>

type_synonym demo_gateway = "port_table \<times> int"

definition igd_effect :: "Request \<Rightarrow> demo_gateway \<Rightarrow> demo_gateway" where
  "igd_effect rq w =
     (case igd_request rq of
        AddMapping p e ip i l \<Rightarrow> ((fst w)((p, e) \<mapsto> (ip, i, snd w + l)), snd w)
      | RemoveMapping p e \<Rightarrow> ((fst w)((p, e) := None), snd w)
      | OtherRequest \<Rightarrow> w)"

definition demo_igd :: "demo_gateway Services" where
  "demo_igd =
     \<lparr>resolve_udp = (\<lambda>_. None), listen_udp = None, set_deadline = None,
      udp_write = (\<lambda>_ w. (None, w)), udp_read = (\<lambda>w. (Inl [], w)),
      http_Get = (\<lambda>_ w. (Inl [], w)),
      http_Do = (\<lambda>rq w. (Inr \<lparr>StatusCode = 200, Body = []\<rparr>, igd_effect rq w)),
      bad_url = (\<lambda>_. None), xml_decode = (\<lambda>_. Inl []), host_name = Inl [],
      lookup_ip = (\<lambda>_. ([], None)), unicode_lower = (\<lambda>s. s), parse_ip = (\<lambda>_. [])\<rparr>"

definition demo_upnp :: upnpNAT where
  "demo_upnp = \<lparr>serviceURL = lit ''http://10.0.0.138/ctl'', ourIP = lit ''10.0.0.2''\<rparr>"

definition demo_wait :: "('t \<times> int) \<Rightarrow> ('t \<times> int) \<Rightarrow> bool" where
  "demo_wait w w' \<longleftrightarrow> fst w' = fst w \<and> snd w \<le> snd w'"

lemma demo_igd_ok: "igd demo_igd snd (serviceURL demo_upnp) fst" "plain (ourIP demo_upnp)"
  by (auto simp: igd_def demo_igd_def demo_upnp_def plain_def lit_def igd_effect_def kept_def split: gateway_request.split)

lemma demo_idle: "demo_wait w w' \<Longrightarrow> idle snd fst w w'"
  by (simp add: demo_wait_def idle_def kept_def)

interpretation demo_upnp: nat_thread "upnp_NAT demo_igd demo_upnp" snd
    "\<lambda>w p e i x. \<exists>y. x \<le> y \<and> fst w (p, Itoa e) = Some (ourIP demo_upnp, Itoa i, y)"
    "\<lambda>w p e i. fst w (p, Itoa e) = None" "(=)" demo_wait
  by (rule upnp_meets_contract) (simp_all add: demo_igd_ok demo_idle)

section \<open>NAT-PMP meets the contract\<close>

text \<open>
  RFC 6886: a request with a lifetime of zero removes the mapping of the internal port, any other
  that succeeds makes one to the external port of the answer. The gateway is one that grants the
  lifetime it is asked for (it may grant less, and the code does not look). The request for the
  address changes nothing.
\<close>

definition pmp_gateway ::
    "'w natpmp_client \<Rightarrow> ('w \<Rightarrow> int) \<Rightarrow> ('w \<Rightarrow> bytes \<times> int \<Rightarrow> (16 word \<times> int) option) \<Rightarrow> bool" where
  "pmp_gateway C clk tbl \<longleftrightarrow>
     (\<forall>p i e t w r w'. pmp_mapping C p i e t w = (Inr r, w') \<longrightarrow>
        clk w' \<le> clk w + 150 \<and>
        (if t = 0 then tbl w' (p, i) = None else \<exists>x. clk w + t \<le> x \<and> tbl w' (p, i) = Some (r, x))) \<and>
     (\<forall>w a w'. pmp_external C w = (Inr a, w') \<longrightarrow> clk w' \<le> clk w + 150 \<and> tbl w' = tbl w)"

lemma pmp_mapping_effect:
  "pmp_gateway C clk tbl \<Longrightarrow> pmp_mapping C p i e t w = (Inr r, w') \<Longrightarrow>
     clk w' \<le> clk w + 150 \<and>
     (if t = 0 then tbl w' (p, i) = None else \<exists>x. clk w + t \<le> x \<and> tbl w' (p, i) = Some (r, x))"
  unfolding pmp_gateway_def by blast

lemma pmp_meets_contract:
  assumes "pmp_gateway C clk tbl" "\<And>w w'. env w w' \<Longrightarrow> clk w \<le> clk w' \<and> tbl w' = tbl w"
  shows "nat_thread (pmp_NAT C) clk (\<lambda>w p e i x. \<exists>r y. tbl w (p, i) = Some (r, y) \<and> uint r = e \<and> x \<le> y)
           (\<lambda>w p e i. tbl w (p, i) = None) (\<lambda>_ _. True) env"
proof (unfold_locales, goal_cases)
  case (1 p d t e i w e' w')
  then obtain r where r: "pmp_mapping C p i e t w = (Inr r, w')" "e' = uint r"
    by (auto simp: pmp_NAT_def pmp_AddPortMapping_def split: prod.split_asm sum.split_asm if_split_asm)
  from pmp_mapping_effect [OF assms(1) r(1)] r(2) 1(3) show ?case by auto
next
  case (2 p e i w w')
  then obtain r where r: "pmp_mapping C p i 0 0 w = (Inr r, w')"
    by (auto simp: pmp_NAT_def pmp_DeletePortMapping_def split: prod.split_asm sum.split_asm)
  from pmp_mapping_effect [OF assms(1) r] show ?case by simp
next
  case (3 w a w' p e i x)
  then obtain x where "pmp_external C w = (Inr x, w')"
    by (auto simp: pmp_NAT_def pmp_GetExternalAddress_def split: prod.split_asm sum.split_asm)
  with assms(1) show ?case unfolding pmp_gateway_def by metis
next
  case (5 w p e i x y)
  then obtain r z where "tbl w (p, i) = Some (r, z)" "uint r = e" "y \<le> z" by auto
  then show ?case by blast
next
  case (6 w w' p e i x)
  from assms(2) [OF 6] show ?case by simp
qed simp

definition demo_pmp :: "((bytes \<times> int \<Rightarrow> (16 word \<times> int) option) \<times> int) natpmp_client" where
  "demo_pmp =
     \<lparr>pmp_external = (\<lambda>w. (Inr (198, 51, 100, 7), w)),
      pmp_mapping = (\<lambda>p i e t w. (Inr (of_int e),
        ((fst w)((p, i) := (if t = 0 then None else Some (of_int e, snd w + t))), snd w)))\<rparr>"

lemma demo_pmp_ok: "pmp_gateway demo_pmp snd fst"
  by (auto simp: pmp_gateway_def demo_pmp_def)

interpretation demo_pmp: nat_thread "pmp_NAT demo_pmp" snd
    "\<lambda>w p e i x. \<exists>r y. fst w (p, i) = Some (r, y) \<and> uint r = e \<and> x \<le> y" "\<lambda>w p e i. fst w (p, i) = None"
    "\<lambda>_ _. True" demo_wait
  by (rule pmp_meets_contract) (simp_all add: demo_pmp_ok demo_wait_def)

section \<open>The thread\<close>

text \<open>The port is read with 16 bits and a sign: half of the ports become the port 32767.\<close>

lemma is_digit_uint: "is_digit b \<Longrightarrow> 48 \<le> uint b \<and> uint b \<le> 57"
  unfolding is_digit_def unat_eq_nat_uint by linarith

lemma uint16_digits_val:
  "list_all is_digit ds \<Longrightarrow> 0 \<le> n \<Longrightarrow> n \<le> 65535 \<Longrightarrow>
     uint16_digits n ds = Some (min 65535 (foldl (\<lambda>n d. 10 * n + (uint d - 48)) n ds))"
proof (induction ds arbitrary: n)
  case (Cons d ds)
  let ?m = "10 * n + (uint d - 48)"
  have d: "48 \<le> uint d" "uint d \<le> 57" using Cons.prems(1) is_digit_uint by auto
  have ge: "m \<le> foldl (\<lambda>n d. 10 * n + (uint d - 48)) m ds" if "0 \<le> m" for m
    using that Cons.prems(1)
  proof (induction ds arbitrary: m)
    case (Cons e es)
    then have e: "48 \<le> uint e" using is_digit_uint by auto
    with Cons.prems have "m \<le> 10 * m + (uint e - 48)" by simp
    also have "\<dots> \<le> foldl (\<lambda>n d. 10 * n + (uint d - 48)) (10 * m + (uint e - 48)) es"
      using Cons.prems e by (intro Cons.IH) auto
    finally show ?case by simp
  qed simp
  show ?case
  proof (cases "?m > 65535")
    case True
    with ge [of ?m] Cons.prems show ?thesis by (simp add: Let_def)
  next
    case False
    with Cons.prems d Cons.IH [of ?m] show ?thesis by (simp add: Let_def)
  qed
qed simp

lemma ParseInt16_port: "ParseInt16 (dec_bytes p) = min (int p) 32767"
proof -
  from hd_digits [OF dec_bytes_digits dec_bytes_not_Nil, of p] obtain d r where
    d: "dec_bytes p = d # r" "d \<noteq> 0x2d" "d \<noteq> 0x2b" by blast
  have "uint16_digits 0 (dec_bytes p) = Some (min 65535 (int p))"
    using uint16_digits_val [OF dec_bytes_digits, of 0 p] digits_val_dec [of p] by (simp add: digits_val_def)
  then show ?thesis
    using d unfolding ParseInt16_def by (auto simp: Let_def min_def)
qed

text \<open>
  A gateway that maps the port but gives no external address stops the renewal: the timer is not set
  again, and all that is left for the thread is the end of the node.
\<close>

lemma renewal_stops:
  assumes "is_first t" "AddPortMapping N tcp lport lport (lit ''eth listen port'') 1200 w = (Inr e, w1)"
    and "GetExternalAddress N w1 = (Inl err, w2)"
  shows "thread_fire N clk lport t w = (t\<lparr>timer := None\<rparr>, w2)"
  using assms by (simp add: thread_fire_def)

lemma no_timer_no_renewal:
  assumes "(upnp_step N clk lport env)\<^sup>*\<^sup>* (t, w) (t', w')" "timer t = None"
  shows "timer t' = None \<and> (running t' \<longrightarrow> t' = t)"
  using assms
proof (induction "(t', w')" arbitrary: t' w' rule: rtranclp_induct)
  case (step s)
  obtain t1 w1 where s: "s = (t1, w1)" by fastforce
  from step.hyps(3) [OF s step.prems] have "timer t1 = None" "running t1 \<longrightarrow> t1 = t" by auto
  with step.hyps(2) s show ?case
    by (auto elim!: upnp_step.cases dest!: thread_fields [OF sym])
qed simp

section \<open>Properties\<close>

text \<open>Once the thread has made its first mapping, a UPnP gateway that follows the standard forwards the
  node's port to the node at least until the next renewal is due, and after the thread has ended with
  the report that the mapping is gone, the gateway forwards it no more: in every interleaving of the
  timer, the end of the node and what the gateway does by itself. The port is the number in the
  node's port text, when that is below 2^15.
\<close>

lemma port_text: "p \<le> 32767 \<Longrightarrow> Itoa (ParseInt16 (dec_bytes p)) = dec_bytes p"
  by (simp add: ParseInt16_port min_def Itoa_def)

theorem port_mapping_kept:
  assumes "igd S clk (serviceURL n) tbl" "plain (ourIP n)" "\<And>w w'. env w w' \<Longrightarrow> idle clk tbl w w'"
    and "upnpUpdateThread (upnp_NAT S n) clk (dec_bytes p) env t0 w (t, w')" "p \<le> 32767"
  shows "(running t \<and> \<not> is_first t \<longrightarrow> (\<exists>d. timer t = Some d \<and> (clk w' \<le> d \<longrightarrow>
            (\<exists>x. d \<le> x \<and> tbl w' (tcp, dec_bytes p) = Some (ourIP n, dec_bytes p, x))))) \<and>
         (removed t = Some None \<longrightarrow> tbl w' (tcp, dec_bytes p) = None)"
  using nat_thread.thread_invariant [OF upnp_meets_contract [OF assms(1,2)] assms(4)] assms(3)
  by (simp add: thread_ok_def port_text [OF assms(5)])

text \<open>The node starts at the time 0, the timer fires after 300 seconds.\<close>

definition demo_thread :: "upnp_thread \<times> demo_gateway" where
  "demo_thread = thread_fire (upnp_NAT demo_igd demo_upnp) snd 30303 (thread_start 0) (Map.empty, 300)"

abbreviation (input) demo_finish :: "upnp_thread \<times> demo_gateway" where
  "demo_finish \<equiv> thread_finish (upnp_NAT demo_igd demo_upnp) 30303 (fst demo_thread) (snd demo_thread)"

lemma demo_port: "lit ''30303'' = dec_bytes 30303" "ParseInt16 (lit ''30303'') = 30303"
  by (simp_all add: ParseInt16_def lit_def is_digit_def Let_def dec_bytes.simps)

lemma demo_thread_run:
  "upnpUpdateThread (upnp_NAT demo_igd demo_upnp) snd (lit ''30303'') demo_wait 0 (Map.empty, 0) demo_thread"
  "upnpUpdateThread (upnp_NAT demo_igd demo_upnp) snd (lit ''30303'') demo_wait 0 (Map.empty, 0) demo_finish"
  "running (fst demo_thread) \<and> \<not> is_first (fst demo_thread) \<and> timer (fst demo_thread) = Some 1200 \<and> snd (snd demo_thread) = 300"
  "removed (fst demo_finish) = Some None"
proof -
  let ?N = "upnp_NAT demo_igd demo_upnp"
  have w: "snd (igd_effect rq w) = snd w" for rq w
    by (simp add: igd_effect_def split: gateway_request.split)
  show r: "running (fst demo_thread) \<and> \<not> is_first (fst demo_thread) \<and> timer (fst demo_thread) = Some 1200 \<and>
      snd (snd demo_thread) = 300"
    by (simp add: demo_thread_def thread_fire_def thread_start_def upnp_NAT_def upnp_AddPortMapping_def
        upnp_GetExternalAddress_def getStatusInfo_def soapRequest_def demo_igd_def w)
  have "upnp_step ?N snd 30303 demo_wait (thread_start 0, (Map.empty, 0)) (thread_start 0, (Map.empty, 300))"
    by (rule upnp_step.gateway) (simp add: demo_wait_def)
  moreover have "upnp_step ?N snd 30303 demo_wait (thread_start 0, (Map.empty, 300)) demo_thread"
    unfolding demo_thread_def by (rule upnp_step.fire [where d = 300]) (simp_all add: thread_start_def)
  ultimately show 1: "upnpUpdateThread ?N snd (lit ''30303'') demo_wait 0 (Map.empty, 0) demo_thread"
    unfolding upnpUpdateThread_def demo_port(2) by (simp add: rtranclp.rtrancl_into_rtrancl)
  from r have "upnp_step ?N snd 30303 demo_wait (fst demo_thread, snd demo_thread) demo_finish"
    by (intro upnp_step.quit) simp
  with 1 show "upnpUpdateThread ?N snd (lit ''30303'') demo_wait 0 (Map.empty, 0) demo_finish"
    unfolding upnpUpdateThread_def demo_port(2) by (simp add: rtranclp.rtrancl_into_rtrancl)
  show "removed (fst demo_finish) = Some None"
    by (simp add: thread_finish_def upnp_NAT_def upnp_DeletePortMapping_def soapRequest_def demo_igd_def)
qed

lemma port_mapping_kept_witness:
  "(\<exists>x. 1200 \<le> x \<and> fst (snd demo_thread) (tcp, dec_bytes 30303) = Some (ourIP demo_upnp, dec_bytes 30303, x)) \<and>
   fst (snd demo_finish) (tcp, dec_bytes 30303) = None"
  using port_mapping_kept [OF demo_igd_ok demo_idle, of demo_wait 30303 0 "(Map.empty, 0)" "fst demo_thread" "snd demo_thread"]
    port_mapping_kept [OF demo_igd_ok demo_idle, of demo_wait 30303 0 "(Map.empty, 0)" "fst demo_finish" "snd demo_finish"]
    demo_thread_run
  by (simp add: demo_port(1))

text \<open>
  Everything that a call of \<open>AddPortMapping\<close> is given is in its request, under the names that the
  standard has for it; the port that the call returns is the one it was given, whatever the reply.
\<close>

theorem add_request_complete:
  fixes e i t :: int
  assumes "plain (ourIP n)" "plain p" "plain d"
  defines "m \<equiv> soap_body (add_message (ourIP n) p e i d t)"
  shows "xml_text ''NewProtocol'' m = Some p \<and> xml_text ''NewExternalPort'' m = Some (Itoa e) \<and>
         xml_text ''NewInternalPort'' m = Some (Itoa i) \<and> xml_text ''NewInternalClient'' m = Some (ourIP n) \<and>
         xml_text ''NewPortMappingDescription'' m = Some d \<and> xml_text ''NewLeaseDuration'' m = Some (Itoa t)"
  unfolding m_def using add_message_fields [OF assms(1-3)] by simp

lemma add_request_complete_witness:
  "xml_text ''NewExternalPort'' (soap_body (add_message (ourIP demo_upnp) tcp 30303 30303 (lit ''eth listen port'') 1200)) =
     Some (Itoa 30303)"
  using add_request_complete [OF demo_igd_ok(2) plain_args, of 30303 30303 1200] by simp


definition demo_root :: root where
  "demo_root =
     (let x = \<lparr>Space = [], Local = []\<rparr>;
          svc = \<lparr>ServiceType = service_urn ''WANIPConnection'', ControlURL = lit ''/ctl''\<rparr>;
          conn = Dev x (device_urn ''WANConnectionDevice'') (DevList x []) \<lparr>ServiceListXMLName = x, Service = [svc]\<rparr>;
          wan = Dev x (device_urn ''WANDevice'') (DevList x [conn]) \<lparr>ServiceListXMLName = x, Service = []\<rparr>
      in \<lparr>RootXMLName = x, SpecVersion = \<lparr>SpecXMLName = x, Major = 1, Minor = 0\<rparr>,
          RootDevice = Dev x (device_urn ''InternetGatewayDevice'') (DevList x [wan])
            \<lparr>ServiceListXMLName = x, Service = []\<rparr>\<rparr>)"

definition demo_answer :: bytes where
  "demo_answer =
     lit ''HTTP/1.1 200 OK'' @ crlf @ search_target @ lit ''LOCATION: http://10.0.0.138/Desc.xml'' @ crlf @ crlf"

definition demo_network :: "demo_gateway Services" where
  "demo_network = demo_igd\<lparr>udp_read := \<lambda>w. (Inr demo_answer, w),
     http_Get := \<lambda>_ w. (Inr \<lparr>StatusCode = 200, Body = []\<rparr>, w), xml_decode := \<lambda>_. Inr demo_root,
     host_name := Inr (lit ''node''), lookup_ip := \<lambda>_. ([lit ''10.0.0.2''], None)\<rparr>"

lemma demo_location:
  "answer_location (\<lambda>s. s) demo_answer = Inr (Some (lit ''http://10.0.0.138/desc.xml''))"
  by code_simp

lemma demo_url: "combineURL (lit ''http://10.0.0.138/desc.xml'') (lit ''/ctl'') = Inr (lit ''http://10.0.0.138/ctl'')"
  using combineURL_at_root [of "lit ''http''" "lit ''10.0.0.138''" "lit ''desc.xml''" "lit ''/ctl''"]
  by (simp add: lit_def)

lemma urn_inject [simp]: "device_urn a = device_urn b \<longleftrightarrow> a = b"
  by (simp add: device_urn_def)

lemma demo_discover:
  "Discover demo_network w =
     Inr (Inr \<lparr>serviceURL = lit ''http://10.0.0.138/ctl'', ourIP = lit ''10.0.0.2''\<rparr>, w)"
proof -
  have u: "getServiceURL demo_network (lit ''http://10.0.0.138/desc.xml'') w =
      Inr (Inr (lit ''http://10.0.0.138/ctl''), w)"
    by (simp add: getServiceURL_def demo_network_def demo_root_def Let_def getChildDevice_def getChildService_def demo_url)
  have ip: "getOurIP demo_network = Inr (Inr (lit ''10.0.0.2''))"
    by (simp add: getOurIP_def demo_network_def goindex_def)
  have f: "udp_write demo_network = (\<lambda>_ w. (None, w))" "udp_read demo_network = (\<lambda>w. (Inr demo_answer, w))"
    "unicode_lower demo_network = (\<lambda>s. s)" "take 1024 demo_answer = demo_answer" "(3::nat) = Suc 2"
    by (simp_all add: demo_network_def demo_igd_def demo_answer_def search_target_def text_defs)
  have "discover_rounds demo_network 3 w =
      Inr (Inr \<lparr>serviceURL = lit ''http://10.0.0.138/ctl'', ourIP = lit ''10.0.0.2''\<rparr>, w)"
    unfolding f(5) discover_rounds.simps by (simp add: f demo_location u ip)
  then show ?thesis by (simp add: Discover_def demo_network_def demo_igd_def)
qed


text \<open>
  A location without a path after its host loses the host: the address of the service is the scheme,
  a colon, one slash and the service's path.
\<close>

theorem host_lost_without_path:
  assumes "0x3a \<notin> set scheme" "0x2f \<notin> set hostport"
  shows "combineURL (scheme @ lit ''://'' @ hostport) sub = Inr (scheme @ lit '':/'' @ sub)"
  by (rule combineURL_without_path [OF assms])

lemma host_lost_without_path_witness:
  "combineURL (lit ''http://10.0.0.138'') (lit ''/ctl'') = Inr (lit ''http://ctl'')"
  using host_lost_without_path [of "lit ''http''" "lit ''10.0.0.138''" "lit ''/ctl''"] by (simp add: lit_def)

text \<open>
  Once the external address could not be read, the port is never mapped again: the timer stays off
  in every later state, and while the thread runs it does not change.
\<close>

theorem renewal_given_up:
  assumes "is_first t" "AddPortMapping N tcp lport lport (lit ''eth listen port'') 1200 w = (Inr e, w1)"
    and "GetExternalAddress N w1 = (Inl err, w2)"
    and "(upnp_step N clk lport env)\<^sup>*\<^sup>* (thread_fire N clk lport t w) (t', w')"
  shows "timer t' = None \<and> (running t' \<longrightarrow> t' = t\<lparr>timer := None\<rparr>)"
  using no_timer_no_renewal [OF assms(4) [unfolded renewal_stops [OF assms(1-3)]]] by simp

definition mute_gateway :: "unit NAT" where
  "mute_gateway =
     \<lparr>GetExternalAddress = \<lambda>w. (Inl [], w), AddPortMapping = \<lambda>_ e _ _ _ w. (Inr e, w),
      DeletePortMapping = \<lambda>_ _ _ w. (None, w)\<rparr>"

lemma renewal_given_up_witness: "timer (fst (thread_fire mute_gateway (\<lambda>_. 0) 30303 (thread_start 0) ())) = None"
proof -
  let ?s = "thread_fire mute_gateway (\<lambda>_. 0) 30303 (thread_start 0) ()"
  have "(upnp_step mute_gateway (\<lambda>_. 0) 30303 (=))\<^sup>*\<^sup>* ?s (fst ?s, snd ?s)"
    unfolding prod.collapse by (rule rtranclp.rtrancl_refl)
  then show ?thesis
    using renewal_given_up [of "thread_start 0" mute_gateway 30303 "()" 30303 "()" "[]" "()" "\<lambda>_. 0" "(=)" "fst ?s" "snd ?s"]
    by (simp add: mute_gateway_def thread_start_def)
qed

end
