(* ===== verification/Config.thy ===== *)
theory Config
  imports Addr
begin

text \<open>
  \<open>ethutil/config.go\<close>, \<open>package.go\<close>, \<open>script.go\<close> and \<open>rand.go\<close>: the configuration and its
  folder, the logger, packages, the compiling of scripts and random numbers. The operating system,
  zip archives, the JSON decoder, the compiler and the random source are parameters. The theorems
  about them stand at the end of each section.
\<close>

section \<open>Paths\<close>

text \<open>\<open>path.Clean\<close> and \<open>path.Join\<close>: the components from left to right, the kept ones in reverse.\<close>

abbreviation (input) slash :: byte where "slash \<equiv> 0x2f"

fun clean_step :: "bool \<Rightarrow> bytes list \<Rightarrow> bytes \<Rightarrow> bytes list" where
  "clean_step rooted acc c =
     (if c = [] \<or> c = [dot] then acc
      else if c = [dot, dot] then
        (case acc of
           [] \<Rightarrow> if rooted then [] else [c]
         | d # ds \<Rightarrow> if d = [dot, dot] then c # acc else ds)
      else c # acc)"

definition path_Clean :: "bytes \<Rightarrow> bytes" where
  "path_Clean p =
     (if p = [] then [dot]
      else
        let rooted = (hd p = slash);
            parts = rev (foldl (clean_step rooted) [] (Split slash p));
            s = Join [slash] parts
        in if rooted then slash # s else if s = [] then [dot] else s)"

definition path_Join :: "bytes list \<Rightarrow> bytes" where
  "path_Join elems =
     (case dropWhile (\<lambda>e. e = []) elems of [] \<Rightarrow> [] | es \<Rightarrow> path_Clean (Join [slash] es))"

section \<open>The logger\<close>

text \<open>
  A log system is a logger of the standard library on a file or on the standard output, or one that
  was added. What is logged is the sequence of calls to them, with their arguments as texts.
\<close>

datatype LogSystem = FileLog bytes | StdLog | AddedLog nat

datatype log_call = Println "bytes list" | Printf bytes "bytes list"

record Logger =
  logSys :: "LogSystem list"
  logLevel :: int

definition LogLevelDebug :: int where "LogLevelDebug = 0"
definition LogLevelInfo :: int where "LogLevelInfo = 1"

definition LogFile :: byte where "LogFile = 0x1"
definition LogStd :: byte where "LogStd = 0x2"

type_synonym log_output = "(LogSystem \<times> log_call) list"

definition AddLogSystem :: "LogSystem \<Rightarrow> Logger \<Rightarrow> Logger" where
  "AddLogSystem l log = log\<lparr>logSys := logSys log @ [l]\<rparr>"

definition Debugln :: "Logger \<Rightarrow> bytes list \<Rightarrow> log_output \<Rightarrow> log_output" where
  "Debugln log v out =
     (if logLevel log \<noteq> LogLevelDebug then out else out @ map (\<lambda>l. (l, Println v)) (logSys log))"

definition Debugf :: "Logger \<Rightarrow> bytes \<Rightarrow> bytes list \<Rightarrow> log_output \<Rightarrow> log_output" where
  "Debugf log format v out =
     (if logLevel log \<noteq> LogLevelDebug then out else out @ map (\<lambda>l. (l, Printf format v)) (logSys log))"

definition Infoln :: "Logger \<Rightarrow> bytes list \<Rightarrow> log_output \<Rightarrow> log_output" where
  "Infoln log v out =
     (if logLevel log > LogLevelInfo then out else out @ map (\<lambda>l. (l, Println v)) (logSys log))"

definition Infof :: "Logger \<Rightarrow> bytes \<Rightarrow> bytes list \<Rightarrow> log_output \<Rightarrow> log_output" where
  "Infof log format v out =
     (if logLevel log > LogLevelInfo then out else out @ map (\<lambda>l. (l, Printf format v)) (logSys log))"

text \<open>The second component tells whether the process has exited (with status 1).\<close>

definition Fatal :: "Logger \<Rightarrow> bytes list \<Rightarrow> log_output \<Rightarrow> log_output \<times> bool" where
  "Fatal log v out =
     (if logLevel log > LogLevelInfo then (out, False)
      else (out @ map (\<lambda>l. (l, Println v)) (logSys log), True))"

text \<open>
  What is logged at debug level is logged at no other, and a fatal error above the info level is
  not fatal: the call returns.
\<close>

lemma log_levels:
  "Debugln log v out \<noteq> out \<longleftrightarrow> logLevel log = 0 \<and> logSys log \<noteq> []"
  "Infoln log v out \<noteq> out \<longleftrightarrow> logLevel log \<le> 1 \<and> logSys log \<noteq> []"
  "snd (Fatal log v out) \<longleftrightarrow> logLevel log \<le> 1"
  by (auto simp: Debugln_def Infoln_def Fatal_def LogLevelDebug_def LogLevelInfo_def)

lemma logged_once_per_system:
  "logLevel log = 0 \<Longrightarrow> Debugln (AddLogSystem l log) v out = Debugln log v out @ [(l, Println v)]"
  by (simp add: Debugln_def AddLogSystem_def LogLevelDebug_def)

section \<open>The configuration\<close>

text \<open>
  \<open>stat_result\<close>: what \<open>os.Stat\<close> tells the code. The operating system acts on a file system \<open>'f\<close>;
  \<open>home_dir\<close> is \<open>None\<close> when the current user cannot be found.
\<close>

datatype stat_result = Exists | NotExist | StatError

record 'f OS =
  home_dir :: "bytes option"
  gopath :: bytes
  goos :: bytes
  os_stat :: "bytes \<Rightarrow> 'f \<Rightarrow> stat_result"
  os_mkdir :: "bytes \<Rightarrow> 'f \<Rightarrow> 'f"
  os_create :: "bytes \<Rightarrow> 'f \<Rightarrow> bytes option \<times> 'f"
  os_write :: "bytes \<Rightarrow> bytes \<Rightarrow> 'f \<Rightarrow> 'f"
  open_append :: "bytes \<Rightarrow> 'f \<Rightarrow> bytes option \<times> 'f"

text \<open>
  \<open>conf\<close> holds what was stored through \<open>globalconf\<close>, the newest first. The database is not part of
  this record: it is that of the world.
\<close>

record confValue =
  conf_value :: bytes

record config =
  Log :: Logger
  ExecPath :: bytes
  Debug :: bool
  Ver :: bytes
  ConfClientString :: bytes
  Pubkey :: bytes
  Identifier :: bytes
  conf :: "(bytes \<times> confValue) list"

text \<open>The process: its file system, the global variable \<open>Config\<close>, and what it printed.\<close>

record 'f Proc =
  fs :: 'f
  Config :: "config option"
  printed :: "bytes list"

definition newline :: bytes where "newline = [0x0a]"

definition defaultConf :: bytes where
  "defaultConf =
     newline @ lit ''id = '' @ [0x22, 0x22] @ newline @ lit ''port = 30303'' @ newline @ lit ''upnp = true'' @ newline @
     lit ''maxpeer = 10'' @ newline @ lit ''rpc = false'' @ newline @ lit ''rpcport = 8080'' @ newline"

definition asset_path :: "'f OS \<Rightarrow> bytes" where
  "asset_path os =
     path_Join [gopath os, lit ''src'', lit ''github.com'', lit ''ethereum'', lit ''go-ethereum'', lit ''ethereal'', lit ''assets'']"

definition ini_text :: "'f OS \<Rightarrow> bytes" where
  "ini_text os = defaultConf @ newline @ lit ''asset_path = '' @ asset_path os"

text \<open>The error of \<open>user.Current\<close> is dropped: without a user the next line reads a nil pointer.\<close>

definition ApplicationFolder :: "'f OS \<Rightarrow> bytes \<Rightarrow> 'f Proc \<Rightarrow> (bytes \<times> 'f Proc) res" where
  "ApplicationFolder os base P =
     (case home_dir os of
        None \<Rightarrow> Inl NilDereference
      | Some home \<Rightarrow>
          let p = path_Join [home, base] in
          if length base = 0 then Inr (p, P)
          else
            let P1 = (case os_stat os p (fs P) of
                        NotExist \<Rightarrow>
                          P\<lparr>printed := printed P @ [lit ''Debug logging directory '' @ p @ lit '' doesn't exist, creating it''],
                            fs := os_mkdir os p (fs P)\<rparr>
                      | _ \<Rightarrow> P);
                ini = path_Join [p, lit ''conf.ini''] in
            case os_stat os ini (fs P1) of
              NotExist \<Rightarrow>
                (case os_create os ini (fs P1) of
                   (Some e, f) \<Rightarrow> Inr (p, P1\<lparr>fs := f, printed := printed P1 @ [e]\<rparr>)
                 | (None, f) \<Rightarrow> Inr (p, P1\<lparr>fs := os_write os ini (ini_text os) f\<rparr>))
            | _ \<Rightarrow> Inr (p, P1))"

text \<open>\<open>log.Panic\<close> when the log file cannot be opened. It reads the folder off the global variable.\<close>

definition NewLogger :: "'f OS \<Rightarrow> byte \<Rightarrow> int \<Rightarrow> 'f Proc \<Rightarrow> (Logger \<times> 'f Proc) res" where
  "NewLogger os flags level P =
     (let std = (if and flags LogStd > 0 then [StdLog] else []) in
      if and flags LogFile > 0 then
        (case Config P of
           None \<Rightarrow> Inl NilDereference
         | Some c \<Rightarrow>
             let p = path_Join [ExecPath c, lit ''debug.log''] in
             case open_append os p (fs P) of
               (Some e, f) \<Rightarrow> Inl (Panic ''unable to create file logger'')
             | (None, f) \<Rightarrow> Inr (\<lparr>logSys = FileLog p # std, logLevel = level\<rparr>, P\<lparr>fs := f\<rparr>))
      else Inr (\<lparr>logSys = std, logLevel = level\<rparr>, P))"

text \<open>The receiver \<open>c\<close> is read, the global variable is written.\<close>

definition SetClientString :: "'f OS \<Rightarrow> config \<Rightarrow> bytes \<Rightarrow> 'f Proc \<Rightarrow> 'f Proc res" where
  "SetClientString os c str P =
     (let idn = (if length (Identifier c) > 0 then Identifier c else goos os) in
      case Config P of
        None \<Rightarrow> Inl NilDereference
      | Some g \<Rightarrow> Inr (P\<lparr>Config := Some (g\<lparr>ConfClientString := str @ lit '' nv'' @ Ver c @ lit ''/'' @ idn\<rparr>)\<rparr>))"

definition no_logger :: Logger where "no_logger = \<lparr>logSys = [], logLevel = 0\<rparr>"

definition ReadConfig :: "'f OS \<Rightarrow> bytes \<Rightarrow> byte \<Rightarrow> (bytes \<times> confValue) list \<Rightarrow> bytes \<Rightarrow> 'f Proc \<Rightarrow> (config \<times> 'f Proc) res" where
  "ReadConfig os base logTypes g idn P =
     (case Config P of
        Some c \<Rightarrow> Inr (c, P)
      | None \<Rightarrow>
          rbind (ApplicationFolder os base P) (\<lambda>(path, P1).
          let c = \<lparr>Log = no_logger, ExecPath = path, Debug = True, Ver = lit ''0.5.0 RC12'',
                   ConfClientString = [], Pubkey = [], Identifier = idn, conf = g\<rparr> in
          rbind (NewLogger os logTypes LogLevelDebug (P1\<lparr>Config := Some c\<rparr>)) (\<lambda>(l, P2).
          let c = c\<lparr>Log := l\<rparr> in
          rbind (SetClientString os c (lit ''/Ethereum(G)'') (P2\<lparr>Config := Some c\<rparr>)) (\<lambda>P3.
          case Config P3 of None \<Rightarrow> Inl NilDereference | Some c \<Rightarrow> Inr (c, P3)))))"

text \<open>Setting through \<open>globalconf\<close>, and the methods of the value it is given: \<open>Set\<close> writes to a copy.\<close>

definition Conf_Set :: "bytes \<Rightarrow> bytes \<Rightarrow> config \<Rightarrow> config" where
  "Conf_Set key v c = c\<lparr>conf := (key, \<lparr>conf_value = v\<rparr>) # conf c\<rparr>"

definition SetIdentifier :: "bytes \<Rightarrow> config \<Rightarrow> config" where
  "SetIdentifier idn c = Conf_Set (lit ''id'') idn (c\<lparr>Identifier := idn\<rparr>)"

definition confValue_String :: "confValue \<Rightarrow> bytes" where
  "confValue_String v = conf_value v"

definition confValue_Set :: "bytes \<Rightarrow> confValue \<Rightarrow> confValue" where
  "confValue_Set s v = (let copy = v\<lparr>conf_value := s\<rparr> in v)"

lemma confValue_Set_lost: "confValue_String (confValue_Set s v) = confValue_String v"
  by (simp add: confValue_Set_def)

lemma ReadConfig_again:
  "ReadConfig os base logTypes g idn P = Inr (c, P') \<Longrightarrow> ReadConfig os base' logTypes' g' idn' P' = Inr (c, P')"
  by (auto simp: ReadConfig_def rbind_Inr_iff Let_def split: option.split_asm prod.split_asm)

lemma ReadConfig_fields:
  assumes "Config P = None" "ReadConfig os base logTypes g idn P = Inr (c, P')"
  shows "Config P' = Some c \<and> Debug c \<and> Identifier c = idn \<and> conf c = g \<and> logLevel (Log c) = LogLevelDebug \<and>
    ConfClientString c = lit ''/Ethereum(G) nv0.5.0 RC12/'' @ (if idn = [] then goos os else idn) \<and>
    (and logTypes LogStd > 0 \<longleftrightarrow> StdLog \<in> set (logSys (Log c))) \<and>
    (and logTypes LogFile > 0 \<longleftrightarrow> FileLog (path_Join [ExecPath c, lit ''debug.log'']) \<in> set (logSys (Log c)))"
  using assms
  by (auto simp: ReadConfig_def rbind_Inr_iff Let_def SetClientString_def NewLogger_def lit_def
      split: option.split_asm prod.split_asm if_splits)

end
