(* ===== verification/Package.thy ===== *)
theory Package
  imports Config
begin

text \<open>
  \<open>ethutil/package.go\<close> (packages in zip archives), \<open>script.go\<close> (compiling scripts) and \<open>rand.go\<close>.
  What the zip reader, the JSON decoder, the compiler and the random source answer are parameters.
\<close>

section \<open>Packages\<close>

record PackageManifest =
  Entry :: bytes
  Height :: int
  Width :: int

record ExtPackage =
  EntryHtml :: bytes
  PkgManifest :: PackageManifest

text \<open>A file of an archive: its name, and what opening and reading it gives.\<close>

record zip_File =
  Name :: bytes
  Open :: "bytes + unit"
  ReadAll :: "bytes + bytes"

datatype json_error = io_EOF | json_Error bytes

text \<open>\<open>json_decode\<close> gives the decoder's error and the manifest that it has filled until then.\<close>

record pkg_env =
  OpenReader :: "bytes \<Rightarrow> bytes + zip_File list"
  json_decode :: "bytes \<Rightarrow> json_error option \<times> PackageManifest"

definition ReadFile :: "zip_File \<Rightarrow> bytes + bytes" where
  "ReadFile f =
     (case Open f of
        Inl e \<Rightarrow> Inl e
      | Inr rc \<Rightarrow>
          case ReadAll f of
            Inl e \<Rightarrow> Inl e
          | Inr content \<Rightarrow> Inr content)"

definition ReadManifest :: "pkg_env \<Rightarrow> bytes \<Rightarrow> bytes + PackageManifest" where
  "ReadManifest E m =
     (case json_decode E m of
        (Some io_EOF, manifest) \<Rightarrow> Inr manifest
      | (Some (json_Error e), manifest) \<Rightarrow> Inl e
      | (None, manifest) \<Rightarrow> Inr manifest)"

text \<open>The loop goes on after a match: \<open>i\<close> is the index of the first file of the list.\<close>

fun find_file :: "bytes \<Rightarrow> zip_File list \<Rightarrow> int \<Rightarrow> int \<Rightarrow> int" where
  "find_file fn [] i index = index"
| "find_file fn (f # files) i index = find_file fn files (i + 1) (if Name f = fn then i else index)"

definition FindFileInArchive :: "bytes \<Rightarrow> zip_File list \<Rightarrow> int" where
  "FindFileInArchive fn files = find_file fn files 0 (- 1)"

definition OpenPackage :: "pkg_env \<Rightarrow> bytes \<Rightarrow> (bytes + ExtPackage) res" where
  "OpenPackage E fn =
     (case OpenReader E fn of
        Inl e \<Rightarrow> Inr (Inl e)
      | Inr files \<Rightarrow>
          let manifestIndex = FindFileInArchive (lit ''manifest.json'') files in
          if manifestIndex < 0 then Inr (Inl (lit ''No manifest file found in archive''))
          else
            rbind (goindex files (nat manifestIndex)) (\<lambda>mf.
            case ReadFile mf of
              Inl e \<Rightarrow> Inr (Inl e)
            | Inr f \<Rightarrow>
                case ReadManifest E f of
                  Inl e \<Rightarrow> Inr (Inl e)
                | Inr manifest \<Rightarrow>
                    if Entry manifest = []
                    then Inr (Inl (lit ''Entry file specified but appears to be empty: '' @ Entry manifest))
                    else
                      let entryIndex = FindFileInArchive (Entry manifest) files in
                      if entryIndex < 0
                      then Inr (Inl (lit ''Entry file not found: '' @ [0x27] @ Entry manifest @ [0x27]))
                      else
                        rbind (goindex files (nat entryIndex)) (\<lambda>ef.
                        case ReadFile ef of
                          Inl e \<Rightarrow> Inr (Inl e)
                        | Inr f \<Rightarrow> Inr (Inr \<lparr>EntryHtml = f, PkgManifest = manifest\<rparr>))))"

text \<open>The index is that of the last file with the name.\<close>

lemma find_file_snoc: "find_file fn (files @ [f]) i index = (if Name f = fn then i + int (length files) else find_file fn files i index)"
  by (induction files arbitrary: i index) (auto simp: algebra_simps)

lemma FindFileInArchive_snoc:
  "FindFileInArchive fn (files @ [f]) = (if Name f = fn then int (length files) else FindFileInArchive fn files)"
  by (simp add: FindFileInArchive_def find_file_snoc)

lemma FindFileInArchive_cases:
  obtains (none) "FindFileInArchive fn files = - 1" "\<forall>f \<in> set files. Name f \<noteq> fn"
  | (last) as f bs where "files = as @ f # bs" "Name f = fn" "\<forall>g \<in> set bs. Name g \<noteq> fn"
      "FindFileInArchive fn files = int (length as)"
proof -
  have "FindFileInArchive fn files = - 1 \<and> (\<forall>f \<in> set files. Name f \<noteq> fn) \<or>
    (\<exists>as f bs. files = as @ f # bs \<and> Name f = fn \<and> (\<forall>g \<in> set bs. Name g \<noteq> fn) \<and>
       FindFileInArchive fn files = int (length as))"
  proof (induction files rule: rev_induct)
    case Nil
    show ?case by (simp add: FindFileInArchive_def)
  next
    case (snoc f files)
    show ?case
    proof (cases "Name f = fn")
      case True
      then show ?thesis by (simp add: FindFileInArchive_snoc) (metis append_Nil2 empty_iff empty_set)
    next
      case False
      from snoc.IH show ?thesis
      proof (elim disjE exE conjE)
        fix as g bs
        assume "files = as @ g # bs" "Name g = fn" "\<forall>h \<in> set bs. Name h \<noteq> fn" "FindFileInArchive fn files = int (length as)"
        with False have "files @ [f] = as @ g # (bs @ [f]) \<and> Name g = fn \<and> (\<forall>h \<in> set (bs @ [f]). Name h \<noteq> fn) \<and>
            FindFileInArchive fn (files @ [f]) = int (length as)"
          by (auto simp: FindFileInArchive_snoc simp del: append_Cons append_assoc)
        then show ?thesis by blast
      qed (use False in \<open>simp add: FindFileInArchive_snoc\<close>)
    qed
  qed
  with that show thesis by blast
qed

lemma goindex_found:
  "FindFileInArchive fn files \<ge> 0 \<Longrightarrow> \<exists>f \<in> set files. Name f = fn \<and> goindex files (nat (FindFileInArchive fn files)) = Inr f"
  by (cases rule: FindFileInArchive_cases [of fn files]) auto

text \<open>Opening a package never panics, and a package that opens has the text of its entry file.\<close>

lemma OpenPackage_total: "\<exists>x. OpenPackage E fn = Inr x"
proof (cases "OpenReader E fn")
  case (Inr files)
  let ?m = "FindFileInArchive (lit ''manifest.json'') files"
  show ?thesis
  proof (cases "?m < 0")
    case False
    with goindex_found [of "lit ''manifest.json''" files] obtain mf where mf: "goindex files (nat ?m) = Inr mf" by auto
    have "\<exists>x. rbind (goindex files (nat (FindFileInArchive n files))) (\<lambda>ef. case ReadFile ef of Inl e \<Rightarrow> Inr (Inl e) | Inr f \<Rightarrow> Inr (Inr (k f))) = Inr x"
      if "\<not> FindFileInArchive n files < 0" for n and k :: "bytes \<Rightarrow> ExtPackage"
      using goindex_found [of n files] that by (auto split: sum.split)
    with Inr False mf show ?thesis
      unfolding OpenPackage_def Let_def by (auto split: sum.split)
  qed (simp add: OpenPackage_def Inr)
qed (simp add: OpenPackage_def)

lemma OpenPackage_sound:
  assumes "OpenPackage E fn = Inr (Inr p)"
  shows "\<exists>files mf body ef. OpenReader E fn = Inr files \<and> mf \<in> set files \<and> Name mf = lit ''manifest.json'' \<and>
    ReadFile mf = Inr body \<and> ReadManifest E body = Inr (PkgManifest p) \<and> Entry (PkgManifest p) \<noteq> [] \<and>
    ef \<in> set files \<and> Name ef = Entry (PkgManifest p) \<and> ReadFile ef = Inr (EntryHtml p)"
proof -
  from assms obtain files where o: "OpenReader E fn = Inr files"
    unfolding OpenPackage_def by (cases "OpenReader E fn") auto
  let ?m = "FindFileInArchive (lit ''manifest.json'') files"
  from assms o have "\<not> ?m < 0" unfolding OpenPackage_def by auto
  with goindex_found [of "lit ''manifest.json''" files] obtain mf where
    mf: "mf \<in> set files" "Name mf = lit ''manifest.json''" "goindex files (nat ?m) = Inr mf" by auto
  from assms o mf \<open>\<not> ?m < 0\<close> obtain body m where m: "ReadFile mf = Inr body" "ReadManifest E body = Inr m" "Entry m \<noteq> []"
    "\<not> FindFileInArchive (Entry m) files < 0"
    unfolding OpenPackage_def Let_def by (auto split: sum.split_asm if_split_asm)
  with goindex_found [of "Entry m" files] obtain ef where
    ef: "ef \<in> set files" "Name ef = Entry m" "goindex files (nat (FindFileInArchive (Entry m) files)) = Inr ef" by auto
  from assms o mf \<open>\<not> ?m < 0\<close> m ef have "ReadFile ef = Inr (EntryHtml p) \<and> PkgManifest p = m"
    unfolding OpenPackage_def Let_def by (auto split: sum.split_asm)
  with o mf m ef show ?thesis by blast
qed

section \<open>Scripts\<close>

text \<open>\<open>mutan_Compile\<close> answers the code and a list of errors, nil ones among them.\<close>

record script_env =
  mutan_Compile :: "bytes \<Rightarrow> bytes \<times> bytes option list"
  mutan_PreParse :: "bytes \<Rightarrow> bytes \<times> bytes"

definition Compile :: "script_env \<Rightarrow> bytes \<Rightarrow> bytes + bytes" where
  "Compile E script =
     (case mutan_Compile E script of
        (byteCode, errors) \<Rightarrow>
          if length errors > 0
          then Inl (concat (map (\<lambda>er. case er of None \<Rightarrow> [] | Some t \<Rightarrow> t) errors))
          else Inr byteCode)"

definition CompileScript :: "script_env \<Rightarrow> bytes \<Rightarrow> bytes + bytes \<times> bytes" where
  "CompileScript E script =
     (case mutan_PreParse E script of
        (mainInput, initInput) \<Rightarrow>
          case Compile E mainInput of
            Inl e \<Rightarrow> Inl e
          | Inr mainScript \<Rightarrow>
              case Compile E initInput of
                Inl e \<Rightarrow> Inl e
              | Inr initScript \<Rightarrow> Inr (mainScript, initScript))"

lemma CompileScript_Inr:
  "CompileScript E s = Inr (m, i) \<longleftrightarrow>
     mutan_Compile E (fst (mutan_PreParse E s)) = (m, []) \<and> mutan_Compile E (snd (mutan_PreParse E s)) = (i, [])"
  by (auto simp: CompileScript_def Compile_def split: prod.splits sum.splits if_splits)

section \<open>Random numbers\<close>

text \<open>
  \<open>Read\<close> fills a buffer of eight bytes: the number of bytes read, the error, and the buffer
  after it. A short read without an error is an error of its own.
\<close>

definition ErrShortBuffer :: bytes where
  "ErrShortBuffer = lit ''short buffer''"

definition randomUint64 :: "nat \<times> bytes option \<times> bytes \<Rightarrow> uint64 \<times> bytes option" where
  "randomUint64 read =
     (case read of
        (n, err, b) \<Rightarrow>
          if n \<noteq> 8 then (0, Some ErrShortBuffer)
          else case err of
            Some e \<Rightarrow> (0, Some e)
          | None \<Rightarrow> (of_nat (be_nat b), None))"

text \<open>\<open>RandomUint64\<close> reads the source of \<open>crypto/rand\<close>, here the argument.\<close>

definition RandomUint64 :: "nat \<times> bytes option \<times> bytes \<Rightarrow> uint64 \<times> bytes option" where
  "RandomUint64 reader = randomUint64 reader"

lemma RandomUint64_exact: "length b = 8 \<Longrightarrow> RandomUint64 (8, None, b) = (r, e) \<Longrightarrow> unat r = be_nat b \<and> e = None"
  using be_nat_bound [of b] by (auto simp: RandomUint64_def randomUint64_def unat_of_nat take_bit_eq_mod)

end
