(* ===== verification/Node.thy ===== *)
theory Node
  imports Net_Steps Rpc Upnp_Correct Package
begin

text \<open>
  The node as a whole: \<open>New\<close>, \<open>Start\<close>, \<open>Stop\<close> and the loops of \<open>ethereum.go\<close>, the server of
  \<open>ethrpc/server.go\<close>, and the transition system in which the peers (\<open>Net_Steps\<close>), the renewal of the
  port mapping (\<open>Upnp\<close>) and the server run beside one another. A channel that is only closed is a
  flag; closing it twice is a panic.
\<close>

section \<open>The RPC server\<close>

record JsonRpcServer =
  rpc_quit :: bool
  listener_closed :: bool
  served :: nat

definition close_channel :: "bool \<Rightarrow> bool res" where
  "close_channel c = (if c then Inl (Panic ''close of closed channel'') else Inr True)"

text \<open>\<open>listen\<close> answers with an error or gives a listener.\<close>

definition NewJsonRpcServer :: "(bytes \<Rightarrow> bytes option) \<Rightarrow> int \<Rightarrow> bytes + JsonRpcServer" where
  "NewJsonRpcServer listen pt =
     (case listen ([colon] @ Itoa pt) of
        Some e \<Rightarrow> Inl e
      | None \<Rightarrow> Inr \<lparr>rpc_quit = False, listener_closed = False, served = 0\<rparr>)"

definition Rpc_Stop :: "JsonRpcServer \<Rightarrow> JsonRpcServer res" where
  "Rpc_Stop s = rbind (close_channel (rpc_quit s)) (\<lambda>c. Inr (s\<lparr>rpc_quit := c\<rparr>))"

text \<open>The goroutine that waits for \<open>quit\<close> and closes the listener.\<close>

definition exitHandler :: "JsonRpcServer \<Rightarrow> JsonRpcServer" where
  "exitHandler s = (if rpc_quit s then s\<lparr>listener_closed := True\<rparr> else s)"

text \<open>The loop of \<open>Start\<close> over the results of \<open>Accept\<close> (whether it gave a connection): the first error ends it.\<close>

fun Rpc_serve :: "bool list \<Rightarrow> JsonRpcServer \<Rightarrow> JsonRpcServer" where
  "Rpc_serve [] s = s"
| "Rpc_serve (ok # accepts) s = (if ok then Rpc_serve accepts (s\<lparr>served := served s + 1\<rparr>) else s)"

section \<open>The node\<close>

datatype goroutine = PoolHandler | PeerHandler | ReapHandler

text \<open>\<open>thread\<close> is the state of the renewal thread, once it was started.\<close>

record Ethereum =
  net :: Net
  nonce :: uint64
  Port :: bytes
  upnp_nat :: "upnpNAT option"
  Mining :: bool
  listening :: bool
  quit_chan :: bool
  shutdown_chan :: bool
  db_closed :: bool
  pool_quit :: bool
  RpcServer :: "JsonRpcServer option"
  routines :: "goroutine list"
  thread :: "upnp_thread option"

text \<open>What \<open>New\<close> finds: the database on disk, the random source, the key ring and the client string.\<close>

record NodeEnv =
  open_db :: "bytes + memdb"
  random8 :: "nat \<times> bytes option \<times> bytes"
  key_ring :: KeyRing
  client :: bytes

definition IsMining :: "Ethereum \<Rightarrow> bool" where "IsMining nd = Mining nd"
definition IsListening :: "Ethereum \<Rightarrow> bool" where "IsListening nd = listening nd"

definition PE_GetIsMining :: "Ethereum \<Rightarrow> bool" where "PE_GetIsMining nd = IsMining nd"
definition PE_GetIsListening :: "Ethereum \<Rightarrow> bool" where "PE_GetIsListening nd = IsListening nd"

definition Api_GetIsMining :: "Ethereum \<Rightarrow> bool reply" where
  "Api_GetIsMining nd = NewSuccessRes (Inr (PE_GetIsMining nd, net nd))"

definition Api_GetIsListening :: "Ethereum \<Rightarrow> bool reply" where
  "Api_GetIsListening nd = NewSuccessRes (Inr (PE_GetIsListening nd, net nd))"

text \<open>A failed discovery is only logged, the error of the random source is dropped.\<close>

definition find_nat :: "'w Services \<Rightarrow> bool \<Rightarrow> 'w \<Rightarrow> (upnpNAT option \<times> 'w) res" where
  "find_nat S usePnp w =
     (if usePnp then
        rbind (Discover S w) (\<lambda>(r, w). Inr (case r of Inl err \<Rightarrow> None | Inr n \<Rightarrow> Some n, w))
      else Inr (None, w))"

definition New :: "Env \<Rightarrow> NodeEnv \<Rightarrow> 'w Services \<Rightarrow> byte \<Rightarrow> bool \<Rightarrow> 'w \<Rightarrow> ((bytes + Ethereum) \<times> 'w) res" where
  "New E X S caps usePnp w =
     (case open_db X of
        Inl err \<Rightarrow> Inr (Inl err, w)
      | Inr d \<Rightarrow>
          rbind (find_nat S usePnp w) (\<lambda>(n, w).
          let (nc, _) = RandomUint64 (random8 X) in
          rbind (NewBlockChain E \<lparr>db = d, heap = []\<rparr>) (\<lambda>(chain, wd).
          rbind (NewStateManager E chain NewTxPool wd) (\<lambda>(m, wd).
          Inr (Inr \<lparr>net = NewNet m wd caps 0 (key_ring X) (client X), nonce = nc, Port = [], upnp_nat = n, Mining = False,
                    listening = False, quit_chan = False, shutdown_chan = False, db_closed = False, pool_quit = False,
                    RpcServer = None, routines = [PoolHandler], thread = None\<rparr>, w)))))"

text \<open>\<open>listen\<close> tells whether the port could be bound.\<close>

definition Start :: "NetEnv \<Rightarrow> SeedAnswers \<Rightarrow> (bytes \<Rightarrow> bool) \<Rightarrow> bool \<Rightarrow> Ethereum \<Rightarrow> Ethereum res" where
  "Start V A listen seed nd =
     (let ok = listen ([colon] @ Port nd);
          nd = nd\<lparr>listening := ok, routines := routines nd @ (if ok then [PeerHandler] else [])\<rparr>;
          nd = (if upnp_nat nd \<noteq> None then nd\<lparr>thread := Some (thread_start (now V))\<rparr> else nd);
          nd = nd\<lparr>routines := routines nd @ [ReapHandler]\<rparr> in
      if seed then rbind (Seed V A (net nd)) (\<lambda>s. Inr (nd\<lparr>net := s\<rparr>)) else Inr nd)"

text \<open>One round of \<open>peerHandler\<close>: an error of \<open>Accept\<close> is only logged.\<close>

definition peerHandler_round :: "NetEnv \<Rightarrow> (bytes \<times> bytes \<times> bool) option \<Rightarrow> Ethereum \<Rightarrow> Ethereum res" where
  "peerHandler_round V accepted nd =
     (case accepted of
        None \<Rightarrow> Inr nd
      | Some (l, r, wr) \<Rightarrow> rbind (AddPeer V (open_conn l r wr) (net nd)) (\<lambda>s. Inr (nd\<lparr>net := s\<rparr>)))"

text \<open>
  \<open>Stop\<close>: the peers, the channel \<open>quit\<close>, the server, the pool (whose \<open>Stop\<close> closes a channel, too),
  the manager (which only logs), \<open>shutdownChan\<close>, and the deferred closing of the database.
\<close>

definition Stop :: "Ethereum \<Rightarrow> Ethereum res" where
  "Stop nd =
     rbind (eachPeer Peer_Stop (peers (net nd)) (net nd)) (\<lambda>s.
     rbind (close_channel (quit_chan nd)) (\<lambda>q.
     rbind (case RpcServer nd of None \<Rightarrow> Inr None | Some r \<Rightarrow> rbind (Rpc_Stop r) (\<lambda>r. Inr (Some r))) (\<lambda>rpc.
     rbind (close_channel (pool_quit nd)) (\<lambda>pq.
     let s = s\<lparr>sm := (sm s)\<lparr>txpool := TxPool_Stop (txpool (sm s))\<rparr>\<rparr> in
     rbind (close_channel (shutdown_chan nd)) (\<lambda>sc.
     Inr (nd\<lparr>net := s, quit_chan := q, RpcServer := rpc, pool_quit := pq, shutdown_chan := sc, db_closed := True\<rparr>))))))"

text \<open>\<open>WaitForShutdown\<close> returns once the channel is closed.\<close>

definition WaitForShutdown :: "Ethereum \<Rightarrow> bool" where
  "WaitForShutdown nd = shutdown_chan nd"

section \<open>The node as a transition system\<close>

definition node_gateway :: "'w Services \<Rightarrow> Ethereum \<Rightarrow> 'w NAT" where
  "node_gateway S nd = upnp_NAT S (the (upnp_nat nd))"

text \<open>
  A step of the server (but for its end), the end of the node, the timer of the renewal thread, its
  branch on the channel \<open>quit\<close>, and what time and the gateway do by themselves.
\<close>

inductive node_step ::
    "'w Services \<Rightarrow> ('w \<Rightarrow> int) \<Rightarrow> ('w \<Rightarrow> 'w \<Rightarrow> bool) \<Rightarrow> Ethereum \<times> 'w \<Rightarrow> Ethereum \<times> 'w \<Rightarrow> bool"
  for S :: "'w Services" and clk :: "'w \<Rightarrow> int" and env :: "'w \<Rightarrow> 'w \<Rightarrow> bool"
where
  server: "net_step V a (net nd) = Inr s \<Longrightarrow> a \<noteq> Shutdown \<Longrightarrow> node_step S clk env (nd, w) (nd\<lparr>net := s\<rparr>, w)"
| stop: "Stop nd = Inr nd' \<Longrightarrow> node_step S clk env (nd, w) (nd', w)"
| timer: "thread nd = Some t \<Longrightarrow> running t \<Longrightarrow> timer t = Some d \<Longrightarrow> d \<le> clk w \<Longrightarrow>
    thread_fire (node_gateway S nd) clk (ParseInt16 (Port nd)) t w = (t', w') \<Longrightarrow>
    node_step S clk env (nd, w) (nd\<lparr>thread := Some t'\<rparr>, w')"
| quit: "thread nd = Some t \<Longrightarrow> running t \<Longrightarrow> quit_chan nd \<Longrightarrow>
    thread_finish (node_gateway S nd) (ParseInt16 (Port nd)) t w = (t', w') \<Longrightarrow>
    node_step S clk env (nd, w) (nd\<lparr>thread := Some t'\<rparr>, w')"
| gateway: "env w w' \<Longrightarrow> node_step S clk env (nd, w) (nd, w')"

inductive_cases node_stepE: "node_step S clk ev (nd, w) (nd', w')"

end
