(* ===== verification/Public_Correct.thy ===== *)
theory Public_Correct
  imports Rpc Manager_Correct
begin

text \<open>
  What the interfaces do with what they are given: which storage slot a request reads, whose
  transaction is queued, and the inputs that are misread or end the node.
\<close>

section \<open>Numbers in requests\<close>

lemma digit_val_hex:
  assumes "d < 16"
  shows "digit_val (char_of (unat (hex_digit d))) = Some d \<and> char_of (unat (hex_digit d)) \<noteq> CHR ''_''"
proof -
  have u: "unat (hex_digit d) = (if d < 10 then 48 + d else 87 + d)" using hex_digit_lt [OF assms] .
  have o: "of_char (char_of (unat (hex_digit d)) :: char) = unat (hex_digit d)"
    using assms u by (simp add: of_char_of)
  have "unat (hex_digit d) \<noteq> 95" using assms u by (auto split: if_splits)
  moreover have "(of_char CHR ''_'' :: nat) = 95" by simp
  ultimately have "char_of (unat (hex_digit d)) \<noteq> CHR ''_''" using o by metis
  then show ?thesis using o u assms by (auto simp: digit_val_def Let_def)
qed

lemma chars_0x: "text_of str_0x = ''0x''"
  by code_simp

lemma scan_hex: "scan_digits 16 True acc (text_of (Hex bs)) = Some (acc * 256 ^ length bs + be_nat bs)"
proof (induction bs arbitrary: acc)
  case Nil
  then show ?case by (simp add: Hex_def text_of_def be_nat_def)
next
  case (Cons b bs)
  have d: "unat b div 16 < 16" "unat b mod 16 < 16" using unat_byte_bound [of b] by (simp_all add: less_mult_imp_div_less)
  have "scan_digits 16 True acc (text_of (Hex (b # bs))) =
      scan_digits 16 True (16 * (16 * acc + unat b div 16) + unat b mod 16) (text_of (Hex bs))"
    using digit_val_hex [OF d(1)] digit_val_hex [OF d(2)] d by (simp add: Hex_Cons text_of_def)
  also have "16 * (16 * acc + unat b div 16) + unat b mod 16 = 256 * acc + unat b" by simp
  finally show ?case unfolding Cons.IH be_nat_Cons by (simp add: algebra_simps)
qed

lemma Big_Hex: "bs \<noteq> [] \<Longrightarrow> Big U (str_0x @ Hex bs) = int (be_nat bs)"
proof -
  assume "bs \<noteq> []"
  then have ne: "text_of (Hex bs) \<noteq> []" by (cases bs) (simp_all add: Hex_Cons text_of_def)
  have "text_of (str_0x @ Hex bs) = CHR ''0'' # CHR ''x'' # text_of (Hex bs)"
    using chars_0x by (simp add: text_of_def)
  then show ?thesis using ne scan_hex [of 0 bs]
    by (simp add: Big_def parse_big_def SetString0_def scan_nat_def)
qed

lemma Big_Hex_number: "i \<noteq> 0 \<Longrightarrow> Big U (str_0x @ Hex (big_Bytes i)) = \<bar>i\<bar>"
proof -
  assume "i \<noteq> 0"
  then have "big_Bytes i \<noteq> []" using be_nat_big_Bytes [of i] by (auto simp: be_nat_def)
  then show ?thesis using Big_Hex by simp
qed

text \<open>A request for the storage slot of a contract, with the slot as a decimal number, reads the slot of
  that number (of its absolute value): turning it into hex for the interface below and parsing it
  again loses nothing, except that 0 becomes the text 0x, which is no number.\<close>

theorem GetStorageAt_slot:
  assumes "gs_Address a \<noteq> []" "SetString10 (text_of (gs_Key a)) = Some i" "i \<noteq> 0"
    and "PE_GetStateObject (gs_Address a) s = Inr (Some obj, s1)" "GetStorage \<bar>i\<bar> obj (world s1) = Inr (v, w)"
  shows "Api_GetStorageAt U a s =
    Inr (Inr \<lparr>gr_Key = gs_Key a, gr_Value = big_String (BigInt v), gr_Address = gs_Address a\<rparr>, s1\<lparr>world := w\<rparr>)"
proof -
  have "gs_Key a \<noteq> []" using assms(2) by (auto simp: SetString10_def text_of_def)
  then show ?thesis using assms Big_Hex_number [OF assms(3)]
    by (simp add: Api_GetStorageAt_def requiring_def GetStorage_requirements_def NewSuccessRes_def P_GetStorage_def GetMem_def)
qed

section \<open>Misread inputs\<close>

lemma unhex_x: "unhex_digit 0x78 = None"
  by (simp add: unhex_digit_def)

lemma FromHex_0x: "take 2 xs = str_0x \<Longrightarrow> FromHex xs = []"
proof -
  assume "take 2 xs = str_0x"
  then obtain ys where "xs = 0x30 # 0x78 # ys"
    by (cases xs; cases "tl xs") (auto simp: str_0x_def numeral_2_eq_2)
  then show ?thesis by (simp add: unhex_x split: option.split)
qed

text \<open>A contract script that is given in hex is always replaced by the empty script: hex is recognised by
  the prefix 0x, which is not removed before decoding, and decoding stops at the x.\<close>

theorem hex_script_lost: "IsHex scr \<Longrightarrow> contract_script U scr = Some []"
  by (simp add: contract_script_def IsHex_def FromHex_0x)

theorem hex_script_lost_witness: "contract_script U (lit ''0x6001'') = Some []"
proof (rule hex_script_lost)
  show "IsHex (lit ''0x6001'')" by code_simp
qed

text \<open>Two keys with the prefix 0x are the same key: only the prefix is decoded.\<close>

theorem prefixed_key_ignored:
  assumes "take 2 key = str_0x" "take 2 key' = str_0x"
  shows "createTx V U key recipient v gas price scr s = createTx V U key' recipient v gas price scr s"
proof -
  have "key_bytes k = Inr []" if "take 2 k = str_0x" for k
  proof -
    have "length (take 2 k) = 2" using that by (simp add: str_0x_def)
    then have "2 \<le> length k" by simp
    then show ?thesis using that FromHex_0x [of str_0x] by (simp add: key_bytes_def goslice_def str_0x_def)
  qed
  then show ?thesis using assms by (simp add: createTx_def)
qed

theorem prefixed_key_ignored_witness:
  "createTx V U (lit ''0x01'') recipient v gas price scr s = createTx V U (lit ''0x02'') recipient v gas price scr s"
  by (rule prefixed_key_ignored) code_simp+

lemma hex_digit_range: "d < 16 \<Longrightarrow> 48 \<le> unat (hex_digit d) \<and> unat (hex_digit d) \<noteq> 120"
  using hex_digit_lt [of d] by (auto split: if_splits)

lemma hex_digit_other: "d < 16 \<Longrightarrow> hex_digit d \<noteq> 0x0a \<and> hex_digit d \<noteq> 0x22 \<and> hex_digit d \<noteq> 0x78"
  using hex_digit_range [of d] by auto

lemma Hex_chars: "c \<in> set (Hex bs) \<Longrightarrow> c \<noteq> 0x0a \<and> c \<noteq> 0x22 \<and> c \<noteq> 0x78"
proof (induction bs)
  case (Cons b bs)
  have d: "unat b div 16 < 16" "unat b mod 16 < 16" using unat_byte_bound [of b] by (simp_all add: less_mult_imp_div_less)
  show ?case using Cons hex_digit_other [OF d(1)] hex_digit_other [OF d(2)] by (auto simp: Hex_Cons)
qed (simp add: Hex_def)

lemma split_lines_one: "0x0a \<notin> set cs \<Longrightarrow> split_lines cs = [cs]"
  by (induction cs) auto

text \<open>Data of a message that is given in hex is read as a number: the prefix is removed, and what follows
  is parsed in base 10 (or 8). The result is padded to 32 bytes, so it is never the given bytes when those are
  fewer.\<close>

theorem hex_data_misread:
  assumes "bs \<noteq> []"
  shows "message_data U (str_0x @ Hex bs) = Inr (BigToBytes (parse_big U (Hex bs)) 256) \<and>
    (length bs < 32 \<longrightarrow> message_data U (str_0x @ Hex bs) \<noteq> Inr bs)"
proof -
  have ne: "Hex bs \<noteq> []" using assms by (cases bs) (simp_all add: Hex_Cons)
  have chars: "c \<in> set (Hex bs) \<Longrightarrow> c \<noteq> 0x0a \<and> c \<noteq> 0x22 \<and> c \<noteq> 0x78" for c by (rule Hex_chars)
  have "take 2 (Hex bs) \<noteq> str_0x"
  proof
    assume "take 2 (Hex bs) = str_0x"
    then have "0x78 \<in> set (Hex bs)" using set_take_subset [of 2 "Hex bs"] by (auto simp: str_0x_def)
    then show False using chars by blast
  qed
  moreover have "hd (Hex bs) \<noteq> 0x22" using chars hd_in_set [OF ne] by blast
  ultimately have m: "message_data U (str_0x @ Hex bs) = Inr (BigToBytes (parse_big U (Hex bs)) 256)"
    using ne split_lines_one [of "Hex bs"] chars [of "0x0a"]
    by (cases "0x0a \<in> set (Hex bs)") (simp_all add: message_data_def goslice_def str_0x_def FormatData_def StringToByteFunc_def)
  then show ?thesis using length_BigToBytes [of "parse_big U (Hex bs)" 256] by auto
qed

theorem hex_data_misread_witness:
  "message_data U (lit ''0x60'') = Inr (BigToBytes 60 256) \<and> message_data U (lit ''0x60'') \<noteq> Inr [0x60]"
proof -
  have l: "lit ''0x60'' = str_0x @ Hex [0x60]" "SetString0 (text_of (Hex [0x60])) = Some 60" by code_simp+
  have "parse_big U (Hex [0x60]) = 60" by (simp only: parse_big_def l(2) option.case)
  with hex_data_misread [of "[0x60]" U] show ?thesis unfolding l(1) by auto
qed

section \<open>Transactions\<close>

text \<open>While no account of the name registry exists in the current state, every Transact request with
  complete arguments ends the node: the missing account is read without a check.\<close>

theorem missing_namereg_panics:
  assumes "Transact_requirements args = None" "PE_GetKey (net_env V) s = Inr key"
    and "CurrentState (sm s) = Inr r" "GetStateObject r namereg (world s) = Inr (None, w)"
  shows "Api_Transact V U args s = Inl NilDereference"
proof -
  have "na_Recipient args \<noteq> []" using assms(1) by (auto simp: Transact_requirements_def)
  then show ?thesis using assms
    by (simp add: Api_Transact_def requiring_def NewSuccessRes_def PE_Transact_def createTx_def GetAddressFromNameReg_def Let_def)
qed

lemma tx_Hash_cong: "tx_fields tx = tx_fields tx' \<Longrightarrow> tx_Hash E tx = tx_Hash E tx'"
  by (simp add: tx_Hash_def)

text \<open>A signed transaction is attributed to the owner of the key, by the law of the signature scheme.\<close>

lemma Sign_Sender:
  assumes "Sign E key tx = Inr tx'" "length (sign E (tx_Hash E tx) key) = 65"
    and "recover E (tx_Hash E tx) (sign E (tx_Hash E tx) key) = pub" "length pub = 65" "pub ! 0 = 4"
  shows "Sender E tx' = Key_Address (sha E) \<lparr>PrivateKey = key, PubKey = pub\<rparr>"
proof -
  let ?sig = "sign E (tx_Hash E tx) key"
  have tx': "tx' = tx\<lparr>tx_r := take 32 ?sig, tx_s := take 32 (drop 32 ?sig), tx_v := ?sig ! 64 + 27\<rparr>"
    using assms(1,2) by (simp add: Sign_def Signature_def goslice_def goindex_def Let_def)
  have h: "tx_Hash E tx' = tx_Hash E tx" by (rule tx_Hash_cong) (simp add: tx' tx_fields_def)
  have "take 32 ?sig @ take 32 (drop 32 ?sig) @ [?sig ! 64] = take 65 ?sig"
    using assms(2) take_Suc_conv_app_nth [of 64 ?sig] take_add [of 32 32 ?sig] by simp
  then have "PublicKey E tx' = pub" using assms(2,3) by (simp add: PublicKey_def h) (simp add: tx')
  moreover have "pub \<noteq> []" using assms(4) by auto
  ultimately show ?thesis using assms(4,5)
    by (simp add: Sender_def Key_Address_def goindex_def goslice_def Let_def drop_take min_def)
qed

lemma submitTx_queues:
  assumes "submitTx V k tx creation s = Inr (rc, s')" "length (queueChan (txpool (sm s))) < txPoolQueueSize"
    and "\<And>h. length (sign (net_env V) h (PrivateKey k)) = 65"
    and "\<And>h. recover (net_env V) h (sign (net_env V) h (PrivateKey k)) = PubKey k" "length (PubKey k) = 65" "PubKey k ! 0 = 4"
  shows "\<exists>addr acc w tx' created. Key_Address (sha (net_env V)) k = Inr addr \<and>
    GetStateObject (transState (sm s)) addr (world s) = Inr (Some acc, w) \<and>
    queueChan (txpool (sm s')) = queueChan (txpool (sm s)) @ [tx'] \<and> Sender (net_env V) tx' = Inr addr \<and>
    tx_fields tx' = tx_fields (tx\<lparr>tx_Nonce := Nonce acc\<rparr>) \<and> contractCreation tx' = contractCreation tx \<and>
    rc = Some (NewPReciept creation created (tx_Hash (net_env V) tx') addr)"
proof -
  let ?E = "net_env V"
  obtain addr acc w w' tx' s2 created where a: "Key_Address (sha ?E) k = Inr addr"
    "GetStateObject (transState (sm s)) addr (world s) = Inr (Some acc, w)"
    "Sign ?E (PrivateKey k) (tx\<lparr>tx_Nonce := Nonce acc\<rparr>) = Inr tx'" "queue_tx V tx' (s\<lparr>world := w'\<rparr>) = Inr s2"
    "rc = Some (NewPReciept creation created (tx_Hash ?E tx') addr)" "s' = s2"
    using assms(1) by (auto simp: submitTx_def Let_def rbind_Inr_iff split: option.split_asm)
  have "queueChan (txpool (sm s')) = queueChan (txpool (sm s)) @ [tx']"
    using a(4,6) assms(2) by (auto simp: queue_tx_def QueueTransaction_def)
  moreover have "Sender ?E tx' = Inr addr"
    using Sign_Sender [OF a(3) assms(3,4,5,6)] a(1) by (cases k) simp
  moreover have "tx_fields tx' = tx_fields (tx\<lparr>tx_Nonce := Nonce acc\<rparr>)" "contractCreation tx' = contractCreation tx"
    using a(3) by (auto simp: Sign_def Let_def rbind_Inr_iff tx_fields_def)
  ultimately show ?thesis using a by blast
qed

lemma key_bytes_Hex: "sec \<noteq> [] \<Longrightarrow> key_bytes (Hex sec) = Inr sec"
proof -
  assume "sec \<noteq> []"
  then obtain b bs where sec: "sec = b # bs" by (cases sec) auto
  then have "take 2 (Hex sec) = Hex [b]" by (simp add: Hex_def)
  moreover have "0x78 \<notin> set (Hex [b])" using Hex_chars [of "0x78" "[b]"] by blast
  then have "Hex [b] \<noteq> str_0x" by (auto simp: str_0x_def)
  ultimately show ?thesis by (simp add: key_bytes_def goslice_def sec) (simp add: Hex_Cons)
qed

text \<open>C19. A transaction that the node creates for one of its keys is queued with the nonce that the account of
  that key has in the transient state (after the look-up of the recipient's name); by the law of the signature scheme its sender is the
  account, and the receipt names the hash of what was queued.\<close>

theorem createTx_queues:
  assumes "createTx V U (Hex sec) recipient v gas price scr s = Inr (Some rc, s')" "sec \<noteq> []" "genpub U sec = Some pub"
    and "length (queueChan (txpool (sm s))) < txPoolQueueSize"
    and "\<And>h. length (sign (net_env V) h sec) = 65" "\<And>h. recover (net_env V) h (sign (net_env V) h sec) = pub"
    and "length pub = 65" "pub ! 0 = 4"
  shows "\<exists>addr acc s1 w tx. (if recipient = [] then s1 = s else \<exists>a. GetAddressFromNameReg recipient s = Inr (a, s1)) \<and>
    queueChan (txpool (sm s')) = queueChan (txpool (sm s)) @ [tx] \<and>
    Sender (net_env V) tx = Inr addr \<and> GetStateObject (transState (sm s)) addr (world s1) = Inr (Some acc, w) \<and>
    tx_Nonce tx = Nonce acc \<and> tx_Value tx = Big U v \<and> tx_Gas tx = Big U gas \<and> GasPrice tx = Big U price \<and>
    (contractCreation tx \<longleftrightarrow> recipient = []) \<and>
    pr_Hash rc = Hex (tx_Hash (net_env V) tx) \<and> pr_Sender rc = Hex addr \<and> (CreatedContract rc \<longleftrightarrow> recipient = [])"
proof -
  let ?k = "\<lparr>PrivateKey = sec, PubKey = pub\<rparr>"
  obtain tx s1 where t: "submitTx V ?k tx (recipient = []) s1 = Inr (Some rc, s')" "sm s1 = sm s"
    "tx_Value tx = Big U v" "tx_Gas tx = Big U gas" "GasPrice tx = Big U price" "contractCreation tx \<longleftrightarrow> recipient = []"
    "if recipient = [] then s1 = s else \<exists>a. GetAddressFromNameReg recipient s = Inr (a, s1)"
    using assms(1,3) key_bytes_Hex [OF assms(2)]
    by (cases "recipient = []")
      (auto simp: createTx_def Let_def NewKeyPairFromSec_def rbind_Inr_iff GetAddressFromNameReg_def
        NewContractCreationTx_def NewTransactionMessage_def ZeroTransaction_def split: option.split_asm)
  from submitTx_queues [OF t(1)] assms(4-8) t(2) obtain addr acc w tx' created where
    "GetStateObject (transState (sm s)) addr (world s1) = Inr (Some acc, w)"
    "queueChan (txpool (sm s')) = queueChan (txpool (sm s)) @ [tx']" "Sender (net_env V) tx' = Inr addr"
    "tx_fields tx' = tx_fields (tx\<lparr>tx_Nonce := Nonce acc\<rparr>)" "contractCreation tx' = contractCreation tx"
    "rc = NewPReciept (recipient = []) created (tx_Hash (net_env V) tx') addr"
    by auto
  with t(3-7) show ?thesis
    by (intro exI [of _ addr] exI [of _ acc] exI [of _ s1] exI [of _ w] exI [of _ tx'])
      (simp add: tx_fields_def NewPReciept_def)
qed

section \<open>Concrete runs\<close>

text \<open>A node with one key, whose account is in the state, and the signature scheme that accepts everything.\<close>

definition pub_env :: Env where
  "pub_env = const_env\<lparr>recover := \<lambda>_ _. 4 # replicate 64 1, sign := \<lambda>_ _. replicate 65 0\<rparr>"

definition pub_net_env :: NetEnv where
  "pub_net_env = \<lparr>proc = \<lparr>penv = pub_env, pstale = (\<lambda>_. None), pfuel = 10\<rparr>, now = 0, lookupIP = (\<lambda>_. None), rand = (\<lambda>_. 0), at_test = id, at_scan = id\<rparr>"

definition pub_inputs :: PubEnv where
  "pub_inputs = \<lparr>genpub = \<lambda>_. Some (4 # replicate 64 1), compile = (\<lambda>_. None), junk = (\<lambda>_. 0)\<rparr>"

definition pub_world :: World where
  "pub_world = (case UpdateStateObject pub_env 0 (NewAccount (replicate 20 0) 100) demo_world of Inr w \<Rightarrow> w | Inl e \<Rightarrow> demo_world)"

definition pub_net :: Net where
  "pub_net = NewNet demo_manager pub_world 7 5 [\<lparr>PrivateKey = [1], PubKey = 4 # replicate 64 1\<rparr>] []"

lemma res_cases: "(case r of Inr x \<Rightarrow> P x | Inl e \<Rightarrow> False) \<Longrightarrow> \<exists>x. r = Inr x \<and> P x"
  by (cases r) auto

theorem createTx_queues_witness:
  "\<exists>rc s' tx. createTx pub_net_env pub_inputs (Hex [1]) [] (lit ''5'') (lit ''10'') (lit ''1'') (lit ''0x6001'') pub_net = Inr (Some rc, s') \<and>
     queueChan (txpool (sm s')) = [tx] \<and> Sender (net_env pub_net_env) tx = Inr (replicate 20 0) \<and> contractCreation tx"
proof -
  have "case createTx pub_net_env pub_inputs (Hex [1]) [] (lit ''5'') (lit ''10'') (lit ''1'') (lit ''0x6001'') pub_net of
      Inr (rc, s') \<Rightarrow> (case rc of None \<Rightarrow> False | Some r \<Rightarrow> pr_Sender r = Hex (replicate 20 0)) | Inl e \<Rightarrow> False"
    by code_simp
  then obtain rc s' where r: "createTx pub_net_env pub_inputs (Hex [1]) [] (lit ''5'') (lit ''10'') (lit ''1'') (lit ''0x6001'') pub_net = Inr (Some rc, s')"
    "pr_Sender rc = Hex (replicate 20 0)"
    by (auto dest!: res_cases split: option.split_asm)
  have q: "queueChan (txpool (sm pub_net)) = []"
    by (simp add: pub_net_def NewNet_def demo_manager_def NewTxPool_def)
  from createTx_queues [OF r(1), of "4 # replicate 64 1"] obtain addr tx where
    t: "queueChan (txpool (sm s')) = [tx]" "Sender (net_env pub_net_env) tx = Inr addr" "contractCreation tx" "pr_Sender rc = Hex addr"
    using q by (auto simp: pub_inputs_def net_env_def pub_net_env_def pub_env_def txPoolQueueSize_def)
  have "addr = replicate 20 0" using t(4) r(2) FromHex_Hex by metis
  then show ?thesis using r(1) t(1-3) by blast
qed

theorem missing_namereg_panics_witness:
  "Api_Transact pub_net_env pub_inputs \<lparr>na_Sec = [], na_Recipient = lit ''bob'', na_Value = lit ''1'', na_Gas = lit ''1'',
     na_GasPrice = lit ''1'', na_Init = [], na_Body = []\<rparr> pub_net = Inl NilDereference"
proof -
  have "case PE_GetKey (net_env pub_net_env) pub_net of Inr key \<Rightarrow> True | Inl e \<Rightarrow> False" by code_simp
  then obtain key where k: "PE_GetKey (net_env pub_net_env) pub_net = Inr key" by (auto dest!: res_cases)
  have c: "CurrentState (sm pub_net) = Inr 0"
    by (simp add: CurrentState_def current_def pub_net_def NewNet_def demo_manager_def demo_chain_def demo_block_def)
  have "case GetStateObject 0 namereg (world pub_net) of Inr (obj, w) \<Rightarrow> (case obj of None \<Rightarrow> True | Some c \<Rightarrow> False) | Inl e \<Rightarrow> False"
    by code_simp
  then obtain w where g: "GetStateObject 0 namereg (world pub_net) = Inr (None, w)"
    by (auto dest!: res_cases split: option.split_asm)
  show ?thesis
    by (rule missing_namereg_panics [OF _ k c g]) (simp add: Transact_requirements_def lit_def)
qed

theorem GetStorageAt_slot_witness:
  "\<exists>v s'. Api_GetStorageAt pub_inputs \<lparr>gs_Address = Hex (replicate 20 0), gs_Key = lit ''300''\<rparr> pub_net =
     Inr (Inr \<lparr>gr_Key = lit ''300'', gr_Value = v, gr_Address = Hex (replicate 20 0)\<rparr>, s')"
proof -
  have "case PE_GetStateObject (Hex (replicate 20 0)) pub_net of
      Inr (obj, s1) \<Rightarrow> (case obj of None \<Rightarrow> False
        | Some c \<Rightarrow> (case GetStorage 300 c (world s1) of Inr (v, w) \<Rightarrow> True | Inl e \<Rightarrow> False)) | Inl e \<Rightarrow> False"
    by code_simp
  then obtain obj s1 where o: "PE_GetStateObject (Hex (replicate 20 0)) pub_net = Inr (obj, s1)"
    "case obj of None \<Rightarrow> False | Some c \<Rightarrow> (case GetStorage 300 c (world s1) of Inr (v, w) \<Rightarrow> True | Inl e \<Rightarrow> False)"
    by (auto dest!: res_cases)
  then obtain c where c: "PE_GetStateObject (Hex (replicate 20 0)) pub_net = Inr (Some c, s1)"
    "case GetStorage 300 c (world s1) of Inr (v, w) \<Rightarrow> True | Inl e \<Rightarrow> False"
    by (cases obj) auto
  from c(2) obtain v w where "GetStorage 300 c (world s1) = Inr (v, w)" by (auto dest!: res_cases)
  with c(1) have g: "PE_GetStateObject (Hex (replicate 20 0)) pub_net = Inr (Some c, s1)"
    "GetStorage 300 c (world s1) = Inr (v, w)" .
  have k: "SetString10 (text_of (lit ''300'')) = Some 300" by code_simp
  define a where "a = \<lparr>gs_Address = Hex (replicate 20 0), gs_Key = lit ''300''\<rparr>"
  have f: "gs_Address a = Hex (replicate 20 0)" "gs_Key a = lit ''300''" by (simp_all add: a_def)
  have "gs_Address a \<noteq> []" unfolding f by code_simp
  from GetStorageAt_slot [OF this, unfolded f, OF k _ g(1)] g(2) show ?thesis
    unfolding a_def by (simp only: abs_numeral) blast
qed

end
