(* ===== verification/Node_Correct.thy ===== *)
theory Node_Correct
  imports Node Public_Correct
begin

text \<open>
  The node's life: what \<open>New\<close> and \<open>Start\<close> make, that a node stops once, that its peers keep the
  invariants of \<open>Net_Steps\<close>, and what becomes of the port mapping.
\<close>

section \<open>Stopping\<close>

lemma close_channel_Inr: "close_channel c = Inr d \<longleftrightarrow> \<not> c \<and> d"
  by (auto simp: close_channel_def)

lemma Stop_net: "Stop nd = Inr nd' \<Longrightarrow> Net_Stop (net nd) = Inr (net nd')"
  by (auto simp: Stop_def Net_Stop_def rbind_Inr_iff Let_def)

lemma Stop_channels:
  "Stop nd = Inr nd' \<Longrightarrow>
     \<not> quit_chan nd \<and> quit_chan nd' \<and> shutdown_chan nd' \<and> db_closed nd' \<and> pool_quit nd' \<and>
     Port nd' = Port nd \<and> upnp_nat nd' = upnp_nat nd \<and> thread nd' = thread nd"
  by (auto simp: Stop_def rbind_Inr_iff Let_def close_channel_Inr)

lemma Stop_closed: "quit_chan nd \<Longrightarrow> Stop nd \<noteq> Inr nd'"
  using Stop_channels by blast

section \<open>Runs\<close>

abbreviation node_runs :: "'w Services \<Rightarrow> ('w \<Rightarrow> int) \<Rightarrow> ('w \<Rightarrow> 'w \<Rightarrow> bool) \<Rightarrow> Ethereum \<times> 'w \<Rightarrow> Ethereum \<times> 'w \<Rightarrow> bool" where
  "node_runs S clk ev \<equiv> (node_step S clk ev)\<^sup>*\<^sup>*"

text \<open>Every state of the node's peers is one of the server's transition system.\<close>

lemma node_step_reachable: "node_step S clk ev s s' \<Longrightarrow> reachable (net (fst s)) \<Longrightarrow> reachable (net (fst s'))"
proof (induction rule: node_step.induct)
  case (server V a nd s w)
  then show ?case by (auto intro: reachable_step)
next
  case (stop nd nd' w)
  then have "net_step V Shutdown (net nd) = Inr (net nd')" for V by (simp add: Stop_net)
  with stop.prems show ?case by (auto intro: reachable_step [of "net nd" undefined Shutdown])
qed simp_all

lemma node_runs_reachable: "node_runs S clk ev s s' \<Longrightarrow> reachable (net (fst s)) \<Longrightarrow> reachable (net (fst s'))"
  by (induction rule: rtranclp_induct) (auto dest: node_step_reachable)

lemma Start_reachable: "Start V A listen seed nd = Inr nd' \<Longrightarrow> reachable (net nd) \<Longrightarrow> reachable (net nd')"
proof -
  assume s: "Start V A listen seed nd = Inr nd'" and r: "reachable (net nd)"
  show ?thesis
  proof (cases seed)
    case True
    with s have "net_step V (Seeding A) (net nd) = Inr (net nd')"
      by (auto simp: Start_def Let_def rbind_Inr_iff split: if_splits)
    with r show ?thesis by (rule reachable_step)
  next
    case False
    with s have "net nd' = net nd" by (auto simp: Start_def Let_def split: if_splits)
    with r show ?thesis by simp
  qed
qed

text \<open>A node that is new has no peers and no room for any: the maximum is set by its user.\<close>

lemma New_fields:
  assumes "New E X S caps usePnp w = Inr (Inr nd, w')"
  shows "\<exists>m wd. net nd = NewNet m wd caps 0 (key_ring X) (client X)"
    and "thread nd = None \<and> quit_chan nd = False \<and> \<not> listening nd \<and> \<not> Mining nd"
    and "(usePnp \<and> (\<exists>n. Discover S w = Inr (Inr n, w') \<and> upnp_nat nd = Some n)) \<or> upnp_nat nd = None"
proof -
  obtain nc e where "RandomUint64 (random8 X) = (nc, e)" by fastforce
  with assms obtain d m wd where n: "find_nat S usePnp w = Inr (upnp_nat nd, w')"
    "net nd = NewNet m wd caps 0 (key_ring X) (client X)" "thread nd = None" "\<not> quit_chan nd" "\<not> listening nd" "\<not> Mining nd"
    by (auto simp: New_def rbind_Inr_iff split: sum.split_asm)
  then show "\<exists>m wd. net nd = NewNet m wd caps 0 (key_ring X) (client X)"
    "thread nd = None \<and> quit_chan nd = False \<and> \<not> listening nd \<and> \<not> Mining nd" by blast+
  show "(usePnp \<and> (\<exists>n. Discover S w = Inr (Inr n, w') \<and> upnp_nat nd = Some n)) \<or> upnp_nat nd = None"
  proof (cases usePnp)
    case True
    with n(1) obtain r where "Discover S w = Inr (r, w')" "upnp_nat nd = (case r of Inl err \<Rightarrow> None | Inr n \<Rightarrow> Some n)"
      by (auto simp: find_nat_def rbind_Inr_iff)
    with True show ?thesis by (cases r) auto
  qed (use n(1) in \<open>simp add: find_nat_def\<close>)
qed

text \<open>The part of a run that the renewal thread sees.\<close>

lemma node_step_thread:
  assumes "node_step S clk ev (nd, w) (nd', w')" "thread nd = Some t"
  shows "\<exists>t'. thread nd' = Some t' \<and> Port nd' = Port nd \<and> upnp_nat nd' = upnp_nat nd \<and>
    (upnp_step (node_gateway S nd) clk (ParseInt16 (Port nd)) ev)\<^sup>*\<^sup>* (t, w) (t', w')"
  using assms(1)
proof (cases rule: node_step.cases)
  case (timer t1 d t')
  with assms(2) have "upnp_step (node_gateway S nd) clk (ParseInt16 (Port nd)) ev (t, w) (t', w')"
    using upnp_step.fire [of t d clk w "node_gateway S nd" "ParseInt16 (Port nd)" ev] by simp
  with timer show ?thesis by auto
next
  case (quit t1 t')
  with assms(2) have "upnp_step (node_gateway S nd) clk (ParseInt16 (Port nd)) ev (t, w) (t', w')"
    using upnp_step.quit [of t "node_gateway S nd" clk "ParseInt16 (Port nd)" ev w] by simp
  with quit show ?thesis by auto
next
  case gateway
  with assms(2) show ?thesis by (auto intro: upnp_step.gateway)
next
  case stop
  with Stop_channels assms(2) show ?thesis by auto
qed (use assms(2) in auto)

lemma node_runs_thread:
  assumes "node_runs S clk ev (nd0, w0) (nd, w)" "thread nd0 = Some (thread_start t0)"
  shows "\<exists>t. thread nd = Some t \<and> Port nd = Port nd0 \<and> upnp_nat nd = upnp_nat nd0 \<and>
    upnpUpdateThread (node_gateway S nd0) clk (Port nd0) ev t0 w0 (t, w)"
  using assms
proof (induction "(nd, w)" arbitrary: nd w rule: rtranclp_induct)
  case base
  then show ?case by (auto simp: upnpUpdateThread_def)
next
  case (step s)
  obtain nd1 w1 where s: "s = (nd1, w1)" by fastforce
  from step.hyps(3) [OF s step.prems] obtain t1 where t1: "thread nd1 = Some t1" "Port nd1 = Port nd0"
    "upnp_nat nd1 = upnp_nat nd0" "upnpUpdateThread (node_gateway S nd0) clk (Port nd0) ev t0 w0 (t1, w1)" by blast
  from node_step_thread [OF step.hyps(2) [unfolded s] t1(1)] t1 show ?case
    by (auto simp: upnpUpdateThread_def node_gateway_def intro: rtranclp_trans)
qed

text \<open>The thread ends by itself only when a mapping failed, or after the node was stopped.\<close>

lemma Start_thread:
  "Start V A listen seed nd = Inr nd' \<Longrightarrow>
     Port nd' = Port nd \<and> upnp_nat nd' = upnp_nat nd \<and> (upnp_nat nd \<noteq> None \<longrightarrow> thread nd' = Some (thread_start (now V)))"
  by (auto simp: Start_def Let_def rbind_Inr_iff split: if_splits)

section \<open>Properties\<close>

text \<open>C38. A started node with a UPnP gateway that follows the standard, whatever its peers, its users and
  the timer do and in whatever order. Once the renewal thread has made its first mapping, and as long as
  its next renewal is not overdue, the gateway forwards the node's port to the node, with a lease that
  lasts at least until that renewal; and once the thread has reported that the mapping is gone, the
  gateway forwards the port no more. The gateway is one that answers at the control URL found in the search,
  within 150 seconds, grants the lease it is asked for, and keeps a mapping until its lease ends; the node's port
  is at most 32767 (of a larger one the code asks for 32767).
\<close>

theorem node_port_mapping:
  assumes "igd S clk (serviceURL n) tbl" "plain (ourIP n)" "\<And>w w'. ev w w' \<Longrightarrow> idle clk tbl w w'"
    and "Start V A listen seed nd = Inr nd0" "upnp_nat nd = Some n" "Port nd = dec_bytes p" "p \<le> 32767"
    and "node_runs S clk ev (nd0, w0) (nd1, w1)"
  shows "\<exists>t. thread nd1 = Some t \<and>
    (running t \<and> \<not> is_first t \<longrightarrow> (\<exists>d. timer t = Some d \<and> (clk w1 \<le> d \<longrightarrow>
       (\<exists>x. d \<le> x \<and> tbl w1 (tcp, Port nd) = Some (ourIP n, Port nd, x))))) \<and>
    (removed t = Some None \<longrightarrow> tbl w1 (tcp, Port nd) = None)"
proof -
  have s: "Port nd0 = Port nd" "upnp_nat nd0 = Some n" "thread nd0 = Some (thread_start (now V))"
    using Start_thread [OF assms(4)] assms(5) by simp_all
  obtain t where t: "thread nd1 = Some t" "upnpUpdateThread (upnp_NAT S n) clk (Port nd) ev (now V) w0 (t, w1)"
    using node_runs_thread [OF assms(8) s(3)] s by (auto simp: node_gateway_def)
  have i: "Itoa (ParseInt16 (Port nd)) = Port nd" using port_text [OF assms(7)] assms(6) by simp
  from nat_thread.thread_invariant [OF upnp_meets_contract [OF assms(1,2)] t(2)] assms(3) t(1)
  show ?thesis by (simp add: thread_ok_def i)
qed

definition demo_node :: Ethereum where
  "demo_node =
     \<lparr>net = pub_net, nonce = 0, Port = lit ''30303'', upnp_nat = Some demo_upnp, Mining = False, listening = False,
      quit_chan = False, shutdown_chan = False, db_closed = False, pool_quit = False,
      RpcServer = Some \<lparr>rpc_quit = False, listener_closed = False, served = 0\<rparr>, routines = [PoolHandler], thread = None\<rparr>"

definition demo_started :: Ethereum where
  "demo_started = demo_node\<lparr>listening := True, routines := [PoolHandler, PeerHandler, ReapHandler], thread := Some (thread_start 0)\<rparr>"

lemma demo_Start: "now V = 0 \<Longrightarrow> Start V A (\<lambda>_. True) False demo_node = Inr demo_started"
  by (simp add: Start_def demo_node_def demo_started_def)

text \<open>The timer fires, the node is stopped, the thread sees that \<open>quit\<close> is closed.\<close>

definition demo_mapped :: Ethereum where
  "demo_mapped = demo_started\<lparr>thread := Some (fst demo_thread)\<rparr>"

definition demo_stopped :: Ethereum where
  "demo_stopped = (case Stop demo_mapped of Inr nd \<Rightarrow> nd | Inl e \<Rightarrow> demo_mapped)"

definition demo_end :: "upnp_thread \<times> demo_gateway" where
  "demo_end = thread_finish (upnp_NAT demo_igd demo_upnp) 30303 (fst demo_thread) (snd demo_thread)"

lemma demo_Stop: "Stop demo_mapped = Inr demo_stopped"
  by (simp add: demo_stopped_def demo_mapped_def demo_started_def demo_node_def Stop_def pub_net_def NewNet_def
      close_channel_def Rpc_Stop_def)

lemma demo_node_run:
  "node_runs demo_igd snd demo_wait (demo_started, (Map.empty, 0)) (demo_mapped, snd demo_thread)"
  "node_runs demo_igd snd demo_wait (demo_started, (Map.empty, 0)) (demo_stopped\<lparr>thread := Some (fst demo_end)\<rparr>, snd demo_end)"
proof -
  have p: "Port demo_started = lit ''30303''" "node_gateway demo_igd demo_started = upnp_NAT demo_igd demo_upnp"
    "thread demo_started = Some (thread_start 0)"
    by (simp_all add: demo_started_def demo_node_def node_gateway_def)
  have "node_step demo_igd snd demo_wait (demo_started, (Map.empty, 0)) (demo_started, (Map.empty, 300))"
    by (rule node_step.gateway) (simp add: demo_wait_def)
  moreover have "node_step demo_igd snd demo_wait (demo_started, (Map.empty, 300))
      (demo_started\<lparr>thread := Some (fst demo_thread)\<rparr>, snd demo_thread)"
    by (rule node_step.timer [OF p(3), where d = 300]) (simp_all add: p demo_port(2) demo_thread_def thread_start_def)
  ultimately show 1: "node_runs demo_igd snd demo_wait (demo_started, (Map.empty, 0)) (demo_mapped, snd demo_thread)"
    unfolding demo_mapped_def by (simp add: rtranclp.rtrancl_into_rtrancl)
  also have "node_step demo_igd snd demo_wait (demo_mapped, snd demo_thread) (demo_stopped, snd demo_thread)"
    by (rule node_step.stop [OF demo_Stop])
  also have "node_step demo_igd snd demo_wait (demo_stopped, snd demo_thread)
      (demo_stopped\<lparr>thread := Some (fst demo_end)\<rparr>, snd demo_end)"
  proof (rule node_step.quit)
    show "thread demo_stopped = Some (fst demo_thread)" using Stop_channels [OF demo_Stop] by (simp add: demo_mapped_def)
    show "quit_chan demo_stopped" using Stop_channels [OF demo_Stop] by simp
    show "running (fst demo_thread)" using demo_thread_run(3) by simp
    have "Port demo_stopped = lit ''30303''" "node_gateway demo_igd demo_stopped = upnp_NAT demo_igd demo_upnp"
      using Stop_channels [OF demo_Stop] p by (simp_all add: demo_mapped_def node_gateway_def)
    then show "thread_finish (node_gateway demo_igd demo_stopped) (ParseInt16 (Port demo_stopped)) (fst demo_thread) (snd demo_thread) =
        (fst demo_end, snd demo_end)"
      by (simp add: demo_end_def demo_port(2))
  qed
  finally show "node_runs demo_igd snd demo_wait (demo_started, (Map.empty, 0))
      (demo_stopped\<lparr>thread := Some (fst demo_end)\<rparr>, snd demo_end)" .
qed

lemma node_port_mapping_witness:
  "(\<exists>x. 1200 \<le> x \<and> fst (snd demo_thread) (tcp, lit ''30303'') = Some (ourIP demo_upnp, lit ''30303'', x)) \<and>
   fst (snd demo_end) (tcp, lit ''30303'') = None"
proof -
  have u: "upnp_nat demo_node = Some demo_upnp" "Port demo_node = dec_bytes 30303"
    by (simp_all add: demo_node_def flip: demo_port(1))
  have n: "now pub_net_env = 0" by (simp add: pub_net_env_def)
  note p = node_port_mapping [OF demo_igd_ok, of demo_wait, OF demo_idle demo_Start [OF n] u]
  from p [OF _ _ demo_node_run(1)] demo_thread_run(3)
  have "\<exists>x. 1200 \<le> x \<and> fst (snd demo_thread) (tcp, lit ''30303'') = Some (ourIP demo_upnp, lit ''30303'', x)"
    by (simp add: u(2) demo_mapped_def flip: demo_port(1))
  moreover from p [OF _ _ demo_node_run(2)] demo_thread_run(4)
  have "fst (snd demo_end) (tcp, lit ''30303'') = None" by (simp add: u(2) demo_end_def flip: demo_port(1))
  ultimately show ?thesis ..
qed

text \<open>C39. A node is stopped at most once: after the first \<open>Stop\<close> its channels and its database are closed,
  and they stay so in every later state, in which \<open>Stop\<close> panics.
\<close>

theorem node_stops_once:
  assumes "Stop nd = Inr nd'" "node_runs S clk ev (nd', w) (nd1, w1)"
  shows "quit_chan nd1 \<and> shutdown_chan nd1 \<and> db_closed nd1 \<and> (\<exists>e. Stop nd1 = Inl e)"
proof -
  have "quit_chan nd1 \<and> shutdown_chan nd1 \<and> db_closed nd1"
    using assms(2)
  proof (induction "(nd1, w1)" arbitrary: nd1 w1 rule: rtranclp_induct)
    case base
    from Stop_channels [OF assms(1)] show ?case by simp
  next
    case (step s)
    obtain nd2 w2 where s: "s = (nd2, w2)" by fastforce
    from step.hyps(2) [unfolded s] step.hyps(3) [OF s] show ?case
      by (elim node_stepE) (auto dest: Stop_channels)
  qed
  moreover from this Stop_closed [of nd1] have "\<exists>e. Stop nd1 = Inl e" by (cases "Stop nd1") auto
  ultimately show ?thesis by blast
qed

lemma node_stops_once_witness: "quit_chan demo_stopped \<and> (\<exists>e. Stop demo_stopped = Inl e)"
  using node_stops_once [OF demo_Stop, of demo_igd snd "(=)" "(Map.empty, 0)" demo_stopped "(Map.empty, 0)"] by blast

end
