(* ===== verification/Dagger_Search.thy ===== *)
theory Dagger_Search
  imports Block
begin

text \<open>
  \<open>Find\<close> and \<open>Search\<close> of \<open>ethchain/dagger.go\<close>. \<open>Search\<close> starts one goroutine that draws numbers, posts
  what it has found on a channel with room for three, and takes the first number posted. A draw comes
  with the value that the global flag \<open>Found\<close> has when the loop reads it, apart from what this
  goroutine wrote: the goroutine of an earlier search may still be running and set it. Fuel as in \<open>Block\<close>.
\<close>

fun Find_loop :: "nat \<Rightarrow> Env \<Rightarrow> Dagger \<Rightarrow> int \<Rightarrow> (int \<times> bool) list \<Rightarrow> int list option" where
  "Find_loop f E dag obj [] = Some [0]"
| "Find_loop f E dag obj ((rnd, found) # draws) =
     (case Dagger_Eval f E rnd dag of
        None \<Rightarrow> None
      | Some v \<Rightarrow>
          if v < obj then Some [rnd, 0]
          else if found then Some [0]
          else Find_loop f E dag obj draws)"

definition Dagger_Find :: "nat \<Rightarrow> Env \<Rightarrow> Dagger \<Rightarrow> int \<Rightarrow> (nat \<Rightarrow> int \<times> bool) \<Rightarrow> int list option" where
  "Dagger_Find f E dag obj draw = Find_loop f E dag obj (map draw [0..<1000])"

definition Dagger_Search :: "nat \<Rightarrow> Env \<Rightarrow> int \<Rightarrow> int \<Rightarrow> (nat \<Rightarrow> int \<times> bool) \<Rightarrow> Dagger \<Rightarrow> int option res" where
  "Dagger_Search f E hash diff draw dag =
     rbind (big_Div (BigPow 2 256) diff) (\<lambda>obj.
     Inr (map_option (\<lambda>posts. let r = hd posts in if r \<noteq> 0 then r else 0)
            (Dagger_Find f E (dag\<lparr>dag_hash := hash\<rparr>) obj draw)))"

definition DaggerVerify :: "nat \<Rightarrow> Env \<Rightarrow> int \<Rightarrow> int \<Rightarrow> int \<Rightarrow> bool option res" where
  "DaggerVerify f E hash diff nonce =
     rbind (big_Div (BigPow 2 256) diff) (\<lambda>obj.
     Inr (map_option (\<lambda>v. v < obj) (Dagger_Eval f E nonce \<lparr>dag_hash = hash, dag_xn = 0\<rparr>)))"

lemma Dagger_Eval_hash:
  "Dagger_Eval f E n (dag\<lparr>dag_hash := h\<rparr>) = Dagger_Eval f E n \<lparr>dag_hash = h, dag_xn = 0\<rparr>"
proof -
  have "dag\<lparr>dag_hash := h, dag_xn := x\<rparr> = \<lparr>dag_hash = h, dag_xn = 0\<rparr>\<lparr>dag_xn := x\<rparr>" for x by (cases dag) simp
  then show ?thesis unfolding Dagger_Eval_def by (simp only: Let_def)
qed

lemma Verify_DaggerVerify: "Dagger_Verify f E hash diff nonce dag = DaggerVerify f E hash diff nonce"
  unfolding Dagger_Verify_def DaggerVerify_def Dagger_Eval_hash ..

text \<open>The goroutine posts at most two numbers, so it never waits for the channel.\<close>

lemma Find_loop_posts: "Find_loop f E dag obj draws = Some ps \<Longrightarrow> ps \<noteq> [] \<and> length ps \<le> 2"
  by (induction f E dag obj draws rule: Find_loop.induct) (auto split: option.split_asm if_split_asm)

lemma Find_loop_found:
  "Find_loop f E dag obj draws = Some ps \<Longrightarrow> hd ps \<noteq> 0 \<Longrightarrow>
     hd ps \<in> fst ` set draws \<and> (\<exists>v. Dagger_Eval f E (hd ps) dag = Some v \<and> v < obj)"
proof (induction f E dag obj draws rule: Find_loop.induct)
  case (2 f E dag obj rnd found draws)
  then show ?case by (auto split: option.split_asm if_split_asm)
qed auto

text \<open>Without another goroutine, the search gives the first draw that the test accepts.\<close>

lemma Find_loop_first:
  assumes "\<forall>d \<in> set draws. \<not> snd d" "\<forall>d \<in> set draws. Dagger_Eval f E (fst d) dag \<noteq> None"
  shows "Find_loop f E dag obj draws =
    Some (case find (\<lambda>d. the (Dagger_Eval f E (fst d) dag) < obj) draws of Some d \<Rightarrow> [fst d, 0] | None \<Rightarrow> [0])"
  using assms
proof (induction draws)
  case (Cons d draws)
  obtain rnd found where d: "d = (rnd, found)" by fastforce
  from Cons.prems d obtain v where "Dagger_Eval f E rnd dag = Some v" "\<not> found" by auto
  with Cons d show ?case by simp
qed simp

text \<open>
  A number that \<open>Search\<close> finds is one of its draws, and both verifiers accept it; 0 is the answer
  for none.
\<close>

theorem Dagger_Search_verified:
  assumes "Dagger_Search f E hash diff draw dag = Inr (Some n)" "n \<noteq> 0"
  shows "DaggerVerify f E hash diff n = Inr (Some True) \<and> (\<exists>i < 1000. n = fst (draw i))"
proof -
  from assms obtain obj ps where o: "big_Div (BigPow 2 256) diff = Inr obj"
    "Find_loop f E (dag\<lparr>dag_hash := hash\<rparr>) obj (map draw [0..<1000]) = Some ps" "hd ps = n"
    by (auto simp: Dagger_Search_def rbind_Inr_iff Dagger_Find_def Let_def split: if_split_asm)
  from Find_loop_found [OF o(2)] o(3) assms(2) show ?thesis
    unfolding DaggerVerify_def o(1) by (auto simp: Dagger_Eval_hash)
qed

end
