(* ===== verification/Gossip.thy ===== *)
theory Gossip
  imports Public_Correct Net_Steps Tx_Correct
begin

text \<open>
  How a transaction travels: the pool of one node takes it, the node's broadcast puts a message on
  the queue of every connected peer, the message crosses the wire in pieces, and the handler of the
  receiving node queues the transaction for its own pool. The lemmas compose \<open>transaction_pool.go\<close>,
  \<open>ethereum.go\<close>, \<open>messaging.go\<close>, \<open>rlp.go\<close> and \<open>peer.go\<close>.
\<close>

section \<open>Broadcasting\<close>

text \<open>Queueing for the peers of a part of the list: each connected one has the message once more.\<close>

lemma QueueMessage_eq:
  "i < length (peerHeap s) \<Longrightarrow>
     QueueMessage i m s =
       Inr (s\<lparr>peerHeap := (peerHeap s)[i := (if connected (peerHeap s ! i) = 1
              then (peerHeap s ! i)\<lparr>outputQueue := outputQueue (peerHeap s ! i) @ [m]\<rparr> else peerHeap s ! i)]\<rparr>)"
  by (simp add: QueueMessage_def peer_at_def mod_peer_def)

lemma eachPeer_queue:
  assumes "set is \<subseteq> set (peers s)" "\<forall>i \<in> set (peers s). i < length (peerHeap s)" "distinct is"
  shows "\<exists>s'. eachPeer (\<lambda>i. QueueMessage i m) is s = Inr s' \<and> peers s' = peers s \<and> sm s' = sm s \<and> world s' = world s \<and>
    length (peerHeap s') = length (peerHeap s) \<and>
    (\<forall>j. peerHeap s' ! j = (if j \<in> set is \<and> connected (peerHeap s ! j) = 1
       then (peerHeap s ! j)\<lparr>outputQueue := outputQueue (peerHeap s ! j) @ [m]\<rparr> else peerHeap s ! j))"
  using assms
proof (induction "is" arbitrary: s)
  case (Cons i "is")
  then have i: "i < length (peerHeap s)" "i \<in> set (peers s)" by auto
  let ?p = "if connected (peerHeap s ! i) = 1
      then (peerHeap s ! i)\<lparr>outputQueue := outputQueue (peerHeap s ! i) @ [m]\<rparr> else peerHeap s ! i"
  let ?t = "s\<lparr>peerHeap := (peerHeap s)[i := ?p]\<rparr>"
  have "set is \<subseteq> set (peers ?t)" "\<forall>i \<in> set (peers ?t). i < length (peerHeap ?t)" "distinct is" using Cons.prems by auto
  from Cons.IH [OF this] obtain s' where s': "eachPeer (\<lambda>i. QueueMessage i m) is ?t = Inr s'" "peers s' = peers s"
    "sm s' = sm s" "world s' = world s" "length (peerHeap s') = length (peerHeap s)"
    "\<forall>j. peerHeap s' ! j = (if j \<in> set is \<and> connected (peerHeap ?t ! j) = 1
       then (peerHeap ?t ! j)\<lparr>outputQueue := outputQueue (peerHeap ?t ! j) @ [m]\<rparr> else peerHeap ?t ! j)" by auto
  have "eachPeer (\<lambda>i. QueueMessage i m) (i # is) s = Inr s'"
    using i s'(1) by (simp add: QueueMessage_eq)
  moreover have "peerHeap s' ! j = (if j \<in> set (i # is) \<and> connected (peerHeap s ! j) = 1
       then (peerHeap s ! j)\<lparr>outputQueue := outputQueue (peerHeap s ! j) @ [m]\<rparr> else peerHeap s ! j)" for j
    using s'(6) i(1) Cons.prems(3) by (cases "j = i") auto
  ultimately show ?case using s'(2-5) by blast
qed auto

definition tx_message :: "Transaction \<Rightarrow> Msg" where
  "tx_message tx = NewMessage MsgTxTy (VList [tx_RlpData tx])"

text \<open>A transaction that the pool takes is queued for every connected peer.\<close>

lemma pool_step_broadcasts:
  assumes "queueChan (txpool (sm s)) = tx # rest" "Peer.pool_step V s = Inr s'"
    and "pool (txpool (sm s')) \<noteq> pool (txpool (sm s))"
    and "distinct (peers s)" "\<forall>i \<in> set (peers s). i < length (peerHeap s)"
    and "i \<in> set (peers s)" "connected (peerHeap s ! i) = 1"
  shows "outputQueue (peerHeap s' ! i) = outputQueue (peerHeap s ! i) @ [tx_message tx]"
proof -
  let ?cur = "map_option hd_state (CurrentBlock (bchain s))" and ?p = "(txpool (sm s))\<lparr>queueChan := rest\<rparr>"
  from assms(1,2) obtain p w evs where h: "handleQueued (net_env V) ?cur tx (?p, world s) = Inr (p, w, evs)"
    and d: "deliver (map TxEvent evs) (s\<lparr>sm := (sm s)\<lparr>txpool := p\<rparr>, world := w\<rparr>) = Inr s'"
    by (auto simp: Peer.pool_step_def queueHandler_def rbind_Inr_iff)
  show ?thesis
  proof (cases "evs = []")
    case True
    with h have "pool p = pool (txpool (sm s))"
      by (auto simp: handleQueued_def addTransaction_def Let_def rbind_Inr_iff split: if_splits)
    with d True assms(3) show ?thesis by auto
  next
    case False
    with h have e: "evs = [BroadcastTx tx, PostNewTxPre tx]"
      by (auto simp: handleQueued_def addTransaction_def Let_def rbind_Inr_iff split: if_splits)
    let ?t = "s\<lparr>sm := (sm s)\<lparr>txpool := p\<rparr>, world := w\<rparr>"
    from eachPeer_queue [of "peers ?t" ?t "tx_message tx"] assms(4,5) obtain u where
      u: "eachPeer (\<lambda>i. QueueMessage i (tx_message tx)) (peers s) ?t = Inr u"
      "\<forall>j. peerHeap u ! j = (if j \<in> set (peers s) \<and> connected (peerHeap s ! j) = 1
         then (peerHeap s ! j)\<lparr>outputQueue := outputQueue (peerHeap s ! j) @ [tx_message tx]\<rparr> else peerHeap s ! j)" by auto
    from d e u(1) have "peerHeap s' = peerHeap u"
      by (auto simp: Broadcast_def BroadcastMsg_def tx_message_def)
    with u(2) assms(6,7) show ?thesis by simp
  qed
qed

section \<open>On the wire\<close>

lemma rlp_length: "length (rlp (RList rs)) \<le> length (concat (map rlp rs)) + 9 \<or> 2 ^ 64 \<le> length (concat (map rlp rs))"
proof (cases "length (concat (map rlp rs)) < 256 ^ 8")
  case True
  from length_nat_be_le [OF this] show ?thesis by (auto simp: WriteSliceHeader_def Let_def)
qed simp

lemma tx_message_ok:
  assumes "tx_ok tx" "length (tx_RlpEncode tx) < 65000"
  shows "msg_ok (tx_message tx)"
proof -
  have e: "tx_RlpEncode tx = rlp (raw (tx_RlpData tx))"
    by (simp add: tx_RlpEncode_def tx_RlpValue_def Value_Encode_def tx_RlpData_def Encode_raw del: raw.simps)
  let ?r = "RList [raw (VByte MsgTxTy), raw (tx_RlpData tx)]"
  have ty: "rlp (raw (VByte MsgTxTy)) = [MsgTxTy]" "fits (raw (VByte MsgTxTy))"
    by (simp_all add: Encode_bytes_def big_Bytes_def nat_be_byte len_ok_def)
  have i: "raw (msg_items (tx_message tx)) = ?r"
    by (simp add: msg_items_def tx_message_def NewMessage_def)
  have len: "length (concat (map rlp [raw (VByte MsgTxTy), raw (tx_RlpData tx)])) < 65536"
    using assms(2) ty(1) e by simp
  have "fits ?r" using len_ok_small [OF len] ty(2) assms(1) by (simp add: tx_ok_def)
  moreover have "length (rlp ?r) < 2 ^ 32"
    using rlp_length [of "[raw (VByte MsgTxTy), raw (tx_RlpData tx)]"] len by (auto simp del: rlp.simps)
  ultimately show ?thesis unfolding msg_ok_def Encode_raw i ..
qed

lemma handle_tx_message:
  assumes "tx_ok tx"
  shows "handleMsg V j (msg_norm (tx_message tx)) s = queue_tx V (tx\<lparr>contractCreation := (Recipient tx = [])\<rparr>) s"
proof -
  have d: "msg_norm (tx_message tx) = \<lparr>MsgTy = MsgTxTy, MsgData = VList [unraw (raw (tx_RlpData tx))]\<rparr>"
    by (simp add: msg_norm_def tx_message_def NewMessage_def)
  have "elements (VList [unraw (raw (tx_RlpData tx))]) = [unraw (raw (tx_RlpData tx))]"
    using elements_unraw [of "[raw (tx_RlpData tx)]"] by simp
  moreover have "queue_txs V [] = Inr" by (rule ext) simp
  ultimately have "handleMsg V j (msg_norm (tx_message tx)) s = rbind (queue_tx V (NewTransactionFromValue (unraw (raw (tx_RlpData tx)))) s) Inr"
    unfolding d by (simp add: handleMsg_def Let_def)
  then show ?thesis
    by (simp add: NewTransactionFromValue_def tx_decode_value [OF assms]) (cases "queue_tx V (tx\<lparr>contractCreation := (Recipient tx = [])\<rparr>) s"; simp)
qed

text \<open>C22. A transaction that a node's pool takes reaches the pools of its peers: it is the last message in
  the queue of every connected peer, and a node that receives this message, in whatever pieces,
  queues for its own pool a transaction with the same fields. The transaction is one that can be read
  back (a nonce below 2^16, no amount below 0, no recipient, payload or signature part of a single byte up to 0x7f)
  and its encoding has less than 65000 bytes.
\<close>

theorem tx_gossip:
  assumes "queueChan (txpool (sm s)) = tx # rest" "Peer.pool_step V s = Inr s'"
    and "pool (txpool (sm s')) \<noteq> pool (txpool (sm s))"
    and "distinct (peers s)" "\<forall>i \<in> set (peers s). i < length (peerHeap s)"
    and "i \<in> set (peers s)" "connected (peerHeap s ! i) = 1"
    and "tx_ok tx" "length (tx_RlpEncode tx) < 65000"
    and "received chunks = msg_frame (last (outputQueue (peerHeap s' ! i)))"
  shows "\<exists>m. ReadMessages chunks sp = Some ([m], None) \<and>
    handleMsg V' j m r = queue_tx V' (tx\<lparr>contractCreation := (Recipient tx = [])\<rparr>) r"
proof -
  have "last (outputQueue (peerHeap s' ! i)) = tx_message tx"
    unfolding pool_step_broadcasts [OF assms(1-7)] by simp
  then have c: "received chunks = concat (map msg_frame [tx_message tx])" using assms(10) by simp
  have ok: "\<forall>m \<in> set [tx_message tx]. msg_ok m" using tx_message_ok [OF assms(8,9)] by simp
  show ?thesis
    using ReadMessages_frames [OF ok c] handle_tx_message [OF assms(8)] by simp
qed

text \<open>A node with one connected peer and a transaction of a rich account in its channel.\<close>

definition gossip_world :: World where
  "gossip_world = (case UpdateStateObject pub_env 0 (NewAccount (replicate 20 0) (10 ^ 25)) demo_world of Inr w \<Rightarrow> w | Inl e \<Rightarrow> demo_world)"

definition gossip_peer :: Peer where
  "gossip_peer =
     \<lparr>conn = Some (open_conn [] [] True), outputQueue = [], quit = False, inbound = False, connected = 1, disconnect = 0,
      versionKnown = True, lastPong = 0, requestedPeerList = False, host = [], port = 0, peer_caps = 0, pubkey = [],
      catchingUp = False, diverted = False, blocksRequested = 0, version = []\<rparr>"

definition gossip_net :: Net where
  "gossip_net = (NewNet (demo_manager\<lparr>txpool := NewTxPool\<lparr>queueChan := [demo_tx]\<rparr>\<rparr>) gossip_world 7 5 [] [])
     \<lparr>peerHeap := [gossip_peer], peers := [0]\<rparr>"

lemma tx_gossip_witness:
  "\<exists>s' m. Peer.pool_step pub_net_env gossip_net = Inr s' \<and>
     ReadMessages [msg_frame (last (outputQueue (peerHeap s' ! 0))), []] [] = Some ([m], None) \<and>
     handleMsg pub_net_env 0 m pub_net = queue_tx pub_net_env demo_tx pub_net"
proof -
  have n: "queueChan (txpool (sm gossip_net)) = demo_tx # []" "pool (txpool (sm gossip_net)) = []" "peers gossip_net = [0]"
    "peerHeap gossip_net = [gossip_peer]" "connected gossip_peer = 1" "world gossip_net = gossip_world"
    "map_option hd_state (CurrentBlock (bchain gossip_net)) = Some 0" "net_env pub_net_env = pub_env"
    by (simp_all add: gossip_net_def NewNet_def NewTxPool_def gossip_peer_def bchain_def demo_manager_def demo_chain_def
        demo_block_def net_env_def pub_net_env_def)
  have "case ValidateTransaction pub_env (Some 0) demo_tx gossip_world of Inr (None, w) \<Rightarrow> True | _ \<Rightarrow> False" by code_simp
  then obtain w where v: "ValidateTransaction pub_env (Some 0) demo_tx gossip_world = Inr (None, w)"
    by (auto split: sum.split_asm option.split_asm)
  let ?p = "(txpool (sm gossip_net))\<lparr>queueChan := [], pool := [demo_tx]\<rparr>"
  have "handleQueued pub_env (Some 0) demo_tx ((txpool (sm gossip_net))\<lparr>queueChan := []\<rparr>, gossip_world) =
      Inr (?p, w, [BroadcastTx demo_tx, PostNewTxPre demo_tx])"
    using n(2) v by (simp add: handleQueued_def FindTx_def addTransaction_def Let_def)
  then obtain s' where s': "Peer.pool_step pub_net_env gossip_net = Inr s'" "pool (txpool (sm s')) = [demo_tx]"
    using n by (auto simp: Peer.pool_step_def queueHandler_def Broadcast_def BroadcastMsg_def QueueMessage_eq)
  have "length (tx_RlpEncode demo_tx) < 60" by code_simp
  then have len: "length (tx_RlpEncode demo_tx) < 65000" by simp
  have ok: "tx_ok demo_tx"
    by (simp add: tx_ok_def demo_tx_def ZeroTransaction_def readable_def tx_RlpData_def tx_fields_def len_ok_def
        Encode_bytes_def big_Bytes_def nat_be_two nat_be_byte Let_def)
  have c: "received [msg_frame (last (outputQueue (peerHeap s' ! 0))), []] = msg_frame (last (outputQueue (peerHeap s' ! 0)))"
    by (cases "msg_frame (last (outputQueue (peerHeap s' ! 0)))") (simp_all add: received_def)
  have e: "demo_tx\<lparr>contractCreation := (Recipient demo_tx = [])\<rparr> = demo_tx" by (simp add: demo_tx_def ZeroTransaction_def)
  from tx_gossip [OF n(1) s'(1) _ _ _ _ _ ok len c, of "[]" pub_net_env 0 pub_net] n s'(1,2)
  show ?thesis unfolding e by auto
qed

end
