(* ===== verification/LevelDb.thy ===== *)
theory LevelDb
  imports Config
begin

text \<open>
  \<open>ethdb/database.go\<close>: the database on disk, a wrapper of goleveldb. The operations of goleveldb on
  its own state \<open>'l\<close> are a parameter; an error is its text. On a goleveldb that does what it
  documents, the wrapper is a refinement of the database in memory, which the rest of the
  development uses.
\<close>

text \<open>\<open>level_get\<close> answers with the data and an error, the data being empty beside one.\<close>

record 'l leveldb =
  level_put :: "bytes \<Rightarrow> bytes \<Rightarrow> 'l \<Rightarrow> bytes option \<times> 'l"
  level_get :: "bytes \<Rightarrow> 'l \<Rightarrow> bytes \<times> bytes option"
  level_delete :: "bytes \<Rightarrow> 'l \<Rightarrow> bytes option \<times> 'l"
  level_close :: "'l \<Rightarrow> 'l"
  level_keys :: "'l \<Rightarrow> (bytes \<times> bytes) list"

text \<open>\<open>OpenFile\<close> is the argument \<open>openFile\<close>; the path is made of the folder of the configuration.\<close>

definition NewLDBDatabase :: "(bytes \<Rightarrow> bytes + 'l) \<Rightarrow> bytes \<Rightarrow> 'f Proc \<Rightarrow> (bytes + 'l) res" where
  "NewLDBDatabase openFile name P =
     (case Config P of
        None \<Rightarrow> Inl NilDereference
      | Some c \<Rightarrow>
          (case openFile (path_Join [ExecPath c, name]) of
             Inl err \<Rightarrow> Inr (Inl err)
           | Inr db \<Rightarrow> Inr (Inr db)))"

text \<open>An error of \<open>Put\<close> is only printed; the second component is what is printed.\<close>

definition LDB_Put :: "'l leveldb \<Rightarrow> bytes \<Rightarrow> bytes \<Rightarrow> 'l \<Rightarrow> 'l \<times> bytes list" where
  "LDB_Put L key v db =
     (case level_put L key v db of
        (Some err, db) \<Rightarrow> (db, [lit ''Error put '' @ err])
      | (None, db) \<Rightarrow> (db, []))"

definition LDB_Get :: "'l leveldb \<Rightarrow> bytes \<Rightarrow> 'l \<Rightarrow> bytes \<times> bytes option" where
  "LDB_Get L key db = level_get L key db"

definition LDB_Delete :: "'l leveldb \<Rightarrow> bytes \<Rightarrow> 'l \<Rightarrow> bytes option \<times> 'l" where
  "LDB_Delete L key db = level_delete L key db"

definition LDB_LastKnownTD :: "'l leveldb \<Rightarrow> 'l \<Rightarrow> bytes" where
  "LDB_LastKnownTD L db =
     (let (data, _) = level_get L (lit ''LastKnownTotalDifficulty'') db in
      if length data = 0 then [0] else data)"

definition LDB_Close :: "'l leveldb \<Rightarrow> 'l \<Rightarrow> 'l" where
  "LDB_Close L db = level_close L db"

section \<open>Refinement\<close>

text \<open>
  What goleveldb documents: after a \<open>Put\<close> that succeeds the key has the value, after a \<open>Delete\<close> it is
  gone, \<open>Get\<close> of an absent key gives no data and an error. \<open>contents\<close> reads the state as a map, and
  \<open>ok\<close> holds as long as no operation fails.
\<close>

definition level_laws :: "'l leveldb \<Rightarrow> ('l \<Rightarrow> memdb) \<Rightarrow> ('l \<Rightarrow> bool) \<Rightarrow> bool" where
  "level_laws L contents ok \<longleftrightarrow>
     (\<forall>k v d. ok d \<longrightarrow> (\<exists>d'. level_put L k v d = (None, d') \<and> ok d' \<and> contents d' = (contents d)(k \<mapsto> v))) \<and>
     (\<forall>k d. ok d \<longrightarrow> (\<exists>e. level_get L k d =
        (case contents d k of None \<Rightarrow> ([], Some e) | Some v \<Rightarrow> (v, None)))) \<and>
     (\<forall>k d. ok d \<longrightarrow> (\<exists>d'. level_delete L k d = (None, d') \<and> ok d' \<and> contents d' = (contents d)(k := None)))"

lemma level_putD: "level_laws L contents ok \<Longrightarrow> ok d \<Longrightarrow>
    \<exists>d'. level_put L k v d = (None, d') \<and> ok d' \<and> contents d' = (contents d)(k \<mapsto> v)"
  unfolding level_laws_def by blast

lemma level_getD: "level_laws L contents ok \<Longrightarrow> ok d \<Longrightarrow>
    \<exists>e. level_get L k d = (case contents d k of None \<Rightarrow> ([], Some e) | Some v \<Rightarrow> (v, None))"
  unfolding level_laws_def by blast

lemma level_deleteD: "level_laws L contents ok \<Longrightarrow> ok d \<Longrightarrow>
    \<exists>d'. level_delete L k d = (None, d') \<and> ok d' \<and> contents d' = (contents d)(k := None)"
  unfolding level_laws_def by blast

lemma LDB_Get_data: "level_laws L contents ok \<Longrightarrow> ok d \<Longrightarrow> fst (LDB_Get L k d) = db_Get k (contents d)"
  using level_getD [of L contents ok d k] by (auto simp: LDB_Get_def db_Get_def split: option.split)

datatype db_op = OpPut bytes bytes | OpDelete bytes

fun ldb_op :: "'l leveldb \<Rightarrow> db_op \<Rightarrow> 'l \<Rightarrow> 'l" where
  "ldb_op L (OpPut k v) d = fst (LDB_Put L k v d)"
| "ldb_op L (OpDelete k) d = snd (LDB_Delete L k d)"

fun mem_op :: "db_op \<Rightarrow> memdb \<Rightarrow> memdb" where
  "mem_op (OpPut k v) d = db_Put k v d"
| "mem_op (OpDelete k) d = db_Delete k d"

lemma ldb_op_refines:
  assumes "level_laws L contents ok" "ok d"
  shows "ok (ldb_op L a d) \<and> contents (ldb_op L a d) = mem_op a (contents d)"
proof (cases a)
  case (OpPut k v)
  with level_putD [OF assms, of k v] show ?thesis by (auto simp: LDB_Put_def db_Put_def)
next
  case (OpDelete k)
  with level_deleteD [OF assms, of k] show ?thesis by (auto simp: LDB_Delete_def db_Delete_def)
qed

text \<open>
  On a goleveldb that keeps its word, whatever is put and deleted, the database on disk answers as
  the database in memory does after the same operations: data and the last known total difficulty.
\<close>

theorem disk_refines_memory:
  assumes "level_laws L contents ok" "ok d"
  shows "fst (LDB_Get L k (fold (ldb_op L) ops d)) = db_Get k (fold mem_op ops (contents d)) \<and>
         LDB_LastKnownTD L (fold (ldb_op L) ops d) = LastKnownTD (fold mem_op ops (contents d))"
proof -
  let ?d = "fold (ldb_op L) ops d"
  have r: "ok (fold (ldb_op L) ops d) \<and> contents (fold (ldb_op L) ops d) = fold mem_op ops (contents d)"
    using assms(2) by (induction ops arbitrary: d) (simp_all add: ldb_op_refines [OF assms(1)])
  then have "fst (LDB_Get L k ?d) = db_Get k (fold mem_op ops (contents d))" for k
    using LDB_Get_data [OF assms(1), of ?d k] by simp
  then show ?thesis
    by (simp add: LDB_LastKnownTD_def LastKnownTD_def LDB_Get_def Let_def case_prod_unfold)
qed

definition demo_level :: "memdb leveldb" where
  "demo_level =
     \<lparr>level_put = (\<lambda>k v d. (None, d(k \<mapsto> v))),
      level_get = (\<lambda>k d. case d k of None \<Rightarrow> ([], Some (lit ''not found'')) | Some v \<Rightarrow> (v, None)),
      level_delete = (\<lambda>k d. (None, d(k := None))), level_close = (\<lambda>d. d), level_keys = (\<lambda>_. [])\<rparr>"

lemma demo_level_laws: "level_laws demo_level (\<lambda>d. d) (\<lambda>_. True)"
  by (auto simp: level_laws_def demo_level_def)

lemma disk_refines_memory_witness:
  "fst (LDB_Get demo_level [1] (fold (ldb_op demo_level) [OpPut [1] [2], OpPut [3] [4], OpDelete [3]] Map.empty)) = [2]"
  using disk_refines_memory [OF demo_level_laws, where d = Map.empty and k = "[1]" and ops = "[OpPut [1] [2], OpPut [3] [4], OpDelete [3]]"]
  by (simp add: db_Put_def db_Get_def db_Delete_def)

text \<open>So the database on disk meets the contract of the interface, too.\<close>

lemma disk_database:
  assumes "level_laws L contents (\<lambda>_. True)"
  shows "database (\<lambda>k v d. fst (LDB_Put L k v d)) (\<lambda>k d. fst (LDB_Get L k d)) (\<lambda>k d. snd (LDB_Delete L k d))"
proof (unfold_locales, goal_cases)
  case (1 k k' v d)
  show ?case
    using ldb_op_refines [OF assms, where d = d and a = "OpPut k' v"]
    by (simp add: LDB_Get_data [OF assms] memdb.get_put)
next
  case (2 k k' d)
  show ?case
    using ldb_op_refines [OF assms, where d = d and a = "OpDelete k'"]
    by (simp add: LDB_Get_data [OF assms] memdb.get_delete)
qed

interpretation demo_disk: database "\<lambda>k v d. fst (LDB_Put demo_level k v d)" "\<lambda>k d. fst (LDB_Get demo_level k d)"
    "\<lambda>k d. snd (LDB_Delete demo_level k d)"
  by (rule disk_database [OF demo_level_laws])

text \<open>A write that fails is lost without a word to the caller.\<close>

lemma failed_put_unnoticed: "level_put L k v d = (Some e, d) \<Longrightarrow> fst (LDB_Put L k v d) = d"
  by (simp add: LDB_Put_def)

end
