(* ===== verification/Printing.thy ===== *)
theory Printing
  imports Public Mnemonic
begin

text \<open>
  The methods that make a text of a value: \<open>String\<close> of \<open>Value\<close>, \<open>Transaction\<close>, \<open>Receipt\<close>, \<open>Block\<close> and
  \<open>Peer\<close>, and \<open>ToString\<close> of \<open>ethpub\<close>; and \<open>AppendList\<close>, whose result shares its list with the value it
  was appended to. The verbs of \<open>fmt\<close> are written out for the types that occur.
\<close>

section \<open>Verbs\<close>

text \<open>The verb x of a number, which is not padded, and v of the types that occur.\<close>

definition fmt_hex_int :: "int \<Rightarrow> bytes" where
  "fmt_hex_int x = (if x < 0 then 0x2d # hex_nat (nat (- x)) else hex_nat (nat x))"

definition fmt_dec :: "int \<Rightarrow> bytes" where
  "fmt_dec x = lit (dec_int x)"

definition Uitoa :: "32 word \<Rightarrow> bytes" where
  "Uitoa i = fmt_dec (uint i)"

definition fmt_big :: "int option \<Rightarrow> bytes" where
  "fmt_big x = lit (big_String x)"

definition fmt_bool :: "bool \<Rightarrow> bytes" where
  "fmt_bool b = lit (if b then ''true'' else ''false'')"

text \<open>
  The verb x of an \<open>interface{}\<close>. A nil is written in another way at the top than in a slice; the
  elements of a slice are separated by blanks. A \<open>*Value\<close> has a method \<open>String\<close>, and the verb is then
  applied to the text that it returns.
\<close>

fun fmt_x :: "bool \<Rightarrow> gval \<Rightarrow> bytes" where
  "fmt_x outer VNil = lit (if outer then ''%!x(<nil>)'' else ''<nil>'')"
| "fmt_x outer (VInt w) = fmt_hex_int (sint w)"
| "fmt_x outer (VUint w) = fmt_hex_int (uint w)"
| "fmt_x outer (VInt8 w) = fmt_hex_int (sint w)"
| "fmt_x outer (VInt16 w) = fmt_hex_int (sint w)"
| "fmt_x outer (VInt32 w) = fmt_hex_int (sint w)"
| "fmt_x outer (VInt64 w) = fmt_hex_int (sint w)"
| "fmt_x outer (VUint16 w) = fmt_hex_int (uint w)"
| "fmt_x outer (VUint32 w) = fmt_hex_int (uint w)"
| "fmt_x outer (VUint64 w) = fmt_hex_int (uint w)"
| "fmt_x outer (VByte w) = fmt_hex_int (uint w)"
| "fmt_x outer (VBig x) = (case x of None \<Rightarrow> lit ''<nil>'' | Some n \<Rightarrow> fmt_hex_int n)"
| "fmt_x outer (VBytes b) = Hex b"
| "fmt_x outer (VStr b) = Hex b"
| "fmt_x outer (VList vs) = lit ''['' @ Join (lit '' '') (map (fmt_x False) vs) @ lit '']''"
| "fmt_x outer (VPtr v) = Hex (fmt_x True v)"

definition Value_String :: "gval \<Rightarrow> bytes" where
  "Value_String v = fmt_x True v"

section \<open>The methods\<close>

text \<open>A line of a text: the line break, a tab and what follows.\<close>

definition tab_line :: "bytes \<Rightarrow> bytes" where
  "tab_line s = 0x0a # 0x09 # s"

definition tx_String :: "Env \<Rightarrow> Transaction \<Rightarrow> bytes res" where
  "tx_String E tx =
     rbind (Sender E tx) (\<lambda>sender. Inr (concat (map tab_line
       [lit ''TX('' @ Hex (tx_Hash E tx) @ lit '')'',
        lit ''Contract: '' @ fmt_bool (length (Recipient tx) = 0),
        lit ''From:     '' @ Hex sender,
        lit ''To:       '' @ Hex (Recipient tx),
        lit ''Nonce:    '' @ fmt_dec (uint (tx_Nonce tx)),
        lit ''GasPrice: '' @ fmt_dec (GasPrice tx),
        lit ''Gas:      '' @ fmt_dec (tx_Gas tx),
        lit ''Value:    '' @ fmt_dec (tx_Value tx),
        lit ''Data:     0x'' @ Hex (Data tx),
        lit ''V:        0x'' @ fmt_hex_int (uint (tx_v tx)),
        lit ''R:        0x'' @ Hex (tx_r tx),
        lit ''S:        0x'' @ Hex (tx_s tx),
        []])))"

text \<open>
  The text of the transaction of a receipt is made inside of \<open>fmt\<close>, which turns a panic of the method
  into a text: \<open>fmt_panic\<close>.
\<close>

definition rc_String :: "(go_err \<Rightarrow> bytes) \<Rightarrow> Env \<Rightarrow> Receipt \<Rightarrow> bytes" where
  "rc_String fmt_panic E r = concat (map tab_line
     [lit ''R'',
      lit ''Tx:[                 '' @ (case tx_String E (rc_Tx r) of Inl e \<Rightarrow> fmt_panic e | Inr s \<Rightarrow> s) @ lit '']'',
      lit ''PostState:           0x'' @ Hex (PostState r),
      lit ''CumulativeGasUsed:   '' @ fmt_dec (CumulativeGasUsed r),
      []])"

definition Block_String :: "Env \<Rightarrow> Block \<Rightarrow> World \<Rightarrow> bytes res" where
  "Block_String E b w =
     rbind (Block_Hash E b w) (\<lambda>hash.
     rbind (State_Root (hd_state b) w) (\<lambda>root.
     Inr (concat (map tab_line
       [lit ''BLOCK('' @ Hex hash @ lit ''):'',
        lit ''PrevHash:   '' @ Hex (hd_PrevHash b),
        lit ''UncleSha:   '' @ Hex (UncleSha b),
        lit ''Coinbase:   '' @ Hex (hd_Coinbase b),
        lit ''Root:       '' @ fmt_x True root,
        lit ''TxSha:      '' @ Hex (TxSha b),
        lit ''Difficulty: '' @ fmt_dec (Difficulty b),
        lit ''Number:     '' @ fmt_big (Number b),
        lit ''MinGas:     '' @ fmt_dec (MinGasPrice b),
        lit ''MaxLimit:   '' @ fmt_dec (GasLimit b),
        lit ''GasUsed:    '' @ fmt_dec (GasUsed b),
        lit ''Time:       '' @ fmt_dec (sint (hd_Time b)),
        lit ''Extra:      '' @ Extra b,
        lit ''Nonce:      '' @ Hex (hd_Nonce b),
        lit ''NumTx:      '' @ fmt_dec (int (length (transactions b)))]) @ [0x0a])))"

text \<open>A peer that is still dialling has no connection to ask for its address.\<close>

definition Peer_String :: "Peer \<Rightarrow> bytes res" where
  "Peer_String p =
     (let strBoundType = lit (if inbound p then ''inbound'' else ''outbound'');
          strConnectType = lit (if disconnect p = 0 then ''connected'' else ''disconnected'') in
      case conn p of
        None \<Rightarrow> Inl NilDereference
      | Some c \<Rightarrow>
          Inr (lit ''['' @ strConnectType @ lit ''] ('' @ strBoundType @ lit '') '' @ RemoteAddr c @ lit '' '' @
               version p @ lit '' ['' @ Caps_String (peer_caps p) @ lit '']''))"

definition PB_ToString :: "Env \<Rightarrow> PBlock \<Rightarrow> World \<Rightarrow> bytes res" where
  "PB_ToString E b w = Block_String E (pb_ref b) w"

definition PTx_ToString :: "Env \<Rightarrow> PTx \<Rightarrow> bytes res" where
  "PTx_ToString E t = tx_String E (pt_ref t)"

text \<open>The messages of the errors of \<open>error.go\<close> that are made of numbers; a \<open>ValidationErr\<close> has its own.\<close>

definition ParentErr_Error :: "bytes \<Rightarrow> bytes" where
  "ParentErr_Error hash = lit ''Block's parent unkown '' @ Hex hash"

definition NonceErr_Error :: "uint64 \<Rightarrow> uint64 \<Rightarrow> bytes" where
  "NonceErr_Error is exp = lit ''Nonce err. Is '' @ fmt_dec (uint is) @ lit '', expected '' @ fmt_dec (uint exp)"

section \<open>Lists that are shared\<close>

text \<open>
  \<open>AppendList\<close> appends a pointer to a new empty list and returns that pointer. What is done through the
  pointer afterwards is the argument \<open>later\<close>: it is seen in the value that holds the list.
\<close>

definition AppendList :: "(gval \<Rightarrow> gval) \<Rightarrow> gval \<Rightarrow> gval" where
  "AppendList later v = VList (Slice v @ [VPtr (later EmptyValue)])"

definition append_all :: "gval list \<Rightarrow> gval \<Rightarrow> gval" where
  "append_all xs v = foldl Append v xs"

text \<open>A value that is built with shared lists is encoded as the nested list with the same elements.\<close>

lemma shared_list_encoded:
  "Value_Encode (AppendList (append_all xs) (VList vs)) = Value_Encode (VList (vs @ [VList xs]))"
  by (simp add: AppendList_def append_all_def EmptyValue_def foldl_Append Value_Encode_def)

text \<open>The example of \<open>rlp_test.go\<close>.\<close>

lemma shared_lists_example:
  "Value_Encode (AppendList (append_all [VInt 5])
     (Append (AppendList (append_all [VInt 1, VInt 2, VInt 3]) EmptyValue) (VStr (lit ''4'')))) =
   Encode (VList [VList [VInt 1, VInt 2, VInt 3], VStr (lit ''4''), VList [VInt 5]])"
  by (simp add: AppendList_def append_all_def Append_def EmptyValue_def foldl_Append Value_Encode_def)

section \<open>What the texts say\<close>

text \<open>The text of a byte string can be read back; that of a value in a list is hex of hex.\<close>

lemma Value_String_bytes: "FromHex (Value_String (VBytes b)) = b"
  by (simp add: Value_String_def FromHex_Hex)

lemma Value_String_shared: "Value_String (AppendList later EmptyValue) =
    lit ''['' @ Hex (Value_String (later EmptyValue)) @ lit '']''"
  by (simp add: Value_String_def AppendList_def EmptyValue_def)

lemma tx_String_panics: "tx_String E tx = Inl e \<longleftrightarrow> Sender E tx = Inl e"
  by (auto simp: tx_String_def rbind_Inl_iff)

lemma dialling_peer_has_no_text: "conn p = None \<Longrightarrow> Peer_String p = Inl NilDereference"
  by (simp add: Peer_String_def Let_def)

text \<open>A block has a text exactly when it has a hash, since both need the root of its state.\<close>

lemma Block_String_hash: "(\<exists>s. Block_String E b w = Inr s) \<longleftrightarrow> (\<exists>h. Block_Hash E b w = Inr h)"
  by (auto simp: Block_String_def Block_Hash_def Block_Value_def header_def rbind_Inr_iff)

end
