(* ===== verification/Spec2Isabelle.thy ===== *)
theory Spec2Isabelle
  imports Rlp_Correct Compact TrieIterator Opcodes Vm_Expr Reactor Wire State_Correct Manager_Correct
    Accounts Keys Peer_Correct Mnemonic Miner_Correct Node_Correct Dagger_Search Gossip
    LevelDb Printing
begin

text \<open>
  This library models the Ethereum node of this repository, in the language of its source: the Go
  packages \<open>ethutil\<close>, \<open>ethdb\<close>, \<open>ethwire\<close>, \<open>ethchain\<close>, \<open>ethminer\<close>, \<open>ethpub\<close>, \<open>ethrpc\<close>, the peer and the
  node (\<open>peer.go\<close>, \<open>ethereum.go\<close>) and the port mapping (\<open>nat.go\<close>, \<open>natpmp.go\<close>, \<open>natupnp.go\<close>).

  \<^bold>\<open>How the program is put together\<close>

  Values of dynamic type (\<open>ethutil/value.go\<close>) travel through RLP (\<open>ethutil/rlp.go\<close>). A Merkle
  Patricia trie (\<open>trie.go\<close>) keeps RLP nodes in a cache over a database (\<open>ethdb\<close>). A state
  (\<open>state.go\<close>) is a trie of encoded accounts with a cache of state objects, each with a trie of its
  own storage. A transaction changes a state (\<open>transaction_pool.go\<close>, \<open>state_manager.go\<close>) and may
  run a script (\<open>closure.go\<close>, \<open>vm.go\<close> over \<open>stack.go\<close>). Blocks hold transactions, receipts and
  uncles and the root of a state (\<open>block.go\<close>); the chain keeps them in the database
  (\<open>block_chain.go\<close>), and the state manager decides which ones enter it. Peers exchange messages
  (\<open>ethwire\<close>, \<open>peer.go\<close>) that feed the chain and the pool; the miner (\<open>miner.go\<close>) makes blocks of the
  pool's transactions. The reactor (\<open>reactor.go\<close>) carries events between them.
  The node (\<open>ethereum.go\<close>) makes all of them, starts their goroutines, has its port mapped by the
  gateway and stops them. The user interfaces reach it through \<open>ethpub\<close> and, over the network,
  \<open>ethrpc\<close>. The database is one of \<open>ethdb\<close>: in memory or on disk.

  \<^bold>\<open>Conventions\<close>

  \<^item> A Go call that may panic or not return has type \<open>'a res\<close>, which is \<open>go_err + 'a\<close>, sequenced with
    \<open>rbind\<close> (\<open>Prelude\<close>). \<open>SliceBounds\<close>, \<open>IndexOutOfRange\<close>, \<open>DivisionByZero\<close>, \<open>NilDereference\<close>
    and \<open>Panic\<close> are panics;
    \<open>OutOfFuel\<close> is a call that did not return within the fuel given. A returned \<open>error\<close> is an
    ordinary value (\<open>chain_err\<close>, \<open>vm_err\<close>, \<open>read_err\<close>). A deferred \<open>recover\<close> is a function that
    maps panics to what the handler returns and keeps \<open>OutOfFuel\<close>.
  \<^item> \<open>uint64\<close>, \<open>byte\<close> and \<open>int64\<close> are words; \<open>big.Int\<close> is \<open>int\<close>, and \<open>int\<close> option where nil
    occurs. \<open>len\<close>, and Go's \<open>int\<close> where it counts elements of something held in memory, is \<open>nat\<close>.
  \<^item> A slice is a list. Where the code appends to a slice that has spare capacity, or reads past the
    length, the backing array is an argument (\<open>growth\<close>, \<open>spare\<close>, \<open>stale\<close>, \<open>sp\<close>, and \<open>behind\<close> for what
    follows a script in its buffer): the theorems hold for every value of it. A value of the
    database, a whole encoding or a converted string is decoded with nothing behind it;
    \<open>NewValueFromBytes_spare\<close> in \<open>Rlp_Correct\<close> shows that bytes behind it change nothing about a
    decoding that succeeds without them.
  \<^item> A pointer that is shared is an index into a heap: a \<open>*State\<close> into the \<open>heap\<close> of the
    \<open>World\<close>, a \<open>*Peer\<close> into the peers of \<open>Net\<close>, a trie node's cache entry is a key of the
    \<open>Cache\<close>. A closure holds its chain of callees by value, since the code writes to a callee only
    through the closure that runs.
  \<^item> A goroutine is a sequence of steps. Operations under a mutex are one step. What the code reads
    without one may be out of date when it is used: the length of the list of peers that is tested before
    a peer is added is that of an arbitrary other state (\<open>at_test\<close>, \<open>at_scan\<close>). A Go map whose
    order of iteration can be observed is an association list, in the order of the range.
  \<^item> Code outside the repository is a parameter, never a definition: Keccak (\<open>sha\<close>), secp256k1
    (\<open>recover\<close>, \<open>sign\<close>, \<open>genpub\<close>), the resolver (\<open>lookupIP\<close>), the random source (\<open>rand\<close>, the list
    of draws of the proof of work), the clock (\<open>now\<close>), the compiler of scripts, goleveldb, HTTP, SSDP
    and NAT-PMP, the readers of XML, JSON and archives, the operating system. What a theorem needs of
    them is a hypothesis (the length of a hash, no collision on the nodes at hand), and its witness
    instantiates it.

  \<^bold>\<open>Theories, from the bottom\<close>

  \<^item> \<open>Prelude\<close>: bytes, \<open>res\<close>, Go's slice and index expressions, list lemmas.
  \<^item> \<open>Numbers\<close> (\<open>ethutil/big.go\<close>, \<open>bytes.go\<close>, \<open>common.go\<close>, \<open>helpers.go\<close>): big endian numbers and
    their inverse laws, hex. \<open>Compact\<close> (\<open>encoding.go\<close>): trie keys; the encoding is injective.
  \<^item> \<open>Values\<close> (\<open>value.go\<close>): the datatype \<open>gval\<close> of what an \<open>interface{}\<close> holds, accessors, setters.
  \<^item> \<open>Rlp\<close>, \<open>Rlp_Correct\<close> (\<open>rlp.go\<close>): encoder and both decoders; the decoder ends on every input with
    a fuel computed from the buffer, never reads past it, and inverts the encoder; the locale
    \<open>framing\<close> turns that into the splitting of a stream, and \<open>Wire\<close> interprets it too.
  \<^item> \<open>Database\<close> (\<open>db.go\<close>, \<open>memory_database.go\<close>): the interface as the locale \<open>database\<close>.
    \<open>LevelDb\<close> (\<open>ethdb/database.go\<close>): the database on disk implements the one in memory, provided
    that goleveldb keeps its word.
  \<^item> \<open>Trie\<close>, \<open>TrieIterator\<close> (\<open>trie.go\<close>): cache and trie as the code has them. \<open>Merkle\<close>: the
    specification, a tree over nibble keys. \<open>Trie_Correct\<close>: the relation \<open>rep\<close> of node values to
    trees, and that lookup and insertion of the code implement those of the tree. \<open>Trie_Runs\<close>:
    sequences of insertions, contents, roots. \<open>Trie_Sync\<close>: what a
    sync leaves in the database, and the deletions that panic.
  \<^item> \<open>State\<close> (\<open>state.go\<close>, \<open>state_object.go\<close>, \<open>address.go\<close>, \<open>fees.go\<close>, \<open>error.go\<close>),
    \<open>State_Correct\<close> (copies, snapshots, what a revert loses), \<open>Accounts\<close> (the state refines a map of
    accounts).
  \<^item> \<open>Machine\<close> (\<open>stack.go\<close>; locale \<open>lifo\<close>), \<open>Closure\<close> (\<open>closure.go\<close>; locale \<open>gas_meter\<close>), \<open>Opcodes\<close>
    (\<open>types.go\<close>, \<open>asm.go\<close>, \<open>parsing.go\<close>), \<open>Vm\<close> (\<open>vm.go\<close>): \<open>step\<close> is one pass through the loop of
    \<open>RunClosure\<close>, \<open>RunClosure\<close> iterates it with fuel and runs a called closure in the same way.
    \<open>Vm_Correct\<close>: \<open>results\<close> lifts what a step keeps to runs, however they end. What a closure, its
    callees and the account at their end are worth falls in a run by the price of the gas that was charged,
    no more and no less; \<open>2 * gas + 1\<close> steps are enough for a script that calls nothing. \<open>Vm_Expr\<close>:
    scripts of arithmetic expressions against their meaning in the integers, written down
    without the interpreter.
  \<^item> \<open>Transactions\<close>, \<open>Tx_Correct\<close> (\<open>transaction.go\<close>, \<open>transaction_pool.go\<close>): the pool as a step
    relation \<open>pool_step\<close>. \<open>Block\<close>, \<open>Block_Txs\<close> (\<open>block.go\<close>, \<open>genesis.go\<close>, \<open>dagger.go\<close>), \<open>Chain\<close>,
    \<open>Chain_Correct\<close> (\<open>block_chain.go\<close>), \<open>StateManager\<close>, \<open>Manager_Correct\<close> (\<open>state_manager.go\<close>):
    what a block must satisfy to be accepted, and that nothing changes when it is refused.
  \<^item> \<open>Reactor\<close> (\<open>reactor.go\<close>), \<open>Wire\<close> (\<open>messaging.go\<close>), \<open>Keys\<close> (\<open>keypair.go\<close> of both packages),
    \<open>Words\<close> and \<open>Mnemonic\<close> (\<open>mnemonic.go\<close>).
  \<^item> \<open>Addr\<close>, \<open>Peer\<close> (\<open>peer.go\<close> and the peer list of \<open>ethereum.go\<close>): the server's state \<open>Net\<close> and the
    handlers. \<open>Net_Steps\<close>: the actions of the goroutines as a transition system with \<open>reachable\<close>
    (\<open>reachable_in P\<close> restricts the environments of the steps to those with \<open>P\<close>, such as a bound on the
    race for the list of peers), and the locale \<open>net_invariant\<close>, which reduces an invariant to the few ways in which a handler changes
    a peer. \<open>Peer_Correct\<close> interprets it for the list of peers and for the gate that holds messages
    back before the handshake.
  \<^item> \<open>Miner\<close>, \<open>Miner_Correct\<close> (\<open>ethminer/miner.go\<close>): the listener, its search and what happens around it
    as the step relation \<open>miner_step\<close>. \<open>Public\<close> (\<open>ethpub\<close>), \<open>Rpc\<close> (\<open>ethrpc/packages.go\<close>) and
    \<open>Public_Correct\<close>: the requests of user interfaces, over \<open>Net\<close>.

  \<^item> \<open>Upnp\<close> (\<open>nat.go\<close>, \<open>natpmp.go\<close>, \<open>natupnp.go\<close> and \<open>upnpUpdateThread\<close> of \<open>ethereum.go\<close>): the search
    for a gateway, its requests and the thread that renews the mapping, one step per event of its
    select. \<open>Upnp_Messages\<close>: what the requests say and what the addresses made of an answer are.
    \<open>Upnp_Correct\<close>: the locale \<open>nat_contract\<close> is the interface of \<open>nat.go\<close>; \<open>nat_thread\<close> extends it by
    the thread and its invariant. Both protocols are interpreted. Mappings have leases that end by the
    clock \<open>clk\<close> of the surroundings; what is assumed of a gateway (\<open>igd\<close>, \<open>pmp_gateway\<close>) concerns the
    requests of the protocol at its control URL and nothing else.
  \<^item> \<open>Config\<close>, \<open>Package\<close> (\<open>config.go\<close>, \<open>package.go\<close>, \<open>script.go\<close>, \<open>rand.go\<close>): the configuration and the
    logger, archives of programs, scripts, random numbers.
  \<^item> \<open>Dagger_Search\<close> (\<open>Find\<close> and \<open>Search\<close> of \<open>dagger.go\<close>): the race of the searching goroutines, by the
    schedule of their draws; what it finds is verified.
  \<^item> \<open>Node\<close>, \<open>Node_Correct\<close> (\<open>New\<close>, \<open>Start\<close>, \<open>Stop\<close> of \<open>ethereum.go\<close>, \<open>ethrpc/server.go\<close>): the node as a
    transition system whose steps are those of \<open>Net_Steps\<close> and of the renewal thread; invariants of
    both carry over.
  \<^item> \<open>Gossip\<close>: the path of a transaction from one node's pool over the broadcast, the bytes on the
    wire and the handler of the other node into its pool.
  \<^item> \<open>Printing\<close>: the methods \<open>String\<close> of values, transactions, receipts, blocks and peers, the messages of
    errors, and the lists that \<open>AppendList\<close> shares.

  \<^bold>\<open>Fuel\<close>

  Decoding is given twice the length of the buffer and two, which \<open>Rlp_Correct\<close> shows to be
  enough. The trie's operations descend one nibble at a time; their callers give them \<open>key_fuel\<close>, twice the
  length of the key and four, and \<open>Trie_Correct\<close> shows that it suffices. Walks over all nodes of a trie and
  over nested states have the bound \<open>walk\<close> of the environment, walks along the links of the chain an
  argument of their own, because what they follow is what the database holds. The interpreter has
  the fuel \<open>pfuel\<close> of its caller: \<open>Vm_Correct\<close> says how much is enough for scripts without
  \<open>CREATE\<close> and \<open>CALL\<close>, and more fuel never changes a run that ended. For the others
  \<open>OutOfFuel\<close> is an outcome of its own, and no theorem says that it is absent.

  \<^bold>\<open>Not modelled\<close>

  \<^item> What is only written to the console or the log, such as the methods \<open>Print\<close>. Errors are the
    constructors of error types; a validation error carries the constant part of its text.
  \<^item> Getters that return a field, which are the selectors of the records.
  \<^item> The protocols and formats that packages outside the repository implement: HTTP, multicast and
    NAT-PMP datagrams, XML, JSON, zip, the compiler of scripts. The code around them is modelled, with
    what they answer as an argument; JSON texts stand as the values they are made of.
  \<^item> Sockets and the scheduler: a goroutine is a sequence of steps, and the steps of all of them come
    in any order.
  \<^item> Times: the fields \<open>lastSend\<close>, \<open>pingTime\<close> and the speed that the proof of work logs.
\<close>

end
